(* ===== verification/Keeper_Prelude.thy ===== *)
theory Keeper_Prelude
  imports Main "HOL-Library.Sublist" "HOL-Library.Multiset"
begin

text \<open>
  Shared vocabulary of the development: \<open>Result\<close> as a sum, \<open>std::cmp::Ordering\<close> with the
  iterator operations that take a comparator (\<open>max_by\<close>, \<open>sort_by\<close>), the comparator contract as
  a locale, and list lemmas that several components use.
\<close>

named_theorems rust_std \<open>unfolding rules for the modelled standard library functions\<close>
named_theorems gate_defs \<open>definitions of the pure gate decisions\<close>

section \<open>Results\<close>

abbreviation Ok :: "'a \<Rightarrow> 'e + 'a" where
  "Ok x \<equiv> Inr x"

abbreviation Err :: "'e \<Rightarrow> 'e + 'a" where
  "Err e \<equiv> Inl e"

definition result_bind :: "'e + 'a \<Rightarrow> ('a \<Rightarrow> 'e + 'b) \<Rightarrow> 'e + 'b" where
  "result_bind r f = (case r of Inl e \<Rightarrow> Inl e | Inr x \<Rightarrow> f x)"

definition is_ok :: "'e + 'a \<Rightarrow> bool" where
  "is_ok r = (case r of Inl _ \<Rightarrow> False | Inr _ \<Rightarrow> True)"

lemma result_bind_simps [simp]:
  "result_bind (Inl e) f = Inl e" "result_bind (Inr x) f = f x"
  by (simp_all add: result_bind_def)

lemma is_ok_simps [simp]: "\<not> is_ok (Inl e)" "is_ok (Inr x)"
  by (simp_all add: is_ok_def)

lemma result_bind_eq_Inr [simp]:
  "result_bind r f = Inr y \<longleftrightarrow> (\<exists>x. r = Inr x \<and> f x = Inr y)"
  by (cases r) auto

definition unwrap_or :: "'a option \<Rightarrow> 'a \<Rightarrow> 'a" where
  "unwrap_or o' d = (case o' of None \<Rightarrow> d | Some x \<Rightarrow> x)"

lemma unwrap_or_simps [simp]: "unwrap_or None d = d" "unwrap_or (Some x) d = x"
  by (simp_all add: unwrap_or_def)

definition or_else :: "'a option \<Rightarrow> 'a option \<Rightarrow> 'a option" where
  "or_else a b = (case a of Some x \<Rightarrow> Some x | None \<Rightarrow> b)"

lemma or_else_Some: "or_else a b = Some x \<longleftrightarrow> a = Some x \<or> a = None \<and> b = Some x"
  by (auto simp: or_else_def split: option.splits)

section \<open>Orderings\<close>

text \<open>\<open>std::cmp::Ordering\<close>, with \<open>reverse\<close>.\<close>

datatype ordering = Less | Equal | Greater

fun ord_reverse :: "ordering \<Rightarrow> ordering" where
  "ord_reverse Less = Greater"
| "ord_reverse Equal = Equal"
| "ord_reverse Greater = Less"

lemma ord_reverse_reverse [simp]: "ord_reverse (ord_reverse o') = o'"
  by (cases o') simp_all

lemma ord_reverse_eq [simp]:
  "ord_reverse o' = Less \<longleftrightarrow> o' = Greater"
  "ord_reverse o' = Equal \<longleftrightarrow> o' = Equal"
  "ord_reverse o' = Greater \<longleftrightarrow> o' = Less"
  by (cases o'; simp)+

text \<open>\<open>Ord::cmp\<close> on a built-in totally ordered type.\<close>

definition cmp :: "'a::linorder \<Rightarrow> 'a \<Rightarrow> ordering" where
  "cmp a b = (if a < b then Less else if a = b then Equal else Greater)"

lemma cmp_eq [simp]:
  "cmp a b = Less \<longleftrightarrow> a < b" "cmp a b = Equal \<longleftrightarrow> a = b" "cmp a b = Greater \<longleftrightarrow> b < a"
  by (auto simp: cmp_def)

lemma cmp_reverse: "cmp b a = ord_reverse (cmp a b)"
  by (auto simp: cmp_def)

text \<open>
  \<open>Iterator::max_by\<close>: a fold that keeps the accumulated element only when it compares
  \<open>Greater\<close>, so the last of several maximal elements is returned.
\<close>

fun max_by_from :: "('a \<Rightarrow> 'a \<Rightarrow> ordering) \<Rightarrow> 'a \<Rightarrow> 'a list \<Rightarrow> 'a" where
  "max_by_from c m [] = m"
| "max_by_from c m (x # xs) = max_by_from c (if c m x = Greater then m else x) xs"

fun max_by :: "('a \<Rightarrow> 'a \<Rightarrow> ordering) \<Rightarrow> 'a list \<Rightarrow> 'a option" where
  "max_by c [] = None"
| "max_by c (x # xs) = Some (max_by_from c x xs)"

lemma max_by_from_in: "max_by_from c m xs \<in> insert m (set xs)"
proof (induction xs arbitrary: m)
  case Nil
  then show ?case by simp
next
  case (Cons x xs)
  show ?case using Cons.IH[of m] Cons.IH[of x] by auto
qed

lemma max_by_in: "max_by c xs = Some m \<Longrightarrow> m \<in> set xs"
  using max_by_from_in[of c "hd xs" "tl xs"] by (cases xs) auto

lemma max_by_None [simp]: "max_by c xs = None \<longleftrightarrow> xs = []"
  by (cases xs) auto

text \<open>
  \<open>slice::sort_by\<close> is a stable sort; a stable insertion sort has the same result for every
  comparator that is a total preorder.
\<close>

fun insert_by :: "('a \<Rightarrow> 'a \<Rightarrow> ordering) \<Rightarrow> 'a \<Rightarrow> 'a list \<Rightarrow> 'a list" where
  "insert_by c x [] = [x]"
| "insert_by c x (y # ys) = (if c x y = Greater then y # insert_by c x ys else x # y # ys)"

fun sort_by :: "('a \<Rightarrow> 'a \<Rightarrow> ordering) \<Rightarrow> 'a list \<Rightarrow> 'a list" where
  "sort_by c [] = []"
| "sort_by c (x # xs) = insert_by c x (sort_by c xs)"

lemma mset_insert_by [simp]: "mset (insert_by c x xs) = add_mset x (mset xs)"
  by (induction xs) auto

lemma mset_sort_by [simp]: "mset (sort_by c xs) = mset xs"
  by (induction xs) auto

lemma set_sort_by [simp]: "set (sort_by c xs) = set xs"
  by (metis mset_sort_by set_mset_mset)

lemma set_insert_by [simp]: "set (insert_by c x xs) = insert x (set xs)"
  by (metis mset_insert_by set_mset_add_mset_insert set_mset_mset)

lemma sort_by_eq_Nil [simp]: "sort_by c xs = [] \<longleftrightarrow> xs = []"
  by (metis mset_sort_by mset_zero_iff)

text \<open>
  The contract of a Rust comparator (the documented requirement of \<open>Ord\<close>, \<open>sort_by\<close> and
  \<open>max_by\<close>): reversing the arguments reverses the result, and "not greater" is transitive.
\<close>

locale comparator =
  fixes cmpf :: "'a \<Rightarrow> 'a \<Rightarrow> ordering"
  assumes flip: "cmpf b a = ord_reverse (cmpf a b)"
    and le_trans: "cmpf a b \<noteq> Greater \<Longrightarrow> cmpf b c \<noteq> Greater \<Longrightarrow> cmpf a c \<noteq> Greater"
begin

lemma refl_Equal: "cmpf a a = Equal"
  using flip[of a a] by (cases "cmpf a a") auto

lemma le_total: "cmpf a b \<noteq> Greater \<or> cmpf b a \<noteq> Greater"
  using flip[of b a] by auto

lemma Greater_le: "cmpf a b = Greater \<Longrightarrow> cmpf b a \<noteq> Greater"
  using flip[of b a] by auto

lemma max_by_from_upper:
  "x \<in> insert m (set xs) \<Longrightarrow> cmpf x (max_by_from cmpf m xs) \<noteq> Greater"
proof (induction xs arbitrary: m x)
  case Nil
  then show ?case by (simp add: refl_Equal)
next
  case (Cons y ys)
  let ?m = "if cmpf m y = Greater then m else y"
  have top: "cmpf ?m (max_by_from cmpf ?m ys) \<noteq> Greater"
    by (rule Cons.IH) simp
  have "cmpf x ?m \<noteq> Greater \<or> x \<in> set ys"
    using Cons.prems by (auto simp: refl_Equal dest: Greater_le)
  then show ?case
    using top le_trans Cons.IH[of x ?m] by auto
qed

lemma max_by_upper:
  assumes "max_by cmpf xs = Some m" and "x \<in> set xs"
  shows "cmpf x m \<noteq> Greater"
  using assms max_by_from_upper by (cases xs) auto

lemma sorted_insert_by:
  "sorted_wrt (\<lambda>a b. cmpf a b \<noteq> Greater) xs \<Longrightarrow>
   sorted_wrt (\<lambda>a b. cmpf a b \<noteq> Greater) (insert_by cmpf x xs)"
  by (induction xs) (auto dest: Greater_le le_trans)

lemma sorted_sort_by: "sorted_wrt (\<lambda>a b. cmpf a b \<noteq> Greater) (sort_by cmpf xs)"
  by (induction xs) (auto intro: sorted_insert_by)

text \<open>Sorting is stable, so it commutes with the selection of rows.\<close>

lemma filter_insert_by:
  "sorted_wrt (\<lambda>a b. cmpf a b \<noteq> Greater) ys \<Longrightarrow>
   filter P (insert_by cmpf x ys) = (if P x then insert_by cmpf x (filter P ys) else filter P ys)"
proof (induction ys)
  case (Cons y ys)
  show ?case
  proof (cases "cmpf x y = Greater")
    case False
    have le: "cmpf x z \<noteq> Greater" if "z \<in> set (filter P ys)" for z
      using False that Cons.prems le_trans[of x y z] by simp
    have "insert_by cmpf x (filter P ys) = x # filter P ys"
      using le by (cases "filter P ys") simp_all
    then show ?thesis using False by simp
  qed (use Cons in simp)
qed simp

lemma filter_sort_by: "filter P (sort_by cmpf xs) = sort_by cmpf (filter P xs)"
  by (induction xs) (simp_all add: filter_insert_by sorted_sort_by)

lemma Equal_trans: "cmpf a b = Equal \<Longrightarrow> cmpf b c = Equal \<Longrightarrow> cmpf a c = Equal"
proof -
  assume ab: "cmpf a b = Equal" and bc: "cmpf b c = Equal"
  have "cmpf b a = Equal" "cmpf c b = Equal"
    using ab bc flip[of a b] flip[of c b] by auto
  then have "cmpf a c \<noteq> Greater" "cmpf c a \<noteq> Greater"
    using ab bc le_trans[of a b c] le_trans[of c b a] by auto
  then show ?thesis using flip[of c a] by (cases "cmpf a c") auto
qed

end

interpretation builtin_ord: comparator "cmp :: 'a::linorder \<Rightarrow> 'a \<Rightarrow> ordering"
  by unfold_locales (auto simp: cmp_def split: if_splits)

text \<open>Rows ordered by a column, ascending and descending, as the queries do.\<close>

definition by_column :: "('a \<Rightarrow> 'k::linorder) \<Rightarrow> 'a \<Rightarrow> 'a \<Rightarrow> ordering" where
  "by_column key a b = cmp (key a) (key b)"

definition by_column_desc :: "('a \<Rightarrow> 'k::linorder) \<Rightarrow> 'a \<Rightarrow> 'a \<Rightarrow> ordering" where
  "by_column_desc key a b = cmp (key b) (key a)"

interpretation asc: comparator "by_column key" for key :: "'a \<Rightarrow> 'k::linorder"
  by unfold_locales (auto simp: by_column_def cmp_def split: if_splits)

interpretation desc: comparator "by_column_desc key" for key :: "'a \<Rightarrow> 'k::linorder"
  by unfold_locales (auto simp: by_column_desc_def cmp_def split: if_splits)

lemma by_column_le: "by_column key a b \<noteq> Greater \<longleftrightarrow> key a \<le> key b"
  by (auto simp: by_column_def cmp_def)

lemma by_column_desc_le: "by_column_desc key a b \<noteq> Greater \<longleftrightarrow> key b \<le> key a"
  by (auto simp: by_column_desc_def cmp_def)

section \<open>Step relations and locks\<close>

text \<open>A property that every step of a relation keeps holds in every state that is reached from one where it holds.\<close>

locale stable =
  fixes step :: "'s \<Rightarrow> 's \<Rightarrow> bool" and good :: "'s \<Rightarrow> bool"
  assumes good_step: "step s s' \<Longrightarrow> good s \<Longrightarrow> good s'"
begin

lemma good_run: "step\<^sup>*\<^sup>* s s' \<Longrightarrow> good s \<Longrightarrow> good s'"
  by (induction rule: rtranclp_induct) (auto intro: good_step)

end

text \<open>
  A lock on a state: once taken, no action but those with the key opens it.
\<close>

locale lock =
  fixes step :: "'w \<Rightarrow> 's \<Rightarrow> 's" and locked :: "'s \<Rightarrow> bool" and opens :: "'w \<Rightarrow> bool"
  assumes locked_step: "locked s \<Longrightarrow> \<not> opens w \<Longrightarrow> locked (step w s)"
begin

lemma locked_fold: "locked s \<Longrightarrow> \<forall>w\<in>set ws. \<not> opens w \<Longrightarrow> locked (fold step ws s)"
  by (induction ws arbitrary: s) (auto simp: locked_step)

end

sublocale lock \<subseteq> closed_runs: stable "\<lambda>s s'. \<exists>w. \<not> opens w \<and> s' = step w s" locked
  by unfold_locales (auto simp: locked_step)

section \<open>Lists\<close>

lemma find_map_invariant:
  assumes "\<And>x. P (f x) = P x"
  shows "List.find P (map f xs) = map_option f (List.find P xs)"
  using assms by (induction xs) auto

lemma find_Some_iff_first:
  "List.find P xs = Some x \<Longrightarrow> P x \<and> x \<in> set xs"
  by (auto simp: find_Some_iff)

lemma distinct_snoc [simp]: "distinct (xs @ [x]) \<longleftrightarrow> distinct xs \<and> x \<notin> set xs"
  by auto

end
