(* ===== verification/Rust_Str.thy ===== *)
theory Rust_Str
  imports Keeper_Prelude "HOL-Library.Char_ord" "HOL-Library.List_Lexorder"
begin

text \<open>
  The part of \<open>str\<close> and \<open>char\<close> the backend relies on. A Rust string is a \<open>string\<close>; the
  model covers ASCII text, on which bytes, \<open>char\<close>s and case folding coincide.
\<close>

section \<open>Characters\<close>

definition code_of :: "char \<Rightarrow> nat" where
  "code_of c = of_char c"

definition is_ascii_digit :: "char \<Rightarrow> bool" where
  "is_ascii_digit c \<longleftrightarrow> 48 \<le> code_of c \<and> code_of c \<le> 57"

definition is_ascii_uppercase :: "char \<Rightarrow> bool" where
  "is_ascii_uppercase c \<longleftrightarrow> 65 \<le> code_of c \<and> code_of c \<le> 90"

definition is_ascii_lowercase :: "char \<Rightarrow> bool" where
  "is_ascii_lowercase c \<longleftrightarrow> 97 \<le> code_of c \<and> code_of c \<le> 122"

definition to_lower_char :: "char \<Rightarrow> char" where
  "to_lower_char c = (if is_ascii_uppercase c then char_of (code_of c + 32) else c)"

definition to_lowercase :: "string \<Rightarrow> string" where
  "to_lowercase s = map to_lower_char s"

definition is_whitespace :: "char \<Rightarrow> bool" where
  "is_whitespace c \<longleftrightarrow> code_of c = 32 \<or> (9 \<le> code_of c \<and> code_of c \<le> 13)"

declare code_of_def [rust_std] is_ascii_digit_def [rust_std] is_ascii_uppercase_def [rust_std]
  is_ascii_lowercase_def [rust_std] to_lower_char_def [rust_std] to_lowercase_def [rust_std]
  is_whitespace_def [rust_std]

lemma to_lower_char_idem [simp]: "to_lower_char (to_lower_char c) = to_lower_char c"
  by (auto simp: to_lower_char_def is_ascii_uppercase_def code_of_def)

lemma to_lowercase_idem [simp]: "to_lowercase (to_lowercase s) = to_lowercase s"
  by (simp add: to_lowercase_def)

lemma length_to_lowercase [simp]: "length (to_lowercase s) = length s"
  by (simp add: to_lowercase_def)

section \<open>Searching and cutting\<close>

fun strip_prefix :: "string \<Rightarrow> string \<Rightarrow> string option" where
  "strip_prefix [] s = Some s"
| "strip_prefix (p # ps) [] = None"
| "strip_prefix (p # ps) (c # cs) = (if p = c then strip_prefix ps cs else None)"

definition starts_with :: "string \<Rightarrow> string \<Rightarrow> bool" where
  "starts_with p s = (strip_prefix p s \<noteq> None)"

definition strip_suffix :: "string \<Rightarrow> string \<Rightarrow> string option" where
  "strip_suffix p s = map_option rev (strip_prefix (rev p) (rev s))"

definition ends_with :: "string \<Rightarrow> string \<Rightarrow> bool" where
  "ends_with p s = (strip_suffix p s \<noteq> None)"

fun str_contains :: "string \<Rightarrow> string \<Rightarrow> bool" where
  "str_contains p [] = (p = [])"
| "str_contains p (c # cs) = (starts_with p (c # cs) \<or> str_contains p cs)"

lemma strip_prefix_Some: "strip_prefix p s = Some r \<longleftrightarrow> s = p @ r"
  by (induction p s rule: strip_prefix.induct) auto

lemma starts_with_iff [simp]: "starts_with p s \<longleftrightarrow> prefix p s"
  by (auto simp: starts_with_def prefix_def strip_prefix_Some)

lemma strip_suffix_Some: "strip_suffix p s = Some r \<longleftrightarrow> s = r @ p"
  by (auto simp: strip_suffix_def strip_prefix_Some) (metis rev_append rev_rev_ident)

lemma ends_with_iff [simp]: "ends_with p s \<longleftrightarrow> suffix p s"
  by (auto simp: ends_with_def suffix_def strip_suffix_Some)

lemma str_contains_iff: "str_contains p s \<longleftrightarrow> sublist p s"
  by (induction s) (auto simp: sublist_Cons_right)

fun split_once :: "char \<Rightarrow> string \<Rightarrow> (string \<times> string) option" where
  "split_once d [] = None"
| "split_once d (c # cs) =
     (if c = d then Some ([], cs) else map_option (\<lambda>(a, b). (c # a, b)) (split_once d cs))"

definition rsplit_once :: "char \<Rightarrow> string \<Rightarrow> (string \<times> string) option" where
  "rsplit_once d s = map_option (\<lambda>(a, b). (rev b, rev a)) (split_once d (rev s))"

lemma split_once_Some:
  "split_once d s = Some (a, b) \<longleftrightarrow> s = a @ d # b \<and> d \<notin> set a"
proof (induction s arbitrary: a)
  case Nil
  then show ?case by simp
next
  case (Cons c cs)
  show ?case
  proof (cases a)
    case Nil
    then show ?thesis by (cases "split_once d cs") auto
  next
    case (Cons x xs)
    then show ?thesis using Cons.IH[of xs] by (cases "split_once d cs") auto
  qed
qed

lemma split_once_None: "split_once d s = None \<longleftrightarrow> d \<notin> set s"
  by (induction s) auto

lemma rsplit_once_Some:
  "rsplit_once d s = Some (a, b) \<longleftrightarrow> s = a @ d # b \<and> d \<notin> set b"
proof -
  have "rsplit_once d s = Some (a, b) \<longleftrightarrow> split_once d (rev s) = Some (rev b, rev a)"
    by (force simp: rsplit_once_def)
  also have "\<dots> \<longleftrightarrow> s = a @ d # b \<and> d \<notin> set b"
    unfolding split_once_Some by (auto simp: rev_eq_append_conv)
  finally show ?thesis .
qed

text \<open>\<open>str::split\<close> on a set of separator characters: always at least one piece.\<close>

fun split_chars :: "char list \<Rightarrow> string \<Rightarrow> string list" where
  "split_chars ds [] = [[]]"
| "split_chars ds (c # cs) =
     (if c \<in> set ds then [] # split_chars ds cs
      else (c # hd (split_chars ds cs)) # tl (split_chars ds cs))"

lemma split_chars_nonempty [simp]: "split_chars ds s \<noteq> []"
  by (induction s) auto

lemma split_chars_eval [code]:
  "split_chars ds [] = [[]]"
  "split_chars ds (c # cs) = (case split_chars ds cs of x # xs \<Rightarrow> if c \<in> set ds then [] # x # xs else (c # x) # xs)"
  by (auto split: list.split)

fun join_with :: "char \<Rightarrow> string list \<Rightarrow> string" where
  "join_with d [] = []"
| "join_with d [x] = x"
| "join_with d (x # y # ys) = x @ d # join_with d (y # ys)"

fun join_str :: "string \<Rightarrow> string list \<Rightarrow> string" where
  "join_str d [] = []"
| "join_str d [x] = x"
| "join_str d (x # y # ys) = x @ d @ join_str d (y # ys)"

lemma join_with_Cons: "xs \<noteq> [] \<Longrightarrow> join_with d (x # xs) = x @ d # join_with d xs"
  by (cases xs) auto

lemma join_split: "join_with d (split_chars [d] s) = s"
proof (induction s)
  case Nil
  then show ?case by simp
next
  case (Cons c cs)
  show ?case
  proof (cases "c = d")
    case True
    then show ?thesis using Cons by (simp add: join_with_Cons)
  next
    case False
    obtain x xs where split: "split_chars [d] cs = x # xs"
      by (cases "split_chars [d] cs") auto
    have "join_with d ((c # x) # xs) = c # join_with d (x # xs)"
      by (cases xs) auto
    then show ?thesis using Cons False split by simp
  qed
qed

lemma split_chars_no_sep: "x \<in> set (split_chars ds s) \<Longrightarrow> set x \<inter> set ds = {}"
proof (induction s arbitrary: x)
  case Nil
  then show ?case by simp
next
  case (Cons c cs)
  obtain y ys where split: "split_chars ds cs = y # ys"
    by (cases "split_chars ds cs") auto
  then have "set y \<inter> set ds = {}" and "z \<in> set ys \<Longrightarrow> set z \<inter> set ds = {}" for z
    using Cons.IH by auto
  then show ?case using Cons.prems split by (cases "c \<in> set ds") auto
qed

lemma split_chars_id: "set s \<inter> set ds = {} \<Longrightarrow> split_chars ds s = [s]"
  by (induction s) auto

definition trim_start :: "string \<Rightarrow> string" where
  "trim_start s = dropWhile is_whitespace s"

definition trim :: "string \<Rightarrow> string" where
  "trim s = rev (dropWhile is_whitespace (rev (dropWhile is_whitespace s)))"

definition trim_end_matches :: "char \<Rightarrow> string \<Rightarrow> string" where
  "trim_end_matches d s = rev (dropWhile (\<lambda>c. c = d) (rev s))"

declare trim_def [rust_std] trim_end_matches_def [rust_std]

section \<open>Numbers\<close>

definition digit_val :: "char \<Rightarrow> nat" where
  "digit_val c = code_of c - 48"

definition digits_value :: "string \<Rightarrow> nat" where
  "digits_value s = foldl (\<lambda>acc c. 10 * acc + digit_val c) 0 s"

text \<open>
  \<open>str::parse\<close> for an unsigned integer type with maximum \<open>mx\<close>: an optional \<open>+\<close>, at least one
  digit, no overflow.
\<close>

definition parse_uint :: "nat \<Rightarrow> string \<Rightarrow> nat option" where
  "parse_uint mx s =
     (let t = (case s of [] \<Rightarrow> s | c # r \<Rightarrow> if c = CHR ''+'' then r else s)
      in if t = [] \<or> \<not> list_all is_ascii_digit t then None
         else if digits_value t \<le> mx then Some (digits_value t) else None)"

abbreviation parse_u8 :: "string \<Rightarrow> nat option" where
  "parse_u8 \<equiv> parse_uint 255"

abbreviation parse_u64 :: "string \<Rightarrow> nat option" where
  "parse_u64 \<equiv> parse_uint 18446744073709551615"

text \<open>\<open>str::parse::<i64>\<close>.\<close>

definition parse_i64 :: "string \<Rightarrow> int option" where
  "parse_i64 s =
     (case s of
        c # r \<Rightarrow>
          if c = CHR ''-'' then
            (if r = [] \<or> \<not> list_all is_ascii_digit r then None
             else if digits_value r \<le> 9223372036854775808 then Some (- int (digits_value r)) else None)
          else map_option int (parse_uint 9223372036854775807 s)
      | [] \<Rightarrow> None)"

fun show_nat :: "nat \<Rightarrow> string" where
  "show_nat n = (if n < 10 then [char_of (48 + n)] else show_nat (n div 10) @ [char_of (48 + n mod 10)])"

declare show_nat.simps [simp del]

lemma code_of_digit: "n < 10 \<Longrightarrow> code_of (char_of (48 + n)) = 48 + n"
  by (simp add: code_of_def)

lemma digits_value_snoc: "digits_value (s @ [c]) = 10 * digits_value s + digit_val c"
  by (simp add: digits_value_def)

lemma digits_value_show_nat [simp]: "digits_value (show_nat n) = n"
proof (induction n rule: show_nat.induct)
  case (1 n)
  show ?case
  proof (cases "n < 10")
    case True
    then show ?thesis
      by (simp add: show_nat.simps[of n] digits_value_def digit_val_def code_of_digit)
  next
    case False
    then show ?thesis
      using "1.IH" by (simp add: show_nat.simps[of n] digits_value_snoc digit_val_def code_of_digit)
  qed
qed

lemma show_nat_digits: "list_all is_ascii_digit (show_nat n)"
proof (induction n rule: show_nat.induct)
  case (1 n)
  then show ?case
    by (cases "n < 10")
      (simp_all add: show_nat.simps[of n], simp_all add: is_ascii_digit_def code_of_digit)
qed

lemma show_nat_nonempty [simp]: "show_nat n \<noteq> []"
  by (subst show_nat.simps) simp

lemma parse_uint_show_nat: "parse_uint mx (show_nat n) = (if n \<le> mx then Some n else None)"
proof (cases "show_nat n")
  case Nil
  then show ?thesis by simp
next
  case (Cons c r)
  have "is_ascii_digit c" using show_nat_digits[of n] Cons by simp
  then have "c \<noteq> CHR ''+''" by (auto simp: is_ascii_digit_def code_of_def)
  then show ?thesis
    using show_nat_digits[of n] digits_value_show_nat[of n] Cons by (simp add: parse_uint_def)
qed

lemma parse_uint_le: "parse_uint mx s = Some n \<Longrightarrow> n \<le> mx"
  by (auto simp: parse_uint_def Let_def split: if_splits list.splits)

definition show_int :: "int \<Rightarrow> string" where
  "show_int n = (if n < 0 then CHR ''-'' # show_nat (nat (- n)) else show_nat (nat n))"

definition to_upper_char :: "char \<Rightarrow> char" where
  "to_upper_char c = (if is_ascii_lowercase c then char_of (code_of c - 32) else c)"

definition to_uppercase :: "string \<Rightarrow> string" where
  "to_uppercase s = map to_upper_char s"

section \<open>Machine integers\<close>

text \<open>Casts keep the low bits; addition of \<open>i64\<close> values wraps or saturates as the code says.\<close>

definition wrap_i32 :: "int \<Rightarrow> int" where
  "wrap_i32 n = (n + 2 ^ 31) mod 2 ^ 32 - 2 ^ 31"

definition wrap_i64 :: "int \<Rightarrow> int" where
  "wrap_i64 n = (n + 2 ^ 63) mod 2 ^ 64 - 2 ^ 63"

definition cast_u64 :: "int \<Rightarrow> nat" where
  "cast_u64 n = nat (n mod 2 ^ 64)"

text \<open>Division of the language rounds to zero.\<close>

definition trunc_div :: "int \<Rightarrow> int \<Rightarrow> int" where
  "trunc_div a b = sgn a * sgn b * (\<bar>a\<bar> div \<bar>b\<bar>)"

definition saturate_i64 :: "int \<Rightarrow> int" where
  "saturate_i64 n = max (- (2 ^ 63)) (min (2 ^ 63 - 1) n)"

lemma wrap_i32_id: "- (2 ^ 31) \<le> n \<Longrightarrow> n < 2 ^ 31 \<Longrightarrow> wrap_i32 n = n"
  by (simp add: wrap_i32_def)

lemma wrap_i32_range: "- (2 ^ 31) \<le> wrap_i32 n \<and> wrap_i32 n < 2 ^ 31"
  by (simp add: wrap_i32_def)

lemma wrap_i64_id: "- (2 ^ 63) \<le> n \<Longrightarrow> n < 2 ^ 63 \<Longrightarrow> wrap_i64 n = n"
  by (simp add: wrap_i64_def)

lemma cast_u64_id: "0 \<le> n \<Longrightarrow> n < 2 ^ 64 \<Longrightarrow> cast_u64 n = nat n"
  by (simp add: cast_u64_def)

lemma trunc_div_pos: "0 \<le> a \<Longrightarrow> 0 < b \<Longrightarrow> trunc_div a b = a div b"
  by (cases "a = 0") (simp_all add: trunc_div_def)

end
