(* ===== verification/Glob.thy ===== *)
theory Glob
  imports Rust_Str
begin

text \<open>
  Glob matching (\<open>util/glob.rs\<close>), shared by the curation rules and the npm scope policy. The
  matcher walks two index cursors and backtracks over every length of a \<open>*\<close>; it is shown to
  decide a declarative matching relation.
\<close>

text \<open>
  The index form of the source: \<open>pi\<close> and \<open>ti\<close> never pass the ends of their slices on a call
  from \<open>glob_match\<close>, and the \<open>for\<close> loop with its early return is an existential over the
  skip counts \<open>0..=(text.len() - ti)\<close>.
\<close>

function glob_match_inner :: "string \<Rightarrow> string \<Rightarrow> nat \<Rightarrow> nat \<Rightarrow> bool" where
  "glob_match_inner pattern text pi ti =
     (if pi = length pattern \<and> ti = length text then True
      else if length pattern \<le> pi then False
      else if pattern ! pi = CHR ''*'' then
        list_ex (\<lambda>skip. glob_match_inner pattern text (pi + 1) (ti + skip)) [0..<Suc (length text - ti)]
      else if ti = length text then False
      else if pattern ! pi = CHR ''?'' \<or> pattern ! pi = text ! ti
        then glob_match_inner pattern text (pi + 1) (ti + 1)
      else False)"
  by pat_completeness auto
termination
  by (relation "measure (\<lambda>(p, t, pi, ti). length p - pi)") auto

declare glob_match_inner.simps [simp del]

definition glob_match :: "string \<Rightarrow> string \<Rightarrow> bool" where
  "glob_match pattern text = glob_match_inner pattern text 0 0"

section \<open>The declarative meaning of a pattern\<close>

inductive glob_lang :: "string \<Rightarrow> string \<Rightarrow> bool" where
  empty: "glob_lang [] []"
| star: "glob_lang p t \<Longrightarrow> glob_lang (CHR ''*'' # p) (s @ t)"
| any: "glob_lang p t \<Longrightarrow> glob_lang (CHR ''?'' # p) (c # t)"
| lit: "glob_lang p t \<Longrightarrow> c \<noteq> CHR ''*'' \<Longrightarrow> glob_lang (c # p) (c # t)"

inductive_simps glob_lang_Nil [simp]: "glob_lang [] t"
inductive_cases glob_lang_starE: "glob_lang (CHR ''*'' # p) t"
inductive_cases glob_lang_ConsE: "glob_lang (c # p) t"

lemma glob_lang_star: "glob_lang (CHR ''*'' # p) t \<longleftrightarrow> (\<exists>skip \<le> length t. glob_lang p (drop skip t))"
proof
  assume "glob_lang (CHR ''*'' # p) t"
  then obtain s u where "t = s @ u" "glob_lang p u" by (auto elim: glob_lang_starE)
  then show "\<exists>skip \<le> length t. glob_lang p (drop skip t)" by (auto intro!: exI[of _ "length s"])
next
  assume "\<exists>skip \<le> length t. glob_lang p (drop skip t)"
  then obtain k where "glob_lang p (drop k t)" by auto
  then have "glob_lang (CHR ''*'' # p) (take k t @ drop k t)" by (rule glob_lang.star)
  then show "glob_lang (CHR ''*'' # p) t" by simp
qed

lemma glob_lang_step:
  "c \<noteq> CHR ''*'' \<Longrightarrow>
   glob_lang (c # p) t \<longleftrightarrow> (\<exists>x u. t = x # u \<and> (c = CHR ''?'' \<or> c = x) \<and> glob_lang p u)"
  by (auto elim: glob_lang_ConsE intro: glob_lang.intros)

lemma glob_match_inner_iff:
  "pi \<le> length pattern \<Longrightarrow> ti \<le> length text \<Longrightarrow>
   glob_match_inner pattern text pi ti \<longleftrightarrow> glob_lang (drop pi pattern) (drop ti text)"
proof (induction pattern "text" pi ti rule: glob_match_inner.induct)
  case (1 p t i j)
  note unf = glob_match_inner.simps[of p t i j]
  show ?case
  proof (cases "i < length p")
    case False
    then show ?thesis unfolding unf using "1.prems" by auto
  next
    case inside: True
    then have drop_p: "drop i p = p ! i # drop (Suc i) p" by (simp add: Cons_nth_drop_Suc)
    show ?thesis
    proof (cases "p ! i = CHR ''*''")
      case True
      have "glob_match_inner p t (i + 1) (j + skip) \<longleftrightarrow> glob_lang (drop (Suc i) p) (drop skip (drop j t))"
        if "skip \<le> length t - j" for skip
      proof -
        have "j + skip \<le> length t" using that "1.prems" by linarith
        moreover have "skip \<in> set [0..<Suc (length t - j)]" using that by (simp del: upt_Suc)
        ultimately show ?thesis
          using "1.IH"(1)[of skip] inside True by (simp add: add.commute)
      qed
      then show ?thesis
        using inside True "1.prems"
        by (auto simp: unf drop_p glob_lang_star list_ex_iff less_Suc_eq_le simp del: upt_Suc)
    next
      case False
      show ?thesis
      proof (cases "j = length t")
        case True
        then show ?thesis unfolding unf using False inside by (auto simp: drop_p glob_lang_step)
      next
        case j: False
        then have "drop j t = t ! j # drop (Suc j) t"
          using "1.prems" by (simp add: Cons_nth_drop_Suc)
        then show ?thesis
          using j False inside "1.prems" "1.IH"(2) by (auto simp: unf drop_p glob_lang_step)
      qed
    qed
  qed
qed

section \<open>Properties\<close>

text \<open>C40: the backtracking matcher accepts exactly the texts the pattern denotes, where a star
  stands for any sequence, a question mark for any one character and every other character for
  itself.\<close>

theorem glob_match_correct: "glob_match pattern text \<longleftrightarrow> glob_lang pattern text"
  by (simp add: glob_match_def glob_match_inner_iff)

lemma glob_match_literal:
  "CHR ''*'' \<notin> set p \<Longrightarrow> CHR ''?'' \<notin> set p \<Longrightarrow> glob_lang p t \<longleftrightarrow> p = t"
proof (induction p arbitrary: t)
  case Nil
  then show ?case by auto
next
  case (Cons c p)
  have "c \<noteq> CHR ''*''" "c \<noteq> CHR ''?''" using Cons.prems by auto
  then show ?case using Cons by (cases t) (simp_all add: glob_lang_step)
qed

lemma glob_lang_append: "glob_lang p s \<Longrightarrow> glob_lang q t \<Longrightarrow> glob_lang (p @ q) (s @ t)"
proof (induction rule: glob_lang.induct)
  case (star p u s)
  then have "glob_lang (CHR ''*'' # p @ q) (s @ (u @ t))" by (blast intro: glob_lang.star)
  then show ?case by simp
qed (auto intro: glob_lang.intros)

end
