(* ===== verification/App_Error.thy ===== *)
theory App_Error
  imports Rust_Str
begin

text \<open>
  The application error type (\<open>error.rs\<close>): the variants, their mapping to HTTP status and error
  code, the log level, the message shown to the client and the response itself. Wrapped foreign
  errors carry the text they render to.
\<close>

datatype sqlx_error = PoolTimedOut | SqlxOther string

datatype app_error =
    Config string
  | Database string
  | Sqlx sqlx_error
  | Migration string
  | Authentication string
  | Unauthorized string
  | Authorization string
  | NotFound string
  | Conflict string
  | Validation string
  | UnprocessableEntity string
  | QuotaExceeded string
  | Storage string
  | Io string
  | AddrParse string
  | Json string
  | Jwt string
  | Internal string
  | Wasm string
  | BadGateway string
  | ServiceUnavailable string
  | ScannerEngineUnavailable string

type_synonym 'a app_result = "app_error + 'a"

text \<open>The text of an error, as \<open>Display\<close> prints it.\<close>

fun sqlx_text :: "sqlx_error \<Rightarrow> string" where
  "sqlx_text PoolTimedOut = ''pool timed out while waiting for an open connection''"
| "sqlx_text (SqlxOther m) = m"

fun error_text :: "app_error \<Rightarrow> string" where
  "error_text (Config m) = ''Configuration error: '' @ m"
| "error_text (Database m) = ''Database error: '' @ m"
| "error_text (Sqlx e) = ''Database error: '' @ sqlx_text e"
| "error_text (Migration m) = ''Migration error: '' @ m"
| "error_text (Authentication m) = ''Authentication failed: '' @ m"
| "error_text (Unauthorized m) = ''Unauthorized: '' @ m"
| "error_text (Authorization m) = ''Access denied: '' @ m"
| "error_text (NotFound m) = ''Resource not found: '' @ m"
| "error_text (Conflict m) = ''Conflict: '' @ m"
| "error_text (Validation m) = ''Validation error: '' @ m"
| "error_text (UnprocessableEntity m) = ''Unprocessable entity: '' @ m"
| "error_text (QuotaExceeded m) = ''Quota exceeded: '' @ m"
| "error_text (Storage m) = ''Storage error: '' @ m"
| "error_text (Io m) = ''IO error: '' @ m"
| "error_text (AddrParse m) = ''Address parse error: '' @ m"
| "error_text (Json m) = ''JSON error: '' @ m"
| "error_text (Jwt m) = ''JWT error: '' @ m"
| "error_text (Internal m) = ''Internal error: '' @ m"
| "error_text (Wasm m) = ''WASM error: '' @ m"
| "error_text (BadGateway m) = ''Bad gateway: '' @ m"
| "error_text (ServiceUnavailable m) = ''Service unavailable: '' @ m"
| "error_text (ScannerEngineUnavailable m) = ''Scanner engine unavailable: '' @ m"

text \<open>
  A query of the database: it fails with the error the outage gives it, which the caller passes on as it
  is or with its text.
\<close>

definition ask :: "('q \<Rightarrow> sqlx_error option) \<Rightarrow> 'q \<Rightarrow> 'a \<Rightarrow> 'a app_result" where
  "ask io q x = (case io q of None \<Rightarrow> Inr x | Some e \<Rightarrow> Inl (Sqlx e))"

definition ask_text :: "('q \<Rightarrow> sqlx_error option) \<Rightarrow> 'q \<Rightarrow> 'a \<Rightarrow> 'a app_result" where
  "ask_text io q x = (case io q of None \<Rightarrow> Inr x | Some e \<Rightarrow> Inl (Database (sqlx_text e)))"

definition no_outage :: "'q \<Rightarrow> sqlx_error option" where
  "no_outage = (\<lambda>_. None)"

lemma ask_Inr [simp]: "ask io q x = Inr y \<longleftrightarrow> io q = None \<and> x = y"
  by (auto simp: ask_def split: option.splits)

lemma ask_text_Inr [simp]: "ask_text io q x = Inr y \<longleftrightarrow> io q = None \<and> x = y"
  by (auto simp: ask_text_def split: option.splits)

lemma ask_no_outage [simp]: "ask no_outage q x = Inr x" "ask_text no_outage q x = Inr x"
  by (simp_all add: no_outage_def)

definition is_name_too_long :: "string \<Rightarrow> bool" where
  "is_name_too_long msg =
     (let lower = to_lowercase msg
      in str_contains ''file name too long'' lower
         \<or> str_contains ''name too long'' lower
         \<or> str_contains ''enametoolong'' lower)"

definition is_pool_timeout_msg :: "string \<Rightarrow> bool" where
  "is_pool_timeout_msg msg =
     (let lower = to_lowercase msg
      in str_contains ''pool timed out'' lower \<or> str_contains ''pooltimedout'' lower)"

fun is_pool_timeout :: "app_error \<Rightarrow> bool" where
  "is_pool_timeout (Sqlx PoolTimedOut) = True"
| "is_pool_timeout (Database msg) = is_pool_timeout_msg msg"
| "is_pool_timeout _ = False"

definition status_and_code :: "app_error \<Rightarrow> nat \<times> string" where
  "status_and_code e =
     (if is_pool_timeout e then (503, ''POOL_EXHAUSTED'')
      else case e of
        Config _ \<Rightarrow> (500, ''CONFIG_ERROR'')
      | Database _ \<Rightarrow> (500, ''DATABASE_ERROR'')
      | Sqlx _ \<Rightarrow> (500, ''DATABASE_ERROR'')
      | Migration _ \<Rightarrow> (500, ''MIGRATION_ERROR'')
      | Authentication _ \<Rightarrow> (401, ''AUTH_ERROR'')
      | Unauthorized _ \<Rightarrow> (401, ''UNAUTHORIZED'')
      | Authorization _ \<Rightarrow> (403, ''FORBIDDEN'')
      | NotFound _ \<Rightarrow> (404, ''NOT_FOUND'')
      | Conflict _ \<Rightarrow> (409, ''CONFLICT'')
      | Validation _ \<Rightarrow> (400, ''VALIDATION_ERROR'')
      | UnprocessableEntity _ \<Rightarrow> (422, ''UNPROCESSABLE_ENTITY'')
      | QuotaExceeded _ \<Rightarrow> (507, ''QUOTA_EXCEEDED'')
      | Storage msg \<Rightarrow> if is_name_too_long msg then (400, ''PATH_TOO_LONG'') else (500, ''STORAGE_ERROR'')
      | Io msg \<Rightarrow> if is_name_too_long msg then (400, ''PATH_TOO_LONG'') else (500, ''IO_ERROR'')
      | AddrParse _ \<Rightarrow> (500, ''ADDR_PARSE_ERROR'')
      | Json _ \<Rightarrow> (400, ''JSON_ERROR'')
      | Jwt _ \<Rightarrow> (401, ''JWT_ERROR'')
      | Internal _ \<Rightarrow> (500, ''INTERNAL_ERROR'')
      | Wasm _ \<Rightarrow> (500, ''WASM_ERROR'')
      | BadGateway _ \<Rightarrow> (502, ''BAD_GATEWAY'')
      | ServiceUnavailable _ \<Rightarrow> (503, ''SERVICE_UNAVAILABLE'')
      | ScannerEngineUnavailable _ \<Rightarrow> (503, ''SCANNER_ENGINE_UNAVAILABLE''))"

datatype log_level = ERROR | WARN | INFO

definition is_client_error :: "nat \<Rightarrow> bool" where
  "is_client_error st \<longleftrightarrow> 400 \<le> st \<and> st < 500"

definition log_level :: "app_error \<Rightarrow> log_level" where
  "log_level e =
     (if is_pool_timeout e then WARN
      else case e of
        Authentication _ \<Rightarrow> WARN
      | Unauthorized _ \<Rightarrow> WARN
      | Authorization _ \<Rightarrow> WARN
      | QuotaExceeded _ \<Rightarrow> INFO
      | _ \<Rightarrow> if is_client_error (fst (status_and_code e)) then INFO else ERROR)"

definition user_message :: "app_error \<Rightarrow> string" where
  "user_message e =
     (if is_pool_timeout e then ''Database connection pool is saturated, retry shortly''
      else case e of
        Database _ \<Rightarrow> ''Database operation failed''
      | Sqlx _ \<Rightarrow> ''Database operation failed''
      | Migration _ \<Rightarrow> ''Database migration failed''
      | Storage msg \<Rightarrow>
          if is_name_too_long msg then ''Path segment exceeds filesystem name length limit''
          else ''Storage operation failed''
      | Io msg \<Rightarrow>
          if is_name_too_long msg then ''Path segment exceeds filesystem name length limit''
          else ''IO operation failed''
      | Config _ \<Rightarrow> ''Server configuration error''
      | Internal _ \<Rightarrow> ''Internal server error''
      | AddrParse _ \<Rightarrow> ''Invalid address''
      | Jwt _ \<Rightarrow> ''Invalid token''
      | Wasm _ \<Rightarrow> ''Plugin execution failed''
      | Authentication msg \<Rightarrow> msg
      | Unauthorized msg \<Rightarrow> msg
      | Authorization msg \<Rightarrow> msg
      | NotFound msg \<Rightarrow> msg
      | Conflict msg \<Rightarrow> msg
      | Validation msg \<Rightarrow> msg
      | UnprocessableEntity msg \<Rightarrow> msg
      | QuotaExceeded msg \<Rightarrow> msg
      | BadGateway msg \<Rightarrow> msg
      | ServiceUnavailable msg \<Rightarrow> msg
      | ScannerEngineUnavailable msg \<Rightarrow> msg
      | Json _ \<Rightarrow> ''Invalid JSON'')"

record error_response =
  resp_status :: nat
  resp_code :: string
  resp_message :: string
  resp_retry_after :: "string option"
  resp_logged :: log_level

definition into_response :: "app_error \<Rightarrow> error_response" where
  "into_response e =
     (let (status, code) = status_and_code e
      in \<lparr>resp_status = status, resp_code = code, resp_message = user_message e,
          resp_retry_after = (if status = 503 then Some ''1'' else None),
          resp_logged = log_level e\<rparr>)"

section \<open>Properties\<close>

text \<open>
  The messages a client may see for a failure of the server itself: none mentions the payload of
  the error.
\<close>

definition opaque_messages :: "string list" where
  "opaque_messages =
     [''Database operation failed'', ''Database migration failed'', ''Storage operation failed'',
      ''IO operation failed'', ''Server configuration error'', ''Internal server error'',
      ''Invalid address'', ''Plugin execution failed'']"

lemma status_500_opaque:
  "fst (status_and_code e) = 500 \<Longrightarrow> user_message e \<in> set opaque_messages"
  by (cases e) (auto simp: status_and_code_def user_message_def opaque_messages_def split: if_splits)

lemma pool_timeout_503:
  "is_pool_timeout e \<Longrightarrow> status_and_code e = (503, ''POOL_EXHAUSTED'')"
  by (simp add: status_and_code_def)

text \<open>A response with status 500 carries one of eight fixed messages, whatever text the error
  was built with, is logged at error level and bears no retry hint.\<close>

lemma internal_errors_do_not_leak:
  assumes "resp_status (into_response e) = 500"
  shows "resp_message (into_response e) \<in> set opaque_messages
         \<and> resp_logged (into_response e) = ERROR
         \<and> resp_retry_after (into_response e) = None"
proof -
  have st: "fst (status_and_code e) = 500"
    using assms by (simp add: into_response_def split: prod.splits)
  moreover have "\<not> is_pool_timeout e"
    using st pool_timeout_503 by fastforce
  ultimately have "log_level e = ERROR"
    by (cases e) (auto simp: log_level_def is_client_error_def status_and_code_def split: if_splits)
  then show ?thesis
    using assms st status_500_opaque by (auto simp: into_response_def split: prod.splits)
qed

lemma internal_errors_do_not_leak_witness:
  "resp_message (into_response (Storage ''bucket gone'')) \<in> set opaque_messages
   \<and> resp_logged (into_response (Storage ''bucket gone'')) = ERROR
   \<and> resp_retry_after (into_response (Storage ''bucket gone'')) = None"
  by (rule internal_errors_do_not_leak) code_simp

text \<open>A connection-pool timeout, typed or rendered into a database error message, is answered
  with 503, a retry hint of one second and a warning in the log.\<close>

lemma pool_exhaustion_is_retryable:
  assumes "is_pool_timeout e"
  shows "resp_status (into_response e) = 503
         \<and> resp_code (into_response e) = ''POOL_EXHAUSTED''
         \<and> resp_retry_after (into_response e) = Some ''1''
         \<and> resp_logged (into_response e) = WARN"
  using assms by (simp add: into_response_def pool_timeout_503 log_level_def)

lemma pool_exhaustion_is_retryable_witness:
  "resp_status (into_response (Database ''pool timed out while waiting for an open connection'')) = 503
   \<and> resp_code (into_response (Database ''pool timed out while waiting for an open connection'')) = ''POOL_EXHAUSTED''
   \<and> resp_retry_after (into_response (Database ''pool timed out while waiting for an open connection'')) = Some ''1''
   \<and> resp_logged (into_response (Database ''pool timed out while waiting for an open connection'')) = WARN"
  by (rule pool_exhaustion_is_retryable) code_simp

end
