(* ===== verification/Ip_Addr.thy ===== *)
theory Ip_Addr
  imports Rust_Str "HOL-Library.Word"
begin

unbundle bit_operations_syntax

text \<open>
  \<open>std::net::IpAddr\<close>: addresses as words, the classification predicates of the standard library
  and its textual parser, as far as the SSRF guard and the rate limiter use them; and the prefix
  test both of them apply (\<open>CidrRange::contains\<close>, \<open>ipv4_in_prefix\<close>, \<open>ipv6_in_prefix\<close>).
\<close>

type_synonym ipv4 = "32 word"
type_synonym ipv6 = "128 word"

datatype ip_addr = V4 ipv4 | V6 ipv6

section \<open>Octets and segments\<close>

definition ipv4_of :: "8 word \<Rightarrow> 8 word \<Rightarrow> 8 word \<Rightarrow> 8 word \<Rightarrow> ipv4" where
  "ipv4_of a b c d =
     push_bit 24 (ucast a) OR push_bit 16 (ucast b) OR push_bit 8 (ucast c) OR ucast d"

text \<open>\<open>octet n v\<close> is \<open>v.octets()[n]\<close>, \<open>segment n v\<close> is \<open>v.segments()[n]\<close>, both big-endian.\<close>

definition octet :: "nat \<Rightarrow> ipv4 \<Rightarrow> 8 word" where
  "octet n v = ucast (drop_bit (24 - 8 * n) v)"

definition segment :: "nat \<Rightarrow> ipv6 \<Rightarrow> 16 word" where
  "segment n v = ucast (drop_bit (112 - 16 * n) v)"

definition ipv4_is_loopback :: "ipv4 \<Rightarrow> bool" where
  "ipv4_is_loopback v \<longleftrightarrow> octet 0 v = 127"

definition ipv4_is_link_local :: "ipv4 \<Rightarrow> bool" where
  "ipv4_is_link_local v \<longleftrightarrow> octet 0 v = 169 \<and> octet 1 v = 254"

definition ipv4_is_private :: "ipv4 \<Rightarrow> bool" where
  "ipv4_is_private v \<longleftrightarrow>
     octet 0 v = 10
     \<or> (octet 0 v = 172 \<and> 16 \<le> octet 1 v \<and> octet 1 v \<le> 31)
     \<or> (octet 0 v = 192 \<and> octet 1 v = 168)"

definition ipv4_is_unspecified :: "ipv4 \<Rightarrow> bool" where
  "ipv4_is_unspecified v \<longleftrightarrow> v = 0"

definition ipv4_is_broadcast :: "ipv4 \<Rightarrow> bool" where
  "ipv4_is_broadcast v \<longleftrightarrow> v = 0xFFFFFFFF"

definition ipv6_is_loopback :: "ipv6 \<Rightarrow> bool" where
  "ipv6_is_loopback v \<longleftrightarrow> v = 1"

definition ipv6_is_unspecified :: "ipv6 \<Rightarrow> bool" where
  "ipv6_is_unspecified v \<longleftrightarrow> v = 0"

text \<open>\<open>Ipv6Addr::to_ipv4_mapped\<close> and \<open>Ipv6Addr::to_ipv4\<close> (mapped or compatible).\<close>

definition to_ipv4_mapped :: "ipv6 \<Rightarrow> ipv4 option" where
  "to_ipv4_mapped v = (if drop_bit 32 v = 0xFFFF then Some (ucast v) else None)"

definition to_ipv4 :: "ipv6 \<Rightarrow> ipv4 option" where
  "to_ipv4 v = (if drop_bit 32 v = 0 \<or> drop_bit 32 v = 0xFFFF then Some (ucast v) else None)"

definition ipv4_mapped :: "ipv4 \<Rightarrow> ipv6" where
  "ipv4_mapped v = push_bit 32 0xFFFF OR ucast v"

definition ipv4_compatible :: "ipv4 \<Rightarrow> ipv6" where
  "ipv4_compatible v = ucast v"

section \<open>Prefixes\<close>

text \<open>\<open>MAX.checked_shl(w - prefix).unwrap_or(0)\<close>: a shift by the full width yields no value.\<close>

definition prefix_mask :: "nat \<Rightarrow> 'w::len word" where
  "prefix_mask p = (if LENGTH('w) - p < LENGTH('w) then push_bit (LENGTH('w) - p) (- 1) else 0)"

lemma prefix_mask_0 [simp]: "prefix_mask 0 = (0 :: 'w::len word)"
  by (simp add: prefix_mask_def)

lemma and_push_bit_eq_iff:
  fixes a b :: "'w::len word"
  shows "a AND push_bit n (- 1) = b AND push_bit n (- 1) \<longleftrightarrow> drop_bit n a = drop_bit n b"
proof
  assume eq: "a AND push_bit n (- 1) = b AND push_bit n (- 1)"
  show "drop_bit n a = drop_bit n b"
  proof (rule bit_word_eqI)
    fix k
    assume "k < LENGTH('w)"
    have "bit (a AND push_bit n (- 1)) (n + k) \<longleftrightarrow> bit (b AND push_bit n (- 1)) (n + k)"
      using eq by simp
    then show "bit (drop_bit n a) k \<longleftrightarrow> bit (drop_bit n b) k"
      by (auto simp: bit_simps dest: bit_imp_le_length)
  qed
next
  assume eq: "drop_bit n a = drop_bit n b"
  show "a AND push_bit n (- 1) = b AND push_bit n (- 1)"
  proof (rule bit_word_eqI)
    fix k
    assume k: "k < LENGTH('w)"
    have "bit (drop_bit n a) (k - n) \<longleftrightarrow> bit (drop_bit n b) (k - n)" using eq by simp
    then show "bit (a AND push_bit n (- 1)) k \<longleftrightarrow> bit (b AND push_bit n (- 1)) k"
      using k by (auto simp: bit_simps)
  qed
qed

lemma prefix_mask_eq_iff:
  fixes a b :: "'w::len word"
  assumes "p \<le> LENGTH('w)"
  shows "a AND prefix_mask p = b AND prefix_mask p \<longleftrightarrow>
         drop_bit (LENGTH('w) - p) a = drop_bit (LENGTH('w) - p) b"
proof (cases "p = 0")
  case True
  then show ?thesis by simp
next
  case False
  then have "LENGTH('w) - p < LENGTH('w)" using assms by simp
  then show ?thesis by (simp only: prefix_mask_def if_True and_push_bit_eq_iff)
qed

definition ipv4_in_prefix :: "ipv4 \<Rightarrow> ipv4 \<Rightarrow> nat \<Rightarrow> bool" where
  "ipv4_in_prefix net ip p \<longleftrightarrow> (if p = 0 then True else net AND prefix_mask p = ip AND prefix_mask p)"

definition ipv6_in_prefix :: "ipv6 \<Rightarrow> ipv6 \<Rightarrow> nat \<Rightarrow> bool" where
  "ipv6_in_prefix net ip p \<longleftrightarrow> (if p = 0 then True else net AND prefix_mask p = ip AND prefix_mask p)"

section \<open>Addresses as numbers\<close>

lemma unat_drop_bit: "unat (drop_bit n (w :: 'w::len word)) = unat w div 2 ^ n"
  by (simp only: unat_drop_bit_eq flip: drop_bit_eq_div)

lemma unat_octet: "unat (octet n v) = unat v div 2 ^ (24 - 8 * n) mod 256"
  by (simp add: octet_def unsigned_ucast_eq unsigned_take_bit_eq take_bit_eq_mod unat_drop_bit)

lemma unat_segment: "unat (segment n v) = unat v div 2 ^ (112 - 16 * n) mod 65536"
  by (simp add: segment_def unsigned_ucast_eq unsigned_take_bit_eq take_bit_eq_mod unat_drop_bit)

lemma drop_bit_eq_unat: "drop_bit n (v :: 'w::len word) = w \<longleftrightarrow> unat v div 2 ^ n = unat w"
  by (simp add: word_unat_eq_iff unat_drop_bit)

lemma ipv4_bound: "unat (v :: ipv4) < 4294967296"
  using unsigned_less[of v] by simp

lemma ipv4_in_prefix_iff:
  "p \<le> 32 \<Longrightarrow> ipv4_in_prefix net ip p \<longleftrightarrow> unat net div 2 ^ (32 - p) = unat ip div 2 ^ (32 - p)"
  using prefix_mask_eq_iff[of p net ip]  ipv4_bound[of net] ipv4_bound[of ip]
  by (auto simp: ipv4_in_prefix_def drop_bit_eq_unat unat_drop_bit)

lemma ipv6_in_prefix_iff:
  "p \<le> 128 \<Longrightarrow> ipv6_in_prefix net ip p \<longleftrightarrow> unat net div 2 ^ (128 - p) = unat ip div 2 ^ (128 - p)"
  using prefix_mask_eq_iff[of p net ip] unsigned_less[of net] unsigned_less[of ip]
  by (auto simp: ipv6_in_prefix_def drop_bit_eq_unat unat_drop_bit)



lemma split_octets:
  fixes y :: nat
  shows "y div 16 = 16 * (y div 256) + y mod 256 div 16" and "y div 64 = 4 * (y div 256) + y mod 256 div 64"
proof -
  have "y div 16 = (y mod 256 + (16 * (y div 256)) * 16) div 16" by simp
  then show "y div 16 = 16 * (y div 256) + y mod 256 div 16"
    by (simp only: div_mult_self1)
  have "y div 64 = (y mod 256 + (4 * (y div 256)) * 64) div 64" by simp
  then show "y div 64 = 4 * (y div 256) + y mod 256 div 64"
    by (simp only: div_mult_self1)
qed

lemma digit_pair:
  fixes q m :: nat
  assumes "m < b" and "c < b"
  shows "b * q + m = b * a + c \<longleftrightarrow> q = a \<and> m = c"
proof
  assume eq: "b * q + m = b * a + c"
  then have "(b * q + m) div b = (b * a + c) div b" "(b * q + m) mod b = (b * a + c) mod b" by simp_all
  then show "q = a \<and> m = c" using assms by simp
qed simp

lemma private_iff: "ipv4_is_private v \<longleftrightarrow>
   ipv4_in_prefix 0x0A000000 v 8 \<or> ipv4_in_prefix 0xAC100000 v 12 \<or> ipv4_in_prefix 0xC0A80000 v 16"
proof -
  define y where "y = unat v div 65536"
  have y: "y div 256 < 256" "unat v div 16777216 = y div 256" "unat v div 1048576 = y div 16" "unat v div 65536 = y"
    using ipv4_bound[of v] unfolding y_def by (simp_all flip: div_mult2_eq)
  have "16 \<le> y mod 256 \<and> y mod 256 \<le> 31 \<longleftrightarrow> y mod 256 div 16 = 1" by arith
  then have mid: "y div 256 = 172 \<and> 16 \<le> y mod 256 \<and> y mod 256 \<le> 31 \<longleftrightarrow> y div 16 = 2753"
    using split_octets(1)[of y] digit_pair[of "y mod 256 div 16" 16 1 "y div 256" 172] by simp
  have low: "y div 256 = 192 \<and> y mod 256 = 168 \<longleftrightarrow> y = 49320"
    using digit_pair[of "y mod 256" 256 168 "y div 256" 192] by simp
  have "ipv4_is_private v \<longleftrightarrow> y div 256 = 10 \<or>
      (y div 256 = 172 \<and> 16 \<le> y mod 256 \<and> y mod 256 \<le> 31)
      \<or> (y div 256 = 192 \<and> y mod 256 = 168)"
    using y by (simp add: ipv4_is_private_def word_unat_eq_iff word_le_nat_alt unat_octet)
  then show ?thesis using y by (auto simp: mid low ipv4_in_prefix_iff)
qed

lemma drop_bit_ucast4 [simp]: "drop_bit 32 (ucast (v::ipv4) :: ipv6) = 0"
  by (rule bit_word_eqI) (auto simp: bit_simps dest: bit_imp_le_length)
lemma ucast_ucast4 [simp]: "ucast (ucast (v::ipv4) :: ipv6) = v"
    by (rule bit_word_eqI) (auto simp: bit_simps)

lemma drop_mapped [simp]: "drop_bit 32 (ipv4_mapped v) = 0xFFFF"
proof -
  have "drop_bit 32 (ipv4_mapped v) = drop_bit 32 (push_bit 32 0xFFFF) OR drop_bit 32 (ucast v :: ipv6)"
    by (simp only: ipv4_mapped_def drop_bit_or)
  also have "drop_bit 32 (push_bit 32 0xFFFF) = (0xFFFF :: ipv6)" by code_simp
  finally show ?thesis by simp
qed
lemma to_mapped [simp]: "to_ipv4_mapped (ipv4_mapped v) = Some v" 
proof -
  have "ucast (push_bit 32 0xFFFF :: ipv6) = (0 :: ipv4)" by code_simp
  then have "ucast (ipv4_mapped v) = v" by (simp only: ipv4_mapped_def unsigned_or_eq) simp
  then show ?thesis by (simp add: to_ipv4_mapped_def)
qed

lemma segment_mask: "(s :: 16 word) AND 0xFFC0 = 0xFE80 \<longleftrightarrow> unat s div 64 = 1018" "s AND 0xFE00 = 0xFC00 \<longleftrightarrow> unat s div 512 = 126"
proof -
  have "push_bit 6 (- 1) = (0xFFC0 :: 16 word)" by code_simp
  then have "s AND 0xFFC0 = 0xFE80 \<longleftrightarrow> s AND push_bit 6 (- 1) = 0xFE80 AND push_bit 6 (- 1)"
    by (simp only:) (simp)
  then show "s AND 0xFFC0 = 0xFE80 \<longleftrightarrow> unat s div 64 = 1018" by (simp only: and_push_bit_eq_iff) (simp add: drop_bit_eq_unat unat_drop_bit)
  have "push_bit 9 (- 1) = (0xFE00 :: 16 word)" by code_simp
  then have "s AND 0xFE00 = 0xFC00 \<longleftrightarrow> s AND push_bit 9 (- 1) = 0xFC00 AND push_bit 9 (- 1)"
    by (simp only:) (simp)
  then show "s AND 0xFE00 = 0xFC00 \<longleftrightarrow> unat s div 512 = 126" by (simp only: and_push_bit_eq_iff) (simp add: drop_bit_eq_unat unat_drop_bit)
qed

lemma ipv6_bound: "unat (v :: ipv6) < 2 ^ 128"
  using unsigned_less[of v] by simp

lemma link_local_iff: "segment 0 v AND 0xFFC0 = 0xFE80 \<longleftrightarrow> ipv6_in_prefix 0xFE800000000000000000000000000000 v 10"
proof -
  have "unat (segment 0 v) = unat v div 2 ^ 112"
    using ipv6_bound[of v] by (simp add: unat_segment)
  then show ?thesis by (auto simp: segment_mask ipv6_in_prefix_iff simp flip: div_mult2_eq)
qed
lemma ula_iff: "segment 0 v AND 0xFE00 = 0xFC00 \<longleftrightarrow> ipv6_in_prefix 0xFC000000000000000000000000000000 v 7"
proof -
  have "unat (segment 0 v) = unat v div 2 ^ 112"
    using ipv6_bound[of v] by (simp add: unat_segment)
  then show ?thesis by (auto simp: segment_mask ipv6_in_prefix_iff simp flip: div_mult2_eq)
qed
lemma segment_embedded: "drop_bit 32 v = 0 \<or> drop_bit 32 v = 0xFFFF \<Longrightarrow> segment 0 v = 0"
proof -
  assume emb: "drop_bit 32 v = 0 \<or> drop_bit 32 v = 0xFFFF"
  have "drop_bit 112 v = drop_bit 80 (drop_bit 32 v)" by simp
  also have "\<dots> = 0" using emb by (elim disjE) (simp_all only:, simp_all)
  finally show ?thesis by (simp add: segment_def)
qed

section \<open>Parsing\<close>

text \<open>
  The textual parser of \<open>core::net::parser\<close>: every reader returns the value and the rest of the
  input, or nothing (with the input untouched).
\<close>

definition hex_digit :: "char \<Rightarrow> nat option" where
  "hex_digit c =
     (if is_ascii_digit c then Some (code_of c - 48)
      else if 97 \<le> code_of c \<and> code_of c \<le> 102 then Some (code_of c - 87)
      else if 65 \<le> code_of c \<and> code_of c \<le> 70 then Some (code_of c - 55)
      else None)"

definition dec_digit :: "char \<Rightarrow> nat option" where
  "dec_digit c = (if is_ascii_digit c then Some (code_of c - 48) else None)"

fun read_digits :: "(char \<Rightarrow> nat option) \<Rightarrow> nat \<Rightarrow> string \<Rightarrow> nat \<Rightarrow> nat \<Rightarrow> nat \<times> nat \<times> string" where
  "read_digits dig radix [] acc n = (acc, n, [])"
| "read_digits dig radix (c # cs) acc n =
     (case dig c of
        None \<Rightarrow> (acc, n, c # cs)
      | Some d \<Rightarrow> read_digits dig radix cs (acc * radix + d) (n + 1))"

definition read_number ::
  "(char \<Rightarrow> nat option) \<Rightarrow> nat \<Rightarrow> nat \<Rightarrow> nat \<Rightarrow> bool \<Rightarrow> string \<Rightarrow> (nat \<times> string) option" where
  "read_number dig radix max_digits mx allow_zero_prefix s =
     (case read_digits dig radix s 0 0 of
        (v, n, rest) \<Rightarrow>
          if max_digits < n \<or> n = 0 then None
          else if \<not> allow_zero_prefix \<and> starts_with ''0'' s \<and> 1 < n then None
          else if v \<le> mx then Some (v, rest) else None)"

text \<open>\<open>read_separator\<close>: a separator is required before every element but the first.\<close>

definition read_separator ::
  "char \<Rightarrow> nat \<Rightarrow> (string \<Rightarrow> ('a \<times> string) option) \<Rightarrow> string \<Rightarrow> ('a \<times> string) option" where
  "read_separator sep index inner s =
     (if index = 0 then inner s
      else case s of [] \<Rightarrow> None | c # cs \<Rightarrow> if c = sep then inner cs else None)"

definition read_octet :: "string \<Rightarrow> (nat \<times> string) option" where
  "read_octet s = read_number dec_digit 10 3 255 False s"

fun read_octets :: "nat \<Rightarrow> nat \<Rightarrow> string \<Rightarrow> (nat list \<times> string) option" where
  "read_octets i 0 s = Some ([], s)"
| "read_octets i (Suc n) s =
     (case read_separator (CHR ''.'') i read_octet s of
        None \<Rightarrow> None
      | Some (v, rest) \<Rightarrow> map_option (\<lambda>(vs, r). (v # vs, r)) (read_octets (Suc i) n rest))"

definition read_ipv4_addr :: "string \<Rightarrow> (ipv4 \<times> string) option" where
  "read_ipv4_addr s =
     (case read_octets 0 4 s of
        Some ([a, b, c, d], rest) \<Rightarrow>
          Some (ipv4_of (of_nat a) (of_nat b) (of_nat c) (of_nat d), rest)
      | _ \<Rightarrow> None)"

text \<open>
  \<open>read_groups\<close>: up to \<open>limit\<close> 16-bit groups, with an embedded IPv4 address allowed where two
  groups are left; the second component says that such an address was read.
\<close>

fun read_groups :: "nat \<Rightarrow> nat \<Rightarrow> string \<Rightarrow> 16 word list \<times> bool \<times> string" where
  "read_groups i 0 s = ([], False, s)"
| "read_groups i (Suc left) s =
     (case (if 0 < left then read_separator (CHR '':'') i read_ipv4_addr s else None) of
        Some (v4, rest) \<Rightarrow> ([ucast (drop_bit 16 v4), ucast v4], True, rest)
      | None \<Rightarrow>
          (case read_separator (CHR '':'') i (read_number hex_digit 16 4 65535 True) s of
             None \<Rightarrow> ([], False, s)
           | Some (g, rest) \<Rightarrow>
               (case read_groups (Suc i) left rest of
                  (gs, v4, r) \<Rightarrow> (of_nat g # gs, v4, r))))"

definition ipv6_of_groups :: "16 word list \<Rightarrow> ipv6" where
  "ipv6_of_groups gs = foldl (\<lambda>acc g. push_bit 16 acc OR ucast g) 0 gs"

definition read_ipv6_addr :: "string \<Rightarrow> (ipv6 \<times> string) option" where
  "read_ipv6_addr s =
     (case read_groups 0 8 s of
        (head, head_v4, rest) \<Rightarrow>
          if length head = 8 then Some (ipv6_of_groups head, rest)
          else if head_v4 then None
          else (case strip_prefix ''::'' rest of
                  None \<Rightarrow> None
                | Some rest' \<Rightarrow>
                    (case read_groups 0 (8 - (length head + 1)) rest' of
                       (tail, _, r) \<Rightarrow>
                         Some (ipv6_of_groups (head @ replicate (8 - length head - length tail) 0 @ tail), r))))"

definition parse_ip :: "string \<Rightarrow> ip_addr option" where
  "parse_ip s =
     (case read_ipv4_addr s of
        Some (v, rest) \<Rightarrow> if rest = [] then Some (V4 v) else None
      | None \<Rightarrow>
          (case read_ipv6_addr s of
             Some (v, rest) \<Rightarrow> if rest = [] then Some (V6 v) else None
           | None \<Rightarrow> None))"

lemma read_number_Nil [simp]: "read_number dig radix md mx az [] = None"
  by (simp add: read_number_def)

lemma parse_ip_Nil [simp]: "parse_ip [] = None"
proof -
  have "read_ipv4_addr [] = None"
    using read_octets.simps(2)[of 0 3 "[]"]
    by (simp add: read_ipv4_addr_def read_octet_def read_separator_def)
  moreover have "read_ipv6_addr [] = None"
    using read_groups.simps(2)[of 0 7 "[]"] \<open>read_ipv4_addr [] = None\<close>
    by (simp add: read_ipv6_addr_def read_separator_def)
  ultimately show ?thesis by (simp add: parse_ip_def)
qed

end
