(* ===== verification/Outbound.thy ===== *)
theory Outbound
  imports Ip_Addr App_Error
begin

text \<open>
  The anti-SSRF validation of outbound targets (\<open>api/validation.rs\<close>): which addresses and host
  names the server may contact, per calling surface. The process environment is a parameter
  (\<open>env\<close>), as are the two pieces of code outside the repository: the URL parser of \<open>reqwest\<close>
  (\<open>parse_url\<close>) and the operating system's name resolution (\<open>dns\<close>, nothing when it fails).
\<close>

type_synonym environment = "string \<Rightarrow> string option"

record url =
  url_scheme :: string
  url_host :: "string option"

datatype outbound_ctx = Upstream | Webhook | SsoDiscovery | TrustedInternal

datatype block_reason = Hostname string | Ip ip_addr

fun env_var :: "outbound_ctx \<Rightarrow> string" where
  "env_var Upstream = ''UPSTREAM_ALLOW_PRIVATE_IPS''"
| "env_var Webhook = ''WEBHOOK_ALLOW_PRIVATE_IPS''"
| "env_var SsoDiscovery = ''SSO_ALLOW_PRIVATE_IPS''"
| "env_var TrustedInternal = ''AK_TRUSTED_INTERNAL_ALLOW_PRIVATE_IPS''"

section \<open>Address rules\<close>

definition CLOUD_METADATA_IPS :: "8 word list list" where
  "CLOUD_METADATA_IPS = [[192, 0, 0, 192], [100, 100, 100, 200]]"

definition BLOCKED_HOSTS :: "string list" where
  "BLOCKED_HOSTS =
     [''localhost'', ''metadata.google.internal'', ''metadata.azure.com'', ''metadata.tencentyun.com'',
      ''metadata.oraclecloud.com'', ''metadata.platformequinix.com'', ''backend'', ''postgres'',
      ''redis'', ''opensearch'', ''trivy'']"

definition octets :: "ipv4 \<Rightarrow> 8 word list" where
  "octets v = [octet 0 v, octet 1 v, octet 2 v, octet 3 v]"

definition cidr_contains :: "string \<Rightarrow> ip_addr \<Rightarrow> string + bool" where
  "cidr_contains entry ip =
     (let (addr_str, prefix_str) =
            (case split_once (CHR ''/'') entry of Some (a, p) \<Rightarrow> (a, Some p) | None \<Rightarrow> (entry, None))
      in case parse_ip addr_str of
           None \<Rightarrow> Err ''invalid IP''
         | Some net \<Rightarrow>
             (case prefix_str of
                None \<Rightarrow> Ok (net = ip)
              | Some ps \<Rightarrow>
                  (case parse_u8 ps of
                     None \<Rightarrow> Err ''invalid prefix''
                   | Some p \<Rightarrow>
                       if p = 0 then Err ''prefix 0 (all-IPs) is not permitted in the allowlist''
                       else (case (net, ip) of
                               (V4 net4, V4 ip4) \<Rightarrow>
                                 if 32 < p then Err ''ipv4 prefix > 32'' else Ok (ipv4_in_prefix net4 ip4 p)
                             | (V6 net6, V6 ip6) \<Rightarrow>
                                 if 128 < p then Err ''ipv6 prefix > 128'' else Ok (ipv6_in_prefix net6 ip6 p)
                             | _ \<Rightarrow> Ok False))))"

fun cidr_entries_contain :: "string list \<Rightarrow> ip_addr \<Rightarrow> bool" where
  "cidr_entries_contain [] ip = False"
| "cidr_entries_contain (raw # rest) ip =
     (let entry = trim raw
      in if entry = [] then cidr_entries_contain rest ip
         else (case cidr_contains entry ip of
                 Inr True \<Rightarrow> True
               | _ \<Rightarrow> cidr_entries_contain rest ip))"

definition cidr_list_contains :: "string \<Rightarrow> ip_addr \<Rightarrow> bool" where
  "cidr_list_contains lst ip = cidr_entries_contain (split_chars [CHR '',''] lst) ip"

definition allow_private_ips_enabled :: "environment \<Rightarrow> outbound_ctx \<Rightarrow> bool" where
  "allow_private_ips_enabled env ctx =
     (case env (env_var ctx) of
        Some v \<Rightarrow> trim v = ''1'' \<or> to_lowercase (trim v) = ''true''
      | None \<Rightarrow> False)"

fun first_nonblank :: "environment \<Rightarrow> string list \<Rightarrow> string option" where
  "first_nonblank env [] = None"
| "first_nonblank env (name # names) =
     (case env name of
        Some v \<Rightarrow> if trim v \<noteq> [] then Some (trim v) else first_nonblank env names
      | None \<Rightarrow> first_nonblank env names)"

definition private_cidr_allowlist_value :: "environment \<Rightarrow> string option" where
  "private_cidr_allowlist_value env =
     first_nonblank env [''AK_SSRF_ALLOW_PRIVATE_CIDRS'', ''UPSTREAM_PRIVATE_IP_ALLOWLIST'']"

definition private_ip_allowed :: "environment \<Rightarrow> ip_addr \<Rightarrow> outbound_ctx \<Rightarrow> bool" where
  "private_ip_allowed env ip ctx =
     (if ctx = TrustedInternal then True
      else case private_cidr_allowlist_value env of
             Some lst \<Rightarrow> cidr_list_contains lst ip
           | None \<Rightarrow> allow_private_ips_enabled env ctx)"

definition is_hard_blocked_ipv4 :: "ipv4 \<Rightarrow> bool" where
  "is_hard_blocked_ipv4 v4 =
     (if ipv4_is_loopback v4 \<or> ipv4_is_link_local v4 \<or> ipv4_is_unspecified v4 \<or> ipv4_is_broadcast v4
      then True
      else octets v4 \<in> set CLOUD_METADATA_IPS)"

definition is_cgnat_ipv4 :: "ipv4 \<Rightarrow> bool" where
  "is_cgnat_ipv4 v4 \<longleftrightarrow> octet 0 v4 = 100 \<and> octet 1 v4 AND 0xC0 = 0x40"

definition is_blocked_ipv4 :: "environment \<Rightarrow> ipv4 \<Rightarrow> outbound_ctx \<Rightarrow> bool" where
  "is_blocked_ipv4 env v4 ctx =
     (if is_hard_blocked_ipv4 v4 then True
      else if ipv4_is_private v4 then \<not> private_ip_allowed env (V4 v4) ctx
      else if is_cgnat_ipv4 v4 then \<not> private_ip_allowed env (V4 v4) ctx
      else False)"

definition is_blocked_ipv6 :: "environment \<Rightarrow> ipv6 \<Rightarrow> outbound_ctx \<Rightarrow> bool" where
  "is_blocked_ipv6 env v6 ctx =
     (if ipv6_is_loopback v6 \<or> ipv6_is_unspecified v6 then True
      else if segment 0 v6 AND 0xFFC0 = 0xFE80 then True
      else if segment 0 v6 AND 0xFE00 = 0xFC00 then \<not> private_ip_allowed env (V6 v6) ctx
      else case to_ipv4_mapped v6 of
             Some v4 \<Rightarrow> is_blocked_ipv4 env v4 ctx
           | None \<Rightarrow> (case to_ipv4 v6 of Some v4 \<Rightarrow> is_blocked_ipv4 env v4 ctx | None \<Rightarrow> False))"

definition is_blocked_ip_in :: "environment \<Rightarrow> ip_addr \<Rightarrow> outbound_ctx \<Rightarrow> bool" where
  "is_blocked_ip_in env ip ctx =
     (case ip of V4 v4 \<Rightarrow> is_blocked_ipv4 env v4 ctx | V6 v6 \<Rightarrow> is_blocked_ipv6 env v6 ctx)"

section \<open>Host strings and URLs\<close>

fun blocked_host_name :: "string list \<Rightarrow> string \<Rightarrow> bool" where
  "blocked_host_name [] host = False"
| "blocked_host_name (b # bs) host =
     (if host = b \<or> ends_with (CHR ''.'' # b) host then True else blocked_host_name bs host)"

fun first_blocked :: "(ip_addr \<Rightarrow> bool) \<Rightarrow> ip_addr list \<Rightarrow> block_reason option" where
  "first_blocked blocked [] = None"
| "first_blocked blocked (ip # ips) = (if blocked ip then Some (Ip ip) else first_blocked blocked ips)"

definition bare_host :: "string \<Rightarrow> string" where
  "bare_host host =
     unwrap_or (Option.bind (strip_prefix ''['' host) (strip_suffix '']'')) host"

definition is_blocked_host_str ::
  "environment \<Rightarrow> (string \<Rightarrow> ip_addr list option) \<Rightarrow> string \<Rightarrow> outbound_ctx \<Rightarrow> block_reason option" where
  "is_blocked_host_str env dns host ctx =
     (let host_normalized = trim_end_matches (CHR ''.'') (to_lowercase host)
      in if blocked_host_name BLOCKED_HOSTS host_normalized then Some (Hostname host)
         else case parse_ip (bare_host host) of
                Some ip \<Rightarrow> if is_blocked_ip_in env ip ctx then Some (Ip ip) else None
              | None \<Rightarrow>
                  (case dns host_normalized of
                     Some ips \<Rightarrow> first_blocked (\<lambda>ip. is_blocked_ip_in env ip ctx) ips
                   | None \<Rightarrow> None))"

definition is_blocked_url_in ::
  "environment \<Rightarrow> (string \<Rightarrow> ip_addr list option) \<Rightarrow> url \<Rightarrow> outbound_ctx \<Rightarrow> block_reason option" where
  "is_blocked_url_in env dns u ctx =
     (case url_host u of None \<Rightarrow> None | Some host \<Rightarrow> is_blocked_host_str env dns host ctx)"

text \<open>\<open>Display\<close> of an address occurs in an error text only; \<open>show_ip\<close> stands for it.\<close>

definition block_reason_to_error :: "(ip_addr \<Rightarrow> string) \<Rightarrow> string \<Rightarrow> block_reason \<Rightarrow> app_error" where
  "block_reason_to_error show_ip label reason =
     (case reason of
        Hostname host \<Rightarrow> Validation (label @ '' host '' @ [CHR 0x27] @ host @ [CHR 0x27] @ '' is not allowed'')
      | Ip ip \<Rightarrow> Validation (label @ '' IP '' @ [CHR 0x27] @ show_ip ip @ [CHR 0x27]
                            @ '' is not allowed (private/internal network)''))"

definition validate_outbound_url_with ::
  "environment \<Rightarrow> (string \<Rightarrow> ip_addr list option) \<Rightarrow> (ip_addr \<Rightarrow> string) \<Rightarrow> (string \<Rightarrow> url option)
   \<Rightarrow> string \<Rightarrow> string \<Rightarrow> outbound_ctx \<Rightarrow> unit app_result" where
  "validate_outbound_url_with env dns show_ip parse_url url_str label ctx =
     (case parse_url url_str of
        None \<Rightarrow> Err (Validation (''Invalid '' @ label))
      | Some parsed \<Rightarrow>
          if url_scheme parsed \<noteq> ''http'' \<and> url_scheme parsed \<noteq> ''https''
          then Err (Validation (label @ '' must use http or https''))
          else if url_host parsed = None then Err (Validation (label @ '' must have a host''))
          else (case is_blocked_url_in env dns parsed ctx of
                  Some reason \<Rightarrow> Err (block_reason_to_error show_ip label reason)
                | None \<Rightarrow> Ok ()))"

definition ldap_authority_host :: "string \<Rightarrow> string" where
  "ldap_authority_host authority =
     (if starts_with ''['' authority then
        (case split_once (CHR '']'') authority of
           Some (a, _) \<Rightarrow> a @ '']''
         | None \<Rightarrow> authority)
      else case rsplit_once (CHR '':'') authority of
             Some (h, _) \<Rightarrow> h
           | None \<Rightarrow> authority)"

definition validate_outbound_ldap_url ::
  "environment \<Rightarrow> (string \<Rightarrow> ip_addr list option) \<Rightarrow> (ip_addr \<Rightarrow> string)
   \<Rightarrow> string \<Rightarrow> string \<Rightarrow> unit app_result" where
  "validate_outbound_ldap_url env dns show_ip url_str label =
     (case (case strip_prefix ''ldaps://'' url_str of
              Some rest \<Rightarrow> Some rest
            | None \<Rightarrow> strip_prefix ''ldap://'' url_str) of
        None \<Rightarrow> Err (Validation (label @ '' must use ldap or ldaps''))
      | Some remainder \<Rightarrow>
          (let authority = hd (split_chars [CHR ''/'', CHR ''?'', CHR 0x23] remainder);
               authority = last (split_chars [CHR ''@''] authority);
               host = ldap_authority_host authority
           in if host = [] then Err (Validation (label @ '' must have a host''))
              else (case is_blocked_host_str env dns host Upstream of
                      Some reason \<Rightarrow> Err (block_reason_to_error show_ip label reason)
                    | None \<Rightarrow> Ok ())))"

definition validate_outbound_url where
  "validate_outbound_url env dns show_ip parse_url url_str label =
     validate_outbound_url_with env dns show_ip parse_url url_str label Upstream"

definition validate_outbound_webhook_url where
  "validate_outbound_webhook_url env dns show_ip parse_url url_str label =
     validate_outbound_url_with env dns show_ip parse_url url_str label Webhook"

definition sso_guidance :: string where
  "sso_guidance = ''. The identity provider resolves to a private/internal address. If this IdP is trusted, allow it by setting AK_SSRF_ALLOW_PRIVATE_CIDRS to the IdP host/CIDR (preferred, e.g. AK_SSRF_ALLOW_PRIVATE_CIDRS=10.10.0.8/32) or SSO_ALLOW_PRIVATE_IPS=true to allow all private IPs for SSO. Cloud metadata, loopback and link-local addresses stay blocked.''"

definition validate_outbound_sso_url where
  "validate_outbound_sso_url env dns show_ip parse_url url_str label =
     (case validate_outbound_url_with env dns show_ip parse_url url_str label SsoDiscovery of
        Inr u \<Rightarrow> Ok ()
      | Inl (Validation msg) \<Rightarrow>
          if str_contains ''private/internal network'' msg then Err (Validation (msg @ sso_guidance))
          else Err (Validation msg)
      | Inl other \<Rightarrow> Err other)"

section \<open>Facts\<close>

lemma cgnat_mask: "(b :: 8 word) AND 0xC0 = 0x40 \<longleftrightarrow> unat b div 64 = 1"
proof -
  have "push_bit 6 (- 1) = (0xC0 :: 8 word)" by code_simp
  then have "b AND 0xC0 = 0x40 \<longleftrightarrow> b AND push_bit 6 (- 1) = 0x40 AND push_bit 6 (- 1)"
    by (simp only:) (simp)
  then show ?thesis by (simp only: and_push_bit_eq_iff) (simp add: drop_bit_eq_unat unat_drop_bit)
qed

lemma cgnat_iff: "is_cgnat_ipv4 v \<longleftrightarrow> ipv4_in_prefix 0x64400000 v 10"
proof -
  define y where "y = unat v div 65536"
  have y: "y div 256 < 256" "unat v div 16777216 = y div 256" "unat v div 4194304 = y div 64" "unat v div 65536 = y"
    using ipv4_bound[of v] unfolding y_def by (simp_all flip: div_mult2_eq)
  have "is_cgnat_ipv4 v \<longleftrightarrow> y div 256 = 100 \<and> y mod 256 div 64 = 1"
    unfolding is_cgnat_ipv4_def cgnat_mask using y by (simp add: word_unat_eq_iff unat_octet)
  also have "\<dots> \<longleftrightarrow> y div 64 = 401"
    using split_octets(2)[of y] digit_pair[of "y mod 256 div 64" 64 1 "y div 256" 100] digit_pair[of "y mod 256 div 64" 4 1 "y div 256" 100] by simp
  finally show ?thesis using y by (auto simp: ipv4_in_prefix_iff)
qed



lemma to_ipv4_mapped_imp: "to_ipv4_mapped v = Some w \<Longrightarrow> to_ipv4 v = Some w"
  by (auto simp: to_ipv4_mapped_def to_ipv4_def split: if_splits)

lemma to_ipv4_Some: "to_ipv4 v = Some w \<Longrightarrow> segment 0 v = 0"
  by (auto simp: to_ipv4_def intro!: segment_embedded split: if_splits)

lemma to_ipv4_embedded [simp]:
  "to_ipv4 (ipv4_mapped v) = Some v" "to_ipv4 (ipv4_compatible v) = Some v"
  using to_ipv4_mapped_imp[OF to_mapped] by (simp_all add: ipv4_compatible_def to_ipv4_def)

text \<open>
  The intended classification. \<open>canonical_ip\<close> unwraps an IPv4 address written inside an IPv6
  literal; \<open>hard_blocked\<close> lists what no configuration may open, \<open>internal_ip\<close> what an operator may.
\<close>

definition canonical_ip :: "ip_addr \<Rightarrow> ip_addr" where
  "canonical_ip ip =
     (case ip of V4 v \<Rightarrow> V4 v | V6 v \<Rightarrow> (case to_ipv4 v of Some w \<Rightarrow> V4 w | None \<Rightarrow> V6 v))"

definition hard_blocked :: "ip_addr \<Rightarrow> bool" where
  "hard_blocked ip \<longleftrightarrow>
     ip = V6 0 \<or> ip = V6 1
     \<or> (case canonical_ip ip of
           V4 v \<Rightarrow> is_hard_blocked_ipv4 v
         | V6 v \<Rightarrow> ipv6_in_prefix 0xFE800000000000000000000000000000 v 10)"

definition internal_ip :: "ip_addr \<Rightarrow> bool" where
  "internal_ip ip \<longleftrightarrow>
     (case canonical_ip ip of
        V4 v \<Rightarrow> ipv4_in_prefix 0x0A000000 v 8 \<or> ipv4_in_prefix 0xAC100000 v 12
                \<or> ipv4_in_prefix 0xC0A80000 v 16 \<or> ipv4_in_prefix 0x64400000 v 10
      | V6 v \<Rightarrow> ipv6_in_prefix 0xFC000000000000000000000000000000 v 7)"

lemma is_blocked_ipv4_iff:
  "is_blocked_ipv4 env v ctx \<longleftrightarrow>
   is_hard_blocked_ipv4 v \<or> (internal_ip (V4 v) \<and> \<not> private_ip_allowed env (V4 v) ctx)"
  by (auto simp: is_blocked_ipv4_def internal_ip_def canonical_ip_def private_iff cgnat_iff)

lemma is_blocked_ipv6_embedded:
  assumes "to_ipv4 v = Some w" and "v \<noteq> 0" and "v \<noteq> 1"
  shows "is_blocked_ipv6 env v ctx \<longleftrightarrow> is_blocked_ipv4 env w ctx"
  using assms to_ipv4_Some[OF assms(1)] to_ipv4_mapped_imp[of v]
  by (auto simp: is_blocked_ipv6_def ipv6_is_loopback_def ipv6_is_unspecified_def split: option.splits)

lemma ipv6_link_local_not_ula:
  "ipv6_in_prefix 0xFE800000000000000000000000000000 v 10 \<Longrightarrow>
   \<not> ipv6_in_prefix 0xFC000000000000000000000000000000 v 7"
proof -
  have "unat v div 2 ^ 121 = unat v div 2 ^ 118 div 8"
    by (simp flip: div_mult2_eq)
  then show "ipv6_in_prefix 0xFE800000000000000000000000000000 v 10 \<Longrightarrow> ?thesis"
    by (auto simp: ipv6_in_prefix_iff)
qed

lemma cidr_entries_contain_iff:
  "cidr_entries_contain es ip \<longleftrightarrow> (\<exists>e \<in> set es. cidr_contains (trim e) ip = Ok True)"
proof (induction es)
  case Nil
  then show ?case by simp
next
  case (Cons e es)
  have "cidr_contains [] ip = Err ''invalid IP''" by (simp add: cidr_contains_def parse_ip_Nil)
  then show ?case using Cons
    by (cases "trim e = []") (auto simp: Let_def split: sum.splits bool.splits)
qed

text \<open>What a matching allowlist entry looks like: the address itself, or a prefix of at least one bit.\<close>

definition same_prefix :: "ip_addr \<Rightarrow> ip_addr \<Rightarrow> nat \<Rightarrow> bool" where
  "same_prefix net ip p \<longleftrightarrow>
     (case (net, ip) of
        (V4 a, V4 b) \<Rightarrow> p \<le> 32 \<and> unat a div 2 ^ (32 - p) = unat b div 2 ^ (32 - p)
      | (V6 a, V6 b) \<Rightarrow> p \<le> 128 \<and> unat a div 2 ^ (128 - p) = unat b div 2 ^ (128 - p)
      | _ \<Rightarrow> False)"

lemma cidr_contains_True:
  assumes "cidr_contains e ip = Ok True"
  shows "parse_ip e = Some ip
         \<or> (\<exists>a ps net p. split_once (CHR ''/'') e = Some (a, ps) \<and> parse_ip a = Some net
                \<and> parse_u8 ps = Some p \<and> 1 \<le> p \<and> same_prefix net ip p)"
proof (cases "split_once (CHR ''/'') e")
  case None
  then show ?thesis using assms by (auto simp: cidr_contains_def split: option.splits)
next
  case (Some ap)
  obtain a ps where ap: "ap = (a, ps)" by (cases ap)
  then obtain net p where np: "parse_ip a = Some net" "parse_u8 ps = Some p"
    using assms Some by (auto simp: cidr_contains_def split: option.splits)
  then have "p \<noteq> 0" "same_prefix net ip p"
    using assms Some ap
    by (auto simp: cidr_contains_def same_prefix_def ipv4_in_prefix_iff ipv6_in_prefix_iff
        split: if_splits ip_addr.splits)
  then show ?thesis using Some ap np by (auto intro!: exI[of _ p])
qed

lemma first_blocked_None: "first_blocked blocked ips = None \<longleftrightarrow> (\<forall>ip \<in> set ips. \<not> blocked ip)"
  by (induction ips) auto

lemma blocked_host_name_iff:
  "blocked_host_name bs host \<longleftrightarrow> (\<exists>b \<in> set bs. host = b \<or> suffix (CHR ''.'' # b) host)"
  by (induction bs) auto

text \<open>What it means that a host string is acceptable for a surface.\<close>

definition host_acceptable ::
  "environment \<Rightarrow> (string \<Rightarrow> ip_addr list option) \<Rightarrow> string \<Rightarrow> outbound_ctx \<Rightarrow> bool" where
  "host_acceptable env dns host ctx \<longleftrightarrow>
     (let name = trim_end_matches (CHR ''.'') (to_lowercase host)
      in (\<forall>b \<in> set BLOCKED_HOSTS. name \<noteq> b \<and> \<not> suffix (CHR ''.'' # b) name)
         \<and> (case parse_ip (bare_host host) of
               Some ip \<Rightarrow> \<not> is_blocked_ip_in env ip ctx
             | None \<Rightarrow> (\<forall>ips. dns name = Some ips \<longrightarrow> (\<forall>ip \<in> set ips. \<not> is_blocked_ip_in env ip ctx))))"

lemma is_blocked_host_str_None:
  "is_blocked_host_str env dns host ctx = None \<longleftrightarrow> host_acceptable env dns host ctx"
  unfolding is_blocked_host_str_def host_acceptable_def Let_def
  by (auto simp: blocked_host_name_iff first_blocked_None split: option.splits)

lemma ssrf_classification_iff:
  "is_blocked_ip_in env ip ctx \<longleftrightarrow>
   hard_blocked ip \<or> (internal_ip ip \<and> \<not> private_ip_allowed env (canonical_ip ip) ctx)"
proof (cases ip)
  case (V4 v)
  then show ?thesis
    by (simp add: is_blocked_ip_in_def is_blocked_ipv4_iff hard_blocked_def canonical_ip_def)
next
  case (V6 v)
  show ?thesis
  proof (cases "v = 0 \<or> v = 1")
    case True
    then show ?thesis using V6
      by (auto simp: is_blocked_ip_in_def hard_blocked_def is_blocked_ipv6_def
          ipv6_is_loopback_def ipv6_is_unspecified_def)
  next
    case nonzero: False
    show ?thesis
    proof (cases "to_ipv4 v")
      case None
      then have "to_ipv4_mapped v = None" using to_ipv4_mapped_imp by (cases "to_ipv4_mapped v") auto
      then show ?thesis using V6 None nonzero ipv6_link_local_not_ula[of v]
        by (simp add: is_blocked_ip_in_def hard_blocked_def internal_ip_def canonical_ip_def
            is_blocked_ipv6_def ipv6_is_loopback_def ipv6_is_unspecified_def link_local_iff ula_iff)
    next
      case (Some w)
      then show ?thesis using V6 nonzero
        by (simp add: is_blocked_ip_in_def is_blocked_ipv6_embedded is_blocked_ipv4_iff
            hard_blocked_def internal_ip_def canonical_ip_def)
    qed
  qed
qed

section \<open>Properties\<close>


text \<open>Writing a refused IPv4 address as an IPv4-mapped or IPv4-compatible IPv6 address does not
  get it through, in any environment and for any surface.\<close>

lemma ssrf_no_ipv6_bypass:
  assumes "is_blocked_ip_in env (V4 v) ctx"
  shows "is_blocked_ip_in env (V6 (ipv4_mapped v)) ctx \<and> is_blocked_ip_in env (V6 (ipv4_compatible v)) ctx"
proof -
  have "hard_blocked (V6 x) \<or> (internal_ip (V6 x) \<and> \<not> private_ip_allowed env (V4 v) ctx)"
    if "to_ipv4 x = Some v" for x
    using assms that unfolding ssrf_classification_iff
    by (auto simp: hard_blocked_def internal_ip_def canonical_ip_def)
  then show ?thesis
    unfolding ssrf_classification_iff by (simp add: canonical_ip_def)
qed

lemma ssrf_no_ipv6_bypass_witness:
  "is_blocked_ip_in (\<lambda>_. None) (V6 (ipv4_mapped 0xA9FEA9FE)) Webhook
   \<and> is_blocked_ip_in (\<lambda>_. None) (V6 (ipv4_compatible 0xA9FEA9FE)) Webhook"
  by (rule ssrf_no_ipv6_bypass) code_simp


text \<open>With an allowlist configured, a private address is let through on an ordinary surface only
  by an entry that names it or shares with it a prefix of at least one bit: an all-addresses entry
  and a malformed entry admit nothing, and the blanket toggle is not consulted.\<close>

lemma allowlist_is_precise:
  assumes "ctx \<noteq> TrustedInternal" and "private_cidr_allowlist_value env = Some lst"
    and "private_ip_allowed env ip ctx"
  shows "\<exists>e \<in> set (split_chars [CHR '',''] lst).
           parse_ip (trim e) = Some ip
           \<or> (\<exists>a ps net p. split_once (CHR ''/'') (trim e) = Some (a, ps) \<and> parse_ip a = Some net
                  \<and> parse_u8 ps = Some p \<and> 1 \<le> p \<and> same_prefix net ip p)"
proof -
  have "cidr_list_contains lst ip" using assms by (simp add: private_ip_allowed_def)
  then obtain e where e: "e \<in> set (split_chars [CHR '',''] lst)" "cidr_contains (trim e) ip = Ok True"
    by (auto simp: cidr_list_contains_def cidr_entries_contain_iff)
  show ?thesis using cidr_contains_True[OF e(2)] by (rule bexI) (rule e(1))
qed

definition demo_env :: environment where
  "demo_env name =
     (if name = ''AK_SSRF_ALLOW_PRIVATE_CIDRS'' then Some ''192.168.0.0/16'' else None)"

lemma demo_env_allowlist: "private_cidr_allowlist_value demo_env = Some ''192.168.0.0/16''"
  by code_simp

lemma demo_entry: "cidr_contains ''192.168.0.0/16'' (V4 0xC0A80105) = Ok True"
proof -
  have "parse_ip ''192.168.0.0'' = Some (V4 0xC0A80000)" by code_simp
  moreover have "split_once (CHR ''/'') ''192.168.0.0/16'' = Some (''192.168.0.0'', ''16'')" by simp
  moreover have "parse_u8 ''16'' = Some 16" by code_simp
  ultimately show ?thesis by (simp add: cidr_contains_def ipv4_in_prefix_iff)
qed

lemma demo_env_allowed: "private_ip_allowed demo_env (V4 0xC0A80105) Upstream"
proof -
  have "trim ''192.168.0.0/16'' = ''192.168.0.0/16''" by code_simp
  then show ?thesis
    using demo_entry by (simp add: private_ip_allowed_def demo_env_allowlist cidr_list_contains_def)
qed

lemma allowlist_is_precise_witness:
  "\<exists>e \<in> set (split_chars [CHR '',''] ''192.168.0.0/16'').
     parse_ip (trim e) = Some (V4 0xC0A80105)
     \<or> (\<exists>a ps net p. split_once (CHR ''/'') (trim e) = Some (a, ps) \<and> parse_ip a = Some net
            \<and> parse_u8 ps = Some p \<and> 1 \<le> p \<and> same_prefix net (V4 0xC0A80105) p)"
  by (rule allowlist_is_precise[OF _ demo_env_allowlist demo_env_allowed]) simp

text \<open>A URL that passes validation uses http or https and names a host that is on no block list,
  is no refused address literal, and had no refused address among those it resolved to.\<close>

lemma validated_url_is_acceptable:
  assumes "validate_outbound_url_with env dns show_ip parse_url url_str label ctx = Ok ()"
  shows "\<exists>u host. parse_url url_str = Some u \<and> url_scheme u \<in> {''http'', ''https''}
           \<and> url_host u = Some host \<and> host_acceptable env dns host ctx"
  using assms
  by (auto simp: validate_outbound_url_with_def is_blocked_url_in_def is_blocked_host_str_None
      split: option.splits if_splits)

definition demo_parse_url :: "string \<Rightarrow> url option" where
  "demo_parse_url s =
     (if s = ''https://8.8.8.8/x'' then Some \<lparr>url_scheme = ''https'', url_host = Some ''8.8.8.8''\<rparr> else None)"

lemma validated_url_is_acceptable_witness:
  "\<exists>u host. demo_parse_url ''https://8.8.8.8/x'' = Some u \<and> url_scheme u \<in> {''http'', ''https''}
     \<and> url_host u = Some host \<and> host_acceptable (\<lambda>_. None) (\<lambda>_. None) host Upstream"
  by (rule validated_url_is_acceptable[of _ _ "\<lambda>_. []" _ _ "''u''"]) code_simp

text \<open>The AWS metadata address in the unique-local range is not among the hard-blocked addresses:
  every surface refuses it exactly when it refuses an ordinary private address, so the surface for
  trusted internal services always reaches it and the others do once private addresses are
  allowed for them.\<close>

lemma ipv6_metadata_address_open:
  "\<not> is_blocked_ip_in env (V6 0xFD000EC2000000000000000000000254) TrustedInternal
   \<and> is_blocked_ip_in env (V6 0xFD000EC2000000000000000000000254) Upstream
       = (\<not> private_ip_allowed env (V6 0xFD000EC2000000000000000000000254) Upstream)
   \<and> is_blocked_ip_in (\<lambda>v. if v = ''UPSTREAM_ALLOW_PRIVATE_IPS'' then Some ''true'' else None)
         (V6 0xFD000EC2000000000000000000000254) Upstream = False"
proof -
  have "to_ipv4 0xFD000EC2000000000000000000000254 = None" by code_simp
  then have can: "canonical_ip (V6 0xFD000EC2000000000000000000000254) = V6 0xFD000EC2000000000000000000000254"
    by (simp add: canonical_ip_def)
  have hard: "\<not> hard_blocked (V6 0xFD000EC2000000000000000000000254)"
    by (simp add: hard_blocked_def can ipv6_in_prefix_iff)
  have internal: "internal_ip (V6 0xFD000EC2000000000000000000000254)"
    by (simp add: internal_ip_def can ipv6_in_prefix_iff)
  have "private_ip_allowed (\<lambda>v. if v = ''UPSTREAM_ALLOW_PRIVATE_IPS'' then Some ''true'' else None)
      (V6 0xFD000EC2000000000000000000000254) Upstream" by code_simp
  then show ?thesis
    unfolding ssrf_classification_iff using hard internal by (simp add: can private_ip_allowed_def)
qed

end
