(* ===== verification/Ssrf_Dns.thy ===== *)
theory Ssrf_Dns
  imports Outbound
begin

text \<open>
  The connect-time DNS guard (\<open>services/ssrf_dns.rs\<close>): a resolver that drops every looked-up
  address the policy of its mode refuses. The lookup itself (\<open>tokio::net::lookup_host\<close>) is a
  parameter; its failure is the left summand.
\<close>

datatype resolver_mode = RUpstream | RTrustedInternal | RWebhook | RSsoDiscovery

record ssrf_guard_resolver =
  rmode :: resolver_mode
  exempt_proxy_hosts :: "string list"

type_synonym socket_addr = "ip_addr \<times> nat"

datatype resolve_error = LookupFailed string | PermissionDenied string

section \<open>The egress-proxy exemption\<close>

fun after_first :: "string \<Rightarrow> string \<Rightarrow> string option" where
  "after_first p [] = (if p = [] then Some [] else None)"
| "after_first p (c # cs) =
     (case strip_prefix p (c # cs) of Some r \<Rightarrow> Some r | None \<Rightarrow> after_first p cs)"

definition proxy_host_token :: "string \<Rightarrow> string option" where
  "proxy_host_token value =
     (let v = trim value
      in if v = [] then None
         else
           let after_scheme = unwrap_or (after_first ''://'' v) v;
               after_userinfo =
                 (case rsplit_once (CHR ''@'') after_scheme of Some (_, r) \<Rightarrow> r | None \<Rightarrow> after_scheme);
               hostport = hd (split_chars [CHR ''/'', CHR ''?'', CHR 0x23] after_userinfo);
               host =
                 (case strip_prefix ''['' hostport of
                    Some rest \<Rightarrow> (case split_once (CHR '']'') rest of Some (h, _) \<Rightarrow> h | None \<Rightarrow> rest)
                  | None \<Rightarrow> (case split_once (CHR '':'') hostport of Some (h, _) \<Rightarrow> h | None \<Rightarrow> hostport));
               host = trim host
           in if host = [] then None else Some (to_lowercase host))"

definition proxy_vars :: "string list" where
  "proxy_vars = [''HTTP_PROXY'', ''http_proxy'', ''HTTPS_PROXY'', ''https_proxy'', ''ALL_PROXY'', ''all_proxy'']"

definition configured_proxy_hosts :: "environment \<Rightarrow> string list" where
  "configured_proxy_hosts env =
     remdups (List.map_filter (\<lambda>var. Option.bind (env var) proxy_host_token) proxy_vars)"

definition host_is_exempt :: "string list \<Rightarrow> string \<Rightarrow> bool" where
  "host_is_exempt exempt host \<longleftrightarrow> exempt \<noteq> [] \<and> to_lowercase host \<in> set exempt"

definition with_mode :: "environment \<Rightarrow> resolver_mode \<Rightarrow> ssrf_guard_resolver" where
  "with_mode env mode = \<lparr>rmode = mode, exempt_proxy_hosts = configured_proxy_hosts env\<rparr>"

section \<open>Filtering\<close>

fun mode_ctx :: "resolver_mode \<Rightarrow> outbound_ctx" where
  "mode_ctx RUpstream = Upstream"
| "mode_ctx RTrustedInternal = TrustedInternal"
| "mode_ctx RWebhook = Webhook"
| "mode_ctx RSsoDiscovery = SsoDiscovery"

definition is_blocked_for :: "environment \<Rightarrow> resolver_mode \<Rightarrow> ip_addr \<Rightarrow> bool" where
  "is_blocked_for env mode ip = is_blocked_ip_in env ip (mode_ctx mode)"

definition filter_allowed :: "environment \<Rightarrow> resolver_mode \<Rightarrow> socket_addr list \<Rightarrow> socket_addr list" where
  "filter_allowed env mode addrs = filter (\<lambda>sa. \<not> is_blocked_for env mode (fst sa)) addrs"

definition resolve ::
  "environment \<Rightarrow> (string \<Rightarrow> string + socket_addr list) \<Rightarrow> ssrf_guard_resolver \<Rightarrow> string
   \<Rightarrow> resolve_error + socket_addr list" where
  "resolve env lookup_host r name =
     (case lookup_host name of
        Inl e \<Rightarrow> Err (LookupFailed e)
      | Inr resolved \<Rightarrow>
          if host_is_exempt (exempt_proxy_hosts r) name then Ok resolved
          else
            let allowed = filter_allowed env (rmode r) resolved
            in if allowed = [] then Err (PermissionDenied ''all resolved addresses blocked by SSRF policy'')
               else Ok allowed)"

section \<open>The policy interface\<close>

text \<open>
  What the guard relies on: a refusal predicate that covers the addresses no configuration may
  open. Everything the guard promises follows from that law.
\<close>

locale address_policy =
  fixes refused :: "ip_addr \<Rightarrow> bool"
    and never_open :: "ip_addr \<Rightarrow> bool"
  assumes never_open_refused: "never_open ip \<Longrightarrow> refused ip"
begin

lemma kept_not_refused: "sa \<in> set (filter (\<lambda>sa. \<not> refused (fst sa)) addrs) \<Longrightarrow> \<not> refused (fst sa)"
  by simp

lemma kept_not_never_open:
  "sa \<in> set (filter (\<lambda>sa. \<not> refused (fst sa)) addrs) \<Longrightarrow> \<not> never_open (fst sa)"
  using never_open_refused by auto

lemma all_refused_empty:
  "filter (\<lambda>sa. \<not> refused (fst sa)) addrs = [] \<longleftrightarrow> (\<forall>sa \<in> set addrs. refused (fst sa))"
  by (auto simp: filter_empty_conv)

end

interpretation guard: address_policy "is_blocked_for env mode" hard_blocked for env mode
  by unfold_locales (simp add: is_blocked_for_def ssrf_classification_iff)

section \<open>Properties\<close>

text \<open>For a host that is not the configured egress proxy, a successful resolution returns a
  non-empty sublist of the looked-up addresses, none of them refused in the resolver's mode and none
  of them hard blocked, in whatever mode and environment.\<close>

lemma resolver_returns_only_allowed:
  assumes "resolve env lookup_host r name = Ok addrs"
    and "\<not> host_is_exempt (exempt_proxy_hosts r) name"
  shows "\<exists>resolved. lookup_host name = Ok resolved
           \<and> addrs = filter (\<lambda>sa. \<not> is_blocked_for env (rmode r) (fst sa)) resolved
           \<and> addrs \<noteq> [] \<and> (\<forall>sa \<in> set addrs. \<not> hard_blocked (fst sa))"
proof -
  obtain resolved where res: "lookup_host name = Ok resolved"
    and addrs: "addrs = filter_allowed env (rmode r) resolved" "addrs \<noteq> []"
    using assms by (auto simp: resolve_def Let_def split: sum.splits if_splits)
  then show ?thesis
    using guard.kept_not_never_open[of _ env "rmode r" resolved] unfolding filter_allowed_def by blast
qed

definition demo_lookup :: "string \<Rightarrow> string + socket_addr list" where
  "demo_lookup host = Ok [(V4 0x7F000001, 0), (V4 0x08080808, 0)]"

lemma demo_filter:
  "filter_allowed (\<lambda>_. None) RUpstream [(V4 0x7F000001, 0), (V4 0x08080808, 0)] = [(V4 0x08080808, 0)]"
  by code_simp

lemma demo_not_exempt: "\<not> host_is_exempt (configured_proxy_hosts (\<lambda>_. None)) ''rebind.example''"
  by code_simp

lemma demo_resolve:
  "resolve (\<lambda>_. None) demo_lookup (with_mode (\<lambda>_. None) RUpstream) ''rebind.example'' = Ok [(V4 0x08080808, 0)]"
  using demo_not_exempt demo_filter by (simp add: resolve_def demo_lookup_def with_mode_def)

lemma resolver_returns_only_allowed_witness:
  "\<exists>resolved. demo_lookup ''rebind.example'' = Ok resolved
     \<and> [(V4 0x08080808, 0)] = filter (\<lambda>sa. \<not> is_blocked_for (\<lambda>_. None) RUpstream (fst sa)) resolved
     \<and> [(V4 0x08080808, 0 :: nat)] \<noteq> [] \<and> (\<forall>sa \<in> set [(V4 0x08080808, 0 :: nat)]. \<not> hard_blocked (fst sa))"
  using resolver_returns_only_allowed[OF demo_resolve] demo_not_exempt by (simp add: with_mode_def)

text \<open>When every address a host resolves to is refused, resolution fails and no connection is
  made, unless the host is the configured egress proxy; that exemption is by exact name and needs a
  configured proxy.\<close>

lemma resolver_fails_closed:
  assumes "lookup_host name = Ok resolved"
    and "\<forall>sa \<in> set resolved. is_blocked_for env mode (fst sa)"
    and "\<forall>var \<in> set proxy_vars. Option.bind (env var) proxy_host_token \<noteq> Some (to_lowercase name)"
  shows "resolve env lookup_host (with_mode env mode) name =
         Err (PermissionDenied ''all resolved addresses blocked by SSRF policy'')"
proof -
  have "to_lowercase name \<notin> set (configured_proxy_hosts env)"
    using assms(3) by (auto simp: configured_proxy_hosts_def List.map_filter_def)
  moreover have "filter_allowed env mode resolved = []"
    using assms(2) guard.all_refused_empty unfolding filter_allowed_def by blast
  ultimately show ?thesis
    using assms(1) by (simp add: resolve_def with_mode_def host_is_exempt_def)
qed

lemma resolver_fails_closed_witness:
  "resolve (\<lambda>_. None) (\<lambda>_. Ok [(V4 0x7F000001, 0)]) (with_mode (\<lambda>_. None) RTrustedInternal) ''internal'' =
   Err (PermissionDenied ''all resolved addresses blocked by SSRF policy'')"
  by (rule resolver_fails_closed[OF refl]) code_simp+

end
