(* ===== verification/Rate_Limit.thy ===== *)
theory Rate_Limit
  imports Ip_Addr
begin

text \<open>
  The rate-limiting middleware (\<open>api/middleware/rate_limit.rs\<close>): the fixed-window limiter, the
  exemptions, the resolution of the client address behind trusted proxies, and the three middleware
  functions. Times are nanoseconds of a monotonic clock; the rendering of an address
  (\<open>show_ip\<close>) and the extraction of \<open>username\<close> from a JSON body (\<open>json_username\<close>, from
  \<open>serde_json\<close>) are parameters.
\<close>

section \<open>CIDR ranges\<close>

record cidr_range =
  network :: ip_addr
  prefix_len :: nat

definition max_prefix :: "ip_addr \<Rightarrow> nat" where
  "max_prefix ip = (case ip of V4 _ \<Rightarrow> 32 | V6 _ \<Rightarrow> 128)"

text \<open>The constructors stand for the four error texts of \<open>CidrRange::parse\<close>.\<close>

datatype cidr_error =
    MissingSlash string
  | InvalidIp string
  | InvalidPrefixLength string
  | PrefixTooLong nat nat string

definition cidr_parse :: "string \<Rightarrow> cidr_error + cidr_range" where
  "cidr_parse s =
     (case split_once (CHR ''/'') s of
        None \<Rightarrow> Err (MissingSlash s)
      | Some (addr_str, prefix_str) \<Rightarrow>
          (case parse_ip addr_str of
             None \<Rightarrow> Err (InvalidIp addr_str)
           | Some net \<Rightarrow>
               (case parse_u8 prefix_str of
                  None \<Rightarrow> Err (InvalidPrefixLength prefix_str)
                | Some p \<Rightarrow>
                    if max_prefix net < p then Err (PrefixTooLong p (max_prefix net) addr_str)
                    else Ok \<lparr>network = net, prefix_len = p\<rparr>)))"

definition cidr_range_contains :: "cidr_range \<Rightarrow> ip_addr \<Rightarrow> bool" where
  "cidr_range_contains r ip =
     (case (network r, ip) of
        (V4 net, V4 v) \<Rightarrow>
          (let m = (if prefix_len r = 0 then 0 else prefix_mask (prefix_len r)) in net AND m = v AND m)
      | (V6 net, V6 v) \<Rightarrow>
          (let m = (if prefix_len r = 0 then 0 else prefix_mask (prefix_len r)) in net AND m = v AND m)
      | _ \<Rightarrow> False)"

section \<open>Exemptions\<close>

record auth_extension =
  auth_user_id :: string
  auth_username :: string
  auth_is_service_account :: bool

record rate_limit_exemptions =
  usernames :: "string list"
  exempt_service_accounts :: bool
  trusted_cidrs :: "cidr_range list"

definition is_exempt :: "rate_limit_exemptions \<Rightarrow> auth_extension \<Rightarrow> bool" where
  "is_exempt ex auth =
     (if auth_username auth \<in> set (usernames ex) then True
      else if exempt_service_accounts ex \<and> auth_is_service_account auth then True
      else False)"

definition is_trusted_cidr :: "rate_limit_exemptions \<Rightarrow> ip_addr \<Rightarrow> bool" where
  "is_trusted_cidr ex ip = list_ex (\<lambda>c. cidr_range_contains c ip) (trusted_cidrs ex)"

section \<open>The limiter\<close>

definition nanos :: nat where
  "nanos = 1000000000"

record rate_limiter =
  requests :: "string \<rightharpoonup> nat \<times> nat"
  max_requests :: nat
  window_secs :: nat

definition new_limiter :: "nat \<Rightarrow> nat \<Rightarrow> rate_limiter" where
  "new_limiter mx secs = \<lparr>requests = Map.empty, max_requests = mx, window_secs = secs\<rparr>"

definition window :: "rate_limiter \<Rightarrow> nat" where
  "window l = window_secs l * nanos"

text \<open>The left result is the number of seconds to wait, the right one the remaining budget.\<close>

definition check_rate_limit :: "rate_limiter \<Rightarrow> nat \<Rightarrow> string \<Rightarrow> (nat + nat) \<times> rate_limiter" where
  "check_rate_limit l now key =
     (let (count, start) = unwrap_or (requests l key) (0, now);
          l = l\<lparr>requests := (requests l)(key \<mapsto> (count, start))\<rparr>
      in if window l \<le> now - start then
           (Ok (max_requests l - 1), l\<lparr>requests := (requests l)(key \<mapsto> (1, now))\<rparr>)
         else if max_requests l \<le> count then
           (Err (max (window_secs l - (now - start) div nanos) 1), l)
         else
           (Ok (max_requests l - (count + 1)), l\<lparr>requests := (requests l)(key \<mapsto> (count + 1, start))\<rparr>))"

definition cleanup_expired :: "rate_limiter \<Rightarrow> nat \<Rightarrow> rate_limiter" where
  "cleanup_expired l now =
     l\<lparr>requests := (\<lambda>k. case requests l k of
                          Some (c, start) \<Rightarrow> if now - start < window l then Some (c, start) else None
                        | None \<Rightarrow> None)\<rparr>"

section \<open>Client addresses\<close>

text \<open>A request as the middleware sees it: the socket peer, the forwarding header, the caller and
  the body (nothing when it cannot be read).\<close>

record http_request =
  peer :: "ip_addr option"
  x_forwarded_for :: "string option"
  caller :: "auth_extension option"
  body :: "string option"

definition first_xff_token :: "http_request \<Rightarrow> string option" where
  "first_xff_token req =
     (case x_forwarded_for req of
        None \<Rightarrow> None
      | Some h \<Rightarrow>
          (let tok = trim (hd (split_chars [CHR '',''] h)) in if tok = [] then None else Some tok))"

definition peer_is_trusted_proxy :: "http_request \<Rightarrow> cidr_range list \<Rightarrow> bool" where
  "peer_is_trusted_proxy req trusted =
     (if trusted = [] then False
      else case peer req of
             None \<Rightarrow> False
           | Some p \<Rightarrow> list_ex (\<lambda>c. cidr_range_contains c p) trusted)"

definition resolve_client_ip_addr :: "http_request \<Rightarrow> cidr_range list \<Rightarrow> ip_addr option" where
  "resolve_client_ip_addr req trusted =
     (case peer req of
        Some p \<Rightarrow>
          (if list_ex (\<lambda>c. cidr_range_contains c p) trusted then
             (case Option.bind (first_xff_token req) parse_ip of Some ip \<Rightarrow> Some ip | None \<Rightarrow> Some p)
           else Some p)
      | None \<Rightarrow> Option.bind (first_xff_token req) parse_ip)"

definition extract_client_ip :: "(ip_addr \<Rightarrow> string) \<Rightarrow> http_request \<Rightarrow> cidr_range list \<Rightarrow> string" where
  "extract_client_ip show_ip req trusted =
     (case resolve_client_ip_addr req trusted of
        Some ip \<Rightarrow> ''ip:'' @ show_ip ip
      | None \<Rightarrow>
          if peer req = None \<or> peer_is_trusted_proxy req trusted then
            (case first_xff_token req of Some tok \<Rightarrow> ''ip:'' @ tok | None \<Rightarrow> ''ip:unknown'')
          else ''ip:unknown'')"

section \<open>The middleware\<close>

record rate_limit_state =
  limiter :: rate_limiter
  exemptions :: rate_limit_exemptions
  enabled :: bool
  trusted_proxies :: "cidr_range list"

text \<open>What becomes of a request: passed on untouched, passed on with the exemption tag, passed on
  with the limit and remaining headers, or answered with 429.\<close>

datatype outcome =
    Passed
  | Exempt string
  | Allowed nat nat
  | TooManyRequests nat nat

definition check_rate_limit_exemptions ::
  "rate_limit_exemptions \<Rightarrow> http_request \<Rightarrow> cidr_range list \<Rightarrow> string option" where
  "check_rate_limit_exemptions ex req trusted =
     (if (case caller req of Some auth \<Rightarrow> is_exempt ex auth | None \<Rightarrow> False) then Some ''true''
      else if trusted_cidrs ex \<noteq> [] then
        (case resolve_client_ip_addr req trusted of
           Some ip \<Rightarrow> if is_trusted_cidr ex ip then Some ''trusted-cidr'' else None
         | None \<Rightarrow> None)
      else None)"

definition limited :: "rate_limit_state \<Rightarrow> nat \<Rightarrow> string \<Rightarrow> outcome \<times> rate_limit_state" where
  "limited st now key =
     (case check_rate_limit (limiter st) now key of
        (Inr remaining, l) \<Rightarrow> (Allowed (max_requests (limiter st)) remaining, st\<lparr>limiter := l\<rparr>)
      | (Inl retry, l) \<Rightarrow> (TooManyRequests retry (max_requests (limiter st)), st\<lparr>limiter := l\<rparr>))"

definition rate_limit_middleware ::
  "(ip_addr \<Rightarrow> string) \<Rightarrow> rate_limit_state \<Rightarrow> nat \<Rightarrow> http_request \<Rightarrow> outcome \<times> rate_limit_state" where
  "rate_limit_middleware show_ip st now req =
     (if \<not> enabled st then (Passed, st)
      else case check_rate_limit_exemptions (exemptions st) req (trusted_proxies st) of
             Some tag \<Rightarrow> (Exempt tag, st)
           | None \<Rightarrow>
               limited st now
                 (case caller req of
                    Some auth \<Rightarrow> ''user:'' @ auth_user_id auth
                  | None \<Rightarrow> extract_client_ip show_ip req (trusted_proxies st)))"

definition rate_limit_by_ip_middleware ::
  "(ip_addr \<Rightarrow> string) \<Rightarrow> rate_limit_state \<Rightarrow> nat \<Rightarrow> http_request \<Rightarrow> outcome \<times> rate_limit_state" where
  "rate_limit_by_ip_middleware show_ip st now req =
     (if \<not> enabled st then (Passed, st)
      else case check_rate_limit_exemptions (exemptions st) req (trusted_proxies st) of
             Some tag \<Rightarrow> (Exempt tag, st)
           | None \<Rightarrow> limited st now (extract_client_ip show_ip req (trusted_proxies st)))"

record login_rate_limit_state =
  inner :: rate_limit_state
  backstop :: rate_limiter

definition LOGIN_BODY_PEEK_LIMIT :: nat where
  "LOGIN_BODY_PEEK_LIMIT = 64 * 1024"

definition login_rate_limit_key :: "string \<Rightarrow> string \<Rightarrow> string" where
  "login_rate_limit_key username client_ip = ''login:'' @ username @ ''|'' @ client_ip"

definition run_login_with_key ::
  "login_rate_limit_state \<Rightarrow> nat \<Rightarrow> string \<Rightarrow> outcome \<times> login_rate_limit_state" where
  "run_login_with_key st now key =
     (case check_rate_limit (backstop st) now ''login:global'' of
        (Inl retry, b) \<Rightarrow>
          (TooManyRequests retry (max_requests (backstop st)), st\<lparr>backstop := b\<rparr>)
      | (Inr _, b) \<Rightarrow>
          (case limited (inner st) now key of
             (out, i) \<Rightarrow> (out, st\<lparr>backstop := b, inner := i\<rparr>)))"

definition login_rate_limit_middleware ::
  "(ip_addr \<Rightarrow> string) \<Rightarrow> (string \<Rightarrow> string option) \<Rightarrow> login_rate_limit_state \<Rightarrow> nat \<Rightarrow> http_request
   \<Rightarrow> outcome \<times> login_rate_limit_state" where
  "login_rate_limit_middleware show_ip json_username st now req =
     (if \<not> enabled (inner st) then (Passed, st)
      else case check_rate_limit_exemptions (exemptions (inner st)) req (trusted_proxies (inner st)) of
             Some tag \<Rightarrow> (Exempt tag, st)
           | None \<Rightarrow>
               (let client_ip = extract_client_ip show_ip req (trusted_proxies (inner st))
                in case body req of
                     None \<Rightarrow> run_login_with_key st now client_ip
                   | Some bytes \<Rightarrow>
                       if LOGIN_BODY_PEEK_LIMIT < length bytes then run_login_with_key st now client_ip
                       else (case json_username bytes of
                               Some name \<Rightarrow> run_login_with_key st now (login_rate_limit_key name client_ip)
                             | None \<Rightarrow> run_login_with_key st now client_ip)))"

section \<open>The fixed-window contract\<close>

text \<open>
  A history of the limiter: requests and clean-up runs in clock order. \<open>admissions\<close> lists the
  admitted requests of a history for any implementation of the two operations.
\<close>

datatype event = Request nat string | Cleanup nat

fun event_time :: "event \<Rightarrow> nat" where
  "event_time (Request t k) = t"
| "event_time (Cleanup t) = t"

fun admissions ::
  "('s \<Rightarrow> nat \<Rightarrow> string \<Rightarrow> bool \<times> 's) \<Rightarrow> ('s \<Rightarrow> nat \<Rightarrow> 's) \<Rightarrow> 's \<Rightarrow> event list \<Rightarrow> (nat \<times> string) list" where
  "admissions req clean s [] = []"
| "admissions req clean s (Request t k # es) =
     (case req s t k of
        (True, s') \<Rightarrow> (t, k) # admissions req clean s' es
      | (False, s') \<Rightarrow> admissions req clean s' es)"
| "admissions req clean s (Cleanup t # es) = admissions req clean (clean s t) es"

lemma admissions_Request:
  "admissions req clean s (Request t k # es) =
     (if fst (req s t k) then [(t, k)] else []) @ admissions req clean (snd (req s t k)) es"
  by (cases "req s t k") (simp split: bool.splits)

definition admitted_between :: "nat \<Rightarrow> nat \<Rightarrow> string \<Rightarrow> (nat \<times> string) list \<Rightarrow> nat" where
  "admitted_between a b k adm = length (filter (\<lambda>(t, k'). k' = k \<and> a \<le> t \<and> t < b) adm)"

lemma admitted_between_simps [simp]:
  "admitted_between a b k [] = 0"
  "admitted_between a b k ((t, k') # adm) =
     (if k' = k \<and> a \<le> t \<and> t < b then 1 else 0) + admitted_between a b k adm"
  by (auto simp: admitted_between_def)

text \<open>
  The laws of a fixed-window limiter with budget \<open>M\<close> and window length \<open>W\<close>, over the entry
  (count, start of window) it keeps per key.
\<close>

locale fixed_window =
  fixes look :: "'s \<Rightarrow> string \<Rightarrow> (nat \<times> nat) option"
    and req :: "'s \<Rightarrow> nat \<Rightarrow> string \<Rightarrow> bool \<times> 's"
    and clean :: "'s \<Rightarrow> nat \<Rightarrow> 's"
    and inv :: "'s \<Rightarrow> bool"
    and M :: nat and W :: nat
  assumes req_inv: "inv s \<Longrightarrow> inv (snd (req s t k))"
    and clean_inv: "inv s \<Longrightarrow> inv (clean s t)"
    and req_other: "inv s \<Longrightarrow> k' \<noteq> k \<Longrightarrow> look (snd (req s t k)) k' = look s k'"
    and req_fresh: "inv s \<Longrightarrow> look s k = None \<Longrightarrow>
          (fst (req s t k) \<and> look (snd (req s t k)) k = Some (1, t) \<and> 1 \<le> M)
          \<or> (\<not> fst (req s t k) \<and> look (snd (req s t k)) k = Some (0, t))"
    and req_live: "inv s \<Longrightarrow> look s k = Some (c, ws) \<Longrightarrow> t - ws < W \<Longrightarrow>
          (fst (req s t k) \<and> look (snd (req s t k)) k = Some (c + 1, ws) \<and> c < M)
          \<or> (\<not> fst (req s t k) \<and> look (snd (req s t k)) k = Some (c, ws))"
    and req_expired: "inv s \<Longrightarrow> look s k = Some (c, ws) \<Longrightarrow> W \<le> t - ws \<Longrightarrow>
          fst (req s t k) \<and> look (snd (req s t k)) k = Some (1, t) \<and> 1 \<le> M"
    and clean_entry: "inv s \<Longrightarrow> look (clean s t) k =
          (case look s k of Some (c, ws) \<Rightarrow> if t - ws < W then Some (c, ws) else None | None \<Rightarrow> None)"
begin

definition entry_ok :: "'s \<Rightarrow> string \<Rightarrow> nat \<Rightarrow> bool" where
  "entry_ok s k t = (case look s k of Some (c, ws) \<Rightarrow> c \<le> M \<and> ws \<le> t | None \<Rightarrow> True)"

text \<open>What may still be admitted for \<open>k\<close> in \<open>[a, a + W)\<close> from time \<open>t\<close> on.\<close>

definition allowance :: "nat \<Rightarrow> 's \<Rightarrow> string \<Rightarrow> nat \<Rightarrow> nat" where
  "allowance a s k t =
     (if t < a then 2 * M
      else case look s k of
             None \<Rightarrow> M
           | Some (c, ws) \<Rightarrow> if a \<le> ws then M - c else (M - c) + M)"

lemma allowance_le: "allowance a s k t \<le> 2 * M"
  by (auto simp: allowance_def split: option.splits)

lemma req_entry_ok: "inv s \<Longrightarrow> entry_ok s k t0 \<Longrightarrow> t0 \<le> t \<Longrightarrow> entry_ok (snd (req s t k')) k t"
proof (cases "k' = k")
  case True
  assume s: "inv s" "entry_ok s k t0" "t0 \<le> t"
  show ?thesis
  proof (cases "look s k")
    case None
    then show ?thesis using req_fresh[OF s(1) None, of t] True by (auto simp: entry_ok_def)
  next
    case (Some e)
    then show ?thesis
      using req_live[OF s(1), of k "fst e" "snd e" t] req_expired[OF s(1), of k "fst e" "snd e" t] s True
      by (cases e; cases "t - snd e < W") (auto simp: entry_ok_def)
  qed
next
  case False
  assume "inv s" "entry_ok s k t0" "t0 \<le> t"
  then show ?thesis using False req_other[of s k k' t] by (auto simp: entry_ok_def split: option.splits)
qed

lemma req_allowance:
  assumes s: "inv s" "entry_ok s k t0" and t: "t0 \<le> t" "a \<le> t" "t < a + W"
  shows "(if fst (req s t k) then 1 else 0) + allowance a (snd (req s t k)) k t \<le> allowance a s k t0"
proof (cases "look s k")
  case None
  then show ?thesis using req_fresh[OF s(1) None, of t] t by (auto simp: allowance_def)
next
  case (Some e)
  obtain c ws where e: "e = (c, ws)" by (cases e)
  then have ok: "c \<le> M" "ws \<le> t0" using Some s by (auto simp: entry_ok_def)
  show ?thesis
  proof (cases "t - ws < W")
    case True
    then show ?thesis using req_live[OF s(1) Some[unfolded e] True] Some e ok t by (auto simp: allowance_def)
  next
    case False
    then have "ws < a" using t ok by linarith
    then show ?thesis using req_expired[OF s(1) Some[unfolded e], of t] False Some e ok t
      by (auto simp: allowance_def)
  qed
qed

lemma clean_allowance:
  assumes "inv s" "entry_ok s k t0" "t0 \<le> t" "t < a + W"
  shows "allowance a (clean s t) k t \<le> allowance a s k t0"
  using assms clean_entry[of s t k]
  by (cases "look s k") (auto simp: allowance_def entry_ok_def split: if_splits)

lemma late_admissions_none:
  assumes "\<forall>e \<in> set es. b \<le> event_time e"
  shows "admitted_between a b k (admissions req clean s es) = 0"
  using assms
proof (induction es arbitrary: s)
  case Nil
  then show ?case by simp
next
  case (Cons e es)
  then show ?case by (cases e) (simp_all add: admissions_Request del: admissions.simps(2))
qed

definition next_state :: "'s \<Rightarrow> event \<Rightarrow> 's" where
  "next_state s e = (case e of Request t k \<Rightarrow> snd (req s t k) | Cleanup t \<Rightarrow> clean s t)"

definition counted :: "nat \<Rightarrow> string \<Rightarrow> 's \<Rightarrow> event \<Rightarrow> nat" where
  "counted a k s e =
     (case e of
        Request t k' \<Rightarrow> if fst (req s t k') \<and> k' = k \<and> a \<le> t \<and> t < a + W then 1 else 0
      | Cleanup t \<Rightarrow> 0)"

lemma admitted_Cons:
  "admitted_between a (a + W) k (admissions req clean s (e # es)) =
   counted a k s e + admitted_between a (a + W) k (admissions req clean (next_state s e) es)"
  by (cases e) (simp_all add: admissions_Request next_state_def counted_def del: admissions.simps(2))

lemma next_inv: "inv s \<Longrightarrow> inv (next_state s e)"
  using req_inv clean_inv by (cases e) (auto simp: next_state_def)

lemma next_entry_ok:
  assumes "inv s" "entry_ok s k t0" "t0 \<le> event_time e"
  shows "entry_ok (next_state s e) k (event_time e)"
proof (cases e)
  case (Request u k')
  then show ?thesis using req_entry_ok[OF assms(1,2), of u k'] assms(3) by (simp add: next_state_def)
next
  case (Cleanup u)
  then show ?thesis using clean_entry[OF assms(1), of u k] assms(2,3)
    by (auto simp: next_state_def entry_ok_def split: option.splits if_splits)
qed

lemma counted_allowance:
  assumes "inv s" "entry_ok s k t0" "t0 \<le> event_time e" "event_time e < a + W"
  shows "counted a k s e + allowance a (next_state s e) k (event_time e) \<le> allowance a s k t0"
proof (cases "event_time e < a")
  case True
  then have "counted a k s e = 0" "allowance a s k t0 = 2 * M"
    using assms(3) by (auto simp: counted_def allowance_def split: event.splits)
  then show ?thesis using allowance_le by simp
next
  case False
  show ?thesis
  proof (cases e)
    case (Request u k')
    show ?thesis
    proof (cases "k' = k")
      case True
      then show ?thesis using req_allowance[OF assms(1,2), of u a] Request assms False
        by (simp add: next_state_def counted_def)
    next
      case other: False
      then have "look (next_state s e) k = look s k"
        using Request req_other[OF assms(1), of k k' u] by (simp add: next_state_def)
      moreover have "counted a k s e = 0" using other Request by (simp add: counted_def)
      ultimately show ?thesis using False assms(2,3)
        by (auto simp: allowance_def entry_ok_def split: option.splits)
    qed
  next
    case (Cleanup u)
    then show ?thesis using clean_allowance[OF assms(1,2), of u a] assms
      by (simp add: next_state_def counted_def)
  qed
qed

lemma budget_from:
  assumes "inv s" "entry_ok s k t0" "sorted (map event_time es)" "\<forall>e \<in> set es. t0 \<le> event_time e"
  shows "admitted_between a (a + W) k (admissions req clean s es) \<le> allowance a s k t0"
  using assms
proof (induction es arbitrary: s t0)
  case Nil
  then show ?case by simp
next
  case (Cons e es)
  have t: "t0 \<le> event_time e" and later: "sorted (map event_time es)" "\<forall>e' \<in> set es. event_time e \<le> event_time e'"
    using Cons.prems by auto
  show ?case
  proof (cases "event_time e < a + W")
    case True
    have "admitted_between a (a + W) k (admissions req clean (next_state s e) es)
          \<le> allowance a (next_state s e) k (event_time e)"
      using Cons.IH next_inv next_entry_ok Cons.prems(1,2) t later by blast
    then show ?thesis
      using counted_allowance[OF Cons.prems(1,2) t True] unfolding admitted_Cons by linarith
  next
    case False
    then have "\<forall>e' \<in> set (e # es). a + W \<le> event_time e'" using later by auto
    then show ?thesis by (subst late_admissions_none) auto
  qed
qed

lemma budget:
  assumes "inv s" "look s k = None" "sorted (map event_time es)"
  shows "admitted_between a (a + W) k (admissions req clean s es) \<le> 2 * M"
proof -
  have "admitted_between a (a + W) k (admissions req clean s es) \<le> allowance a s k 0"
    by (rule budget_from) (use assms in \<open>auto simp: entry_ok_def\<close>)
  then show ?thesis using allowance_le le_trans by blast
qed

end

section \<open>The limiter satisfies the contract\<close>

definition request_step :: "rate_limiter \<Rightarrow> nat \<Rightarrow> string \<Rightarrow> bool \<times> rate_limiter" where
  "request_step l t k = (case check_rate_limit l t k of (r, l') \<Rightarrow> (is_ok r, l'))"

lemma check_cases:
  assumes "requests l k = Some (c, ws)"
  shows "W = window_secs l * nanos \<Longrightarrow> W \<le> t - ws \<Longrightarrow> request_step l t k = (True, l\<lparr>requests := (requests l)(k \<mapsto> (1, t))\<rparr>)"
    and "W = window_secs l * nanos \<Longrightarrow> \<not> W \<le> t - ws \<Longrightarrow> max_requests l \<le> c \<Longrightarrow>
         request_step l t k = (False, l\<lparr>requests := (requests l)(k \<mapsto> (c, ws))\<rparr>)"
    and "W = window_secs l * nanos \<Longrightarrow> \<not> W \<le> t - ws \<Longrightarrow> \<not> max_requests l \<le> c \<Longrightarrow>
         request_step l t k = (True, l\<lparr>requests := (requests l)(k \<mapsto> (c + 1, ws))\<rparr>)"
  using assms by (simp_all add: request_step_def check_rate_limit_def window_def)

lemma request_step_fresh:
  assumes "requests l k = None"
  shows "request_step l t k =
     (if window_secs l * nanos = 0 then (True, l\<lparr>requests := (requests l)(k \<mapsto> (1, t))\<rparr>)
      else if max_requests l = 0 then (False, l\<lparr>requests := (requests l)(k \<mapsto> (0, t))\<rparr>)
      else (True, l\<lparr>requests := (requests l)(k \<mapsto> (1, t))\<rparr>))"
  using assms by (simp add: request_step_def check_rate_limit_def window_def)

lemma request_step_frame:
  "max_requests (snd (request_step l t k)) = max_requests l"
  "window_secs (snd (request_step l t k)) = window_secs l"
  "k' \<noteq> k \<Longrightarrow> requests (snd (request_step l t k)) k' = requests l k'"
  by (auto simp: request_step_def check_rate_limit_def Let_def split: prod.splits)

interpretation rl: fixed_window requests request_step cleanup_expired
  "\<lambda>l. max_requests l = mx \<and> window_secs l = secs" "max 1 mx" "secs * nanos" for mx secs
proof (unfold_locales, goal_cases)
  case (4 s k t)
  then show ?case using request_step_fresh[of s k t] by auto
next
  case (5 s k c ws t)
  then show ?case using check_cases[of s k c ws "secs * nanos" t] by (cases "mx \<le> c") auto
next
  case (6 s k c ws t)
  then show ?case using check_cases[of s k c ws "secs * nanos" t] by auto
next
  case (7 s t k)
  then show ?case by (auto simp: cleanup_expired_def window_def split: option.splits)
qed (auto simp: request_step_frame cleanup_expired_def)

section \<open>Properties\<close>

definition demo_state :: rate_limit_state where
  "demo_state =
     \<lparr>limiter = new_limiter 10 60,
      exemptions = \<lparr>usernames = [], exempt_service_accounts = False, trusted_cidrs = []\<rparr>,
      enabled = True, trusted_proxies = []\<rparr>"

definition demo_request :: http_request where
  "demo_request = \<lparr>peer = Some (V4 0xC0000201), x_forwarded_for = None, caller = None, body = None\<rparr>"

text \<open>C30: whatever mix of requests for any keys and clean-up runs a fresh limiter processes in clock
  order, at most twice the configured budget of one key is admitted in any span of one window
  (a budget of zero counts as one).\<close>

theorem rate_limit_budget:
  assumes "sorted (map event_time es)"
  shows "admitted_between a (a + secs * nanos) k
           (admissions request_step cleanup_expired (new_limiter mx secs) es) \<le> 2 * max 1 mx"
  using rl.budget[of "new_limiter mx secs" mx secs k es a] assms by (simp add: new_limiter_def)

theorem rate_limit_budget_witness:
  "admitted_between 0 (0 + 1 * nanos) ''k''
     (admissions request_step cleanup_expired (new_limiter 1 1)
        [Request 0 ''k'', Request 1 ''k'', Request 2 ''j'', Cleanup 5, Request 1000000000 ''k'']) \<le> 2 * max 1 1"
  by (rule rate_limit_budget) simp

text \<open>A rejection names a number of seconds between one and the window length, and once that many
  seconds have passed a request for the same key is admitted if the entry has not changed.\<close>

lemma retry_after_is_honest:
  assumes "check_rate_limit l now key = (Err retry, l')" and "now + retry * nanos \<le> later"
    and "snd (unwrap_or (requests l key) (0, now)) \<le> now"
  shows "1 \<le> retry \<and> retry \<le> window_secs l
         \<and> (\<exists>remaining l''. check_rate_limit l' later key = (Ok remaining, l''))"
proof -
  obtain c ws where e: "unwrap_or (requests l key) (0, now) = (c, ws)"
    by (cases "unwrap_or (requests l key) (0, now)")
  have res: "now - ws < window_secs l * nanos" "retry = max (window_secs l - (now - ws) div nanos) 1"
    "l' = l\<lparr>requests := (requests l)(key \<mapsto> (c, ws))\<rparr>"
    using assms(1) e by (auto simp: check_rate_limit_def window_def Let_def split: if_splits)
  have secs: "(now - ws) div nanos < window_secs l"
    using res(1) by (simp add: div_less_iff_less_mult nanos_def)
  then have retry: "retry + (now - ws) div nanos = window_secs l" using res(2) by simp
  have "(now - ws) div nanos * nanos \<le> now - ws" by simp
  then have "window_secs l * nanos \<le> retry * nanos + (now - ws)"
    unfolding retry[symmetric] by (simp add: algebra_simps)
  moreover have "retry * nanos + (now - ws) \<le> later - ws" using assms(2,3) e by simp
  ultimately have "window_secs l * nanos \<le> later - ws" by linarith
  then show ?thesis using secs retry res(2,3) by (simp add: check_rate_limit_def window_def)
qed

lemma retry_after_is_honest_witness:
  "1 \<le> (30 :: nat) \<and> 30 \<le> window_secs \<lparr>requests = [''k'' \<mapsto> (5, 0)], max_requests = 5, window_secs = 60\<rparr>
   \<and> (\<exists>remaining l''. check_rate_limit
        \<lparr>requests = [''k'' \<mapsto> (5, 0)], max_requests = 5, window_secs = 60\<rparr> 60500000000 ''k'' = (Ok remaining, l''))"
  by (rule retry_after_is_honest[where now = 30500000000])
    (simp_all add: check_rate_limit_def window_def nanos_def fun_upd_idem)

text \<open>With a budget of zero the limiter refuses a new key but admits a request of that key each
  time a window has run out, because the branch that restarts a window does not look at the budget.\<close>

lemma zero_budget_still_admits:
  assumes "0 < secs" and "t + secs * nanos \<le> u"
  shows "fst (check_rate_limit (new_limiter 0 secs) t k) = Err secs
         \<and> fst (check_rate_limit (snd (check_rate_limit (new_limiter 0 secs) t k)) u k) = Ok 0"
  using assms by (simp add: check_rate_limit_def new_limiter_def window_def nanos_def Let_def)

lemma zero_budget_still_admits_witness:
  "fst (check_rate_limit (new_limiter 0 1) 5 ''k'') = Err 1
   \<and> fst (check_rate_limit (snd (check_rate_limit (new_limiter 0 1) 5 ''k'')) 2000000000 ''k'') = Ok 0"
  by (rule zero_budget_still_admits) (simp_all add: nanos_def)

text \<open>A client whose connection does not come from a trusted proxy cannot influence the key it is
  limited under: whatever it puts in the forwarding header, the key is that of its socket address
  (or its user), and the outcome and the limiter's next state are the same.\<close>

lemma untrusted_peer_cannot_steer_key:
  assumes "peer req = Some p" and "\<not> list_ex (\<lambda>c. cidr_range_contains c p) (trusted_proxies st)"
  shows "extract_client_ip show_ip req (trusted_proxies st) = ''ip:'' @ show_ip p
         \<and> rate_limit_middleware show_ip st now (req\<lparr>x_forwarded_for := xff\<rparr>) = rate_limit_middleware show_ip st now req
         \<and> rate_limit_by_ip_middleware show_ip st now (req\<lparr>x_forwarded_for := xff\<rparr>) = rate_limit_by_ip_middleware show_ip st now req"
proof -
  have ip: "resolve_client_ip_addr r (trusted_proxies st) = Some p"
    "extract_client_ip show_ip r (trusted_proxies st) = ''ip:'' @ show_ip p" if "peer r = Some p" for r
    using that assms(2) by (simp_all add: resolve_client_ip_addr_def extract_client_ip_def)
  have xff: "peer (req\<lparr>x_forwarded_for := xff\<rparr>) = Some p" using assms(1) by simp
  show ?thesis
    by (simp add: ip[OF assms(1)] ip[OF xff] rate_limit_middleware_def rate_limit_by_ip_middleware_def
        check_rate_limit_exemptions_def split: option.split)
qed

lemma untrusted_peer_cannot_steer_key_witness:
  "extract_client_ip (\<lambda>_. ''192.0.2.1'') demo_request (trusted_proxies demo_state) = ''ip:'' @ ''192.0.2.1''
   \<and> rate_limit_middleware (\<lambda>_. ''192.0.2.1'') demo_state 0 (demo_request\<lparr>x_forwarded_for := Some ''10.0.0.1''\<rparr>)
       = rate_limit_middleware (\<lambda>_. ''192.0.2.1'') demo_state 0 demo_request
   \<and> rate_limit_by_ip_middleware (\<lambda>_. ''192.0.2.1'') demo_state 0 (demo_request\<lparr>x_forwarded_for := Some ''10.0.0.1''\<rparr>)
       = rate_limit_by_ip_middleware (\<lambda>_. ''192.0.2.1'') demo_state 0 demo_request"
  by (rule untrusted_peer_cannot_steer_key[where p = "V4 0xC0000201"])
    (simp_all add: demo_request_def demo_state_def)

text \<open>Login attempts of different accounts, or of one account from different addresses, are
  counted apart: as long as the rendered client addresses contain no vertical bar, equal login keys
  mean equal account and equal address, and no login key is a key of the address or user limiter.\<close>

lemma login_keys_separate:
  assumes "CHR ''|'' \<notin> set ip" and "CHR ''|'' \<notin> set ip'"
  shows "(login_rate_limit_key u ip = login_rate_limit_key u' ip' \<longleftrightarrow> u = u' \<and> ip = ip')
         \<and> login_rate_limit_key u ip \<noteq> ''ip:'' @ x \<and> login_rate_limit_key u ip \<noteq> ''user:'' @ x"
proof -
  have split: "rsplit_once (CHR ''|'') (login_rate_limit_key w i) = Some (''login:'' @ w, i)"
    if "CHR ''|'' \<notin> set i" for w i
    using that by (simp add: login_rate_limit_key_def rsplit_once_Some)
  have "u = u' \<and> ip = ip'" if "login_rate_limit_key u ip = login_rate_limit_key u' ip'"
  proof -
    have "Some (''login:'' @ u, ip) = Some (''login:'' @ u', ip')"
      by (rule trans[OF split[OF assms(1), of u, symmetric]]) (subst that, rule split[OF assms(2)])
    then show ?thesis by simp
  qed
  then show ?thesis by (auto simp: login_rate_limit_key_def)
qed

lemma login_keys_separate_witness:
  "(login_rate_limit_key ''a|b'' ''ip:1'' = login_rate_limit_key ''a'' ''ip:2'' \<longleftrightarrow> ''a|b'' = ''a'' \<and> ''ip:1'' = ''ip:2'')
   \<and> login_rate_limit_key ''a|b'' ''ip:1'' \<noteq> ''ip:'' @ ''x'' \<and> login_rate_limit_key ''a|b'' ''ip:1'' \<noteq> ''user:'' @ ''x''"
  by (rule login_keys_separate) simp_all

end
