(* ===== verification/Scan_State.thy ===== *)
theory Scan_State
  imports Rust_Str
begin

text \<open>
  Severities of findings (models/security.rs) and the classification of an artifact's scan state from
  all of its scan rows (services/scan_state.rs), which the download and promotion gates share.
\<close>

section \<open>Severity\<close>

datatype severity = Critical | High | Medium | Low | Info

primrec severity_rank :: "severity \<Rightarrow> nat" where
  "severity_rank Critical = 0"
| "severity_rank High = 1"
| "severity_rank Medium = 2"
| "severity_rank Low = 3"
| "severity_rank Info = 4"

primrec penalty_weight :: "severity \<Rightarrow> int" where
  "penalty_weight Critical = 25"
| "penalty_weight High = 10"
| "penalty_weight Medium = 3"
| "penalty_weight Low = 1"
| "penalty_weight Info = 0"

definition from_str_loose :: "string \<Rightarrow> severity option" where
  "from_str_loose s =
     (let l = to_lowercase s in
      if l = ''critical'' then Some Critical
      else if l = ''high'' then Some High
      else if l = ''medium'' \<or> l = ''moderate'' then Some Medium
      else if l = ''low'' then Some Low
      else if l = ''info'' \<or> l = ''informational'' \<or> l = ''none'' then Some Info
      else None)"

primrec severity_str :: "severity \<Rightarrow> string" where
  "severity_str Critical = ''critical''"
| "severity_str High = ''high''"
| "severity_str Medium = ''medium''"
| "severity_str Low = ''low''"
| "severity_str Info = ''info''"

definition meets_threshold :: "severity \<Rightarrow> severity \<Rightarrow> bool" where
  "meets_threshold s threshold \<longleftrightarrow> severity_rank s \<le> severity_rank threshold"

instantiation severity :: linorder
begin

definition less_eq_severity :: "severity \<Rightarrow> severity \<Rightarrow> bool" where
  "less_eq_severity a b \<longleftrightarrow> severity_rank a \<le> severity_rank b"

definition less_severity :: "severity \<Rightarrow> severity \<Rightarrow> bool" where
  "less_severity a b \<longleftrightarrow> severity_rank a < severity_rank b"

lemma severity_rank_inj: "severity_rank a = severity_rank b \<Longrightarrow> a = b"
  by (cases a; cases b; simp)

instance
proof
  fix x y :: severity
  show "x \<le> y \<Longrightarrow> y \<le> x \<Longrightarrow> x = y"
    by (simp add: less_eq_severity_def severity_rank_inj)
qed (auto simp: less_eq_severity_def less_severity_def)

end

lemma meets_threshold_le: "meets_threshold s t \<longleftrightarrow> s \<le> t"
  by (simp add: meets_threshold_def less_eq_severity_def)

lemma from_str_loose_str [simp]: "from_str_loose (severity_str s) = Some s"
  by (cases s; simp only:; code_simp)

lemma severity_str_inj [simp]: "severity_str a = severity_str b \<longleftrightarrow> a = b"
  by (metis from_str_loose_str option.inject)

section \<open>Scan state\<close>

definition NOT_APPLICABLE_STATUS :: string where
  "NOT_APPLICABLE_STATUS = ''not_applicable''"

definition NOT_APPLICABLE_MARKER :: string where
  "NOT_APPLICABLE_MARKER = ''does not apply''"

record scan_state_row =
  row_status :: string
  row_error_message :: "string option"

definition is_not_applicable :: "scan_state_row \<Rightarrow> bool" where
  "is_not_applicable r =
     (if row_status r = NOT_APPLICABLE_STATUS then True
      else row_status r = ''failed''
           \<and> unwrap_or (map_option (\<lambda>m. str_contains m NOT_APPLICABLE_MARKER) (row_error_message r)) False)"

datatype scan_state = Completed | InProgress | Failed | NeverScanned | NotApplicable

definition is_unscanned :: "scan_state \<Rightarrow> bool" where
  "is_unscanned s \<longleftrightarrow> s = InProgress \<or> s = Failed \<or> s = NeverScanned"

fun reason_token :: "scan_state \<Rightarrow> string" where
  "reason_token Completed = ''completed''"
| "reason_token InProgress = ''scan_in_progress''"
| "reason_token Failed = ''scan_failed''"
| "reason_token NeverScanned = ''never_scanned''"
| "reason_token NotApplicable = ''not_applicable''"

definition classify_scan_state :: "scan_state_row list \<Rightarrow> scan_state" where
  "classify_scan_state rows =
     (if list_ex (\<lambda>r. row_status r = ''completed'') rows then Completed
      else if list_ex (\<lambda>r. row_status r = ''pending'' \<or> row_status r = ''running'') rows then InProgress
      else if list_ex (\<lambda>r. row_status r = ''failed'' \<and> \<not> is_not_applicable r) rows then Failed
      else if rows = [] then NeverScanned
      else NotApplicable)"

text \<open>The statuses the schema's CHECK constraint admits.\<close>

definition SCAN_STATUSES :: "string list" where
  "SCAN_STATUSES = [''pending'', ''running'', ''completed'', ''failed'', ''not_applicable'']"

text \<open>For rows the schema admits, an artifact counts as scanned exactly when one scan completed, or
  there are scans and each of them says that its scanner does not apply; the classification does
  not depend on the order of the rows, and adding a completed scan always settles it.\<close>

lemma scan_state_complete:
  assumes "\<forall>r\<in>set rows. row_status r \<in> set SCAN_STATUSES"
  shows "(\<not> is_unscanned (classify_scan_state rows) \<longleftrightarrow>
            (\<exists>r\<in>set rows. row_status r = ''completed'')
            \<or> (rows \<noteq> [] \<and> (\<forall>r\<in>set rows. is_not_applicable r)))
         \<and> (mset rows' = mset rows \<longrightarrow> classify_scan_state rows' = classify_scan_state rows)
         \<and> classify_scan_state (xs @ \<lparr>row_status = ''completed'', row_error_message = e\<rparr> # rows) = Completed"
proof -
  define C P F where "C r \<longleftrightarrow> row_status r = ''completed''"
    and "P r \<longleftrightarrow> row_status r = ''pending'' \<or> row_status r = ''running''"
    and "F r \<longleftrightarrow> row_status r = ''failed'' \<and> \<not> is_not_applicable r" for r
  have classify: "classify_scan_state rows =
      (if Bex (set rows) C then Completed else if Bex (set rows) P then InProgress
       else if Bex (set rows) F then Failed else if set rows = {} then NeverScanned else NotApplicable)" for rows
    by (auto simp: classify_scan_state_def list_ex_iff C_def P_def F_def)
  have na: "is_not_applicable r \<Longrightarrow> \<not> C r \<and> \<not> P r \<and> \<not> F r" for r
  proof -
    assume r: "is_not_applicable r"
    then have "row_status r = ''failed'' \<or> row_status r = ''not_applicable''"
      unfolding is_not_applicable_def NOT_APPLICABLE_STATUS_def by presburger
    then show ?thesis using r by (elim disjE) (simp_all add: C_def P_def F_def)
  qed
  have split: "C r \<or> P r \<or> F r \<or> is_not_applicable r" if "r \<in> set rows" for r
  proof -
    have "row_status r = ''pending'' \<or> row_status r = ''running'' \<or> row_status r = ''completed''
        \<or> row_status r = ''failed'' \<or> row_status r = ''not_applicable''"
      using assms that by (simp add: SCAN_STATUSES_def)
    then show ?thesis
      by (elim disjE) (simp_all add: C_def P_def F_def is_not_applicable_def NOT_APPLICABLE_STATUS_def)
  qed
  have "\<not> is_unscanned (classify_scan_state rows) \<longleftrightarrow>
      Bex (set rows) C \<or> (set rows \<noteq> {} \<and> (\<forall>r\<in>set rows. is_not_applicable r))"
    unfolding classify is_unscanned_def using split na by (auto split: if_splits)
  then have "\<not> is_unscanned (classify_scan_state rows) \<longleftrightarrow>
      (\<exists>r\<in>set rows. row_status r = ''completed'') \<or> (rows \<noteq> [] \<and> (\<forall>r\<in>set rows. is_not_applicable r))"
    by (simp add: C_def)
  moreover have "mset rows' = mset rows \<longrightarrow> classify_scan_state rows' = classify_scan_state rows"
    by (auto simp: classify dest: mset_eq_setD)
  moreover have "classify_scan_state (xs @ \<lparr>row_status = ''completed'', row_error_message = e\<rparr> # rows) = Completed"
    by (simp add: classify_scan_state_def)
  ultimately show ?thesis by blast
qed

definition failed_row :: scan_state_row where
  "failed_row = \<lparr>row_status = ''failed'', row_error_message = Some ''timeout''\<rparr>"

lemma scan_state_complete_witness:
  "is_unscanned (classify_scan_state [failed_row])
   \<and> classify_scan_state ([failed_row] @ \<lparr>row_status = ''completed'', row_error_message = None\<rparr> # [failed_row]) = Completed"
proof -
  have "\<not> is_not_applicable failed_row" by code_simp
  moreover have "\<forall>r\<in>set [failed_row]. row_status r \<in> set SCAN_STATUSES" by (simp add: failed_row_def SCAN_STATUSES_def)
  ultimately show ?thesis
    using scan_state_complete[of "[failed_row]" _ "[failed_row]" None] by (simp add: failed_row_def)
qed

end
