(* ===== verification/Scan_Policy.thy ===== *)
theory Scan_Policy
  imports Scan_State App_Error
begin

text \<open>
  The tables the download gate reads and the policy service (services/policy_service.rs): evaluation
  of an artifact against the scan policies and the operations on the policy table. A table is the
  list of its rows; a query is a function of the database, and fails with the message the table's
  outage carries. Identifiers are numbers, times are milliseconds; generated identifiers and the
  clock are arguments. The count columns of the latest scan, which the service selects but never
  reads, are left out.
\<close>

section \<open>Tables\<close>

type_synonym uuid = nat
type_synonym timestamp = int

datatype table = ScanPolicies | ScanResults | ScanFindings | Artifacts | Repositories | RepositoryConfig

record scan_policy =
  pol_id :: uuid
  pol_name :: string
  pol_repository :: "uuid option"
  max_severity :: string
  block_unscanned :: bool
  block_on_fail :: bool
  pol_enabled :: bool
  min_staging_hours :: "int option"
  max_artifact_age_days :: "int option"
  require_signature :: bool
  pol_created_at :: timestamp
  pol_updated_at :: timestamp

record scan_result =
  scan_artifact :: uuid
  scan_status :: string
  scan_error_message :: "string option"
  scan_created_at :: timestamp

record scan_finding =
  finding_artifact :: uuid
  finding_severity :: string
  is_acknowledged :: bool

record artifact =
  art_id :: uuid
  art_repository :: uuid
  is_deleted :: bool
  quarantine_status :: "string option"
  quarantine_until_ts :: "timestamp option"
  quarantine_reason :: "string option"

record database =
  scan_policies :: "scan_policy list"
  scan_results :: "scan_result list"
  scan_findings :: "scan_finding list"
  artifacts :: "artifact list"
  repositories :: "(uuid \<times> string) list"
  repository_config :: "(uuid \<times> string \<times> string option) list"
  outage :: "table \<Rightarrow> string option"

definition db_query :: "database \<Rightarrow> table \<Rightarrow> 'a \<Rightarrow> 'a app_result" where
  "db_query db t rows = (case outage db t of Some m \<Rightarrow> Err (Database m) | None \<Rightarrow> Ok rows)"

lemma db_query_Ok [simp]: "db_query db t rows = Ok v \<longleftrightarrow> outage db t = None \<and> v = rows"
  by (auto simp: db_query_def split: option.splits)

section \<open>Evaluation\<close>

record policy_result =
  allowed :: bool
  violations :: "string list"

definition block_unscanned_violated :: "bool \<Rightarrow> scan_state \<Rightarrow> bool" where
  "block_unscanned_violated flag state \<longleftrightarrow> flag \<and> is_unscanned state"

definition ALLOWED_MAX_SEVERITIES :: "string list" where
  "ALLOWED_MAX_SEVERITIES = [''critical'', ''high'', ''medium'', ''low'']"

definition normalize_max_severity :: "string \<Rightarrow> string app_result" where
  "normalize_max_severity raw =
     (let normalized = to_lowercase (trim raw) in
      if normalized \<in> set ALLOWED_MAX_SEVERITIES then Ok normalized
      else Err (Validation (''invalid max_severity '' @ [CHR 0x27] @ raw @ [CHR 0x27]
              @ '': must be one of critical, high, medium, low'')))"

text \<open>The policies that apply to a repository: its own before the global ones.\<close>

definition applicable_policies :: "database \<Rightarrow> uuid \<Rightarrow> scan_policy list" where
  "applicable_policies db repo =
     filter (\<lambda>p. pol_enabled p \<and> pol_repository p = Some repo) (scan_policies db)
     @ filter (\<lambda>p. pol_enabled p \<and> pol_repository p = None) (scan_policies db)"

definition artifact_scans :: "database \<Rightarrow> uuid \<Rightarrow> scan_result list" where
  "artifact_scans db aid = filter (\<lambda>r. scan_artifact r = aid) (scan_results db)"

definition latest_scan :: "database \<Rightarrow> uuid \<Rightarrow> scan_result option" where
  "latest_scan db aid = max_by (by_column scan_created_at) (artifact_scans db aid)"

definition scan_state_rows :: "database \<Rightarrow> uuid \<Rightarrow> scan_state_row list" where
  "scan_state_rows db aid =
     map (\<lambda>r. \<lparr>row_status = scan_status r, row_error_message = scan_error_message r\<rparr>) (artifact_scans db aid)"

text \<open>The CASE expression of the counting query.\<close>

definition severities_at_or_above :: "string \<Rightarrow> string list" where
  "severities_at_or_above s =
     (if s = ''critical'' then [''critical'']
      else if s = ''high'' then [''critical'', ''high'']
      else if s = ''medium'' then [''critical'', ''high'', ''medium'']
      else if s = ''low'' then [''critical'', ''high'', ''medium'', ''low'']
      else [])"

definition violating_count :: "database \<Rightarrow> uuid \<Rightarrow> string \<Rightarrow> nat" where
  "violating_count db aid sev =
     length (filter (\<lambda>f. finding_artifact f = aid \<and> \<not> is_acknowledged f
                          \<and> finding_severity f \<in> set (severities_at_or_above sev)) (scan_findings db))"

definition policy_prefix :: "scan_policy \<Rightarrow> string" where
  "policy_prefix p = ''Policy '' @ [CHR 0x27] @ pol_name p @ [CHR 0x27] @ '': ''"

text \<open>One round of the loop over the policies.\<close>

definition policy_violation ::
  "database \<Rightarrow> uuid \<Rightarrow> scan_state \<Rightarrow> scan_result option \<Rightarrow> scan_policy \<Rightarrow> string list app_result" where
  "policy_violation db aid state latest p =
     (if block_unscanned_violated (block_unscanned p) state then
        Ok [policy_prefix p @ ''artifact has not been scanned ('' @ reason_token state @ '')'']
      else
        (case latest of
           None \<Rightarrow> Ok []
         | Some scan \<Rightarrow>
             if block_on_fail p \<and> scan_status scan = ''failed'' then
               Ok [policy_prefix p @ ''latest scan failed'']
             else if scan_status scan = ''completed'' then
               result_bind (db_query db ScanFindings (violating_count db aid (max_severity p)))
                 (\<lambda>n. if 0 < n then
                        Ok [policy_prefix p @ show_nat n @ '' findings at or above '' @ max_severity p @ '' severity'']
                      else Ok [])
             else Ok []))"

fun policy_violations ::
  "database \<Rightarrow> uuid \<Rightarrow> scan_state \<Rightarrow> scan_result option \<Rightarrow> scan_policy list \<Rightarrow> string list app_result" where
  "policy_violations db aid state latest [] = Ok []"
| "policy_violations db aid state latest (p # ps) =
     result_bind (policy_violation db aid state latest p)
       (\<lambda>v. result_bind (policy_violations db aid state latest ps) (\<lambda>vs. Ok (v @ vs)))"

definition evaluate_artifact :: "database \<Rightarrow> uuid \<Rightarrow> uuid \<Rightarrow> policy_result app_result" where
  "evaluate_artifact db aid repo =
     result_bind (db_query db ScanPolicies (applicable_policies db repo)) (\<lambda>policies.
       if policies = [] then Ok \<lparr>allowed = True, violations = []\<rparr>
       else result_bind (db_query db ScanResults (latest_scan db aid)) (\<lambda>latest.
         result_bind (db_query db ScanResults (scan_state_rows db aid)) (\<lambda>rows.
           result_bind (policy_violations db aid (classify_scan_state rows) latest policies) (\<lambda>vs.
             Ok \<lparr>allowed = (vs = []), violations = vs\<rparr>))))"

section \<open>Operations on the policy table\<close>

definition repository_exists_or_not_found :: "(uuid \<Rightarrow> string) \<Rightarrow> bool \<Rightarrow> uuid \<Rightarrow> unit app_result" where
  "repository_exists_or_not_found show_id found repo =
     (if found then Ok () else Err (NotFound (''Repository '' @ show_id repo @ '' not found'')))"

definition ensure_repository_exists :: "(uuid \<Rightarrow> string) \<Rightarrow> database \<Rightarrow> uuid \<Rightarrow> unit app_result" where
  "ensure_repository_exists show_id db repo =
     result_bind (db_query db Repositories (list_ex (\<lambda>(r, _). r = repo) (repositories db)))
       (\<lambda>found. repository_exists_or_not_found show_id found repo)"

record policy_input =
  in_name :: string
  in_repository :: "uuid option"
  in_max_severity :: string
  in_block_unscanned :: bool
  in_block_on_fail :: bool
  in_min_staging_hours :: "int option"
  in_max_artifact_age_days :: "int option"
  in_require_signature :: bool

definition create_policy ::
  "(uuid \<Rightarrow> string) \<Rightarrow> uuid \<Rightarrow> timestamp \<Rightarrow> policy_input \<Rightarrow> database \<Rightarrow> scan_policy app_result \<times> database" where
  "create_policy show_id new_id now inp db =
     (case result_bind (normalize_max_severity (in_max_severity inp)) (\<lambda>sev.
             result_bind (case in_repository inp of Some r \<Rightarrow> ensure_repository_exists show_id db r | None \<Rightarrow> Ok ())
               (\<lambda>_. db_query db ScanPolicies
                  \<lparr>pol_id = new_id, pol_name = in_name inp, pol_repository = in_repository inp, max_severity = sev,
                   block_unscanned = in_block_unscanned inp, block_on_fail = in_block_on_fail inp,
                   pol_enabled = True, min_staging_hours = in_min_staging_hours inp,
                   max_artifact_age_days = in_max_artifact_age_days inp,
                   require_signature = in_require_signature inp,
                   pol_created_at = now, pol_updated_at = now\<rparr>)) of
        Err e \<Rightarrow> (Err e, db)
      | Ok p \<Rightarrow> (Ok p, db\<lparr>scan_policies := scan_policies db @ [p]\<rparr>))"

definition list_policies :: "database \<Rightarrow> scan_policy list app_result" where
  "list_policies db = db_query db ScanPolicies (sort_by (by_column_desc pol_created_at) (scan_policies db))"

definition get_policy :: "database \<Rightarrow> uuid \<Rightarrow> scan_policy app_result" where
  "get_policy db i =
     result_bind (db_query db ScanPolicies (find (\<lambda>p. pol_id p = i) (scan_policies db)))
       (\<lambda>row. case row of Some p \<Rightarrow> Ok p | None \<Rightarrow> Err (NotFound ''Policy not found''))"

record policy_patch =
  patch_name :: "string option"
  patch_max_severity :: "string option"
  patch_block_unscanned :: "bool option"
  patch_block_on_fail :: "bool option"
  patch_enabled :: "bool option"
  patch_min_staging_hours :: "int option"
  patch_max_artifact_age_days :: "int option"
  patch_require_signature :: "bool option"

definition coalesce_opt :: "'a option \<Rightarrow> 'a option \<Rightarrow> 'a option" where
  "coalesce_opt a b = (case a of Some x \<Rightarrow> Some x | None \<Rightarrow> b)"

definition apply_patch :: "timestamp \<Rightarrow> policy_patch \<Rightarrow> string option \<Rightarrow> scan_policy \<Rightarrow> scan_policy" where
  "apply_patch now c sev p =
     p\<lparr>pol_name := unwrap_or (patch_name c) (pol_name p),
       max_severity := unwrap_or sev (max_severity p),
       block_unscanned := unwrap_or (patch_block_unscanned c) (block_unscanned p),
       block_on_fail := unwrap_or (patch_block_on_fail c) (block_on_fail p),
       pol_enabled := unwrap_or (patch_enabled c) (pol_enabled p),
       min_staging_hours := coalesce_opt (patch_min_staging_hours c) (min_staging_hours p),
       max_artifact_age_days := coalesce_opt (patch_max_artifact_age_days c) (max_artifact_age_days p),
       require_signature := unwrap_or (patch_require_signature c) (require_signature p),
       pol_updated_at := now\<rparr>"

definition transpose_result :: "('e + 'a) option \<Rightarrow> 'e + 'a option" where
  "transpose_result x = (case x of None \<Rightarrow> Ok None | Some (Ok v) \<Rightarrow> Ok (Some v) | Some (Err e) \<Rightarrow> Err e)"

definition update_policy ::
  "timestamp \<Rightarrow> uuid \<Rightarrow> policy_patch \<Rightarrow> database \<Rightarrow> scan_policy app_result \<times> database" where
  "update_policy now i c db =
     (case result_bind (transpose_result (map_option normalize_max_severity (patch_max_severity c))) (\<lambda>sev.
             result_bind (db_query db ScanPolicies
                 (map_option (apply_patch now c sev) (find (\<lambda>p. pol_id p = i) (scan_policies db))))
               (\<lambda>row. case row of Some p \<Rightarrow> Ok (sev, p) | None \<Rightarrow> Err (NotFound ''Policy not found''))) of
        Err e \<Rightarrow> (Err e, db)
      | Ok (sev, p) \<Rightarrow>
          (Ok p, db\<lparr>scan_policies :=
             map (\<lambda>q. if pol_id q = i then apply_patch now c sev q else q) (scan_policies db)\<rparr>))"

definition delete_policy :: "uuid \<Rightarrow> database \<Rightarrow> unit app_result \<times> database" where
  "delete_policy i db =
     (case db_query db ScanPolicies (filter (\<lambda>p. pol_id p \<noteq> i) (scan_policies db)) of
        Err e \<Rightarrow> (Err e, db)
      | Ok rest \<Rightarrow>
          if length rest = length (scan_policies db) then (Err (NotFound ''Policy not found''), db)
          else (Ok (), db\<lparr>scan_policies := rest\<rparr>))"

section \<open>What a violation is\<close>

text \<open>
  A policy is violated by an artifact that is not scanned, whose latest scan failed, or whose latest
  scan completed and which has an open finding at least as severe as the policy's threshold.
\<close>

definition violates :: "database \<Rightarrow> uuid \<Rightarrow> scan_policy \<Rightarrow> bool" where
  "violates db aid p \<longleftrightarrow>
     block_unscanned p \<and> is_unscanned (classify_scan_state (scan_state_rows db aid))
     \<or> (\<exists>s. latest_scan db aid = Some s
            \<and> (block_on_fail p \<and> scan_status s = ''failed''
               \<or> scan_status s = ''completed''
                  \<and> (\<exists>f\<in>set (scan_findings db). \<exists>sev threshold.
                         finding_artifact f = aid \<and> \<not> is_acknowledged f \<and> finding_severity f = severity_str sev
                         \<and> from_str_loose (max_severity p) = Some threshold \<and> meets_threshold sev threshold)))"

text \<open>The CHECK constraint of the policy table.\<close>

definition policies_wf :: "database \<Rightarrow> bool" where
  "policies_wf db \<longleftrightarrow> (\<forall>p\<in>set (scan_policies db). max_severity p \<in> set ALLOWED_MAX_SEVERITIES)"

definition policy_tables_up :: "database \<Rightarrow> bool" where
  "policy_tables_up db \<longleftrightarrow>
     outage db ScanPolicies = None \<and> outage db ScanResults = None \<and> outage db ScanFindings = None"

lemma severities_at_or_above_iff:
  assumes "s \<in> set ALLOWED_MAX_SEVERITIES"
  shows "x \<in> set (severities_at_or_above s) \<longleftrightarrow>
    (\<exists>sev threshold. x = severity_str sev \<and> from_str_loose s = Some threshold \<and> meets_threshold sev threshold)"
proof -
  obtain t where t: "s = severity_str t" "t \<noteq> Info"
  proof -
    have "s = severity_str Critical \<or> s = severity_str High \<or> s = severity_str Medium \<or> s = severity_str Low"
      using assms by (simp add: ALLOWED_MAX_SEVERITIES_def)
    then show ?thesis using that by (elim disjE) blast+
  qed
  have sql: "set (severities_at_or_above (severity_str t)) = severity_str ` {sev. sev \<le> t}" if "t \<noteq> Info" for t
  proof -
    have "{sev. sev \<le> t} = set (filter (\<lambda>sev. severity_rank sev \<le> severity_rank t) [Critical, High, Medium, Low, Info])"
    proof -
      have "sev \<in> set [Critical, High, Medium, Low, Info]" for sev by (cases sev) simp_all
      then show ?thesis unfolding set_filter less_eq_severity_def by blast
    qed
    then show ?thesis using that by (cases t) (simp_all add: severities_at_or_above_def)
  qed
  show ?thesis unfolding t(1) sql[OF t(2)] by (auto simp: meets_threshold_le)
qed

lemma violating_count_pos:
  assumes "max_severity p \<in> set ALLOWED_MAX_SEVERITIES"
  shows "0 < violating_count db aid (max_severity p) \<longleftrightarrow>
    (\<exists>f\<in>set (scan_findings db). \<exists>sev threshold.
       finding_artifact f = aid \<and> \<not> is_acknowledged f \<and> finding_severity f = severity_str sev
       \<and> from_str_loose (max_severity p) = Some threshold \<and> meets_threshold sev threshold)"
  by (auto simp: violating_count_def severities_at_or_above_iff[OF assms] filter_empty_conv)

lemma policy_violation_Ok:
  assumes "policy_tables_up db" and "max_severity p \<in> set ALLOWED_MAX_SEVERITIES"
  shows "\<exists>v. policy_violation db aid (classify_scan_state (scan_state_rows db aid)) (latest_scan db aid) p = Ok v
             \<and> length v = (if violates db aid p then 1 else 0)"
  using assms(1) violating_count_pos[OF assms(2), of db aid]
  by (cases "latest_scan db aid")
    (auto simp: policy_violation_def violates_def block_unscanned_violated_def policy_tables_up_def db_query_def)

lemma policy_violations_Ok:
  assumes "policy_tables_up db" and "\<forall>p\<in>set ps. max_severity p \<in> set ALLOWED_MAX_SEVERITIES"
  shows "\<exists>vs. policy_violations db aid (classify_scan_state (scan_state_rows db aid)) (latest_scan db aid) ps = Ok vs
              \<and> length vs = length (filter (violates db aid) ps)"
  using assms(2)
proof (induction ps)
  case (Cons p ps)
  then obtain vs where "policy_violations db aid (classify_scan_state (scan_state_rows db aid)) (latest_scan db aid) ps = Ok vs"
    "length vs = length (filter (violates db aid) ps)" by auto
  moreover obtain v where "policy_violation db aid (classify_scan_state (scan_state_rows db aid)) (latest_scan db aid) p = Ok v"
    "length v = (if violates db aid p then 1 else 0)"
    using policy_violation_Ok[OF assms(1)] Cons.prems by (meson list.set_intros(1))
  ultimately show ?case by simp
qed simp

lemma evaluate_artifact_up:
  assumes "policy_tables_up db" and "policies_wf db"
  shows "\<exists>vs. evaluate_artifact db aid repo
              = Ok \<lparr>allowed = list_all (\<lambda>p. \<not> violates db aid p) (applicable_policies db repo), violations = vs\<rparr>
            \<and> length vs = length (filter (violates db aid) (applicable_policies db repo))"
proof -
  have wf: "\<forall>p\<in>set (applicable_policies db repo). max_severity p \<in> set ALLOWED_MAX_SEVERITIES"
    using assms(2) by (auto simp: applicable_policies_def policies_wf_def)
  obtain vs where vs: "policy_violations db aid (classify_scan_state (scan_state_rows db aid)) (latest_scan db aid)
      (applicable_policies db repo) = Ok vs"
    "length vs = length (filter (violates db aid) (applicable_policies db repo))"
    using policy_violations_Ok[OF assms(1) wf] by blast
  have "(vs = []) = list_all (\<lambda>p. \<not> violates db aid p) (applicable_policies db repo)"
    using vs(2) by (metis (no_types, lifting) filter_False filter_empty_conv length_0_conv list_all_iff)
  then show ?thesis using vs assms(1)
    by (auto simp: evaluate_artifact_def policy_tables_up_def db_query_def)
qed

section \<open>The policy table as a keyed store\<close>

text \<open>
  What a client of a table with generated keys relies on: a successful insert is found under its key,
  a successful update is found in its place, a successful delete is not found any more, none of them
  touches another key, and an operation that fails leaves the store as it was.
\<close>

locale keyed_store =
  fixes lookup :: "'s \<Rightarrow> uuid \<Rightarrow> 'v option"
    and insert_op :: "uuid \<Rightarrow> 'i \<Rightarrow> 's \<Rightarrow> (app_error + 'v) \<times> 's"
    and update_op :: "uuid \<Rightarrow> 'c \<Rightarrow> 's \<Rightarrow> (app_error + 'v) \<times> 's"
    and delete_op :: "uuid \<Rightarrow> 's \<Rightarrow> (app_error + unit) \<times> 's"
    and valid :: "'v \<Rightarrow> bool"
  assumes insert_Ok: "lookup s k = None \<Longrightarrow> insert_op k i s = (Ok v, s') \<Longrightarrow>
      lookup s' = (lookup s)(k \<mapsto> v) \<and> valid v"
    and insert_Err: "insert_op k i s = (Err e, s') \<Longrightarrow> s' = s"
    and update_Ok: "update_op k c s = (Ok v, s') \<Longrightarrow>
      \<exists>old. lookup s k = Some old \<and> lookup s' = (lookup s)(k \<mapsto> v) \<and> (valid old \<longrightarrow> valid v)"
    and update_Err: "update_op k c s = (Err e, s') \<Longrightarrow> s' = s"
    and delete_Ok: "delete_op k s = (Ok u, s') \<Longrightarrow> lookup s k \<noteq> None \<and> lookup s' = (lookup s)(k := None)"
    and delete_Err: "delete_op k s = (Err e, s') \<Longrightarrow> s' = s"
begin

inductive reachable :: "'s \<Rightarrow> 's \<Rightarrow> bool" for s0 where
  start: "reachable s0 s0"
| insert_step: "reachable s0 s \<Longrightarrow> lookup s k = None \<Longrightarrow> insert_op k i s = (r, s') \<Longrightarrow> reachable s0 s'"
| update_step: "reachable s0 s \<Longrightarrow> update_op k c s = (r, s') \<Longrightarrow> reachable s0 s'"
| delete_step: "reachable s0 s \<Longrightarrow> delete_op k s = (r2, s') \<Longrightarrow> reachable s0 s'"

definition all_valid :: "'s \<Rightarrow> bool" where
  "all_valid s \<longleftrightarrow> (\<forall>k v. lookup s k = Some v \<longrightarrow> valid v)"

lemma reachable_valid: "reachable s0 s \<Longrightarrow> all_valid s0 \<Longrightarrow> all_valid s"
proof (induction rule: reachable.induct)
  case (insert_step s k i r s')
  then show ?case
    using insert_Ok[of s k i _ s'] insert_Err[of k i s _ s'] by (cases r) (auto simp: all_valid_def)
next
  case (update_step s k c r s')
  then show ?case
    using update_Ok[of k c s _ s'] update_Err[of k c s _ s'] by (cases r) (fastforce simp: all_valid_def)+
next
  case (delete_step s k r2 s')
  then show ?case
    using delete_Ok[of k s _ s'] delete_Err[of k s _ s'] by (cases r2) (auto simp: all_valid_def split: if_splits)
qed

lemma insert_delete_restores:
  assumes "lookup s k = None" and "insert_op k i s = (Ok v, s1)" and "delete_op k s1 = (Ok u, s2)"
  shows "lookup s2 = lookup s"
proof -
  have "lookup s2 = ((lookup s)(k \<mapsto> v))(k := None)"
    using insert_Ok[OF assms(1,2)] delete_Ok[OF assms(3)] by simp
  then show ?thesis using assms(1) by (simp add: fun_upd_idem)
qed

lemma frame_other_key:
  assumes "update_op k c s = (r, s')" and "j \<noteq> k"
  shows "lookup s' j = lookup s j"
  using assms update_Ok[of k c s _ s'] update_Err[of k c s _ s'] by (cases r) auto

end

definition find_policy :: "database \<Rightarrow> uuid \<Rightarrow> scan_policy option" where
  "find_policy db i = find (\<lambda>p. pol_id p = i) (scan_policies db)"

definition valid_policy :: "scan_policy \<Rightarrow> bool" where
  "valid_policy p \<longleftrightarrow> max_severity p \<in> set ALLOWED_MAX_SEVERITIES"

lemma normalize_max_severity_Ok:
  "normalize_max_severity raw = Ok s \<Longrightarrow> s \<in> set ALLOWED_MAX_SEVERITIES"
  by (simp add: normalize_max_severity_def Let_def split: if_splits)

lemma apply_patch_id [simp]: "pol_id (apply_patch now c sev p) = pol_id p"
  by (simp add: apply_patch_def)

lemma find_append_None: "find P xs = None \<Longrightarrow> find P (xs @ ys) = find P ys"
  by (induction xs) (auto split: if_splits)

lemma find_append_Some: "find P xs = Some x \<Longrightarrow> find P (xs @ ys) = Some x"
  by (induction xs) (auto split: if_splits)

lemma find_snoc_key:
  "find (\<lambda>p. key p = k) (xs @ [p]) =
     (case find (\<lambda>p. key p = k) xs of Some x \<Rightarrow> Some x | None \<Rightarrow> if key p = k then Some p else None)"
  by (cases "find (\<lambda>p. key p = k) xs") (simp_all add: find_append_None find_append_Some)

lemma find_map_key:
  assumes "\<And>q. key (f q) = key q"
  shows "find (\<lambda>p. key p = j) (map (\<lambda>q. if key q = k then f q else q) xs) =
     (if j = k then map_option f (find (\<lambda>p. key p = k) xs) else find (\<lambda>p. key p = j) xs)"
  using assms by (induction xs) auto

lemma find_filter_key:
  "find (\<lambda>p. key p = j) (filter (\<lambda>p. key p \<noteq> k) xs) =
     (if j = k then None else find (\<lambda>p. key p = j) xs)"
  by (induction xs) auto

lemma create_policy_Ok:
  assumes "find_policy db i = None" and "create_policy show_id i now inp db = (Ok p, db')"
  shows "find_policy db' = (find_policy db)(i \<mapsto> p) \<and> valid_policy p \<and> pol_id p = i"
  using assms normalize_max_severity_Ok
  by (auto simp: create_policy_def find_policy_def find_snoc_key valid_policy_def fun_eq_iff
      split: sum.splits option.splits)

lemma update_policy_Ok:
  assumes "update_policy now i c db = (Ok p, db')"
  shows "\<exists>old. find_policy db i = Some old \<and> find_policy db' = (find_policy db)(i \<mapsto> p)
               \<and> (valid_policy old \<longrightarrow> valid_policy p)"
proof -
  obtain sev where sev: "transpose_result (map_option normalize_max_severity (patch_max_severity c)) = Ok sev"
    and old: "map_option (apply_patch now c sev) (find_policy db i) = Some p"
    and db': "db' = db\<lparr>scan_policies := map (\<lambda>q. if pol_id q = i then apply_patch now c sev q else q) (scan_policies db)\<rparr>"
    using assms by (auto simp: update_policy_def find_policy_def split: sum.splits option.splits)
  have "\<forall>s. sev = Some s \<longrightarrow> s \<in> set ALLOWED_MAX_SEVERITIES"
    using sev normalize_max_severity_Ok by (auto simp: transpose_result_def split: option.splits sum.splits)
  then have "valid_policy q \<longrightarrow> valid_policy (apply_patch now c sev q)" for q
    by (cases sev) (auto simp: valid_policy_def apply_patch_def unwrap_or_def)
  moreover have "find_policy db' = (find_policy db)(i \<mapsto> p)"
    using old unfolding db' by (auto simp: find_policy_def find_map_key fun_eq_iff)
  ultimately show ?thesis using old by auto
qed

lemma delete_policy_Ok:
  assumes "delete_policy i db = (Ok u, db')"
  shows "find_policy db i \<noteq> None \<and> find_policy db' = (find_policy db)(i := None)"
proof -
  have db': "db' = db\<lparr>scan_policies := filter (\<lambda>p. pol_id p \<noteq> i) (scan_policies db)\<rparr>"
    and len: "length (filter (\<lambda>p. pol_id p \<noteq> i) (scan_policies db)) \<noteq> length (scan_policies db)"
    using assms by (auto simp: delete_policy_def split: sum.splits if_splits)
  have "find_policy db i \<noteq> None"
  proof
    assume "find_policy db i = None"
    then have "filter (\<lambda>p. pol_id p \<noteq> i) (scan_policies db) = scan_policies db"
      by (auto simp: find_policy_def find_None_iff filter_id_conv)
    with len show False by simp
  qed
  then show ?thesis unfolding db' by (auto simp: find_policy_def find_filter_key fun_eq_iff)
qed

interpretation policy_store: keyed_store find_policy "\<lambda>i (now, inp). create_policy show_id i now inp"
  "\<lambda>i (now, c). update_policy now i c" delete_policy valid_policy for show_id
proof (unfold_locales, goal_cases)
  case (1 s k i v s')
  then show ?case using create_policy_Ok by (auto split: prod.splits)
next
  case (3 k c s v s')
  then show ?case using update_policy_Ok by (auto split: prod.splits)
next
  case (5 k s u s')
  then show ?case by (rule delete_policy_Ok)
qed (auto simp: create_policy_def update_policy_def delete_policy_def split: sum.splits prod.splits if_splits)

section \<open>Histories of the policy table\<close>

datatype policy_op =
  CreatePolicy uuid timestamp policy_input
| UpdatePolicy uuid timestamp policy_patch
| DeletePolicy uuid

text \<open>The primary key refuses an identifier that is in use.\<close>

fun run_policy_op :: "(uuid \<Rightarrow> string) \<Rightarrow> policy_op \<Rightarrow> database \<Rightarrow> database" where
  "run_policy_op show_id (CreatePolicy i now inp) db =
     (if find_policy db i = None then snd (create_policy show_id i now inp db) else db)"
| "run_policy_op show_id (UpdatePolicy i now c) db = snd (update_policy now i c db)"
| "run_policy_op show_id (DeletePolicy i) db = snd (delete_policy i db)"

lemma run_policy_op_reachable:
  "policy_store.reachable show_id db0 db \<Longrightarrow> policy_store.reachable show_id db0 (run_policy_op show_id oper db)"
proof (cases oper)
  case (CreatePolicy i now inp)
  assume "policy_store.reachable show_id db0 db"
  then show ?thesis
    using CreatePolicy policy_store.insert_step[of show_id db0 db i "(now, inp)"]
    by (cases "create_policy show_id i now inp db") auto
next
  case (UpdatePolicy i now c)
  assume "policy_store.reachable show_id db0 db"
  then show ?thesis
    using UpdatePolicy policy_store.update_step[of show_id db0 db i "(now, c)"]
    by (cases "update_policy now i c db") auto
next
  case (DeletePolicy i)
  assume "policy_store.reachable show_id db0 db"
  then show ?thesis
    using DeletePolicy policy_store.delete_step[of show_id db0 db i] by (cases "delete_policy i db") auto
qed

lemma run_policy_ops_reachable:
  "policy_store.reachable show_id db0 db \<Longrightarrow> policy_store.reachable show_id db0 (fold (run_policy_op show_id) ops db)"
  by (induction ops arbitrary: db) (auto intro: run_policy_op_reachable)

lemma get_policy_find:
  "get_policy db i = (case outage db ScanPolicies of Some m \<Rightarrow> Err (Database m)
     | None \<Rightarrow> (case find_policy db i of Some p \<Rightarrow> Ok p | None \<Rightarrow> Err (NotFound ''Policy not found'')))"
  by (simp add: get_policy_def find_policy_def db_query_def split: option.splits)

section \<open>Properties\<close>

definition demo_policy :: scan_policy where
  "demo_policy =
     \<lparr>pol_id = 1, pol_name = ''strict'', pol_repository = None, max_severity = ''high'', block_unscanned = True,
      block_on_fail = False, pol_enabled = True, min_staging_hours = None, max_artifact_age_days = None,
      require_signature = False, pol_created_at = 0, pol_updated_at = 0\<rparr>"

definition demo_scan :: "string \<Rightarrow> timestamp \<Rightarrow> scan_result" where
  "demo_scan st t = \<lparr>scan_artifact = 7, scan_status = st, scan_error_message = None, scan_created_at = t\<rparr>"

definition demo_db :: "scan_result list \<Rightarrow> database" where
  "demo_db scans =
     \<lparr>scan_policies = [demo_policy], scan_results = scans,
      scan_findings = [\<lparr>finding_artifact = 7, finding_severity = ''critical'', is_acknowledged = False\<rparr>],
      artifacts = [\<lparr>art_id = 7, art_repository = 3, is_deleted = False, quarantine_status = None,
                   quarantine_until_ts = None, quarantine_reason = None\<rparr>],
      repositories = [(3, ''local'')], repository_config = [], outage = (\<lambda>_. None)\<rparr>"

definition demo_input :: policy_input where
  "demo_input =
     \<lparr>in_name = ''p'', in_repository = Some 3, in_max_severity = '' HIGH '', in_block_unscanned = False,
      in_block_on_fail = True, in_min_staging_hours = None, in_max_artifact_age_days = None,
      in_require_signature = False\<rparr>"



text \<open>When a scan of the artifact has completed but the most recent scan row is neither completed
  nor failed (another scanner that does not apply, or a rescan under way), every policy lets the
  artifact through whatever findings are open.\<close>

lemma inconclusive_latest_scan_hides_findings:
  assumes "policy_tables_up db" and "latest_scan db aid = Some s"
    and "scan_status s \<noteq> ''completed''" and "scan_status s \<noteq> ''failed''"
    and "\<exists>r\<in>set (scan_results db). scan_artifact r = aid \<and> scan_status r = ''completed''"
  shows "evaluate_artifact db aid repo = Ok \<lparr>allowed = True, violations = []\<rparr>"
proof -
  have "classify_scan_state (scan_state_rows db aid) = Completed"
    using assms(5) by (auto simp: classify_scan_state_def scan_state_rows_def artifact_scans_def list_ex_iff)
  then have "policy_violation db aid (classify_scan_state (scan_state_rows db aid)) (Some s) p = Ok []" for p
    using assms(3,4) by (simp add: policy_violation_def block_unscanned_violated_def is_unscanned_def)
  then have "policy_violations db aid (classify_scan_state (scan_state_rows db aid)) (Some s) ps = Ok []" for ps
    by (induction ps) simp_all
  then show ?thesis using assms(1,2)
    by (simp add: evaluate_artifact_def policy_tables_up_def db_query_def)
qed

lemma inconclusive_latest_scan_hides_findings_witness:
  "evaluate_artifact (demo_db [demo_scan ''completed'' 5, demo_scan ''not_applicable'' 6]) 7 3
     = Ok \<lparr>allowed = True, violations = []\<rparr>"
  by (rule inconclusive_latest_scan_hides_findings[where s = "demo_scan ''not_applicable'' 6"])
    (simp_all add: policy_tables_up_def demo_db_def demo_scan_def latest_scan_def artifact_scans_def by_column_def cmp_def)

text \<open>Whatever sequence of policy creations, updates and deletions runs, a policy read back has one
  of the four thresholds the schema allows, if all did at the start.\<close>

lemma policy_table_stays_valid:
  assumes "\<forall>j q. find_policy db j = Some q \<longrightarrow> max_severity q \<in> set ALLOWED_MAX_SEVERITIES"
    and "get_policy (fold (run_policy_op show_id) ops db) i = Ok p"
  shows "max_severity p \<in> set ALLOWED_MAX_SEVERITIES"
proof -
  have "policy_store.all_valid db"
    using assms(1) by (simp add: policy_store.all_valid_def valid_policy_def)
  then have "policy_store.all_valid (fold (run_policy_op show_id) ops db)"
    using policy_store.reachable_valid[OF run_policy_ops_reachable[OF policy_store.start]] by blast
  then show ?thesis
    using assms(2) by (auto simp: policy_store.all_valid_def valid_policy_def get_policy_find split: option.splits)
qed

lemma policy_table_stays_valid_witness:
  "max_severity (demo_policy\<lparr>pol_enabled := False, pol_updated_at := 9\<rparr>) \<in> set ALLOWED_MAX_SEVERITIES"
proof (rule policy_table_stays_valid[where db = "demo_db []" and i = 1 and show_id = "\<lambda>_. []"
      and ops = "[UpdatePolicy 1 9 \<lparr>patch_name = None, patch_max_severity = None, patch_block_unscanned = None,
          patch_block_on_fail = None, patch_enabled = Some False, patch_min_staging_hours = None,
          patch_max_artifact_age_days = None, patch_require_signature = None\<rparr>]"])
  show "\<forall>j q. find_policy (demo_db []) j = Some q \<longrightarrow> max_severity q \<in> set ALLOWED_MAX_SEVERITIES"
    by (simp add: find_policy_def demo_db_def demo_policy_def ALLOWED_MAX_SEVERITIES_def)
qed code_simp

text \<open>A policy that was created is read back as returned, other policies are unaffected, and deleting
  it restores what every identifier reads as.\<close>

lemma policy_create_get_delete:
  assumes "find_policy db i = None" and "create_policy show_id i now inp db = (Ok p, db')"
  shows "get_policy db' i = Ok p \<and> pol_enabled p \<and> normalize_max_severity (in_max_severity inp) = Ok (max_severity p)
         \<and> get_policy db' j = (if j = i then Ok p else get_policy db j)
         \<and> fst (delete_policy i db') = Ok () \<and> get_policy (snd (delete_policy i db')) j = get_policy db j"
proof -
  have up: "outage db ScanPolicies = None" "db' = db\<lparr>scan_policies := scan_policies db @ [p]\<rparr>"
    and p: "pol_enabled p" "normalize_max_severity (in_max_severity inp) = Ok (max_severity p)"
    using assms(2) by (auto simp: create_policy_def split: sum.splits)
  have created: "find_policy db' = (find_policy db)(i \<mapsto> p)" "pol_id p = i"
    using create_policy_Ok[OF assms] by auto
  have "length (filter (\<lambda>q. pol_id q \<noteq> i) (scan_policies db')) \<noteq> length (scan_policies db')"
    using created(2) unfolding up(2) by simp (metis Suc_n_not_le_n length_filter_le)
  then have del: "delete_policy i db' = (Ok (), snd (delete_policy i db'))"
    "outage (snd (delete_policy i db')) = outage db"
    using up by (simp_all add: delete_policy_def db_query_def)
  have "find_policy (snd (delete_policy i db')) = find_policy db"
    using policy_store.insert_delete_restores[of db i show_id "(now, inp)", OF assms(1)] assms(2) del(1) by simp
  moreover have "fst (delete_policy i db') = Ok ()" by (subst del(1)) simp
  ultimately show ?thesis using up p created del(2) by (simp add: get_policy_find)
qed

lemma policy_create_get_delete_witness:
  "\<exists>p db'. create_policy (\<lambda>_. []) 2 10 demo_input (demo_db []) = (Ok p, db') \<and> max_severity p = ''high''
     \<and> get_policy db' 2 = Ok p \<and> get_policy (snd (delete_policy 2 db')) 1 = get_policy (demo_db []) 1"
proof -
  have "normalize_max_severity '' HIGH '' = Ok ''high''" by code_simp
  then obtain p db' where c: "create_policy (\<lambda>_. []) 2 10 demo_input (demo_db []) = (Ok p, db')" "max_severity p = ''high''"
    by (simp add: create_policy_def demo_input_def demo_db_def db_query_def ensure_repository_exists_def
        repository_exists_or_not_found_def)
  show ?thesis
    using policy_create_get_delete[OF _ c(1), of 1] c
    by (auto simp: find_policy_def demo_db_def demo_policy_def)
qed

end
