(* ===== verification/Quarantine.thy ===== *)
theory Quarantine
  imports Scan_Policy Outbound
begin

text \<open>
  The quarantine service (services/quarantine_service.rs) and the writes the scanner makes to the
  quarantine columns (services/scanner_service.rs): the cached configuration, upload holds, the
  admin transitions, the outcome of a scan, and the gate every download passes. The three columns
  live in the artifact rows; each UPDATE statement is a guarded write to one row, and the operations
  are composed of them, so that writes of concurrent operations can be interleaved freely.
\<close>

section \<open>State and configuration\<close>

datatype quarantine_state = Quarantined | Released | Rejected

fun state_str :: "quarantine_state \<Rightarrow> string" where
  "state_str Quarantined = ''quarantined''"
| "state_str Released = ''released''"
| "state_str Rejected = ''rejected''"

record quarantine_config =
  cfg_enabled :: bool
  duration_minutes :: int

definition DEFAULT_DURATION_MINUTES :: int where
  "DEFAULT_DURATION_MINUTES = 60"

text \<open>Instants of the monotonic clock are nanoseconds.\<close>

definition QUARANTINE_CONFIG_TTL :: nat where
  "QUARANTINE_CONFIG_TTL = 30 * 1000000000"

type_synonym repo_quarantine_settings = "bool option \<times> int option"
type_synonym config_cache = "uuid \<rightharpoonup> nat \<times> repo_quarantine_settings"

definition cached_repo_settings :: "config_cache \<Rightarrow> nat \<Rightarrow> uuid \<Rightarrow> repo_quarantine_settings option" where
  "cached_repo_settings cache now repo =
     (case cache repo of
        Some (inserted, settings) \<Rightarrow> if now - inserted < QUARANTINE_CONFIG_TTL then Some settings else None
      | None \<Rightarrow> None)"

definition store_repo_settings ::
  "config_cache \<Rightarrow> nat \<Rightarrow> uuid \<Rightarrow> repo_quarantine_settings \<Rightarrow> config_cache" where
  "store_repo_settings cache now repo settings =
     (\<lambda>r. case cache r of
            Some (inserted, s) \<Rightarrow> if now - inserted < QUARANTINE_CONFIG_TTL then Some (inserted, s) else None
          | None \<Rightarrow> None)(repo \<mapsto> (now, settings))"

definition invalidate_config_cache :: "config_cache \<Rightarrow> uuid \<Rightarrow> config_cache" where
  "invalidate_config_cache cache repo = cache(repo := None)"

definition should_quarantine :: "quarantine_config \<Rightarrow> bool" where
  "should_quarantine config = cfg_enabled config"

definition quarantine_until :: "quarantine_config \<Rightarrow> timestamp \<Rightarrow> timestamp" where
  "quarantine_until config now = now + duration_minutes config * 60000"

definition quarantine_until_from_release ::
  "quarantine_config \<Rightarrow> timestamp option \<Rightarrow> timestamp \<Rightarrow> timestamp" where
  "quarantine_until_from_release config release_date now =
     unwrap_or release_date now + duration_minutes config * 60000"

definition validate_duration :: "int \<Rightarrow> int" where
  "validate_duration minutes = max minutes 1"

fun read_settings :: "repo_quarantine_settings \<Rightarrow> (string \<times> string option) list \<Rightarrow> repo_quarantine_settings" where
  "read_settings (en, dur) [] = (en, dur)"
| "read_settings (en, dur) ((key, v) # rows) =
     (if key = ''quarantine_enabled'' then
        (case v of Some x \<Rightarrow> read_settings (Some (x = ''true'' \<or> x = ''1''), dur) rows
                 | None \<Rightarrow> read_settings (en, dur) rows)
      else if key = ''quarantine_duration_minutes'' then
        (case Option.bind v parse_i64 of Some d \<Rightarrow> read_settings (en, Some d) rows
                                       | None \<Rightarrow> read_settings (en, dur) rows)
      else read_settings (en, dur) rows)"

text \<open>A failing query counts as no rows.\<close>

definition repo_settings :: "database \<Rightarrow> uuid \<Rightarrow> repo_quarantine_settings" where
  "repo_settings db repo =
     (let rows = map snd (filter (\<lambda>(r, key, _). r = repo
                   \<and> (key = ''quarantine_enabled'' \<or> key = ''quarantine_duration_minutes'')) (repository_config db))
      in read_settings (None, None) (case db_query db RepositoryConfig rows of Ok rs \<Rightarrow> rs | Err e \<Rightarrow> []))"

definition resolve_config ::
  "environment \<Rightarrow> database \<Rightarrow> config_cache \<Rightarrow> nat \<Rightarrow> uuid \<Rightarrow> quarantine_config \<times> config_cache" where
  "resolve_config env db cache now repo =
     (let global_enabled = (env ''QUARANTINE_ENABLED'' = Some ''true'' \<or> env ''QUARANTINE_ENABLED'' = Some ''1'');
          global_duration = unwrap_or (Option.bind (env ''QUARANTINE_DURATION_MINUTES'') parse_i64) DEFAULT_DURATION_MINUTES;
          (settings, cache') =
            (case cached_repo_settings cache now repo of
               Some c \<Rightarrow> (c, cache)
             | None \<Rightarrow> (let s = repo_settings db repo in (s, store_repo_settings cache now repo s)))
      in (\<lparr>cfg_enabled = unwrap_or (fst settings) global_enabled,
           duration_minutes = validate_duration (unwrap_or (snd settings) global_duration)\<rparr>, cache'))"

section \<open>Decisions\<close>

definition check_download_allowed :: "string option \<Rightarrow> timestamp option \<Rightarrow> timestamp \<Rightarrow> unit app_result" where
  "check_download_allowed status until now =
     (if status = Some ''quarantined'' then
        (case until of
           Some u \<Rightarrow> if u \<le> now then Ok ()
                     else Err (Conflict ''Artifact is quarantined and pending security review'')
         | None \<Rightarrow> Err (Conflict ''Artifact is quarantined and pending security review''))
      else if status = Some ''rejected'' then
        Err (Authorization ''Artifact was rejected during security review'')
      else Ok ())"

definition status_after_scan :: "bool \<Rightarrow> quarantine_state" where
  "status_after_scan has_findings = (if has_findings then Rejected else Released)"

record post_scan_decision =
  dec_status :: string
  clear_until :: bool
  dec_reason :: "string option"

definition post_scan_status_decision ::
  "string option \<Rightarrow> int \<Rightarrow> policy_result option \<Rightarrow> bool \<Rightarrow> post_scan_decision" where
  "post_scan_status_decision current findings_count policy has_timed_hold =
     (let violation = (case policy of Some p \<Rightarrow> if allowed p then None else Some p | None \<Rightarrow> None) in
      if current = Some ''quarantined'' \<and> has_timed_hold then
        (case violation of
           Some p \<Rightarrow> \<lparr>dec_status = ''quarantined'', clear_until = True,
                       dec_reason = Some (join_str ''; '' (violations p))\<rparr>
         | None \<Rightarrow> \<lparr>dec_status = state_str (status_after_scan (0 < findings_count)), clear_until = True,
                     dec_reason = None\<rparr>)
      else
        (case violation of
           Some p \<Rightarrow> \<lparr>dec_status = ''quarantined'', clear_until = False,
                       dec_reason = Some (join_str ''; '' (violations p))\<rparr>
         | None \<Rightarrow> \<lparr>dec_status = (if 0 < findings_count then ''flagged'' else ''clean''), clear_until = False,
                     dec_reason = None\<rparr>))"

section \<open>Row writes\<close>

text \<open>The UPDATE statements on the quarantine columns.\<close>

datatype row_write =
  UploadHold string "timestamp option"
| FlagFailed
| PolicyBlock string
| AdminRelease
| AdminReject "string option"
| AdminQuarantine string
| PostScan post_scan_decision

fun write_guard :: "row_write \<Rightarrow> artifact \<Rightarrow> bool" where
  "write_guard (UploadHold st until) a =
     (\<not> is_deleted a \<and> (quarantine_status a = None
        \<or> quarantine_status a \<in> Some ` {''clean'', ''flagged'', ''unscanned'', ''released''}))"
| "write_guard FlagFailed a =
     (quarantine_status a = None \<or> quarantine_status a \<in> Some ` {''clean'', ''flagged'', ''unscanned''})"
| "write_guard (PolicyBlock reason) a = (quarantine_status a \<noteq> Some ''rejected'')"
| "write_guard AdminRelease a = (quarantine_status a = Some ''quarantined'')"
| "write_guard (AdminReject reason) a = (quarantine_status a = Some ''quarantined'')"
| "write_guard (AdminQuarantine reason) a = (\<not> is_deleted a \<and> quarantine_status a \<noteq> Some ''rejected'')"
| "write_guard (PostScan d) a =
     (if clear_until d then quarantine_status a = Some ''quarantined'' \<and> quarantine_until_ts a \<noteq> None
      else quarantine_status a \<noteq> Some ''quarantined'' \<and> quarantine_status a \<noteq> Some ''rejected'')"

fun write_effect :: "row_write \<Rightarrow> artifact \<Rightarrow> artifact" where
  "write_effect (UploadHold st until) a = a\<lparr>quarantine_status := Some st, quarantine_until_ts := until\<rparr>"
| "write_effect FlagFailed a = a\<lparr>quarantine_status := Some ''flagged''\<rparr>"
| "write_effect (PolicyBlock reason) a =
     a\<lparr>quarantine_status := Some ''quarantined'', quarantine_until_ts := None, quarantine_reason := Some reason\<rparr>"
| "write_effect AdminRelease a =
     a\<lparr>quarantine_status := Some (state_str Released), quarantine_until_ts := None, quarantine_reason := None\<rparr>"
| "write_effect (AdminReject reason) a =
     a\<lparr>quarantine_status := Some (state_str Rejected), quarantine_until_ts := None,
       quarantine_reason := coalesce_opt reason (quarantine_reason a)\<rparr>"
| "write_effect (AdminQuarantine reason) a =
     a\<lparr>quarantine_status := Some ''quarantined'', quarantine_until_ts := None, quarantine_reason := Some reason\<rparr>"
| "write_effect (PostScan d) a =
     (if clear_until d then
        a\<lparr>quarantine_status := Some (dec_status d), quarantine_until_ts := None,
          quarantine_reason := (if dec_status d = ''released'' then None
                                else coalesce_opt (dec_reason d) (quarantine_reason a))\<rparr>
      else
        a\<lparr>quarantine_status := Some (dec_status d),
          quarantine_until_ts := (if dec_status d = ''quarantined'' then None else quarantine_until_ts a),
          quarantine_reason := dec_reason d\<rparr>)"

definition apply_write :: "row_write \<Rightarrow> artifact \<Rightarrow> artifact" where
  "apply_write w a = (if write_guard w a then write_effect w a else a)"

text \<open>Executing a statement yields the number of rows it changed.\<close>

definition execute :: "row_write \<Rightarrow> uuid \<Rightarrow> database \<Rightarrow> nat app_result \<times> database" where
  "execute w aid db =
     (case db_query db Artifacts (length (filter (\<lambda>a. art_id a = aid \<and> write_guard w a) (artifacts db))) of
        Err e \<Rightarrow> (Err e, db)
      | Ok n \<Rightarrow> (Ok n, db\<lparr>artifacts := map (\<lambda>a. if art_id a = aid then apply_write w a else a) (artifacts db)\<rparr>))"

section \<open>Operations\<close>

definition set_quarantine :: "uuid \<Rightarrow> string \<Rightarrow> timestamp option \<Rightarrow> database \<Rightarrow> bool app_result \<times> database" where
  "set_quarantine aid st until db =
     (case execute (UploadHold st until) aid db of
        (Ok n, db') \<Rightarrow> (Ok (0 < n), db')
      | (Err e, db') \<Rightarrow> (Err e, db'))"

definition apply_upload_hold ::
  "environment \<Rightarrow> nat \<Rightarrow> timestamp \<Rightarrow> uuid \<Rightarrow> uuid \<Rightarrow> config_cache \<Rightarrow> database \<Rightarrow> config_cache \<times> database" where
  "apply_upload_hold env clock now repo aid cache db =
     (let (config, cache') = resolve_config env db cache clock repo in
      if \<not> should_quarantine config then (cache', db)
      else (cache', snd (set_quarantine aid (state_str Quarantined) (Some (quarantine_until config now)) db)))"

definition repo_is_hosted :: "database \<Rightarrow> uuid \<Rightarrow> bool" where
  "repo_is_hosted db repo =
     (case db_query db Repositories (map_of (repositories db) repo) of
        Ok (Some t) \<Rightarrow> t = ''local'' \<or> t = ''staging''
      | _ \<Rightarrow> False)"

definition apply_upload_hold_hosted ::
  "environment \<Rightarrow> nat \<Rightarrow> timestamp \<Rightarrow> uuid \<Rightarrow> uuid \<Rightarrow> config_cache \<Rightarrow> database \<Rightarrow> config_cache \<times> database" where
  "apply_upload_hold_hosted env clock now repo aid cache db =
     (if repo_is_hosted db repo then apply_upload_hold env clock now repo aid cache db else (cache, db))"

definition transition ::
  "uuid \<Rightarrow> quarantine_state \<Rightarrow> string option \<Rightarrow> database \<Rightarrow> unit app_result \<times> database" where
  "transition aid new_status reason db =
     (if new_status = Quarantined then (Err (Conflict ''Cannot transition to quarantined state''), db)
      else (case execute (if new_status = Released then AdminRelease else AdminReject reason) aid db of
              (Err e, db') \<Rightarrow> (Err e, db')
            | (Ok n, db') \<Rightarrow>
                (if n = 0 then Err (Conflict ''Artifact is not in quarantined state; transition not allowed'')
                 else Ok (), db')))"

definition admin_quarantine_allowed :: "string option \<Rightarrow> bool" where
  "admin_quarantine_allowed current \<longleftrightarrow> current \<noteq> Some ''rejected''"

definition live_artifact :: "database \<Rightarrow> uuid \<Rightarrow> artifact option" where
  "live_artifact db aid = find (\<lambda>a. art_id a = aid \<and> \<not> is_deleted a) (artifacts db)"

definition fetch_quarantine_fields ::
  "database \<Rightarrow> uuid \<Rightarrow> (string option \<times> timestamp option \<times> string option) option app_result" where
  "fetch_quarantine_fields db aid =
     db_query db Artifacts
       (map_option (\<lambda>a. (quarantine_status a, quarantine_until_ts a, quarantine_reason a)) (live_artifact db aid))"

definition fetch_quarantine_fields_with_repo ::
  "database \<Rightarrow> uuid \<Rightarrow> (string option \<times> timestamp option \<times> uuid) option app_result" where
  "fetch_quarantine_fields_with_repo db aid =
     db_query db Artifacts
       (map_option (\<lambda>a. (quarantine_status a, quarantine_until_ts a, art_repository a)) (live_artifact db aid))"

definition cannot_requarantine :: string where
  "cannot_requarantine = ''Artifact was rejected during security review; cannot re-quarantine''"

definition quarantine_now ::
  "(uuid \<Rightarrow> string) \<Rightarrow> uuid \<Rightarrow> string option \<Rightarrow> database \<Rightarrow> string app_result \<times> database" where
  "quarantine_now show_id aid reason db =
     (case fetch_quarantine_fields db aid of
        Err e \<Rightarrow> (Err e, db)
      | Ok None \<Rightarrow> (Err (NotFound (''Artifact '' @ show_id aid @ '' not found'')), db)
      | Ok (Some (st, _, _)) \<Rightarrow>
          if \<not> admin_quarantine_allowed st then (Err (Conflict cannot_requarantine), db)
          else (case execute (AdminQuarantine (unwrap_or reason ''Quarantined by administrator'')) aid db of
                  (Err e, db') \<Rightarrow> (Err e, db')
                | (Ok n, db') \<Rightarrow> (if n = 0 then Err (Conflict cannot_requarantine) else Ok ''quarantined'', db')))"

definition get_status :: "database \<Rightarrow> uuid \<Rightarrow> (string option \<times> timestamp option) app_result" where
  "get_status db aid =
     result_bind (fetch_quarantine_fields db aid)
       (\<lambda>row. case row of Some (st, until, _) \<Rightarrow> Ok (st, until) | None \<Rightarrow> Err (NotFound ''Artifact not found''))"

record quarantine_status_row =
  qsr_status :: "string option"
  qsr_until :: "timestamp option"
  qsr_reason :: "string option"
  qsr_repository :: uuid

definition get_status_with_repo :: "database \<Rightarrow> uuid \<Rightarrow> quarantine_status_row app_result" where
  "get_status_with_repo db aid =
     result_bind (db_query db Artifacts (live_artifact db aid))
       (\<lambda>row. case row of
          Some a \<Rightarrow> Ok \<lparr>qsr_status = quarantine_status a, qsr_until = quarantine_until_ts a,
                        qsr_reason = quarantine_reason a, qsr_repository = art_repository a\<rparr>
        | None \<Rightarrow> Err (NotFound ''Artifact not found''))"

definition policy_gate_result :: "bool \<Rightarrow> unit app_result" where
  "policy_gate_result ok =
     (if ok then Ok ()
      else Err (Authorization (''Artifact download is blocked by the repository'' @ [CHR 0x27] @ ''s scan policy'')))"

definition enforce_download_gate :: "database \<Rightarrow> timestamp \<Rightarrow> uuid \<Rightarrow> unit app_result" where
  "enforce_download_gate db now aid =
     result_bind (fetch_quarantine_fields_with_repo db aid) (\<lambda>row.
       case row of
         None \<Rightarrow> Ok ()
       | Some (st, until, repo) \<Rightarrow>
           result_bind (check_download_allowed st until now) (\<lambda>_.
             result_bind (evaluate_artifact db aid repo) (\<lambda>r. policy_gate_result (allowed r))))"

definition check_artifact_download :: "database \<Rightarrow> timestamp \<Rightarrow> uuid \<Rightarrow> unit app_result" where
  "check_artifact_download db now aid = enforce_download_gate db now aid"

text \<open>The scanner after a scan: failure flags the row, then applies the policies.\<close>

definition flag_failed_scan :: "uuid \<Rightarrow> database \<Rightarrow> database" where
  "flag_failed_scan aid db = snd (execute FlagFailed aid db)"

definition artifact_row :: "database \<Rightarrow> uuid \<Rightarrow> artifact option" where
  "artifact_row db aid = find (\<lambda>a. art_id a = aid) (artifacts db)"

definition enforce_policy_after_failed_scan :: "uuid \<Rightarrow> database \<Rightarrow> database" where
  "enforce_policy_after_failed_scan aid db =
     (case db_query db Artifacts (map_option art_repository (artifact_row db aid)) of
        Err e \<Rightarrow> db
      | Ok None \<Rightarrow> db
      | Ok (Some repo) \<Rightarrow>
          (case evaluate_artifact db aid repo of
             Err e \<Rightarrow> db
           | Ok r \<Rightarrow> if allowed r then db
                     else snd (execute (PolicyBlock (join_str ''; '' (violations r))) aid db)))"

definition post_scan_decision_for :: "database \<Rightarrow> uuid \<Rightarrow> int \<Rightarrow> post_scan_decision" where
  "post_scan_decision_for db aid findings_count =
     (let row = (case db_query db Artifacts (artifact_row db aid) of Ok r \<Rightarrow> r | Err e \<Rightarrow> None);
          policy = (case row of
                      Some a \<Rightarrow> (case evaluate_artifact db aid (art_repository a) of Ok r \<Rightarrow> Some r | Err e \<Rightarrow> None)
                    | None \<Rightarrow> None)
      in post_scan_status_decision (Option.bind row quarantine_status) findings_count policy
           (Option.bind row quarantine_until_ts \<noteq> None))"

definition update_quarantine_status :: "uuid \<Rightarrow> int \<Rightarrow> database \<Rightarrow> unit app_result \<times> database" where
  "update_quarantine_status aid findings_count db =
     (case execute (PostScan (post_scan_decision_for db aid findings_count)) aid db of
        (Ok n, db') \<Rightarrow> (Ok (), db')
      | (Err e, db') \<Rightarrow> (Err e, db'))"

section \<open>Histories of statements\<close>

text \<open>
  Concurrent operations interleave at statement granularity. A history is any sequence of statements
  against any rows; a decision that was taken on an earlier state of the row appears in it as a
  statement like any other.
\<close>

definition run_writes :: "(uuid \<times> row_write) list \<Rightarrow> database \<Rightarrow> database" where
  "run_writes ws db = fold (\<lambda>(aid, w) d. snd (execute w aid d)) ws db"

definition row_history :: "uuid \<Rightarrow> (uuid \<times> row_write) list \<Rightarrow> row_write list" where
  "row_history aid ws = map snd (filter (\<lambda>(i, _). i = aid) ws)"

lemma write_frame [simp]:
  "art_id (apply_write w a) = art_id a" "art_repository (apply_write w a) = art_repository a"
  "is_deleted (apply_write w a) = is_deleted a"
  by (cases w; simp add: apply_write_def)+

lemma execute_outage [simp]: "outage (snd (execute w aid db)) = outage db"
  by (simp add: execute_def db_query_def split: option.split)

lemma execute_up:
  "outage db Artifacts = None \<Longrightarrow>
   snd (execute w aid db) = db\<lparr>artifacts := map (\<lambda>a. if art_id a = aid then apply_write w a else a) (artifacts db)\<rparr>"
  by (simp add: execute_def db_query_def)

lemma execute_down: "outage db Artifacts = Some m \<Longrightarrow> execute w aid db = (Err (Database m), db)"
  by (simp add: execute_def db_query_def)

lemma run_writes_simps [simp]:
  "run_writes [] db = db"
  "run_writes ((aid, w) # ws) db = run_writes ws (snd (execute w aid db))"
  by (simp_all add: run_writes_def)

lemma run_writes_down: "outage db Artifacts = Some m \<Longrightarrow> run_writes ws db = db"
  by (induction ws) (auto simp: execute_down)

lemma run_writes_up:
  "outage db Artifacts = None \<Longrightarrow>
   artifacts (run_writes ws db) = map (\<lambda>a. fold apply_write (row_history (art_id a) ws) a) (artifacts db)"
proof (induction ws arbitrary: db)
  case (Cons x ws)
  obtain aid w where x: "x = (aid, w)" by (cases x)
  show ?case
    using Cons.IH[of "snd (execute w aid db)"] Cons.prems by (auto simp: x execute_up row_history_def)
qed (simp add: row_history_def)

lemma run_writes_row:
  assumes "a \<in> set (artifacts db)"
  shows "\<exists>hist. set hist \<subseteq> set (row_history (art_id a) ws)
           \<and> fold apply_write hist a \<in> set (artifacts (run_writes ws db))"
proof (cases "outage db Artifacts")
  case None
  then show ?thesis using assms run_writes_up[OF None, of ws] by auto
next
  case (Some m)
  then show ?thesis using assms run_writes_down[OF Some] by (intro exI[of _ "[]"]) simp
qed

text \<open>The databases a history against one artifact leads to.\<close>

definition is_history :: "uuid \<Rightarrow> database \<Rightarrow> database \<Rightarrow> bool" where
  "is_history aid db db' \<longleftrightarrow> (\<exists>ws. set (map fst ws) \<subseteq> {aid} \<and> db' = run_writes ws db)"

lemma history_none: "is_history aid db db"
  unfolding is_history_def by (rule exI[of _ "[]"]) simp

lemma history_one: "is_history aid db (snd (execute w aid db))"
  unfolding is_history_def by (rule exI[of _ "[(aid, w)]"]) simp

lemma history_trans: "is_history aid db db1 \<Longrightarrow> is_history aid db1 db2 \<Longrightarrow> is_history aid db db2"
proof -
  assume "is_history aid db db1" "is_history aid db1 db2"
  then obtain ws vs where "set (map fst ws) \<subseteq> {aid}" "db1 = run_writes ws db" "set (map fst vs) \<subseteq> {aid}" "db2 = run_writes vs db1"
    by (auto simp: is_history_def)
  then show ?thesis unfolding is_history_def
    by (intro exI[of _ "ws @ vs"]) (auto simp: run_writes_def)
qed

text \<open>Policy evaluation does not read the artifact table.\<close>

lemma evaluate_artifact_artifacts: "evaluate_artifact (db\<lparr>artifacts := xs\<rparr>) = evaluate_artifact db"
proof (intro ext)
  fix aid repo
  have q: "db_query (db\<lparr>artifacts := xs\<rparr>) t v = db_query db t v" for t and v :: 'v
    by (simp add: db_query_def)
  have sel: "applicable_policies (db\<lparr>artifacts := xs\<rparr>) repo = applicable_policies db repo"
    "latest_scan (db\<lparr>artifacts := xs\<rparr>) aid = latest_scan db aid"
    "scan_state_rows (db\<lparr>artifacts := xs\<rparr>) aid = scan_state_rows db aid"
    "outage (db\<lparr>artifacts := xs\<rparr>) = outage db"
    by (simp_all add: applicable_policies_def latest_scan_def artifact_scans_def scan_state_rows_def)
  have "policy_violations (db\<lparr>artifacts := xs\<rparr>) aid st scan ps = policy_violations db aid st scan ps" for st scan ps
    by (induction ps) (simp_all add: policy_violation_def violating_count_def q split: option.split)
  then show "evaluate_artifact (db\<lparr>artifacts := xs\<rparr>) aid repo = evaluate_artifact db aid repo"
    unfolding evaluate_artifact_def by (simp only: db_query_def sel)
qed

section \<open>Locks\<close>

text \<open>
  A lock on a state: once taken, no action but those with the key opens it. The quarantine columns
  carry two: a rejection, which nothing opens, and an unconditional quarantine, which only the
  admin transitions open.
\<close>

definition permanently_held :: "artifact \<Rightarrow> bool" where
  "permanently_held a \<longleftrightarrow> quarantine_status a = Some ''quarantined'' \<and> quarantine_until_ts a = None"

definition admin_transition :: "row_write \<Rightarrow> bool" where
  "admin_transition w \<longleftrightarrow> w = AdminRelease \<or> (\<exists>r. w = AdminReject r)"

interpretation rejection: lock apply_write "\<lambda>a. a = a0 \<and> quarantine_status a0 = Some ''rejected''" "\<lambda>_. False" for a0
proof
  fix a w
  assume "a = a0 \<and> quarantine_status a0 = Some ''rejected''"
  then show "apply_write w a = a0 \<and> quarantine_status a0 = Some ''rejected''"
    by (cases w) (simp_all add: apply_write_def image_iff)
qed

interpretation permanent: lock apply_write permanently_held admin_transition
proof
  fix a w
  assume "permanently_held a" and "\<not> admin_transition w"
  then show "permanently_held (apply_write w a)"
    by (cases w) (simp_all add: apply_write_def permanently_held_def admin_transition_def image_iff)
qed

section \<open>Properties\<close>



text \<open>The gate fails closed: when the artifact table cannot be read, or for a live artifact the
  policy table or, if a policy applies, the scan table, the download is refused.\<close>

lemma download_gate_fails_closed:
  assumes "outage db Artifacts \<noteq> None
    \<or> (live_artifact db aid = Some a
        \<and> (outage db ScanPolicies \<noteq> None
           \<or> applicable_policies db (art_repository a) \<noteq> [] \<and> outage db ScanResults \<noteq> None))"
  shows "\<exists>e. enforce_download_gate db now aid = Err e"
proof -
  have eval: "\<exists>e. evaluate_artifact db aid repo = Err e"
    if "outage db ScanPolicies \<noteq> None \<or> applicable_policies db repo \<noteq> [] \<and> outage db ScanResults \<noteq> None" for repo
    using that by (auto simp: evaluate_artifact_def db_query_def split: option.splits)
  have no_Ok: "enforce_download_gate db now aid \<noteq> Ok ()"
  proof (cases "outage db Artifacts")
    case None
    then obtain e where "live_artifact db aid = Some a" "evaluate_artifact db aid (art_repository a) = Err e"
      using assms eval[of "art_repository a"] by auto
    then show ?thesis
      by (simp add: enforce_download_gate_def fetch_quarantine_fields_with_repo_def)
  next
    case (Some m)
    then show ?thesis by (simp add: enforce_download_gate_def fetch_quarantine_fields_with_repo_def)
  qed
  then show ?thesis by (cases "enforce_download_gate db now aid") auto
qed

lemma download_gate_fails_closed_witness:
  "\<exists>e. enforce_download_gate ((demo_db [])\<lparr>outage := (\<lambda>t. if t = ScanResults then Some ''down'' else None)\<rparr>) 0 7 = Err e"
  by (rule download_gate_fails_closed[where a = "hd (artifacts (demo_db []))"])
    (simp add: demo_db_def live_artifact_def applicable_policies_def demo_policy_def)

text \<open>The gate's answer, error text included, does not depend on the recorded quarantine reasons,
  so a download attempt discloses nothing of them.\<close>

lemma download_gate_hides_reason:
  "enforce_download_gate (db\<lparr>artifacts := map (\<lambda>a. a\<lparr>quarantine_reason := f a\<rparr>) (artifacts db)\<rparr>) now aid
   = enforce_download_gate db now aid"
proof -
  let ?db = "db\<lparr>artifacts := map (\<lambda>a. a\<lparr>quarantine_reason := f a\<rparr>) (artifacts db)\<rparr>"
  have live: "live_artifact ?db aid = map_option (\<lambda>a. a\<lparr>quarantine_reason := f a\<rparr>) (live_artifact db aid)"
    unfolding live_artifact_def by (simp add: find_map_invariant)
  show ?thesis
    unfolding enforce_download_gate_def evaluate_artifact_artifacts
    by (simp add: fetch_quarantine_fields_with_repo_def db_query_def live option.map_comp comp_def)
qed

text \<open>C32: a rejection is final: no sequence of statements of uploads, scans and admin actions, however
  interleaved, changes the row of a rejected artifact, and its download is refused at any time.\<close>

theorem rejection_is_final:
  assumes "a \<in> set (artifacts db)" and "quarantine_status a = Some ''rejected''"
  shows "a \<in> set (artifacts (run_writes ws db))
         \<and> check_download_allowed (quarantine_status a) (quarantine_until_ts a) now
             = Err (Authorization ''Artifact was rejected during security review'')"
proof -
  have "fold apply_write hist a = a" for hist
    using rejection.locked_fold[of a a hist] assms(2) by simp
  then show ?thesis using run_writes_row[OF assms(1), of ws] assms(2) by (auto simp: check_download_allowed_def)
qed

definition held_db :: "string \<Rightarrow> timestamp option \<Rightarrow> database" where
  "held_db st until =
     (demo_db [])\<lparr>artifacts := [\<lparr>art_id = 7, art_repository = 3, is_deleted = False, quarantine_status = Some st,
        quarantine_until_ts = until, quarantine_reason = None\<rparr>]\<rparr>"

theorem rejection_is_final_witness:
  "hd (artifacts (held_db ''rejected'' None)) \<in> set (artifacts (run_writes
      [(7, AdminRelease), (7, AdminQuarantine ''x''), (7, UploadHold ''quarantined'' (Some 5))] (held_db ''rejected'' None)))
   \<and> check_download_allowed (quarantine_status (hd (artifacts (held_db ''rejected'' None))))
       (quarantine_until_ts (hd (artifacts (held_db ''rejected'' None)))) 0
     = Err (Authorization ''Artifact was rejected during security review'')"
  by (rule rejection_is_final) (simp_all add: held_db_def)

text \<open>An unconditional quarantine (set by an administrator or a policy violation) survives every
  interleaving of statements that contains no admin release or rejection of that artifact, even of
  scans whose decision was taken on an earlier state, and blocks the download all that time.\<close>

lemma permanent_quarantine_holds:
  assumes "a \<in> set (artifacts db)" and "permanently_held a"
    and "\<forall>w\<in>set (row_history (art_id a) ws). \<not> admin_transition w"
  shows "\<exists>a'\<in>set (artifacts (run_writes ws db)). art_id a' = art_id a \<and> permanently_held a'
           \<and> check_download_allowed (quarantine_status a') (quarantine_until_ts a') now
               = Err (Conflict ''Artifact is quarantined and pending security review'')"
proof -
  obtain hist where hist: "set hist \<subseteq> set (row_history (art_id a) ws)"
    "fold apply_write hist a \<in> set (artifacts (run_writes ws db))"
    using run_writes_row[OF assms(1)] by blast
  have "permanently_held (fold apply_write hist a)"
    using permanent.locked_fold[OF assms(2)] assms(3) hist(1) by blast
  moreover have "art_id (fold apply_write hist a) = art_id a"
    by (induction hist rule: rev_induct) simp_all
  ultimately show ?thesis using hist(2)
    by (intro bexI[of _ "fold apply_write hist a"]) (auto simp: permanently_held_def check_download_allowed_def)
qed

lemma permanent_quarantine_holds_witness:
  "\<exists>a'\<in>set (artifacts (run_writes
       [(7, PostScan \<lparr>dec_status = ''clean'', clear_until = False, dec_reason = None\<rparr>),
        (7, PostScan \<lparr>dec_status = ''released'', clear_until = True, dec_reason = None\<rparr>), (8, AdminRelease)]
       (held_db ''quarantined'' None))).
     art_id a' = art_id (hd (artifacts (held_db ''quarantined'' None))) \<and> permanently_held a'
     \<and> check_download_allowed (quarantine_status a') (quarantine_until_ts a') 99
         = Err (Conflict ''Artifact is quarantined and pending security review'')"
  by (rule permanent_quarantine_holds)
    (simp_all add: held_db_def permanently_held_def row_history_def admin_transition_def)


text \<open>An upload to a hosted repository whose quarantine is enabled makes the artifact undownloadable
  for the whole configured period, which is at least a minute, whatever the policies say.\<close>

lemma upload_hold_blocks_download:
  assumes "repo_is_hosted db repo" and "outage db Artifacts = None"
    and "resolve_config env db cache clock repo = (config, cache')" and "cfg_enabled config"
    and "live_artifact db aid = Some a"
    and "quarantine_status a \<in> insert None (Some ` {''clean'', ''flagged'', ''unscanned'', ''released''})"
    and "t < now + duration_minutes config * 60000"
  shows "1 \<le> duration_minutes config
         \<and> enforce_download_gate (snd (apply_upload_hold_hosted env clock now repo aid cache db)) t aid
             = Err (Conflict ''Artifact is quarantined and pending security review'')"
proof -
  let ?w = "UploadHold ''quarantined'' (Some (now + duration_minutes config * 60000))"
  have pos: "1 \<le> duration_minutes config"
    using assms(3) by (auto simp: resolve_config_def validate_duration_def Let_def split: option.splits prod.splits)
  have "art_id a = aid \<and> \<not> is_deleted a" using assms(5) find_Some_iff_first unfolding live_artifact_def by fast
  then have row: "apply_write ?w a = a\<lparr>quarantine_status := Some ''quarantined'',
      quarantine_until_ts := Some (now + duration_minutes config * 60000)\<rparr>"
    using assms(6) by (auto simp: apply_write_def)
  have db': "snd (apply_upload_hold_hosted env clock now repo aid cache db) = snd (execute ?w aid db)"
    using assms(1,3,4) by (auto simp: apply_upload_hold_hosted_def apply_upload_hold_def should_quarantine_def
        quarantine_until_def set_quarantine_def split: prod.split sum.split)
  have "live_artifact (snd (execute ?w aid db)) aid = map_option (\<lambda>x. if art_id x = aid then apply_write ?w x else x) (live_artifact db aid)"
    unfolding execute_up[OF assms(2)] live_artifact_def by (simp add: find_map_invariant)
  then have "live_artifact (snd (execute ?w aid db)) aid = Some (apply_write ?w a)"
    using assms(5) \<open>art_id a = aid \<and> \<not> is_deleted a\<close> by simp
  then show ?thesis using pos assms(2,7) unfolding db' row
    by (simp add: enforce_download_gate_def fetch_quarantine_fields_with_repo_def db_query_def check_download_allowed_def)
qed

definition hold_db :: database where
  "hold_db = (demo_db [])\<lparr>repository_config := [(3, ''quarantine_enabled'', Some ''1''), (3, ''quarantine_duration_minutes'', Some ''5'')]\<rparr>"

lemma resolve_hold_db:
  "fst (resolve_config (\<lambda>_. None) hold_db Map.empty 0 3) = \<lparr>cfg_enabled = True, duration_minutes = 5\<rparr>"
proof -
  have "parse_i64 ''5'' = Some 5"
    by (simp add: parse_i64_def parse_uint_def digits_value_def digit_val_def is_ascii_digit_def code_of_def)
  then have "repo_settings hold_db 3 = (Some True, Some 5)"
    by (simp add: repo_settings_def hold_db_def demo_db_def db_query_def)
  then show ?thesis
    by (simp add: resolve_config_def Let_def cached_repo_settings_def validate_duration_def)
qed

lemma upload_hold_blocks_download_witness:
  "1 \<le> duration_minutes \<lparr>cfg_enabled = True, duration_minutes = 5\<rparr>
   \<and> enforce_download_gate (snd (apply_upload_hold_hosted (\<lambda>_. None) 0 1000 3 7 Map.empty hold_db)) 300999 7
       = Err (Conflict ''Artifact is quarantined and pending security review'')"
proof (rule upload_hold_blocks_download)
  show "resolve_config (\<lambda>_. None) hold_db Map.empty 0 3
      = (\<lparr>cfg_enabled = True, duration_minutes = 5\<rparr>, snd (resolve_config (\<lambda>_. None) hold_db Map.empty 0 3))"
    using resolve_hold_db by (metis prod.collapse)
  show "live_artifact hold_db 7 = Some (hd (artifacts hold_db))"
    by (simp add: hold_db_def demo_db_def live_artifact_def)
qed (simp_all add: hold_db_def demo_db_def repo_is_hosted_def db_query_def)

text \<open>A re-upload to an artifact whose timed hold has run out but whose row still says quarantined is
  not held again: the hold changes nothing, and the new content is past the quarantine check at
  once.\<close>

lemma lapsed_hold_is_not_renewed:
  assumes "artifact_row db aid = Some a" and "\<forall>x\<in>set (artifacts db). art_id x = aid \<longrightarrow> x = a"
    and "quarantine_status a = Some ''quarantined''" and "quarantine_until_ts a = Some u" and "u \<le> now"
  shows "snd (apply_upload_hold_hosted env clock now repo aid cache db) = db
         \<and> check_download_allowed (quarantine_status a) (quarantine_until_ts a) now = Ok ()"
proof -
  have "apply_write (UploadHold st until) a = a" for st until
    using assms(3) by (auto simp: apply_write_def)
  then have "map (\<lambda>x. if art_id x = aid then apply_write (UploadHold st until) x else x) (artifacts db) = artifacts db" for st until
    using assms(2) by (intro map_idI) auto
  then have "snd (execute (UploadHold st until) aid db) = db" for st until
    by (simp add: execute_def db_query_def split: option.split)
  then have "snd (set_quarantine aid st until db) = db" for st until
    by (metis (no_types, lifting) set_quarantine_def eq_snd_iff old.sum.exhaust split_pairs sum.case prod.case)
  then show ?thesis using assms(3-5)
    by (simp add: apply_upload_hold_hosted_def apply_upload_hold_def check_download_allowed_def split: prod.split)
qed

lemma lapsed_hold_is_not_renewed_witness:
  "snd (apply_upload_hold_hosted (\<lambda>_. Some ''true'') 0 50 3 7 Map.empty (held_db ''quarantined'' (Some 40))) = held_db ''quarantined'' (Some 40)
   \<and> check_download_allowed (quarantine_status (hd (artifacts (held_db ''quarantined'' (Some 40)))))
       (quarantine_until_ts (hd (artifacts (held_db ''quarantined'' (Some 40))))) 50 = Ok ()"
  by (rule lapsed_hold_is_not_renewed[where u = 40]) (simp_all add: held_db_def artifact_row_def)

text \<open>A failed read of the repository settings is cached like an answer: for the thirty seconds after
  it, a repository without a global default is treated as having no quarantine even though the
  database answers again and its settings enable it.\<close>

lemma settings_outage_is_cached:
  assumes "outage db RepositoryConfig \<noteq> None" and "cached_repo_settings cache t repo = None"
    and "env ''QUARANTINE_ENABLED'' = None" and "t \<le> u" and "u < t + QUARANTINE_CONFIG_TTL"
  shows "cfg_enabled (fst (resolve_config env db' (snd (resolve_config env db cache t repo)) u repo)) = False"
proof -
  have "repo_settings db repo = (None, None)"
    using assms(1) by (auto simp: repo_settings_def db_query_def split: option.splits)
  then have "snd (resolve_config env db cache t repo) = store_repo_settings cache t repo (None, None)"
    using assms(2) by (simp add: resolve_config_def Let_def)
  moreover have "u - t < QUARANTINE_CONFIG_TTL" using assms(4,5) by linarith
  ultimately have "cached_repo_settings (snd (resolve_config env db cache t repo)) u repo = Some (None, None)"
    by (simp add: cached_repo_settings_def store_repo_settings_def)
  then show ?thesis using assms(3) by (simp add: resolve_config_def Let_def)
qed

lemma settings_outage_is_cached_witness:
  "cfg_enabled (fst (resolve_config (\<lambda>_. None) hold_db
     (snd (resolve_config (\<lambda>_. None) (hold_db\<lparr>outage := (\<lambda>_. Some ''down'')\<rparr>) Map.empty 0 3)) 29000000000 3)) = False"
  by (rule settings_outage_is_cached) (simp_all add: cached_repo_settings_def QUARANTINE_CONFIG_TTL_def)

text \<open>After the settings handler has invalidated a repository's entry the effective configuration is
  read from the database, repository settings before environment before defaults, and an answer
  served from the cache was read at most thirty seconds earlier.\<close>

lemma config_cache_is_fresh:
  "fst (resolve_config env db (invalidate_config_cache cache repo) now repo)
     = \<lparr>cfg_enabled = unwrap_or (fst (repo_settings db repo))
                         (env ''QUARANTINE_ENABLED'' = Some ''true'' \<or> env ''QUARANTINE_ENABLED'' = Some ''1''),
        duration_minutes = max 1 (unwrap_or (snd (repo_settings db repo))
                         (unwrap_or (Option.bind (env ''QUARANTINE_DURATION_MINUTES'') parse_i64) 60))\<rparr>
   \<and> cached_repo_settings (store_repo_settings cache t repo s) (t + d) repo
       = (if d < 30000000000 then Some s else None)
   \<and> cached_repo_settings (invalidate_config_cache (store_repo_settings cache t repo s) repo) (t + d) repo = None"
  by (simp add: resolve_config_def Let_def invalidate_config_cache_def cached_repo_settings_def
      store_repo_settings_def QUARANTINE_CONFIG_TTL_def validate_duration_def max.commute DEFAULT_DURATION_MINUTES_def)

end
