(* ===== verification/Version_Compare.thy ===== *)
theory Version_Compare
  imports Rust_Str
begin

text \<open>
  The version comparison of the age gate (services/age_gate_service.rs): dot-separated segments
  compared numerically when both parse as 64-bit numbers and as text otherwise, a prerelease below
  its release. Shows that it is antisymmetric, that it is a total preorder on numeric versions, and
  that it is not one on all versions.
\<close>

definition seg_compare :: "string \<Rightarrow> string \<Rightarrow> int" where
  "seg_compare sa sb =
     (case (parse_u64 sa, parse_u64 sb) of
        (Some na, Some nb) \<Rightarrow> if na < nb then - 1 else if nb < na then 1 else 0
      | _ \<Rightarrow> if sa < sb then - 1 else if sb < sa then 1 else 0)"

text \<open>The loop over the indices of the longer list; a missing segment counts as \<open>0\<close>.\<close>

fun compare_segs :: "string list \<Rightarrow> string list \<Rightarrow> int" where
  "compare_segs [] [] = 0"
| "compare_segs (x # xs) [] = (let c = seg_compare x ''0'' in if c \<noteq> 0 then c else compare_segs xs [])"
| "compare_segs [] (y # ys) = (let c = seg_compare ''0'' y in if c \<noteq> 0 then c else compare_segs [] ys)"
| "compare_segs (x # xs) (y # ys) = (let c = seg_compare x y in if c \<noteq> 0 then c else compare_segs xs ys)"

definition compare_dot_segments :: "string \<Rightarrow> string \<Rightarrow> int" where
  "compare_dot_segments a b = compare_segs (split_chars [CHR ''.''] a) (split_chars [CHR ''.''] b)"

definition split_version_prerelease :: "string \<Rightarrow> string \<times> string option" where
  "split_version_prerelease version =
     (case split_once (CHR ''-'') version of
        Some (main, pre) \<Rightarrow> (main, Some pre)
      | None \<Rightarrow> (version, None))"

definition version_compare :: "string \<Rightarrow> string \<Rightarrow> int" where
  "version_compare a b =
     (let (main_a, pre_a) = split_version_prerelease a;
          (main_b, pre_b) = split_version_prerelease b;
          main_cmp = compare_dot_segments main_a main_b
      in if main_cmp \<noteq> 0 then main_cmp
         else (case (pre_a, pre_b) of
                 (None, None) \<Rightarrow> 0
               | (None, Some _) \<Rightarrow> 1
               | (Some _, None) \<Rightarrow> - 1
               | (Some pa, Some pb) \<Rightarrow> compare_dot_segments pa pb))"

definition version_compare_desc :: "string \<Rightarrow> string \<Rightarrow> ordering" where
  "version_compare_desc a b = ord_reverse (cmp (version_compare a b) 0)"

record last_known_good =
  lkg_version :: string
  artifact_path :: string

definition select_newest_approved_artifact :: "(string \<times> string) list \<Rightarrow> last_known_good option" where
  "select_newest_approved_artifact candidates =
     map_option (\<lambda>(version, path). \<lparr>lkg_version = version, artifact_path = path\<rparr>)
       (max_by (\<lambda>a b. cmp (version_compare (fst a) (fst b)) 0) candidates)"

section \<open>Antisymmetry\<close>

lemma seg_compare_flip: "seg_compare b a = - seg_compare a b"
  by (cases "parse_u64 a"; cases "parse_u64 b") (auto simp: seg_compare_def)

lemma compare_segs_flip: "compare_segs ys xs = - compare_segs xs ys"
proof (induction xs ys rule: compare_segs.induct)
  case (2 x xs)
  then show ?case using seg_compare_flip[of "''0''" x] by (simp add: Let_def)
next
  case (3 y ys)
  then show ?case using seg_compare_flip[of y "''0''"] by (simp add: Let_def)
next
  case (4 x xs y ys)
  then show ?case using seg_compare_flip[of y x] by (simp add: Let_def)
qed simp

lemma version_compare_flip: "version_compare b a = - version_compare a b"
proof -
  obtain ma pa where a: "split_version_prerelease a = (ma, pa)" by (cases "split_version_prerelease a")
  obtain mb pb where b: "split_version_prerelease b = (mb, pb)" by (cases "split_version_prerelease b")
  have dots: "compare_dot_segments x y = - compare_dot_segments y x" for x y
    unfolding compare_dot_segments_def by (rule compare_segs_flip)
  show ?thesis using dots[of mb ma] dots[of "the pb" "the pa"]
    by (cases pa; cases pb) (simp_all add: version_compare_def a b Let_def)
qed

lemma version_compare_desc_flip: "version_compare_desc b a = ord_reverse (version_compare_desc a b)"
  by (auto simp: version_compare_desc_def version_compare_flip[of b a] cmp_def)

section \<open>Numeric versions\<close>

definition numeric_version :: "string \<Rightarrow> bool" where
  "numeric_version v \<longleftrightarrow>
     CHR ''-'' \<notin> set v \<and> list_all (\<lambda>s. parse_u64 s \<noteq> None) (split_chars [CHR ''.''] v)"

definition sign_compare :: "'a::linorder \<Rightarrow> 'a \<Rightarrow> int" where
  "sign_compare a b = (if a < b then - 1 else if b < a then 1 else 0)"

fun compare_vals :: "nat list \<Rightarrow> nat list \<Rightarrow> int" where
  "compare_vals [] [] = 0"
| "compare_vals (x # xs) [] = (let c = sign_compare x 0 in if c \<noteq> 0 then c else compare_vals xs [])"
| "compare_vals [] (y # ys) = (let c = sign_compare 0 y in if c \<noteq> 0 then c else compare_vals [] ys)"
| "compare_vals (x # xs) (y # ys) = (let c = sign_compare x y in if c \<noteq> 0 then c else compare_vals xs ys)"

definition segment_values :: "string \<Rightarrow> nat list" where
  "segment_values v = map (\<lambda>s. the (parse_u64 s)) (split_chars [CHR ''.''] v)"

lemma parse_u64_zero: "parse_u64 ''0'' = Some 0"
  by (simp add: parse_uint_def digits_value_def digit_val_def is_ascii_digit_def code_of_def)

lemma seg_compare_numeric:
  "parse_u64 a = Some m \<Longrightarrow> parse_u64 b = Some n \<Longrightarrow> seg_compare a b = sign_compare m n"
  by (simp add: seg_compare_def sign_compare_def)

lemma compare_segs_numeric:
  "list_all (\<lambda>s. parse_u64 s \<noteq> None) xs \<Longrightarrow> list_all (\<lambda>s. parse_u64 s \<noteq> None) ys \<Longrightarrow>
   compare_segs xs ys = compare_vals (map (\<lambda>s. the (parse_u64 s)) xs) (map (\<lambda>s. the (parse_u64 s)) ys)"
  by (induction xs ys rule: compare_segs.induct)
    (auto simp: Let_def seg_compare_numeric parse_u64_zero)

lemma version_compare_numeric:
  assumes "numeric_version a" and "numeric_version b"
  shows "version_compare a b = compare_vals (segment_values a) (segment_values b)"
proof -
  have "split_version_prerelease v = (v, None)" if "numeric_version v" for v
    using that split_once_None[of "CHR ''-''" v] by (simp add: split_version_prerelease_def numeric_version_def)
  then show ?thesis
    using assms by (simp add: version_compare_def compare_dot_segments_def segment_values_def
        numeric_version_def compare_segs_numeric Let_def)
qed

definition pad :: "nat \<Rightarrow> nat list \<Rightarrow> nat list" where
  "pad n xs = xs @ replicate (n - length xs) 0"

lemma compare_vals_Nil: "compare_vals [] ys = sign_compare (replicate (length ys) 0) ys"
  by (induction ys) (auto simp: Let_def sign_compare_def)

lemma compare_vals_zeros: "compare_vals (replicate m 0) (replicate n 0) = 0"
proof (induction m arbitrary: n)
  case 0
  then show ?case by (induction n) (simp_all add: Let_def sign_compare_def)
next
  case (Suc m)
  then show ?case using Suc[of 0] Suc by (cases n) (simp_all add: Let_def sign_compare_def)
qed

lemma compare_vals_pad: "compare_vals (xs @ replicate m 0) (ys @ replicate n 0) = compare_vals xs ys"
proof (induction xs ys arbitrary: m n rule: compare_vals.induct)
  case 1
  then show ?case by (simp add: compare_vals_zeros)
next
  case (2 x xs)
  have "sign_compare x 0 = 0 \<Longrightarrow> compare_vals (xs @ replicate m 0) (replicate k 0) = compare_vals xs []" for k
    using 2[of _ m k] by simp
  from this[of 0] this[of "n - 1"] show ?case by (cases n) (simp_all add: Let_def)
next
  case (3 y ys)
  have "sign_compare 0 y = 0 \<Longrightarrow> compare_vals (replicate k 0) (ys @ replicate n 0) = compare_vals [] ys" for k
    using 3[of _ k n] by simp
  from this[of 0] this[of "m - 1"] show ?case by (cases m) (simp_all add: Let_def)
next
  case (4 x xs y ys)
  then show ?case by (auto simp: Let_def)
qed

lemma compare_vals_same_length: "length xs = length ys \<Longrightarrow> compare_vals xs ys = sign_compare xs ys"
  by (induction xs ys rule: list_induct2) (auto simp: Let_def sign_compare_def)

lemma compare_vals_lex:
  assumes "length xs \<le> n" and "length ys \<le> n"
  shows "compare_vals xs ys = sign_compare (pad n xs) (pad n ys)"
proof -
  have "compare_vals xs ys = compare_vals (pad n xs) (pad n ys)"
    by (simp add: pad_def compare_vals_pad)
  also have "\<dots> = sign_compare (pad n xs) (pad n ys)"
    using assms by (intro compare_vals_same_length) (simp add: pad_def)
  finally show ?thesis .
qed

text \<open>The numeric comparison is a total preorder on whatever the segments evaluate to.\<close>

definition numeric_order :: "string \<times> string \<Rightarrow> string \<times> string \<Rightarrow> ordering" where
  "numeric_order a b = cmp (compare_vals (segment_values (fst a)) (segment_values (fst b))) 0"

lemma sign_compare_trans:
  "sign_compare a b \<le> 0 \<Longrightarrow> sign_compare b c \<le> 0 \<Longrightarrow> sign_compare a c \<le> (0 :: int)"
  by (auto simp: sign_compare_def split: if_splits)

lemma compare_vals_trans:
  assumes "compare_vals xs ys \<le> 0" and "compare_vals ys zs \<le> 0"
  shows "compare_vals xs zs \<le> 0"
proof -
  let ?n = "length xs + length ys + length zs"
  show ?thesis
    using assms sign_compare_trans[of "pad ?n xs" "pad ?n ys" "pad ?n zs"]
    by (simp add: compare_vals_lex[of _ ?n])
qed

lemma compare_vals_flip: "compare_vals ys xs = - compare_vals xs ys"
proof -
  let ?n = "length xs + length ys"
  show ?thesis by (auto simp: compare_vals_lex[of _ ?n] sign_compare_def)
qed

interpretation numeric: comparator numeric_order
proof
  fix a b c :: "string \<times> string"
  show "numeric_order b a = ord_reverse (numeric_order a b)"
    using compare_vals_flip[of "segment_values (fst b)" "segment_values (fst a)"]
    by (auto simp: numeric_order_def cmp_def)
  assume "numeric_order a b \<noteq> Greater" and "numeric_order b c \<noteq> Greater"
  then show "numeric_order a c \<noteq> Greater"
    using compare_vals_trans[of "segment_values (fst a)" "segment_values (fst b)" "segment_values (fst c)"]
    by (auto simp: numeric_order_def cmp_def split: if_splits)
qed

lemma max_by_cong:
  "(\<And>x y. x \<in> insert m (set xs) \<Longrightarrow> y \<in> insert m (set xs) \<Longrightarrow> c x y = d x y) \<Longrightarrow>
   max_by_from c m xs = max_by_from d m xs"
  by (induction xs arbitrary: m) auto

section \<open>Properties\<close>

text \<open>Among candidates with purely numeric versions the newest one is selected: it is a candidate
  and no candidate's version is greater.\<close>

lemma last_known_good_is_newest:
  assumes "\<forall>(v, p)\<in>set candidates. numeric_version v" and "candidates \<noteq> []"
  shows "\<exists>g. select_newest_approved_artifact candidates = Some g
           \<and> (lkg_version g, artifact_path g) \<in> set candidates
           \<and> (\<forall>(v, p)\<in>set candidates. version_compare v (lkg_version g) \<le> 0)"
proof -
  let ?code = "\<lambda>a b :: string \<times> string. cmp (version_compare (fst a) (fst b)) 0"
  obtain c cs where cs: "candidates = c # cs" using assms(2) by (cases candidates) auto
  have same: "?code x y = numeric_order x y" if "x \<in> set candidates" "y \<in> set candidates" for x y
    using that assms(1) version_compare_numeric[of "fst x" "fst y"] by (auto simp: numeric_order_def split_beta)
  then have eq: "max_by_from ?code c cs = max_by_from numeric_order c cs"
    unfolding cs by (intro max_by_cong) simp
  obtain v p where m: "max_by_from numeric_order c cs = (v, p)" by fastforce
  have mem: "(v, p) \<in> set candidates" using max_by_from_in[of numeric_order c cs] by (simp add: m cs)
  have "version_compare (fst x) v \<le> 0" if "x \<in> set candidates" for x
    using numeric.max_by_from_upper[of x c cs] same[OF that mem] that
    by (auto simp: m cs cmp_def split: if_splits)
  then have "\<forall>(w, q)\<in>set candidates. version_compare w v \<le> 0" by fastforce
  moreover have "select_newest_approved_artifact candidates = Some \<lparr>lkg_version = v, artifact_path = p\<rparr>"
    using eq m by (simp add: select_newest_approved_artifact_def cs)
  ultimately show ?thesis using mem by simp
qed

lemma parse_u64_examples:
  "parse_u64 ''2'' = Some 2" "parse_u64 ''10'' = Some 10" "parse_u64 ''1a'' = None"
  by (simp_all add: parse_uint_def digits_value_def digit_val_def is_ascii_digit_def code_of_def)

lemma split_examples:
  "split_chars [CHR ''.''] ''2'' = [''2'']" "split_chars [CHR ''.''] ''10'' = [''10'']"
  "split_chars [CHR ''.''] ''1a'' = [''1a'']"
  "split_version_prerelease ''2'' = (''2'', None)" "split_version_prerelease ''10'' = (''10'', None)"
  "split_version_prerelease ''1a'' = (''1a'', None)"
  by code_simp+

lemma less_examples: "''10'' < (''1a'' :: string)" "''1a'' < (''2'' :: string)"
  by code_simp+

lemmas example_facts = parse_u64_examples split_examples less_examples less_examples[THEN less_imp_not_less]

lemma last_known_good_is_newest_witness:
  "\<exists>g. select_newest_approved_artifact [(''2'', ''a''), (''10'', ''b'')] = Some g
     \<and> (lkg_version g, artifact_path g) \<in> set [(''2'', ''a''), (''10'', ''b'')]
     \<and> version_compare ''2'' (lkg_version g) \<le> 0 \<and> version_compare ''10'' (lkg_version g) \<le> 0"
proof -
  have "\<forall>(v, p)\<in>set [(''2'', ''a''), (''10'', ''b'')]. numeric_version v"
    by (simp add: numeric_version_def example_facts)
  from last_known_good_is_newest[OF this] show ?thesis by auto
qed

text \<open>The comparison is antisymmetric but has cycles, so it is no order for sorting: which version
  sorts first, and so becomes the latest one, depends on the order the versions arrive in.\<close>

lemma version_order_has_cycles:
  "version_compare_desc b a = ord_reverse (version_compare_desc a b)
   \<and> version_compare ''2'' ''10'' < 0 \<and> version_compare ''10'' ''1a'' < 0 \<and> version_compare ''1a'' ''2'' < 0
   \<and> hd (sort_by version_compare_desc [''2'', ''1a'', ''10'']) \<noteq> hd (sort_by version_compare_desc [''10'', ''1a'', ''2''])"
proof -
  have c: "version_compare ''2'' ''10'' = - 1" "version_compare ''10'' ''1a'' = - 1" "version_compare ''1a'' ''2'' = - 1"
    by (simp_all add: version_compare_def compare_dot_segments_def example_facts seg_compare_def)
  have "version_compare ''10'' ''2'' = 1" "version_compare ''1a'' ''10'' = 1" "version_compare ''2'' ''1a'' = 1"
    by (simp_all only: c version_compare_flip[of "''10''" "''2''"] version_compare_flip[of "''1a''" "''10''"]
        version_compare_flip[of "''2''" "''1a''"] minus_minus)
  with c show ?thesis
    using version_compare_desc_flip[of b a] by (simp add: version_compare_desc_def cmp_def)
qed

end
