(* ===== verification/Age_Gate.thy ===== *)
theory Age_Gate
  imports Version_Compare Scan_Policy
begin

text \<open>
  The package age gate (services/age_gate_service.rs): the decision for one version, the batch
  classification for metadata listings, the review table with its upserts and admin transitions, and
  the background sweep. The tables the service touches are lists of rows; a failing database fails
  every query; emitted events are appended to a log; new identifiers come from a function of the
  rows in use. The joined repository key of a review row is left out, being derived.
\<close>

section \<open>Data\<close>

datatype repository_type = LocalRepo | RemoteRepo | VirtualRepo | StagingRepo

datatype repository_format = Npm | Pypi | OtherFormat string

record age_gate_repo_params =
  gp_id :: uuid
  gp_key :: string
  gp_type :: repository_type
  gp_format :: repository_format
  age_gate_enabled :: bool
  age_gate_min_age_days :: int

datatype review_status = Pending | Approved | RejectedReview

fun review_str :: "review_status \<Rightarrow> string" where
  "review_str Pending = ''pending''"
| "review_str Approved = ''approved''"
| "review_str RejectedReview = ''rejected''"

record age_gate_review =
  rev_id :: uuid
  rev_repo :: uuid
  rev_package :: string
  rev_version :: string
  rev_published :: "timestamp option"
  rev_status :: string
  rev_requested_at :: timestamp
  rev_by :: "uuid option"
  rev_at :: "timestamp option"
  rev_reason :: "string option"
  rev_count :: int
  rev_last_requested :: timestamp

record age_repository =
  ar_id :: uuid
  ar_key :: string
  ar_enabled :: bool
  ar_min_age_days :: int
  ar_updated_at :: timestamp

record age_artifact =
  aa_repo :: uuid
  aa_name :: string
  aa_version :: "string option"
  aa_path :: string
  aa_deleted :: bool

record age_event =
  ev_name :: string
  ev_review :: uuid
  ev_repo :: uuid
  ev_actor :: "uuid option"

record age_db =
  reviews :: "age_gate_review list"
  age_repos :: "age_repository list"
  age_artifacts :: "age_artifact list"
  events :: "age_event list"
  age_outage :: "string option"

definition age_query :: "age_db \<Rightarrow> 'a \<Rightarrow> 'a app_result" where
  "age_query db v = (case age_outage db of Some m \<Rightarrow> Err (Database m) | None \<Rightarrow> Ok v)"

definition emit :: "string \<Rightarrow> uuid \<Rightarrow> uuid \<Rightarrow> uuid option \<Rightarrow> age_db \<Rightarrow> age_db" where
  "emit name review repo actor db =
     db\<lparr>events := events db @ [\<lparr>ev_name = name, ev_review = review, ev_repo = repo, ev_actor = actor\<rparr>]\<rparr>"

definition AUTO_APPROVE_REASON :: string where
  "AUTO_APPROVE_REASON = ''auto-approved: crossed age threshold''"

definition REQUEST_COUNT_DEBOUNCE_SECS :: int where
  "REQUEST_COUNT_DEBOUNCE_SECS = 3600"

definition day_ms :: int where
  "day_ms = 86400000"

section \<open>Decisions\<close>

datatype check_action =
  ActAllow | BlockRejected | AllowAndAutoApprovePending | AllowAlreadyApproved | BlockAndRequestReview

definition decide_age_gate_check :: "string option \<Rightarrow> bool \<Rightarrow> check_action" where
  "decide_age_gate_check existing meets =
     (if existing = Some (review_str RejectedReview) then BlockRejected
      else if meets then
        (if existing = Some (review_str Pending) then AllowAndAutoApprovePending else ActAllow)
      else if existing = Some (review_str Approved) then AllowAlreadyApproved
      else BlockAndRequestReview)"

definition package_age_days :: "timestamp \<Rightarrow> timestamp \<Rightarrow> int" where
  "package_age_days published now = max ((now - published) div day_ms) 0"

definition meets_age_threshold :: "timestamp option \<Rightarrow> int \<Rightarrow> timestamp \<Rightarrow> bool" where
  "meets_age_threshold published min_age now =
     (case published of Some ts \<Rightarrow> min_age \<le> package_age_days ts now | None \<Rightarrow> False)"

record listing_classification =
  blocked :: "string list"
  request_versions :: "string list"
  request_times :: "timestamp option list"

fun classify_loop ::
  "(string \<rightharpoonup> uuid \<times> string) \<Rightarrow> int \<Rightarrow> timestamp \<Rightarrow> (string \<times> timestamp option) list
   \<Rightarrow> listing_classification \<Rightarrow> listing_classification" where
  "classify_loop existing min_age now [] out = out"
| "classify_loop existing min_age now ((v, published) # vs) out =
     (let status = map_option snd (existing v) in
      if status = Some (review_str RejectedReview) then
        classify_loop existing min_age now vs (out\<lparr>blocked := blocked out @ [v]\<rparr>)
      else if meets_age_threshold published min_age now then
        classify_loop existing min_age now vs out
      else if status = Some (review_str Approved) then
        classify_loop existing min_age now vs out
      else
        classify_loop existing min_age now vs
          (out\<lparr>blocked := blocked out @ [v], request_versions := request_versions out @ [v],
               request_times := request_times out @ [published]\<rparr>))"

definition classify_versions_for_metadata_listing ::
  "(string \<times> timestamp option) list \<Rightarrow> (string \<rightharpoonup> uuid \<times> string) \<Rightarrow> int \<Rightarrow> timestamp \<Rightarrow> listing_classification" where
  "classify_versions_for_metadata_listing versions existing min_age now =
     classify_loop existing min_age now versions \<lparr>blocked = [], request_versions = [], request_times = []\<rparr>"

definition validate_min_age_days :: "int \<Rightarrow> unit app_result" where
  "validate_min_age_days d =
     (if d < 0 \<or> 3650 < d then Err (Validation ''min_age_days must be between 0 and 3650'') else Ok ())"

definition require_distinct_status :: "string \<Rightarrow> review_status \<Rightarrow> unit app_result" where
  "require_distinct_status current target =
     (if current = review_str target then Err (Validation (''Review is already '' @ review_str target)) else Ok ())"

definition is_applicable :: "age_gate_repo_params \<Rightarrow> bool" where
  "is_applicable repo \<longleftrightarrow>
     gp_type repo = RemoteRepo \<and> age_gate_enabled repo \<and> (gp_format repo = Npm \<or> gp_format repo = Pypi)"

datatype age_gate_decision = Allow | Block uuid "last_known_good option"

section \<open>The review table\<close>

definition review_key :: "age_gate_review \<Rightarrow> uuid \<times> string \<times> string" where
  "review_key r = (rev_repo r, rev_package r, rev_version r)"

definition find_review :: "age_db \<Rightarrow> uuid \<times> string \<times> string \<Rightarrow> age_gate_review option" where
  "find_review db k = find (\<lambda>r. review_key r = k) (reviews db)"

definition get_review :: "age_db \<Rightarrow> uuid \<Rightarrow> string \<Rightarrow> string \<Rightarrow> age_gate_review option app_result" where
  "get_review db repo pkg ver = age_query db (find_review db (repo, pkg, ver))"

definition new_review :: "uuid \<Rightarrow> timestamp \<Rightarrow> uuid \<times> string \<times> string \<Rightarrow> timestamp option \<Rightarrow> age_gate_review" where
  "new_review i now k published =
     \<lparr>rev_id = i, rev_repo = fst k, rev_package = fst (snd k), rev_version = snd (snd k), rev_published = published,
      rev_status = ''pending'', rev_requested_at = now, rev_by = None, rev_at = None, rev_reason = None,
      rev_count = 1, rev_last_requested = now\<rparr>"

definition bump_review :: "timestamp \<Rightarrow> timestamp option \<Rightarrow> age_gate_review \<Rightarrow> age_gate_review" where
  "bump_review now published r =
     r\<lparr>rev_count := rev_count r + 1, rev_last_requested := now,
       rev_published := coalesce_opt published (rev_published r)\<rparr>"

text \<open>The upsert both request statements share; \<open>due\<close> is the condition on the update.\<close>

definition upsert_review ::
  "(age_gate_review list \<Rightarrow> uuid) \<Rightarrow> timestamp \<Rightarrow> (age_gate_review \<Rightarrow> bool) \<Rightarrow> uuid \<times> string \<times> string
   \<Rightarrow> timestamp option \<Rightarrow> age_gate_review list \<Rightarrow> age_gate_review list" where
  "upsert_review fresh now due k published rs =
     (if list_ex (\<lambda>r. review_key r = k) rs then
        map (\<lambda>r. if review_key r = k \<and> due r then bump_review now published r else r) rs
      else rs @ [new_review (fresh rs) now k published])"

definition request_review ::
  "(age_gate_review list \<Rightarrow> uuid) \<Rightarrow> timestamp \<Rightarrow> uuid \<Rightarrow> string \<Rightarrow> string \<Rightarrow> timestamp option \<Rightarrow> bool \<Rightarrow> age_db
   \<Rightarrow> uuid app_result \<times> age_db" where
  "request_review fresh now repo pkg ver published is_new db =
     (case age_query db () of
        Err e \<Rightarrow> (Err e, db)
      | Ok _ \<Rightarrow>
          (let db' = db\<lparr>reviews := upsert_review fresh now (\<lambda>_. True) (repo, pkg, ver) published (reviews db)\<rparr>;
               i = (case find_review db' (repo, pkg, ver) of Some r \<Rightarrow> rev_id r | None \<Rightarrow> fresh (reviews db))
           in (Ok i, if is_new then emit ''age_gate.queued'' i repo None db' else db')))"

definition auto_approve :: "timestamp \<Rightarrow> uuid \<Rightarrow> uuid \<Rightarrow> age_db \<Rightarrow> unit app_result \<times> age_db" where
  "auto_approve now i repo db =
     (case age_query db () of
        Err e \<Rightarrow> (Err e, db)
      | Ok _ \<Rightarrow>
          (Ok (), emit ''age_gate.approved'' i repo None
             (db\<lparr>reviews := map (\<lambda>r. if rev_id r = i \<and> rev_status r = ''pending''
                then r\<lparr>rev_status := ''approved'', rev_by := None, rev_at := Some now,
                       rev_reason := Some AUTO_APPROVE_REASON\<rparr> else r) (reviews db)\<rparr>)))"

definition get_reviews_for_package :: "age_db \<Rightarrow> uuid \<Rightarrow> string \<Rightarrow> (string \<rightharpoonup> uuid \<times> string) app_result" where
  "get_reviews_for_package db repo pkg =
     age_query db
       (map_of (rev (map (\<lambda>r. (rev_version r, (rev_id r, rev_status r)))
                     (filter (\<lambda>r. rev_repo r = repo \<and> rev_package r = pkg) (reviews db)))))"

text \<open>One row of the batch statement: insert with its event, or a debounced bump.\<close>

definition request_one ::
  "(age_gate_review list \<Rightarrow> uuid) \<Rightarrow> timestamp \<Rightarrow> uuid \<Rightarrow> string \<Rightarrow> string \<times> timestamp option \<Rightarrow> age_db \<Rightarrow> age_db" where
  "request_one fresh now repo pkg vp db =
     (let stale_before = now - REQUEST_COUNT_DEBOUNCE_SECS * 1000;
          k = (repo, pkg, fst vp);
          db' = db\<lparr>reviews := upsert_review fresh now (\<lambda>r. rev_last_requested r < stale_before) k (snd vp) (reviews db)\<rparr>
      in if find_review db k = None then emit ''age_gate.queued'' (fresh (reviews db)) repo None db' else db')"

definition request_reviews_batch ::
  "(age_gate_review list \<Rightarrow> uuid) \<Rightarrow> timestamp \<Rightarrow> uuid \<Rightarrow> string \<Rightarrow> string list \<Rightarrow> timestamp option list \<Rightarrow> age_db
   \<Rightarrow> unit app_result \<times> age_db" where
  "request_reviews_batch fresh now repo pkg versions pubs db =
     (case age_query db () of
        Err e \<Rightarrow> (Err e, db)
      | Ok _ \<Rightarrow> (Ok (), fold (request_one fresh now repo pkg) (zip versions pubs) db))"

definition sweep_due :: "age_db \<Rightarrow> timestamp \<Rightarrow> age_gate_review \<Rightarrow> bool" where
  "sweep_due db now r \<longleftrightarrow>
     rev_status r = ''pending''
     \<and> list_ex (\<lambda>repo. ar_id repo = rev_repo r \<and> ar_enabled repo
          \<and> (case rev_published r of Some ts \<Rightarrow> ar_min_age_days repo * day_ms \<le> now - ts | None \<Rightarrow> False)) (age_repos db)"

definition auto_approve_aged_reviews :: "timestamp \<Rightarrow> age_db \<Rightarrow> nat app_result \<times> age_db" where
  "auto_approve_aged_reviews now db =
     (case age_query db (filter (sweep_due db now) (reviews db)) of
        Err e \<Rightarrow> (Err e, db)
      | Ok rows \<Rightarrow>
          (Ok (length rows),
           fold (\<lambda>r. emit ''age_gate.approved'' (rev_id r) (rev_repo r) None) rows
             (db\<lparr>reviews := map (\<lambda>r. if sweep_due db now r
                then r\<lparr>rev_status := ''approved'', rev_by := None, rev_at := Some now,
                       rev_reason := Some AUTO_APPROVE_REASON\<rparr> else r) (reviews db)\<rparr>)))"

definition find_last_known_good :: "age_db \<Rightarrow> uuid \<Rightarrow> string \<Rightarrow> string \<Rightarrow> last_known_good option app_result" where
  "find_last_known_good db repo pkg exclude =
     result_bind
       (age_query db (filter (\<lambda>a. aa_repo a = repo \<and> \<not> aa_deleted a \<and> aa_version a \<noteq> None
            \<and> aa_version a \<noteq> Some exclude \<and> to_lowercase (aa_name a) = to_lowercase pkg
            \<and> (case find_review db (repo, pkg, the (aa_version a)) of
                 None \<Rightarrow> True | Some r \<Rightarrow> rev_status r = ''approved'')) (age_artifacts db)))
       (\<lambda>rows. Ok (select_newest_approved_artifact
          (List.map_filter (\<lambda>a. map_option (\<lambda>v. (v, aa_path a)) (aa_version a)) rows)))"

section \<open>Operations\<close>

definition check ::
  "(age_gate_review list \<Rightarrow> uuid) \<Rightarrow> timestamp \<Rightarrow> age_gate_repo_params \<Rightarrow> string \<Rightarrow> string \<Rightarrow> timestamp option \<Rightarrow> age_db
   \<Rightarrow> age_gate_decision app_result \<times> age_db" where
  "check fresh now repo pkg ver published db =
     (if \<not> is_applicable repo then (Ok Allow, db)
      else case get_review db (gp_id repo) pkg ver of
        Err e \<Rightarrow> (Err e, db)
      | Ok existing \<Rightarrow>
          (case decide_age_gate_check (map_option rev_status existing)
                  (meets_age_threshold published (age_gate_min_age_days repo) now) of
             ActAllow \<Rightarrow> (Ok Allow, db)
           | BlockRejected \<Rightarrow>
               (case find_last_known_good db (gp_id repo) pkg ver of
                  Err e \<Rightarrow> (Err e, db)
                | Ok lkg \<Rightarrow> (Ok (Block (rev_id (the existing)) lkg), db))
           | AllowAndAutoApprovePending \<Rightarrow>
               (case auto_approve now (rev_id (the existing)) (gp_id repo) db of
                  (Err e, db') \<Rightarrow> (Err e, db')
                | (Ok _, db') \<Rightarrow> (Ok Allow, db'))
           | AllowAlreadyApproved \<Rightarrow> (Ok Allow, db)
           | BlockAndRequestReview \<Rightarrow>
               (case request_review fresh now (gp_id repo) pkg ver published (existing = None) db of
                  (Err e, db') \<Rightarrow> (Err e, db')
                | (Ok i, db') \<Rightarrow>
                    (case find_last_known_good db' (gp_id repo) pkg ver of
                       Err e \<Rightarrow> (Err e, db')
                     | Ok lkg \<Rightarrow> (Ok (Block i lkg), db')))))"

definition evaluate_versions_batch ::
  "(age_gate_review list \<Rightarrow> uuid) \<Rightarrow> timestamp \<Rightarrow> age_gate_repo_params \<Rightarrow> string \<Rightarrow> (string \<times> timestamp option) list
   \<Rightarrow> age_db \<Rightarrow> string list app_result \<times> age_db" where
  "evaluate_versions_batch fresh now repo pkg versions db =
     (if \<not> is_applicable repo \<or> versions = [] then (Ok [], db)
      else case get_reviews_for_package db (gp_id repo) pkg of
        Err e \<Rightarrow> (Err e, db)
      | Ok existing \<Rightarrow>
          (let c = classify_versions_for_metadata_listing versions existing (age_gate_min_age_days repo) now in
           if request_versions c = [] then (Ok (blocked c), db)
           else (case request_reviews_batch fresh now (gp_id repo) pkg (request_versions c) (request_times c) db of
                   (Err e, db') \<Rightarrow> (Err e, db')
                 | (Ok _, db') \<Rightarrow> (Ok (blocked c), db'))))"

definition get_review_by_id :: "age_db \<Rightarrow> uuid \<Rightarrow> age_gate_review app_result" where
  "get_review_by_id db i =
     result_bind (age_query db (find (\<lambda>r. rev_id r = i \<and> list_ex (\<lambda>repo. ar_id repo = rev_repo r) (age_repos db)) (reviews db)))
       (\<lambda>row. case row of Some r \<Rightarrow> Ok r | None \<Rightarrow> Err (NotFound ''Age gate review not found''))"

text \<open>The three admin transitions differ in the target status and the event.\<close>

definition set_review_status ::
  "review_status \<Rightarrow> string \<Rightarrow> timestamp \<Rightarrow> uuid \<Rightarrow> uuid \<Rightarrow> string option \<Rightarrow> age_db \<Rightarrow> age_gate_review app_result \<times> age_db" where
  "set_review_status target event now i reviewer reason db =
     (case result_bind (get_review_by_id db i) (\<lambda>review.
             result_bind (require_distinct_status (rev_status review) target) (\<lambda>_. age_query db review)) of
        Err e \<Rightarrow> (Err e, db)
      | Ok review \<Rightarrow>
          (let db' = emit event i (rev_repo review) (Some reviewer)
                 (db\<lparr>reviews := map (\<lambda>r. if rev_id r = i
                    then r\<lparr>rev_status := review_str target, rev_by := Some reviewer, rev_at := Some now, rev_reason := reason\<rparr>
                    else r) (reviews db)\<rparr>)
           in (get_review_by_id db' i, db')))"

definition approve :: "timestamp \<Rightarrow> uuid \<Rightarrow> uuid \<Rightarrow> string option \<Rightarrow> age_db \<Rightarrow> age_gate_review app_result \<times> age_db" where
  "approve = set_review_status Approved ''age_gate.approved''"

definition reject :: "timestamp \<Rightarrow> uuid \<Rightarrow> uuid \<Rightarrow> string option \<Rightarrow> age_db \<Rightarrow> age_gate_review app_result \<times> age_db" where
  "reject = set_review_status RejectedReview ''age_gate.rejected''"

definition reopen ::
  "timestamp \<Rightarrow> uuid \<Rightarrow> uuid \<Rightarrow> string option \<Rightarrow> age_db \<Rightarrow> (string \<times> age_gate_review) app_result \<times> age_db" where
  "reopen now i reviewer reason db =
     (let (res, db') = set_review_status Pending ''age_gate.reopened'' now i reviewer reason db
      in (result_bind res (\<lambda>updated. result_bind (get_review_by_id db i) (\<lambda>old. Ok (rev_status old, updated))), db'))"

definition update_repo_config :: "timestamp \<Rightarrow> uuid \<Rightarrow> bool \<Rightarrow> int \<Rightarrow> age_db \<Rightarrow> unit app_result \<times> age_db" where
  "update_repo_config now repo en days db =
     (case result_bind (validate_min_age_days days) (\<lambda>_. age_query db ()) of
        Err e \<Rightarrow> (Err e, db)
      | Ok _ \<Rightarrow>
          (Ok (), db\<lparr>age_repos := map (\<lambda>r. if ar_id r = repo
             then r\<lparr>ar_enabled := en, ar_min_age_days := days, ar_updated_at := now\<rparr> else r) (age_repos db)\<rparr>))"

definition list_reviews ::
  "age_db \<Rightarrow> string option \<Rightarrow> string list option \<Rightarrow> nat \<Rightarrow> nat \<Rightarrow> (age_gate_review list \<times> nat) app_result" where
  "list_reviews db repo_key statuses off lim =
     (let rows = filter (\<lambda>r. list_ex (\<lambda>repo. ar_id repo = rev_repo r
                     \<and> (case repo_key of None \<Rightarrow> True | Some k \<Rightarrow> ar_key repo = k)) (age_repos db)
                   \<and> (case statuses of None \<Rightarrow> True | Some ss \<Rightarrow> rev_status r \<in> set ss)) (reviews db)
      in age_query db (take lim (drop off (sort_by (by_column_desc rev_last_requested) rows)), length rows))"

section \<open>The gate as a predicate\<close>

definition gate_allows :: "age_gate_repo_params \<Rightarrow> string option \<Rightarrow> timestamp option \<Rightarrow> timestamp \<Rightarrow> bool" where
  "gate_allows repo status published now \<longleftrightarrow>
     \<not> is_applicable repo
     \<or> (status \<noteq> Some ''rejected''
        \<and> (meets_age_threshold published (age_gate_min_age_days repo) now \<or> status = Some ''approved''))"

definition review_state :: "age_db \<Rightarrow> age_gate_repo_params \<Rightarrow> string \<Rightarrow> string \<Rightarrow> string option" where
  "review_state db repo pkg ver = map_option rev_status (find_review db (gp_id repo, pkg, ver))"

lemma bump_frame [simp]:
  "rev_id (bump_review now p r) = rev_id r" "review_key (bump_review now p r) = review_key r"
  "rev_status (bump_review now p r) = rev_status r"
  by (simp_all add: bump_review_def review_key_def)

lemma new_review_key [simp]: "review_key (new_review i now k p) = k" "rev_id (new_review i now k p) = i"
  by (simp_all add: review_key_def new_review_def)

lemma find_key_map:
  assumes "\<And>r. review_key (f r) = review_key r"
  shows "find (\<lambda>r. review_key r = k) (map f rs) = map_option f (find (\<lambda>r. review_key r = k) rs)"
  by (rule find_map_invariant) (simp add: assms)

lemma find_key_upsert:
  "find (\<lambda>r. review_key r = k) (upsert_review fresh now due k' p rs) =
     (case find (\<lambda>r. review_key r = k) rs of
        Some r \<Rightarrow> Some (if k = k' \<and> due r then bump_review now p r else r)
      | None \<Rightarrow> if k = k' then Some (new_review (fresh rs) now k p) else None)"
proof (cases "list_ex (\<lambda>r. review_key r = k') rs")
  case True
  have "find (\<lambda>r. review_key r = k) (map (\<lambda>r. if review_key r = k' \<and> due r then bump_review now p r else r) rs)
      = map_option (\<lambda>r. if review_key r = k' \<and> due r then bump_review now p r else r) (find (\<lambda>r. review_key r = k) rs)"
    by (rule find_key_map) simp
  then have eq: "find (\<lambda>r. review_key r = k) (upsert_review fresh now due k' p rs)
      = map_option (\<lambda>r. if review_key r = k' \<and> due r then bump_review now p r else r) (find (\<lambda>r. review_key r = k) rs)"
    using True by (simp add: upsert_review_def)
  show ?thesis
  proof (cases "find (\<lambda>r. review_key r = k) rs")
    case None
    then have "k \<noteq> k'" using True by (auto simp: find_None_iff list_ex_iff)
    then show ?thesis using eq None by simp
  next
    case (Some r)
    then have "review_key r = k" using find_Some_iff_first[of "\<lambda>r. review_key r = k" rs] by blast
    then show ?thesis using eq Some by simp
  qed
next
  case False
  then have none: "find (\<lambda>r. review_key r = k') rs = None"
    by (simp add: find_None_iff list_ex_iff)
  have "find (\<lambda>r. review_key r = k) (rs @ [new_review (fresh rs) now k' p]) =
      (case find (\<lambda>r. review_key r = k) rs of Some x \<Rightarrow> Some x
       | None \<Rightarrow> if review_key (new_review (fresh rs) now k' p) = k then Some (new_review (fresh rs) now k' p) else None)"
    by (rule find_snoc_key)
  then show ?thesis using False none by (auto simp: upsert_review_def split: option.splits)
qed

lemma emit_frame [simp]:
  "reviews (emit n i r a db) = reviews db" "age_repos (emit n i r a db) = age_repos db"
  "age_artifacts (emit n i r a db) = age_artifacts db" "age_outage (emit n i r a db) = age_outage db"
  "find_review (emit n i r a db) = find_review db"
  by (simp_all add: emit_def find_review_def fun_eq_iff)

lemma request_review_found:
  assumes "age_outage db = None"
  shows "\<exists>r db'. request_review fresh now repo pkg ver p is_new db = (Ok (rev_id r), db')
     \<and> find_review db' (repo, pkg, ver) = Some r \<and> age_outage db' = None"
  using assms
  by (auto simp: request_review_def age_query_def find_review_def find_key_upsert Let_def split: option.splits)

lemma find_last_known_good_up: "age_outage db = None \<Longrightarrow> \<exists>g. find_last_known_good db repo pkg ver = Ok g"
  by (simp add: find_last_known_good_def age_query_def)

section \<open>The listing path\<close>

lemma classify_loop_blocked:
  "blocked (classify_loop existing min_age now vs out) =
     blocked out @ map fst (filter (\<lambda>(v, p). map_option snd (existing v) = Some ''rejected''
       \<or> \<not> meets_age_threshold p min_age now \<and> map_option snd (existing v) \<noteq> Some ''approved'') vs)"
  by (induction existing min_age now vs out rule: classify_loop.induct) (auto simp: Let_def)

lemma classify_blocked_iff:
  assumes "is_applicable repo"
  shows "set (blocked (classify_versions_for_metadata_listing vs existing (age_gate_min_age_days repo) now)) =
     fst ` {(v, p) \<in> set vs. \<not> gate_allows repo (map_option snd (existing v)) p now}"
  using assms by (auto simp: classify_versions_for_metadata_listing_def classify_loop_blocked gate_allows_def image_iff)

lemma find_map_of:
  assumes "distinct (map review_key rs)"
  shows "map_option snd (map_of (rev (map (\<lambda>r. (rev_version r, (rev_id r, rev_status r)))
             (filter (\<lambda>r. rev_repo r = repo \<and> rev_package r = pkg) rs))) v)
         = map_option rev_status (find (\<lambda>r. review_key r = (repo, pkg, v)) rs)"
  using assms
proof (induction rs)
  case (Cons r rs)
  show ?case
  proof (cases "review_key r = (repo, pkg, v)")
    case True
    then have "\<forall>x\<in>set rs. \<not> (rev_repo x = repo \<and> rev_package x = pkg \<and> rev_version x = v)"
      using Cons.prems by (force simp: review_key_def)
    then have "v \<notin> fst ` set (rev (map (\<lambda>r. (rev_version r, (rev_id r, rev_status r)))
             (filter (\<lambda>r. rev_repo r = repo \<and> rev_package r = pkg) rs)))" by auto
    then have "map_of (rev (map (\<lambda>r. (rev_version r, (rev_id r, rev_status r)))
             (filter (\<lambda>r. rev_repo r = repo \<and> rev_package r = pkg) rs))) v = None"
      by (subst map_of_eq_None_iff)
    then show ?thesis using True by (simp add: review_key_def map_add_def)
  next
    case False
    then show ?thesis using Cons by (auto simp: review_key_def map_add_def split: option.splits)
  qed
qed simp

section \<open>Invariant and operations\<close>

datatype age_op =
  OpCheck timestamp age_gate_repo_params string string "timestamp option"
| OpList timestamp age_gate_repo_params string "(string \<times> timestamp option) list"
| OpSweep timestamp
| OpConfig timestamp uuid bool int
| OpApprove timestamp uuid uuid "string option"
| OpReject timestamp uuid uuid "string option"
| OpReopen timestamp uuid uuid "string option"

fun run_age_op :: "(age_gate_review list \<Rightarrow> uuid) \<Rightarrow> age_op \<Rightarrow> age_db \<Rightarrow> age_db" where
  "run_age_op fresh (OpCheck now repo pkg ver p) db = snd (check fresh now repo pkg ver p db)"
| "run_age_op fresh (OpList now repo pkg vs) db = snd (evaluate_versions_batch fresh now repo pkg vs db)"
| "run_age_op fresh (OpSweep now) db = snd (auto_approve_aged_reviews now db)"
| "run_age_op fresh (OpConfig now repo en days) db = snd (update_repo_config now repo en days db)"
| "run_age_op fresh (OpApprove now i by_user reason) db = snd (approve now i by_user reason db)"
| "run_age_op fresh (OpReject now i by_user reason) db = snd (reject now i by_user reason db)"
| "run_age_op fresh (OpReopen now i by_user reason) db = snd (reopen now i by_user reason db)"

text \<open>Decisions that lift a rejection of the review with a given identifier.\<close>

fun lifts_rejection :: "uuid \<Rightarrow> age_op \<Rightarrow> bool" where
  "lifts_rejection i (OpApprove now j by_user reason) = (i = j)"
| "lifts_rejection i (OpReopen now j by_user reason) = (i = j)"
| "lifts_rejection i _ = False"

text \<open>How an operation may change the review rows: in place, keeping identifier and key, plus rows
  appended under keys that were free. A change is gentle to a review when it keeps its rejection.\<close>

inductive evolves :: "uuid \<Rightarrow> age_gate_review list \<Rightarrow> age_gate_review list \<Rightarrow> bool" for i rs where
  evolves_refl: "evolves i rs rs"
| evolves_map: "evolves i rs rs' \<Longrightarrow> (\<And>r. review_key (f r) = review_key r) \<Longrightarrow> (\<And>r. rev_id (f r) = rev_id r) \<Longrightarrow>
    (\<And>r. rev_id r = i \<Longrightarrow> rev_status r = ''rejected'' \<Longrightarrow> rev_status (f r) = ''rejected'') \<Longrightarrow> evolves i rs (map f rs')"
| evolves_snoc: "evolves i rs rs' \<Longrightarrow> review_key r \<notin> review_key ` set rs' \<Longrightarrow> evolves i rs (rs' @ [r])"

lemma evolves_distinct: "evolves i rs rs' \<Longrightarrow> distinct (map review_key rs) \<Longrightarrow> distinct (map review_key rs')"
proof (induction rule: evolves.induct)
  case (evolves_map rs' f)
  have "map review_key (map f rs') = map review_key rs'" by (simp add: evolves_map.hyps)
  then show ?case using evolves_map by presburger
next
  case (evolves_snoc rs' r)
  then show ?case by simp
qed simp

lemma evolves_rejected:
  "evolves i rs rs' \<Longrightarrow> find (\<lambda>r. review_key r = k) rs = Some r \<Longrightarrow> rev_id r = i \<Longrightarrow> rev_status r = ''rejected'' \<Longrightarrow>
   \<exists>r'. find (\<lambda>r. review_key r = k) rs' = Some r' \<and> rev_id r' = i \<and> rev_status r' = ''rejected''"
proof (induction rule: evolves.induct)
  case (evolves_map rs' f)
  then show ?case by (auto simp: find_key_map)
next
  case (evolves_snoc rs' r')
  then show ?case by (auto simp: find_append_Some)
qed simp

lemma evolves_trans: "evolves i rs' rs'' \<Longrightarrow> evolves i rs rs' \<Longrightarrow> evolves i rs rs''"
  by (induction rule: evolves.induct) (auto intro: evolves.intros)

lemma evolves_upsert: "evolves i rs (upsert_review fresh now due k p rs)"
  by (auto simp: upsert_review_def list_ex_iff intro!: evolves_map[OF evolves_refl] evolves_snoc[OF evolves_refl])

lemma evolves_set_status:
  assumes "st = ''rejected'' \<or> \<not> P_i" and "\<And>r. P r \<Longrightarrow> rev_id r = i \<Longrightarrow> rev_status r = ''rejected'' \<Longrightarrow> P_i"
  shows "evolves i rs (map (\<lambda>r. if P r then r\<lparr>rev_status := st, rev_by := b, rev_at := t, rev_reason := w\<rparr> else r) rs)"
  using assms by (intro evolves_map[OF evolves_refl]) (auto simp: review_key_def)

lemma reviews_fold_request: "evolves i (reviews db) (reviews (fold (request_one fresh now repo pkg) vps db))"
proof (induction vps arbitrary: db)
  case (Cons vp vps)
  have "evolves i (reviews db) (reviews (request_one fresh now repo pkg vp db))"
    using evolves_upsert by (simp add: request_one_def Let_def)
  from evolves_trans[OF Cons.IH this] show ?case by simp
qed (simp add: evolves_refl)

lemma reviews_fold_emit: "reviews (fold (\<lambda>r. emit n (rev_id r) (rev_repo r) a) rows db) = reviews db"
  by (induction rows arbitrary: db) simp_all

lemma request_evolves: "evolves i (reviews db) (reviews (snd (request_review fresh now repo pkg ver p n db)))"
  by (simp add: request_review_def Let_def evolves_refl evolves_upsert split: sum.split)

lemma auto_approve_evolves: "evolves i (reviews db) (reviews (snd (auto_approve now j repo db)))"
proof (cases "age_query db ()")
  case (Inr u)
  then show ?thesis
    by (simp add: auto_approve_def) (rule evolves_set_status[where P_i = False], simp_all)
qed (simp add: auto_approve_def evolves_refl)

lemma check_evolves: "evolves i (reviews db) (reviews (snd (check fresh now repo pkg ver p db)))"
proof (cases "is_applicable repo")
  case True
  show ?thesis
  proof (cases "get_review db (gp_id repo) pkg ver")
    case (Inr existing)
    have req: "evolves i (reviews db) (reviews x)" if "request_review fresh now (gp_id repo) pkg ver p n db = (res, x)" for n res x
      using request_evolves[of i db fresh now "gp_id repo" pkg ver p n] that by simp
    have auto: "evolves i (reviews db) (reviews x)" if "auto_approve now j (gp_id repo) db = (res, x)" for j res x
      using auto_approve_evolves[of i db now j "gp_id repo"] that by simp
    show ?thesis using True Inr
      by (cases "decide_age_gate_check (map_option rev_status existing) (meets_age_threshold p (age_gate_min_age_days repo) now)")
        (auto simp: check_def evolves_refl intro: req auto split: sum.split prod.split)
  qed (simp add: check_def True evolves_refl)
qed (simp add: check_def evolves_refl)

lemma batch_evolves: "evolves i (reviews db) (reviews (snd (evaluate_versions_batch fresh now repo pkg vs db)))"
  by (auto simp: evaluate_versions_batch_def request_reviews_batch_def Let_def evolves_refl reviews_fold_request
      split: sum.split)

lemma sweep_evolves: "evolves i (reviews db) (reviews (snd (auto_approve_aged_reviews now db)))"
  by (auto simp: auto_approve_aged_reviews_def evolves_refl reviews_fold_emit sweep_due_def split: sum.split
      intro!: evolves_set_status[where P_i = False])

lemma status_evolves:
  "target = RejectedReview \<or> i \<noteq> j \<Longrightarrow>
   evolves i (reviews db) (reviews (snd (set_review_status target ev now j by_user reason db)))"
  by (auto simp: set_review_status_def Let_def evolves_refl split: sum.split
      intro!: evolves_set_status[where P_i = "i = j"])

lemma reopen_db: "snd (reopen now j by_user reason db) = snd (set_review_status Pending ''age_gate.reopened'' now j by_user reason db)"
  by (simp add: reopen_def split: prod.split)

lemma run_age_op_evolves:
  "\<not> lifts_rejection i oper \<Longrightarrow> evolves i (reviews db) (reviews (run_age_op fresh oper db))"
  using check_evolves batch_evolves sweep_evolves status_evolves
  by (cases oper) (auto simp: approve_def reject_def reopen_db update_repo_config_def evolves_refl
      split: sum.split prod.split)

text \<open>A rejected review is a lock on the table that only a decision about that review opens.\<close>

definition rejected_review :: "uuid \<times> string \<times> string \<Rightarrow> uuid \<Rightarrow> age_db \<Rightarrow> bool" where
  "rejected_review k i db \<longleftrightarrow>
     distinct (map review_key (reviews db))
     \<and> (\<exists>r. find_review db k = Some r \<and> rev_id r = i \<and> rev_status r = ''rejected'')"

interpretation review_lock: lock "run_age_op fresh" "rejected_review k i" "lifts_rejection i" for fresh k i
proof
  fix db oper
  assume "rejected_review k i db" and "\<not> lifts_rejection i oper"
  then show "rejected_review k i (run_age_op fresh oper db)"
    using run_age_op_evolves[of i oper db fresh] evolves_distinct evolves_rejected
    unfolding rejected_review_def find_review_def by blast
qed

lemma check_outcome:
  "case age_outage db of
     Some m \<Rightarrow> fst (check fresh now repo pkg ver published db) = (if is_applicable repo then Err (Database m) else Ok Allow)
   | None \<Rightarrow>
       (\<exists>d db'. check fresh now repo pkg ver published db = (Ok d, db')
          \<and> (case d of
               Allow \<Rightarrow> gate_allows repo (review_state db repo pkg ver) published now
             | Block i lkg \<Rightarrow> \<not> gate_allows repo (review_state db repo pkg ver) published now
                            \<and> map_option rev_id (find_review db' (gp_id repo, pkg, ver)) = Some i))"
proof (cases "age_outage db")
  case (Some m)
  then show ?thesis by (simp add: check_def get_review_def age_query_def)
next
  case None
  show ?thesis
  proof (cases "is_applicable repo")
    case False
    then show ?thesis using None by (simp add: check_def gate_allows_def)
  next
    case True
    obtain r db' where req: "request_review fresh now (gp_id repo) pkg ver published
        (find_review db (gp_id repo, pkg, ver) = None) db = (Ok (rev_id r), db')"
      "find_review db' (gp_id repo, pkg, ver) = Some r" "age_outage db' = None"
      using request_review_found[OF None] by metis
    obtain g g' where g: "find_last_known_good db (gp_id repo) pkg ver = Ok g"
      "find_last_known_good db' (gp_id repo) pkg ver = Ok g'"
      using find_last_known_good_up None req(3) by metis
    show ?thesis
      using None True req g
      by (auto simp: check_def get_review_def age_query_def decide_age_gate_check_def gate_allows_def
          review_state_def auto_approve_def split: option.splits)
  qed
qed

lemma check_allow_iff:
  "age_outage db = None \<Longrightarrow>
   fst (check fresh now repo pkg ver p db) = Ok Allow \<longleftrightarrow> gate_allows repo (review_state db repo pkg ver) p now"
proof -
  assume "age_outage db = None"
  then obtain d db' where "check fresh now repo pkg ver p db = (Ok d, db')"
    "case d of Allow \<Rightarrow> gate_allows repo (review_state db repo pkg ver) p now
             | Block i lkg \<Rightarrow> \<not> gate_allows repo (review_state db repo pkg ver) p now
                            \<and> map_option rev_id (find_review db' (gp_id repo, pkg, ver)) = Some i"
    using check_outcome[where db = db and fresh = fresh and now = now and repo = repo and pkg = pkg and ver = ver
        and published = p] by auto
  then show ?thesis by (cases d) simp_all
qed

lemma le_div_iff: "0 < d \<Longrightarrow> n \<le> m div d \<longleftrightarrow> n * d \<le> (m :: int)"
proof
  assume d: "0 < d" and "n \<le> m div d"
  then have "n * d \<le> m div d * d" by (intro mult_right_mono) auto
  also have "\<dots> \<le> m" using d by (simp add: pos_mod_sign minus_mod_eq_div_mult[symmetric])
  finally show "n * d \<le> m" .
next
  assume d: "0 < d" and "n * d \<le> m"
  then have "n * d div d \<le> m div d" by (intro zdiv_mono1)
  then show "n \<le> m div d" using d by simp
qed

section \<open>Properties\<close>

text \<open>C36: for a repository the gate applies to, a version is let through exactly when it has not been
  rejected and is either old enough or approved; every refusal names a review that is on record
  afterwards; and when the database fails the answer is an error, never a pass.\<close>

theorem age_gate_correct:
  "case age_outage db of
     Some m \<Rightarrow> fst (check fresh now repo pkg ver published db) = (if is_applicable repo then Err (Database m) else Ok Allow)
   | None \<Rightarrow>
       (\<exists>d db'. check fresh now repo pkg ver published db = (Ok d, db')
          \<and> (case d of
               Allow \<Rightarrow> gate_allows repo (review_state db repo pkg ver) published now
             | Block i lkg \<Rightarrow> \<not> gate_allows repo (review_state db repo pkg ver) published now
                            \<and> map_option rev_id (find_review db' (gp_id repo, pkg, ver)) = Some i))"
  by (rule check_outcome)

definition demo_gate :: age_gate_repo_params where
  "demo_gate = \<lparr>gp_id = 1, gp_key = ''npm'', gp_type = RemoteRepo, gp_format = Npm, age_gate_enabled = True,
     age_gate_min_age_days = 14\<rparr>"

definition demo_review :: "string \<Rightarrow> age_gate_review" where
  "demo_review st =
     \<lparr>rev_id = 5, rev_repo = 1, rev_package = ''left-pad'', rev_version = ''1.0.0'', rev_published = Some 0,
      rev_status = st, rev_requested_at = 0, rev_by = None, rev_at = None, rev_reason = None, rev_count = 1,
      rev_last_requested = 0\<rparr>"

definition demo_age_db :: "string \<Rightarrow> age_db" where
  "demo_age_db st =
     \<lparr>reviews = [demo_review st],
      age_repos = [\<lparr>ar_id = 1, ar_key = ''npm'', ar_enabled = True, ar_min_age_days = 14, ar_updated_at = 0\<rparr>],
      age_artifacts = [], events = [], age_outage = None\<rparr>"

definition fresh_id :: "age_gate_review list \<Rightarrow> uuid" where
  "fresh_id rs = Suc (fold max (map rev_id rs) 0)"

text \<open>C37: the metadata listing and the download agree: a version is withheld from the listing exactly
  when a download of it at that moment would be refused, whatever mix of reviews exists.\<close>

theorem listing_agrees_with_check:
  assumes "age_outage db = None" and "distinct (map review_key (reviews db))"
  shows "\<exists>withheld db'. evaluate_versions_batch fresh now repo pkg versions db = (Ok withheld, db')
           \<and> set withheld = fst ` {(v, p) \<in> set versions. fst (check fresh now repo pkg v p db) \<noteq> Ok Allow}"
proof -
  have allow: "fst (check fresh now repo pkg v p db) = Ok Allow \<longleftrightarrow> gate_allows repo (review_state db repo pkg v) p now" for v p
    using check_allow_iff[OF assms(1)] .
  show ?thesis
  proof (cases "is_applicable repo \<and> versions \<noteq> []")
    case False
    then show ?thesis
      unfolding allow by (auto simp: evaluate_versions_batch_def gate_allows_def)
  next
    case True
    obtain ex where ex: "get_reviews_for_package db (gp_id repo) pkg = Ok ex"
      "\<And>v. map_option snd (ex v) = review_state db repo pkg v"
      using assms(1) find_map_of[OF assms(2)]
      by (simp add: get_reviews_for_package_def age_query_def review_state_def find_review_def)
    let ?c = "classify_versions_for_metadata_listing versions ex (age_gate_min_age_days repo) now"
    have "\<exists>db'. evaluate_versions_batch fresh now repo pkg versions db = (Ok (blocked ?c), db')"
      using True ex(1) assms(1)
      by (auto simp: evaluate_versions_batch_def Let_def request_reviews_batch_def age_query_def)
    moreover have "set (blocked ?c) = fst ` {(v, p) \<in> set versions. fst (check fresh now repo pkg v p db) \<noteq> Ok Allow}"
      unfolding allow using True classify_blocked_iff[of repo versions ex now] by (simp add: ex(2))
    ultimately show ?thesis by blast
  qed
qed

theorem listing_agrees_with_check_witness:
  "\<exists>withheld db'. evaluate_versions_batch fresh_id 0 demo_gate ''left-pad'' [(''1.0.0'', None)] (demo_age_db ''pending'') = (Ok withheld, db')
     \<and> set withheld = fst ` {(v, p) \<in> set [(''1.0.0'', None)].
          fst (check fresh_id 0 demo_gate ''left-pad'' v p (demo_age_db ''pending'')) \<noteq> Ok Allow}"
  by (rule listing_agrees_with_check) (simp_all add: demo_age_db_def)

text \<open>C38: a rejection by an administrator sticks: through any sequence of downloads, listings, sweeps,
  configuration changes and decisions on other reviews the version stays refused, until someone
  approves or reopens that review.\<close>

theorem rejected_version_stays_blocked:
  assumes "distinct (map review_key (reviews db))" and "age_outage db' = None" and "is_applicable repo"
    and "find_review db (gp_id repo, pkg, ver) = Some r" and "rev_status r = ''rejected''"
    and "\<forall>oper\<in>set ops. \<not> lifts_rejection (rev_id r) oper"
    and "db' = fold (run_age_op fresh) ops db"
  shows "\<exists>lkg. fst (check fresh now repo pkg ver published db') = Ok (Block (rev_id r) lkg)"
proof -
  have "rejected_review (gp_id repo, pkg, ver) (rev_id r) db"
    using assms(1,4,5) by (simp add: rejected_review_def)
  then have "rejected_review (gp_id repo, pkg, ver) (rev_id r) db'"
    using review_lock.locked_fold assms(6,7) by blast
  then obtain r' where "find_review db' (gp_id repo, pkg, ver) = Some r'" "rev_id r' = rev_id r" "rev_status r' = ''rejected''"
    by (auto simp: rejected_review_def)
  moreover obtain g where "find_last_known_good db' (gp_id repo) pkg ver = Ok g"
    using find_last_known_good_up[OF assms(2)] by blast
  ultimately show ?thesis
    using assms(2,3) by (simp add: check_def get_review_def age_query_def decide_age_gate_check_def)
qed

theorem rejected_version_stays_blocked_witness:
  "\<exists>lkg. fst (check fresh_id 99 demo_gate ''left-pad'' ''1.0.0'' (Some 0)
      (fold (run_age_op fresh_id) [OpSweep 9999999999, OpApprove 1 6 2 None] (demo_age_db ''rejected'')))
      = Ok (Block (rev_id (demo_review ''rejected'')) lkg)"
  by (rule rejected_version_stays_blocked[where db = "demo_age_db ''rejected''"
        and ops = "[OpSweep 9999999999, OpApprove 1 6 2 None]"])
    (simp_all add: demo_age_db_def demo_review_def demo_gate_def is_applicable_def find_review_def review_key_def
      auto_approve_aged_reviews_def age_query_def sweep_due_def approve_def set_review_status_def get_review_by_id_def)

text \<open>The background sweep approves a pending review of an enabled repository exactly when the
  download path would serve the version by age, with one exception: with a minimum age of zero a
  version published in the future is served but never approved.\<close>

lemma sweep_matches_threshold:
  assumes "distinct (map ar_id (age_repos db))" and "repo \<in> set (age_repos db)" and "ar_id repo = rev_repo r"
    and "ar_enabled repo" and "0 \<le> ar_min_age_days repo" and "rev_status r = ''pending''"
  shows "sweep_due db now r \<longleftrightarrow>
    meets_age_threshold (rev_published r) (ar_min_age_days repo) now
    \<and> \<not> (ar_min_age_days repo = 0 \<and> (\<exists>ts. rev_published r = Some ts \<and> now < ts))"
proof -
  have unique: "x = repo" if "x \<in> set (age_repos db)" "ar_id x = rev_repo r" for x
    using assms(1-3) that by (metis distinct_map inj_onD)
  have "sweep_due db now r \<longleftrightarrow> (\<exists>ts. rev_published r = Some ts \<and> ar_min_age_days repo * day_ms \<le> now - ts)"
  proof -
    have "list_ex (\<lambda>x. ar_id x = rev_repo r \<and> Q x) (age_repos db) \<longleftrightarrow> Q repo" for Q
      unfolding list_ex_iff using assms(2,3) unique by blast
    then show ?thesis using assms(3,4,6)
      by (cases "rev_published r") (simp_all add: sweep_due_def, simp add: list_ex_iff)
  qed
  moreover have "ar_min_age_days repo * day_ms \<le> now - ts \<longleftrightarrow>
      ar_min_age_days repo \<le> package_age_days ts now \<and> \<not> (ar_min_age_days repo = 0 \<and> now < ts)" for ts
  proof -
    have "ar_min_age_days repo \<le> (now - ts) div day_ms \<longleftrightarrow> ar_min_age_days repo * day_ms \<le> now - ts"
      by (rule le_div_iff) (simp add: day_ms_def)
    moreover have "0 \<le> (now - ts) div day_ms \<longleftrightarrow> ts \<le> now"
      using le_div_iff[of day_ms 0 "now - ts"] by (simp add: day_ms_def)
    ultimately show ?thesis using assms(5) by (auto simp: package_age_days_def)
  qed
  ultimately show ?thesis by (auto simp: meets_age_threshold_def split: option.splits)
qed

lemma sweep_matches_threshold_witness:
  "sweep_due (demo_age_db ''pending'') 1209600000 (demo_review ''pending'') \<longleftrightarrow>
    meets_age_threshold (rev_published (demo_review ''pending'')) (ar_min_age_days (hd (age_repos (demo_age_db ''pending'')))) 1209600000
    \<and> \<not> (ar_min_age_days (hd (age_repos (demo_age_db ''pending''))) = 0
         \<and> (\<exists>ts. rev_published (demo_review ''pending'') = Some ts \<and> 1209600000 < ts))"
  by (rule sweep_matches_threshold) (simp_all add: demo_age_db_def demo_review_def)

end
