(* ===== verification/Typosquat.thy ===== *)
theory Typosquat
  imports Rust_Str
begin

text \<open>
  Typo-squat detection (services/curation/typosquat.rs): the edit distance with adjacent
  transpositions, computed over three rolling rows, and the detectors built on it. The distance is
  proved to be the least cost of an alignment. The Unicode confusable skeleton (compatibility
  normalisation and the confusables table of two external crates) and the script test are
  parameters; characters are 8-bit, and case mapping is that of ASCII.
\<close>

section \<open>The distance\<close>

definition dl_cell :: "string \<Rightarrow> string \<Rightarrow> nat \<Rightarrow> nat \<Rightarrow> nat list \<Rightarrow> nat list \<Rightarrow> nat list \<Rightarrow> nat" where
  "dl_cell a b i j prev_prev prev row =
     (let cost = (if a ! (i - 1) \<noteq> b ! (j - 1) then 1 else 0);
          d = min (min (prev ! j + 1) (row ! (j - 1) + 1)) (prev ! (j - 1) + cost)
      in if 1 < i \<and> 1 < j \<and> a ! (i - 1) = b ! (j - 2) \<and> a ! (i - 2) = b ! (j - 1)
         then min d (prev_prev ! (j - 2) + 1) else d)"

text \<open>One round of the outer loop fills the current row; the rows are rotated at its end.\<close>

definition dl_row :: "string \<Rightarrow> string \<Rightarrow> nat \<Rightarrow> nat list \<Rightarrow> nat list \<Rightarrow> nat list \<Rightarrow> nat list" where
  "dl_row a b i prev_prev prev row =
     fold (\<lambda>j c. c[j := dl_cell a b i j prev_prev prev c]) [1..<Suc (length b)] (row[0 := i])"

definition dl_step :: "string \<Rightarrow> string \<Rightarrow> nat \<Rightarrow> nat list \<times> nat list \<times> nat list \<Rightarrow> nat list \<times> nat list \<times> nat list" where
  "dl_step a b i rows =
     (case rows of (prev_prev, prev, row) \<Rightarrow> (prev, dl_row a b i prev_prev prev row, prev_prev))"

definition damerau_levenshtein :: "string \<Rightarrow> string \<Rightarrow> nat" where
  "damerau_levenshtein a b =
     (if length a = 0 then length b
      else if length b = 0 then length a
      else (case fold (dl_step a b) [1..<Suc (length a)]
                   (replicate (Suc (length b)) 0, [0..<Suc (length b)], replicate (Suc (length b)) 0) of
              (_, prev, _) \<Rightarrow> prev ! length b))"

section \<open>The detectors\<close>

fun nearest_loop :: "(string \<Rightarrow> nat) \<Rightarrow> string list \<Rightarrow> (string \<times> nat) option \<Rightarrow> (string \<times> nat) option" where
  "nearest_loop dist [] best = best"
| "nearest_loop dist (c # cs) best =
     (case best of
        Some (t, best_d) \<Rightarrow>
          if best_d \<le> dist c then nearest_loop dist cs best else nearest_loop dist cs (Some (c, dist c))
      | None \<Rightarrow> nearest_loop dist cs (Some (c, dist c)))"

definition nearest_popular :: "string \<Rightarrow> string list \<Rightarrow> (string \<times> nat) option" where
  "nearest_popular name popular =
     nearest_loop (\<lambda>c. damerau_levenshtein (to_lowercase name) (to_lowercase c)) popular None"

definition listed :: "string \<Rightarrow> string list \<Rightarrow> bool" where
  "listed name popular = list_ex (\<lambda>p. to_lowercase p = to_lowercase name) popular"

definition is_typosquat :: "string \<Rightarrow> string list \<Rightarrow> nat \<Rightarrow> string option" where
  "is_typosquat name popular max_distance =
     (if listed name popular then None
      else case nearest_popular name popular of
             None \<Rightarrow> None
           | Some (target, distance) \<Rightarrow>
               if 1 \<le> distance \<and> distance \<le> max_distance then Some target else None)"

definition confusable_skeleton :: "(string \<Rightarrow> string) \<Rightarrow> string \<Rightarrow> string" where
  "confusable_skeleton skeleton name = to_lowercase (skeleton name)"

definition is_homoglyph_squat :: "(string \<Rightarrow> string) \<Rightarrow> string \<Rightarrow> string list \<Rightarrow> string option" where
  "is_homoglyph_squat skeleton name popular =
     (if listed name popular then None
      else find (\<lambda>p. confusable_skeleton skeleton p = confusable_skeleton skeleton name) popular)"

definition AFFIX_SEPARATORS :: "char list" where
  "AFFIX_SEPARATORS = [CHR ''-'', CHR ''_'', CHR ''.'']"

fun split_camel_loop :: "bool \<Rightarrow> string \<Rightarrow> string" where
  "split_camel_loop prev [] = []"
| "split_camel_loop prev (c # cs) =
     (if is_ascii_uppercase c \<and> prev then [CHR ''-''] else [])
     @ c # split_camel_loop (is_ascii_lowercase c \<or> is_ascii_digit c) cs"

definition split_camel :: "string \<Rightarrow> string" where
  "split_camel name = split_camel_loop False name"

fun tokenize_loop :: "string list \<Rightarrow> string \<Rightarrow> bool option \<Rightarrow> string \<Rightarrow> string list" where
  "tokenize_loop tokens cur prev [] = (if cur \<noteq> [] then tokens @ [cur] else tokens)"
| "tokenize_loop tokens cur prev (c # cs) =
     (if c \<in> set AFFIX_SEPARATORS then
        tokenize_loop (if cur \<noteq> [] then tokens @ [cur] else tokens) [] None cs
      else if (case prev of Some p \<Rightarrow> p \<noteq> is_ascii_digit c | None \<Rightarrow> False) \<and> cur \<noteq> [] then
        tokenize_loop (tokens @ [cur]) [c] (Some (is_ascii_digit c)) cs
      else tokenize_loop tokens (cur @ [c]) (Some (is_ascii_digit c)) cs)"

definition tokenize :: "string \<Rightarrow> string list" where
  "tokenize key = tokenize_loop [] [] None key"

definition contains_contiguous :: "string list \<Rightarrow> string list \<Rightarrow> bool" where
  "contains_contiguous haystack needle \<longleftrightarrow>
     needle \<noteq> [] \<and> length needle \<le> length haystack
     \<and> list_ex (\<lambda>i. take (length needle) (drop i haystack) = needle) [0..<Suc (length haystack - length needle)]"

definition strip_separators :: "string \<Rightarrow> string" where
  "strip_separators s = filter (\<lambda>c. c \<notin> set AFFIX_SEPARATORS) s"

fun affix_loop ::
  "(string \<Rightarrow> string) \<Rightarrow> string \<Rightarrow> string list \<Rightarrow> string list \<Rightarrow> (string \<times> nat) option \<Rightarrow> string option" where
  "affix_loop skeleton name_key name_tokens [] best = map_option fst best"
| "affix_loop skeleton name_key name_tokens (c # cs) best =
     (let base_key = confusable_skeleton skeleton c in
      if base_key = [] \<or> name_key = base_key then affix_loop skeleton name_key name_tokens cs best
      else if strip_separators name_key = strip_separators base_key then Some c
      else
        (let base_tokens = tokenize base_key in
         if length base_tokens < length name_tokens \<and> contains_contiguous name_tokens base_tokens
            \<and> (case best of None \<Rightarrow> True | Some (_, n) \<Rightarrow> n < length base_tokens)
         then affix_loop skeleton name_key name_tokens cs (Some (c, length base_tokens))
         else affix_loop skeleton name_key name_tokens cs best))"

definition is_affix_squat :: "(string \<Rightarrow> string) \<Rightarrow> string \<Rightarrow> string list \<Rightarrow> string option" where
  "is_affix_squat skeleton name popular =
     (if listed name popular then None
      else (let name_key = confusable_skeleton skeleton (split_camel name)
            in affix_loop skeleton name_key (tokenize name_key) popular None))"

definition nearest_popular_skeleton :: "(string \<Rightarrow> string) \<Rightarrow> string \<Rightarrow> string list \<Rightarrow> (string \<times> nat) option" where
  "nearest_popular_skeleton skeleton name popular =
     nearest_loop (\<lambda>c. damerau_levenshtein (confusable_skeleton skeleton name) (confusable_skeleton skeleton c)) popular None"

section \<open>Alignments\<close>

text \<open>
  An alignment of two strings edits one into the other left to right; no character is touched twice,
  which is the optimal string alignment variant of the distance.
\<close>

inductive align :: "'a list \<Rightarrow> 'a list \<Rightarrow> nat \<Rightarrow> bool" where
  align_Nil: "align [] [] 0"
| align_delete: "align xs ys n \<Longrightarrow> align (xs @ [x]) ys (n + 1)"
| align_insert: "align xs ys n \<Longrightarrow> align xs (ys @ [y]) (n + 1)"
| align_match: "align xs ys n \<Longrightarrow> align (xs @ [x]) (ys @ [y]) (n + (if x = y then 0 else 1))"
| align_swap: "align xs ys n \<Longrightarrow> align (xs @ [x, y]) (ys @ [y, x]) (n + 1)"

text \<open>The recursion over prefixes that the rows tabulate.\<close>

fun osa :: "'a list \<Rightarrow> 'a list \<Rightarrow> nat \<Rightarrow> nat \<Rightarrow> nat" where
  "osa a b 0 j = j"
| "osa a b (Suc i) 0 = Suc i"
| "osa a b (Suc i) (Suc j) =
     (let d = min (min (osa a b i (Suc j) + 1) (osa a b (Suc i) j + 1)) (osa a b i j + (if a ! i \<noteq> b ! j then 1 else 0))
      in if 0 < i \<and> 0 < j \<and> a ! i = b ! (j - 1) \<and> a ! (i - 1) = b ! j then min d (osa a b (i - 1) (j - 1) + 1) else d)"

lemma osa_zero [simp]: "osa a b i 0 = i"
  by (cases i) simp_all

lemma osa_prefix: "i \<le> length xs \<Longrightarrow> j \<le> length ys \<Longrightarrow> osa (xs @ xs') (ys @ ys') i j = osa xs ys i j"
  by (induction xs ys i j rule: osa.induct) (auto simp: Let_def nth_append)

lemma align_deletions: "align xs [] (length xs)"
  by (induction xs rule: rev_induct) (auto intro: align_Nil dest: align_delete)

lemma align_insertions: "align [] ys (length ys)"
  by (induction ys rule: rev_induct) (auto intro: align_Nil dest: align_insert)

lemma osa_attained:
  "i \<le> length a \<Longrightarrow> j \<le> length b \<Longrightarrow> align (take i a) (take j b) (osa a b i j)"
proof (induction a b i j rule: osa.induct)
  case (1 a b j)
  then show ?case using align_insertions[of "take j b"] by simp
next
  case (2 a b i)
  then show ?case using align_deletions[of "take (Suc i) a"] by simp
next
  case (3 a b i j)
  let ?A = "take i a" and ?B = "take j b" and ?x = "a ! i" and ?y = "b ! j"
  have t: "take (Suc i) a = ?A @ [?x]" "take (Suc j) b = ?B @ [?y]"
    using "3.prems" by (simp_all add: take_Suc_conv_app_nth)
  have del: "align (?A @ [?x]) (?B @ [?y]) (osa a b i (Suc j) + 1)"
    using "3.IH"(1) "3.prems" align_delete t(2) by (metis Suc_leD)
  have ins: "align (?A @ [?x]) (?B @ [?y]) (osa a b (Suc i) j + 1)"
    using "3.IH"(2) "3.prems" align_insert t(1) by (metis Suc_leD)
  have sub: "align (?A @ [?x]) (?B @ [?y]) (osa a b i j + (if ?x \<noteq> ?y then 1 else 0))"
    using align_match[of ?A ?B "osa a b i j" ?x ?y] "3.IH"(3) "3.prems" by (simp split: if_splits)
  have swap: "align (?A @ [?x]) (?B @ [?y]) (osa a b (i - 1) (j - 1) + 1)"
    if "0 < i \<and> 0 < j \<and> ?x = b ! (j - 1) \<and> a ! (i - 1) = ?y"
  proof -
    have "?A = take (i - 1) a @ [a ! (i - 1)]" "?B = take (j - 1) b @ [b ! (j - 1)]"
      using that "3.prems" take_Suc_conv_app_nth[of "i - 1" a] take_Suc_conv_app_nth[of "j - 1" b] by simp_all
    moreover have "align (take (i - 1) a) (take (j - 1) b) (osa a b (i - 1) (j - 1))"
      using that "3.IH"(4) "3.prems" by simp
    ultimately show ?thesis
      using that align_swap[of "take (i - 1) a" "take (j - 1) b" _ "a ! (i - 1)" ?x] by simp
  qed
  have least: "align u v x \<Longrightarrow> align u v y \<Longrightarrow> align u v (min x y)" for u v :: "'a list" and x y
    by (simp add: min_def)
  show ?case unfolding t osa.simps(3) Let_def 
    by (split if_split, intro conjI impI least del ins sub, rule swap)
qed

lemma osa_Suc_Suc:
  "osa a b (Suc i) (Suc j) \<le> osa a b i (Suc j) + 1"
  "osa a b (Suc i) (Suc j) \<le> osa a b (Suc i) j + 1"
  "osa a b (Suc i) (Suc j) \<le> osa a b i j + (if a ! i \<noteq> b ! j then 1 else 0)"
  "a ! Suc i = b ! j \<Longrightarrow> a ! i = b ! Suc j \<Longrightarrow> osa a b (Suc (Suc i)) (Suc (Suc j)) \<le> osa a b i j + 1"
  by (auto simp: osa.simps(3)[of a b i j] osa.simps(3)[of a b "Suc i" "Suc j"] Let_def min_le_iff_disj simp del: osa.simps(3) split: if_split)

lemma osa_steps:
  "osa a b (Suc i) j \<le> osa a b i j + 1" "osa a b i (Suc j) \<le> osa a b i j + 1"
  subgoal using osa_Suc_Suc(1)[of a b i "j - 1"] by (cases j; simp del: osa.simps(3))
  subgoal using osa_Suc_Suc(2)[of a b "i - 1" j] by (cases i; simp del: osa.simps(3))
  done

declare osa.simps(3) [simp del]

lemma osa_least: "align xs ys n \<Longrightarrow> osa xs ys (length xs) (length ys) \<le> n"
proof (induction rule: align.induct)
  case (align_delete xs ys n x)
  then show ?case
    using osa_steps(1)[of "xs @ [x]" ys "length xs" "length ys"] osa_prefix[of "length xs" xs "length ys" ys "[x]" "[]"] by simp
next
  case (align_insert xs ys n y)
  then show ?case
    using osa_steps(2)[of xs "ys @ [y]" "length xs" "length ys"] osa_prefix[of "length xs" xs "length ys" ys "[]" "[y]"] by simp
next
  case (align_match xs ys n x y)
  then show ?case
    using osa_Suc_Suc(3)[of "xs @ [x]" "ys @ [y]" "length xs" "length ys"]
      osa_prefix[of "length xs" xs "length ys" ys "[x]" "[y]"] by (auto split: if_splits)
next
  case (align_swap xs ys n x y)
  then show ?case
    using osa_Suc_Suc(4)[of "xs @ [x, y]" "length xs" "ys @ [y, x]" "length ys"]
      osa_prefix[of "length xs" xs "length ys" ys "[x, y]" "[y, x]"] by (simp add: nth_append)
qed simp

text \<open>The rows hold the recursion's values.\<close>

definition osa_row :: "string \<Rightarrow> string \<Rightarrow> nat \<Rightarrow> nat list" where
  "osa_row a b i = map (osa a b i) [0..<Suc (length b)]"

lemma osa_row_simps [simp]: "length (osa_row a b i) = Suc (length b)" "j \<le> length b \<Longrightarrow> osa_row a b i ! j = osa a b i j"
  by (simp_all add: osa_row_def del: upt_Suc)

lemma dl_cell_osa:
  assumes "0 < i" and "0 < j" and "j \<le> length b" and "c ! (j - 1) = osa a b i (j - 1)"
    and "1 < i \<Longrightarrow> pp = osa_row a b (i - 2)"
  shows "dl_cell a b i j pp (osa_row a b (i - 1)) c = osa a b i j"
proof -
  obtain i' j' where ij: "i = Suc i'" "j = Suc j'" using assms(1,2) by (cases i; cases j) auto
  have "pp ! (j' - 1) = osa a b (i' - 1) (j' - 1)" if "0 < i'"
    using assms(3,5) that ij by (simp add: numeral_2_eq_2)
  then show ?thesis using assms(3,4) ij by (simp add: dl_cell_def osa.simps(3) Let_def numeral_2_eq_2)
qed

lemma dl_row_prefix:
  assumes "0 < i" and "length row = Suc (length b)" and "1 < i \<Longrightarrow> pp = osa_row a b (i - 2)" and "k \<le> length b"
  shows "let c = fold (\<lambda>j c. c[j := dl_cell a b i j pp (osa_row a b (i - 1)) c]) [1..<Suc k] (row[0 := i])
         in length c = Suc (length b) \<and> (\<forall>j\<le>k. c ! j = osa a b i j)"
  using assms(4)
proof (induction k)
  case 0
  then show ?case using assms(1,2) by simp
next
  case (Suc k)
  let ?f = "\<lambda>j c. c[j := dl_cell a b i j pp (osa_row a b (i - 1)) c]"
  let ?c = "fold ?f [1..<Suc k] (row[0 := i])"
  have IH: "length ?c = Suc (length b)" "\<And>j. j \<le> k \<Longrightarrow> ?c ! j = osa a b i j"
    using Suc by (simp_all add: Let_def del: upt_Suc)
  have "fold ?f [1..<Suc (Suc k)] (row[0 := i]) = ?c[Suc k := osa a b i (Suc k)]"
    using dl_cell_osa[of i "Suc k" b ?c a pp] assms(1,3) Suc.prems IH(2)[of k] by simp
  then show ?case using IH Suc.prems by (auto simp: Let_def nth_list_update le_Suc_eq simp del: upt_Suc)
qed

lemma dl_row_osa:
  assumes "0 < i" and "length row = Suc (length b)" and "1 < i \<Longrightarrow> pp = osa_row a b (i - 2)"
  shows "dl_row a b i pp (osa_row a b (i - 1)) row = osa_row a b i"
  using dl_row_prefix[of i row b pp a "length b", OF assms]
  by (intro nth_equalityI) (auto simp: dl_row_def Let_def less_Suc_eq_le simp del: upt_Suc)

lemma dl_loop:
  "k \<le> length a \<Longrightarrow> \<exists>pp row. fold (dl_step a b) [1..<Suc k] (replicate (Suc (length b)) 0, [0..<Suc (length b)], replicate (Suc (length b)) 0)
       = (pp, osa_row a b k, row) \<and> length pp = Suc (length b) \<and> length row = Suc (length b)
       \<and> (0 < k \<longrightarrow> pp = osa_row a b (k - 1))"
proof (induction k)
  case 0
  have "[0..<Suc (length b)] = osa_row a b 0" by (simp add: osa_row_def map_idI del: upt_Suc)
  then show ?case by simp
next
  case (Suc k)
  then obtain pp row where k: "fold (dl_step a b) [1..<Suc k] (replicate (Suc (length b)) 0, [0..<Suc (length b)], replicate (Suc (length b)) 0)
       = (pp, osa_row a b k, row)" "length pp = Suc (length b)" "length row = Suc (length b)" "0 < k \<Longrightarrow> pp = osa_row a b (k - 1)"
    by auto
  have "dl_row a b (Suc k) pp (osa_row a b k) row = osa_row a b (Suc k)"
    using dl_row_osa[of "Suc k" row b pp a] k(3,4) by (simp add: numeral_2_eq_2)
  moreover have "[1..<Suc (Suc k)] = [1..<Suc k] @ [Suc k]" by simp
  moreover have "dl_step a b (Suc k) (pp, osa_row a b k, row) = (osa_row a b k, dl_row a b (Suc k) pp (osa_row a b k) row, pp)"
    by (simp add: dl_step_def)
  ultimately show ?case using k(1,2) by (simp del: replicate_Suc upt_Suc)
qed

lemma damerau_levenshtein_osa: "damerau_levenshtein a b = osa a b (length a) (length b)"
proof (cases "a = [] \<or> b = []")
  case False
  obtain pp row where "fold (dl_step a b) [1..<Suc (length a)] (replicate (Suc (length b)) 0, [0..<Suc (length b)], replicate (Suc (length b)) 0)
       = (pp, osa_row a b (length a), row)" using dl_loop[of "length a" a b] by blast
  then show ?thesis using False by (simp add: damerau_levenshtein_def del: upt_Suc replicate_Suc)
qed (auto simp: damerau_levenshtein_def)

lemma align_sym: "align a b n \<Longrightarrow> align b a n"
proof (induction rule: align.induct)
  case (align_match xs ys n x y)
  then show ?case using align.align_match[of ys xs n y x] by (simp add: eq_commute)
qed (use align.intros in auto)

lemma align_length: "align a b n \<Longrightarrow> length a \<le> length b + n \<and> length b \<le> length a + n"
  by (induction rule: align.induct) auto

lemma align_zero: "align a b n \<Longrightarrow> n = 0 \<Longrightarrow> a = b"
  by (induction rule: align.induct) (auto split: if_splits)

lemma align_refl: "align a a 0"
  by (induction a rule: rev_induct) (auto intro: align_Nil dest: align_match[where x = x and y = x for x])

lemma osa_le_max: "osa a b i j \<le> max i j"
proof (induction i arbitrary: j)
  case (Suc i)
  show ?case using osa_Suc_Suc(3)[of a b i "j - 1"] Suc[of "j - 1"]
    by (cases j) (auto split: if_splits)
qed simp

lemma damerau_levenshtein_align: "align a b (damerau_levenshtein a b)"
  using osa_attained[of "length a" a "length b" b] by (simp add: damerau_levenshtein_osa)

lemma damerau_levenshtein_minimal: "align a b n \<Longrightarrow> damerau_levenshtein a b \<le> n"
  by (simp add: damerau_levenshtein_osa osa_least)

lemma damerau_levenshtein_eq_0 [simp]: "damerau_levenshtein a b = 0 \<longleftrightarrow> a = b"
  using align_zero[OF damerau_levenshtein_align] damerau_levenshtein_minimal[OF align_refl] by auto

section \<open>What the detectors report\<close>

lemma nearest_loop_Some:
  "\<exists>t d. nearest_loop dist cs (Some (t0, d0)) = Some (t, d) \<and> d \<le> d0 \<and> (\<forall>c\<in>set cs. d \<le> dist c)
     \<and> ((t, d) = (t0, d0) \<or> t \<in> set cs \<and> d = dist t)"
proof (induction cs arbitrary: t0 d0)
  case (Cons c cs)
  show ?case
  proof (cases "d0 \<le> dist c")
    case True
    obtain t d where "nearest_loop dist cs (Some (t0, d0)) = Some (t, d)" "d \<le> d0" "\<forall>c\<in>set cs. d \<le> dist c"
        "(t, d) = (t0, d0) \<or> t \<in> set cs \<and> d = dist t" using Cons[of t0 d0] by blast
    then show ?thesis using True by (intro exI[of _ t] exI[of _ d]) auto
  next
    case False
    obtain t d where "nearest_loop dist cs (Some (c, dist c)) = Some (t, d)" "d \<le> dist c" "\<forall>c\<in>set cs. d \<le> dist c"
        "(t, d) = (c, dist c) \<or> t \<in> set cs \<and> d = dist t" using Cons[of c "dist c"] by blast
    then show ?thesis using False by (intro exI[of _ t] exI[of _ d]) auto
  qed
qed simp

lemma nearest_loop_None:
  "cs \<noteq> [] \<Longrightarrow> \<exists>t. nearest_loop dist cs None = Some (t, dist t) \<and> t \<in> set cs \<and> (\<forall>c\<in>set cs. dist t \<le> dist c)"
  using nearest_loop_Some[of dist "tl cs" "hd cs" "dist (hd cs)"] by (cases cs) auto

lemma listed_iff: "listed name popular \<longleftrightarrow> (\<exists>p\<in>set popular. to_lowercase p = to_lowercase name)"
  by (simp add: listed_def list_ex_iff)

lemma is_typosquat_Some:
  "is_typosquat name popular k = Some t \<longleftrightarrow>
     \<not> listed name popular \<and> (\<exists>d. nearest_popular name popular = Some (t, d) \<and> d \<le> k)"
proof (cases "popular = [] \<or> listed name popular")
  case True
  then show ?thesis by (auto simp: is_typosquat_def nearest_popular_def listed_def)
next
  case False
  then obtain u where u: "nearest_popular name popular = Some (u, damerau_levenshtein (to_lowercase name) (to_lowercase u))"
      "u \<in> set popular"
    using nearest_loop_None[of popular] unfolding nearest_popular_def by blast
  moreover have "damerau_levenshtein (to_lowercase name) (to_lowercase u) \<noteq> 0"
    using False u(2) by (auto simp: listed_iff)
  ultimately show ?thesis using False by (auto simp: is_typosquat_def Suc_le_eq)
qed

lemma affix_loop_sound:
  "affix_loop skeleton key tokens cs best = Some t \<Longrightarrow>
     (\<exists>n. best = Some (t, n)) \<or> t \<in> set cs \<and> confusable_skeleton skeleton t \<noteq> key
     \<and> (strip_separators key = strip_separators (confusable_skeleton skeleton t)
        \<or> contains_contiguous tokens (tokenize (confusable_skeleton skeleton t)))"
  by (induction skeleton key tokens cs best rule: affix_loop.induct) (auto simp: Let_def split: if_splits)

section \<open>Properties\<close>

text \<open>C35: the rolling three-row routine computes the optimal string alignment distance: its result is
  the cost of some alignment of the two strings, and the least such cost.
\<close>

theorem damerau_levenshtein_optimal:
  "align a b (damerau_levenshtein a b) \<and> damerau_levenshtein a b = (LEAST n. align a b n)"
  using damerau_levenshtein_align damerau_levenshtein_minimal by (metis (full_types) Least_equality)

text \<open>The distance is symmetric, zero exactly on equal strings, at least the difference of the
  lengths and at most the longer length.
\<close>

lemma damerau_levenshtein_bounds:
  "damerau_levenshtein a b = damerau_levenshtein b a
   \<and> (damerau_levenshtein a b = 0 \<longleftrightarrow> a = b)
   \<and> length a - length b \<le> damerau_levenshtein a b \<and> length b - length a \<le> damerau_levenshtein a b
   \<and> damerau_levenshtein a b \<le> max (length a) (length b)"
proof -
  have "damerau_levenshtein u v \<le> damerau_levenshtein v u" for u v
    by (rule damerau_levenshtein_minimal[OF align_sym[OF damerau_levenshtein_align]])
  then have "damerau_levenshtein a b = damerau_levenshtein b a" by (intro antisym)
  then show ?thesis
    using align_length[OF damerau_levenshtein_align[of a b]] osa_le_max[of a b "length a" "length b"]
    by (auto simp: damerau_levenshtein_osa[symmetric])
qed

text \<open>A name is reported as a typo-squat exactly when it is not itself a popular name, up to case,
  and some popular name is within the configured distance; the reported target is a popular name at
  least distance from it.
\<close>

lemma typosquat_detection:
  "(is_typosquat name popular k \<noteq> None \<longleftrightarrow>
      (\<forall>p\<in>set popular. to_lowercase p \<noteq> to_lowercase name)
      \<and> (\<exists>p\<in>set popular. damerau_levenshtein (to_lowercase name) (to_lowercase p) \<le> k))
   \<and> (\<forall>t. is_typosquat name popular k = Some t \<longrightarrow>
      t \<in> set popular
      \<and> (\<forall>p\<in>set popular. damerau_levenshtein (to_lowercase name) (to_lowercase t)
                           \<le> damerau_levenshtein (to_lowercase name) (to_lowercase p)))"
proof (cases "popular = []")
  case False
  then obtain u where u: "nearest_popular name popular = Some (u, damerau_levenshtein (to_lowercase name) (to_lowercase u))"
      "u \<in> set popular" "\<And>p. p \<in> set popular \<Longrightarrow>
         damerau_levenshtein (to_lowercase name) (to_lowercase u) \<le> damerau_levenshtein (to_lowercase name) (to_lowercase p)"
    using nearest_loop_None[of popular] unfolding nearest_popular_def by blast
  show ?thesis using u by (auto simp: is_typosquat_Some listed_iff not_None_eq intro: order_trans)
qed (simp add: is_typosquat_def nearest_popular_def listed_def)

lemma typosquat_detection_witness:
  "is_typosquat ''lodahs'' [''lodash'', ''react''] 1 = Some ''lodash''"
proof -
  have "damerau_levenshtein (to_lowercase ''lodahs'') (to_lowercase ''lodash'') = 1
        \<and> damerau_levenshtein (to_lowercase ''lodahs'') (to_lowercase ''react'') > 1"
    "\<forall>p\<in>set [''lodash'', ''react'']. to_lowercase p \<noteq> to_lowercase ''lodahs''" by code_simp+
  then show ?thesis using typosquat_detection[of "''lodahs''" "[''lodash'', ''react'']" 1] by auto
qed

text \<open>A popular name, in any case, is reported by none of the three detectors, and a name an
  affix detector reports shares its token run, or its letters up to separators, with the target.
\<close>

lemma popular_names_pass:
  "(listed name popular \<longrightarrow> is_typosquat name popular k = None \<and> is_homoglyph_squat skeleton name popular = None
       \<and> is_affix_squat skeleton name popular = None)
   \<and> (\<forall>t. is_affix_squat skeleton name popular = Some t \<longrightarrow> t \<in> set popular
       \<and> (let key = confusable_skeleton skeleton (split_camel name); base = confusable_skeleton skeleton t
          in key \<noteq> base \<and> (strip_separators key = strip_separators base
                          \<or> contains_contiguous (tokenize key) (tokenize base))))"
  by (auto simp: is_typosquat_def is_homoglyph_squat_def is_affix_squat_def Let_def dest!: affix_loop_sound)

lemma popular_names_pass_witness:
  "is_typosquat ''REACT'' [''react''] 2 = None
   \<and> is_affix_squat id ''lodash-utils'' [''lodash''] = Some ''lodash'' \<and> ''lodash'' \<in> set [''lodash'']"
proof -
  have "listed ''REACT'' [''react'']" "is_affix_squat id ''lodash-utils'' [''lodash''] = Some ''lodash''" by code_simp+
  then show ?thesis
    using popular_names_pass[of "''REACT''" "[''react'']" 2 id]
      popular_names_pass[of "''lodash-utils''" "[''lodash'']" 2 id] by blast
qed

end
