(* ===== verification/Json.thy ===== *)
theory Json
  imports Rust_Str "HOL-Library.Word"
begin

text \<open>
  JSON values as the serde_json crate represents them: a number is an unsigned 64-bit integer, a
  negative integer or a float (kept as its text, which no caller reads), and an object is a map
  ordered by key. Shows that insertion keeps an object well formed and what a lookup finds after it.
\<close>

type_synonym u64 = "64 word"

datatype json =
    JNull
  | JBool bool
  | JPosInt u64
  | JNegInt int
  | JFloat string
  | JString string
  | JArray "json list"
  | JObject "(string \<times> json) list"

fun json_get :: "json \<Rightarrow> string \<Rightarrow> json option" where
  "json_get (JObject fields) k = map_of fields k"
| "json_get _ k = None"

fun as_u64 :: "json \<Rightarrow> u64 option" where
  "as_u64 (JPosInt n) = Some n"
| "as_u64 _ = None"

fun as_i64 :: "json \<Rightarrow> int option" where
  "as_i64 (JPosInt n) = (if uint n < 2 ^ 63 then Some (uint n) else None)"
| "as_i64 (JNegInt n) = Some n"
| "as_i64 _ = None"

fun as_bool :: "json \<Rightarrow> bool option" where
  "as_bool (JBool b) = Some b"
| "as_bool _ = None"

fun as_str :: "json \<Rightarrow> string option" where
  "as_str (JString s) = Some s"
| "as_str _ = None"

fun as_array :: "json \<Rightarrow> json list option" where
  "as_array (JArray xs) = Some xs"
| "as_array _ = None"

definition get_u64 :: "json \<Rightarrow> string \<Rightarrow> u64 option" where
  "get_u64 v k = Option.bind (json_get v k) as_u64"

definition get_i64 :: "json \<Rightarrow> string \<Rightarrow> int option" where
  "get_i64 v k = Option.bind (json_get v k) as_i64"

definition get_bool :: "json \<Rightarrow> string \<Rightarrow> bool option" where
  "get_bool v k = Option.bind (json_get v k) as_bool"

definition get_str :: "json \<Rightarrow> string \<Rightarrow> string option" where
  "get_str v k = Option.bind (json_get v k) as_str"

definition get_array :: "json \<Rightarrow> string \<Rightarrow> json list option" where
  "get_array v k = Option.bind (json_get v k) as_array"

text \<open>Insertion into the ordered map replaces the value of a key that is there.\<close>

fun insert_field :: "string \<Rightarrow> json \<Rightarrow> (string \<times> json) list \<Rightarrow> (string \<times> json) list" where
  "insert_field k v [] = [(k, v)]"
| "insert_field k v ((k', v') # fields) =
     (if k = k' then (k, v) # fields
      else if k < k' then (k, v) # (k', v') # fields
      else (k', v') # insert_field k v fields)"

fun json_ok :: "json \<Rightarrow> bool" where
  "json_ok (JObject fields) = (sorted_wrt (<) (map fst fields) \<and> list_all json_ok (map snd fields))"
| "json_ok (JArray xs) = list_all json_ok xs"
| "json_ok (JNegInt n) = (- (2 ^ 63) \<le> n \<and> n < 0)"
| "json_ok _ = True"

lemma map_of_insert_field [simp]: "map_of (insert_field k v fields) = (map_of fields)(k \<mapsto> v)"
  by (induction k v fields rule: insert_field.induct) (auto simp: fun_eq_iff)

lemma set_insert_field_keys: "fst ` set (insert_field k v fields) = insert k (fst ` set fields)"
  by (induction k v fields rule: insert_field.induct) auto

lemma insert_field_ok: "json_ok (JObject fields) \<Longrightarrow> json_ok v \<Longrightarrow> json_ok (JObject (insert_field k v fields))"
proof (induction k v fields rule: insert_field.induct)
  case (2 k v k' v' fields)
  then show ?case using set_insert_field_keys[of k v fields] by auto
qed simp

end
