(* ===== verification/Popularity.thy ===== *)
theory Popularity
  imports Typosquat Json
begin

text \<open>
  The download-count sources (services/curation/popularity_source.rs) and the popularity rule
  (services/curation/popularity.rs). A source is a function that threads the state of the outside
  world; the HTTP exchange is a parameter. Shows that no source fabricates a count, that a package
  name cannot leave its path segment of the request, that the cache answers from a recent lookup,
  and exactly when the rule blocks, flags or allows.
\<close>

section \<open>Sources of download counts\<close>

datatype popularity_result = Known u64 | Unknown

text \<open>A lookup reads and changes the world: the format, the name, the answer.\<close>

type_synonym 'w source = "'w \<Rightarrow> string \<Rightarrow> string \<Rightarrow> popularity_result \<times> 'w"

definition DEFAULT_CACHE_TTL :: nat where
  "DEFAULT_CACHE_TTL = 15 * 60"

definition NEGATIVE_CACHE_TTL :: nat where
  "NEGATIVE_CACHE_TTL = 60"

definition ecosystem_for_format :: "string \<Rightarrow> string option" where
  "ecosystem_for_format format =
     (let f = to_lowercase format in
      if f \<in> set [''pypi'', ''poetry''] then Some ''pypi''
      else if f \<in> set [''npm'', ''yarn'', ''pnpm''] then Some ''npm''
      else None)"

definition parse_pypistats_recent :: "json \<Rightarrow> popularity_result" where
  "parse_pypistats_recent body =
     (case Option.bind (json_get body ''data'') (\<lambda>d. get_u64 d ''last_month'') of
        Some n \<Rightarrow> Known n | None \<Rightarrow> Unknown)"

definition parse_npm_point :: "json \<Rightarrow> popularity_result" where
  "parse_npm_point body = (case get_u64 body ''downloads'' of Some n \<Rightarrow> Known n | None \<Rightarrow> Unknown)"

definition path_safe :: "char \<Rightarrow> bool" where
  "path_safe b \<longleftrightarrow> is_ascii_uppercase b \<or> is_ascii_lowercase b \<or> is_ascii_digit b \<or> b \<in> set ''-._~@''"

definition hex_upper :: "nat \<Rightarrow> char" where
  "hex_upper n = (if n < 10 then char_of (48 + n) else char_of (55 + n))"

definition percent :: "char \<Rightarrow> string" where
  "percent b = [CHR ''%'', hex_upper (code_of b div 16), hex_upper (code_of b mod 16)]"

definition encode_path_segment :: "string \<Rightarrow> string" where
  "encode_path_segment name = concat (map (\<lambda>b. if path_safe b then [b] else percent b) name)"

fun normalize_loop :: "bool \<Rightarrow> string \<Rightarrow> string" where
  "normalize_loop prev_sep [] = []"
| "normalize_loop prev_sep (c # cs) =
     (if c \<in> set ''-_.'' then (if prev_sep then [] else ''-'') @ normalize_loop True cs
      else to_lower_char c # normalize_loop False cs)"

definition normalize_pypi_name :: "string \<Rightarrow> string" where
  "normalize_pypi_name name = normalize_loop False name"

record http_source =
  pypistats_base :: string
  npm_base :: string

text \<open>\<open>fetch\<close> is the HTTP request with its timeout, status check and JSON decoding.\<close>

definition http_downloads :: "('w \<Rightarrow> string \<Rightarrow> json option \<times> 'w) \<Rightarrow> http_source \<Rightarrow> 'w source" where
  "http_downloads fetch self w format name =
     (case ecosystem_for_format format of
        None \<Rightarrow> (Unknown, w)
      | Some ecosystem \<Rightarrow>
          if ecosystem = ''pypi'' then
            (let url = pypistats_base self @ ''/api/packages/'' @ encode_path_segment (normalize_pypi_name name) @ ''/recent''
             in case fetch w url of
                  (Some body, w') \<Rightarrow> (parse_pypistats_recent body, w')
                | (None, w') \<Rightarrow> (Unknown, w'))
          else if ecosystem = ''npm'' then
            (let url = npm_base self @ ''/downloads/point/last-month/'' @ encode_path_segment name
             in case fetch w url of
                  (Some body, w') \<Rightarrow> (parse_npm_point body, w')
                | (None, w') \<Rightarrow> (Unknown, w'))
          else (Unknown, w))"

text \<open>
  The cache decorator, over the state of the inner source and the cache. \<open>now\<close> is the clock, read
  before the lookup and again when the answer is stored.
\<close>

type_synonym cache = "string \<times> string \<rightharpoonup> nat \<times> popularity_result"

definition entry_ttl :: "nat \<Rightarrow> popularity_result \<Rightarrow> nat" where
  "entry_ttl ttl result = (case result of Known _ \<Rightarrow> ttl | Unknown \<Rightarrow> min NEGATIVE_CACHE_TTL ttl)"

definition cached_downloads :: "('w \<Rightarrow> nat) \<Rightarrow> 'w source \<Rightarrow> nat \<Rightarrow> ('w \<times> cache) source" where
  "cached_downloads now inner ttl s format name =
     (let (w, cache) = s;
          fetch_now = (let (result, w') = inner w format name
                       in (result, w', cache((format, name) \<mapsto> (now w', result))))
      in case cache (format, name) of
           Some (at, result) \<Rightarrow> if now w - at < entry_ttl ttl result then (result, w, cache) else fetch_now
         | None \<Rightarrow> fetch_now)"

section \<open>The rule\<close>

definition default_popular_packages :: "string \<Rightarrow> string list" where
  "default_popular_packages ecosystem =
     (if ecosystem = ''pypi'' then
        [''requests'', ''urllib3'', ''boto3'', ''botocore'', ''numpy'', ''pandas'', ''setuptools'',
         ''certifi'', ''idna'', ''charset-normalizer'', ''typing-extensions'', ''python-dateutil'',
         ''six'', ''pyyaml'', ''cryptography'', ''packaging'', ''pip'', ''wheel'', ''s3transfer'',
         ''attrs'', ''click'', ''jinja2'', ''markupsafe'', ''pydantic'', ''sqlalchemy'',
         ''aiohttp'', ''flask'', ''django'', ''pytest'', ''scipy'', ''matplotlib'', ''pillow'',
         ''rich'', ''httpx'', ''colorama'']
      else if ecosystem = ''npm'' then
        [''lodash'', ''react'', ''react-dom'', ''express'', ''axios'', ''chalk'', ''commander'',
         ''tslib'', ''vue'', ''webpack'', ''typescript'', ''jquery'', ''next'', ''eslint'',
         ''prettier'', ''uuid'', ''dotenv'', ''glob'', ''semver'', ''minimist'', ''debug'',
         ''async'', ''rxjs'', ''redux'', ''moment'', ''inquirer'', ''yargs'', ''ajv'',
         ''classnames'', ''prop-types'', ''node-fetch'', ''fs-extra'', ''body-parser'', ''cors'',
         ''zod'']
      else [])"

datatype curation_decision = Allow | Flag string | Block string | NotApplicable

definition applies_to :: "string \<Rightarrow> bool" where
  "applies_to format \<longleftrightarrow> ecosystem_for_format format \<noteq> None"

definition DEFAULT_MAX_DISTANCE :: u64 where "DEFAULT_MAX_DISTANCE = 2"
definition MAX_DISTANCE_CEILING :: u64 where "MAX_DISTANCE_CEILING = 2"
definition DEFAULT_AFFIX_MAX_DOWNLOADS :: u64 where "DEFAULT_AFFIX_MAX_DOWNLOADS = 1000"

text \<open>The settings read from the configuration of a rule.\<close>

record popularity_config =
  min_downloads :: u64
  typosquat_check :: bool
  max_distance :: nat
  block_action :: bool
  block_unknown :: bool
  block_typosquat :: bool
  homoglyph_check :: bool
  affix_check :: bool
  affix_max_downloads :: u64
  popular_packages :: "string list"

definition read_config :: "json \<Rightarrow> string \<Rightarrow> popularity_config" where
  "read_config config ecosystem =
     \<lparr>min_downloads = unwrap_or (get_u64 config ''min_downloads'') 0,
      typosquat_check = unwrap_or (get_bool config ''typosquat_check'') True,
      max_distance = unat (min (max (unwrap_or (get_u64 config ''max_distance'') DEFAULT_MAX_DISTANCE) 1) MAX_DISTANCE_CEILING),
      block_action = (case get_str config ''action'' of Some a \<Rightarrow> to_lowercase a = ''block'' | None \<Rightarrow> False),
      block_unknown = unwrap_or (get_bool config ''block_unknown'') False,
      block_typosquat = unwrap_or (get_bool config ''block_typosquat'') False,
      homoglyph_check = unwrap_or (get_bool config ''homoglyph_check'') True,
      affix_check = unwrap_or (get_bool config ''affix_check'') True,
      affix_max_downloads = unwrap_or (get_u64 config ''affix_max_downloads'') DEFAULT_AFFIX_MAX_DOWNLOADS,
      popular_packages =
        (case get_array config ''popular_packages'' of
           Some list \<Rightarrow> List.map_filter as_str list
         | None \<Rightarrow> default_popular_packages ecosystem)\<rparr>"

definition quoted :: "string \<Rightarrow> string" where
  "quoted s = [CHR 0x27] @ s @ [CHR 0x27]"

text \<open>The threshold check: the reasons to block and the reasons to flag.\<close>

definition threshold_reasons :: "popularity_config \<Rightarrow> string \<Rightarrow> popularity_result \<Rightarrow> string list \<times> string list" where
  "threshold_reasons cfg name downloads =
     (case downloads of
        Known d \<Rightarrow>
          if 0 < min_downloads cfg \<and> d < min_downloads cfg then
            (let reason = ''package '' @ quoted name @ '' has '' @ show_nat (unat d)
                   @ '' recent downloads, below the configured minimum of '' @ show_nat (unat (min_downloads cfg))
             in if block_action cfg then ([reason], []) else ([], [reason]))
          else ([], [])
      | Unknown \<Rightarrow>
          (let reason = ''popularity unknown for package '' @ quoted name
                 @ '' (download-count source unavailable or package not listed)''
           in if block_action cfg \<and> block_unknown cfg then ([reason], []) else ([], [reason])))"

definition typosquat_reasons :: "popularity_config \<Rightarrow> string \<Rightarrow> string list" where
  "typosquat_reasons cfg name =
     (case is_typosquat name (popular_packages cfg) (max_distance cfg) of
        Some target \<Rightarrow> [''name '' @ quoted name @ '' is within edit distance '' @ show_nat (max_distance cfg)
          @ '' of popular package '' @ quoted target @ '' (possible typo-squat)'']
      | None \<Rightarrow> [])"

definition homoglyph_reasons :: "(string \<Rightarrow> string) \<Rightarrow> (string \<Rightarrow> bool) \<Rightarrow> popularity_config \<Rightarrow> string \<Rightarrow> string list" where
  "homoglyph_reasons skeleton is_mixed_script cfg name =
     (case is_homoglyph_squat skeleton name (popular_packages cfg) of
        Some target \<Rightarrow> [''name '' @ quoted name @ '' is a Unicode-confusable (homoglyph) lookalike of popular package '' @ quoted target]
      | None \<Rightarrow> [])
     @ (if is_mixed_script name then
          (case nearest_popular_skeleton skeleton name (popular_packages cfg) of
             Some (target, distance) \<Rightarrow>
               if distance \<le> max_distance cfg then
                 [''name '' @ quoted name @ '' mixes Unicode scripts and visually resembles popular package '' @ quoted target
                  @ '' (homoglyph-impersonation indicator)'']
               else []
           | None \<Rightarrow> [])
        else [])"

definition low_popularity :: "popularity_config \<Rightarrow> popularity_result \<Rightarrow> bool" where
  "low_popularity cfg downloads = (case downloads of Known d \<Rightarrow> d < affix_max_downloads cfg | Unknown \<Rightarrow> True)"

definition affix_reasons :: "(string \<Rightarrow> string) \<Rightarrow> popularity_config \<Rightarrow> string \<Rightarrow> popularity_result \<Rightarrow> string list" where
  "affix_reasons skeleton cfg name downloads =
     (if low_popularity cfg downloads then
        (case is_affix_squat skeleton name (popular_packages cfg) of
           Some target \<Rightarrow> [''name '' @ quoted name @ '' is popular package '' @ quoted target
             @ '' plus an ecosystem affix, and '' @ quoted name @ '' itself has low/unknown downloads (possible reputation-riding)'']
         | None \<Rightarrow> [])
      else [])"

definition lexical_reasons ::
  "(string \<Rightarrow> string) \<Rightarrow> (string \<Rightarrow> bool) \<Rightarrow> popularity_config \<Rightarrow> string \<Rightarrow> popularity_result \<Rightarrow> string list" where
  "lexical_reasons skeleton is_mixed_script cfg name downloads =
     (if typosquat_check cfg then
        typosquat_reasons cfg name
        @ (if homoglyph_check cfg then homoglyph_reasons skeleton is_mixed_script cfg name else [])
        @ (if affix_check cfg then affix_reasons skeleton cfg name downloads else [])
      else [])"

definition decide :: "string list \<Rightarrow> string list \<Rightarrow> curation_decision" where
  "decide block_reasons flag_reasons =
     (if block_reasons \<noteq> [] then Block (join_str ''; '' (block_reasons @ flag_reasons))
      else if flag_reasons \<noteq> [] then Flag (join_str ''; '' flag_reasons)
      else Allow)"

definition popularity_decision ::
  "(string \<Rightarrow> string) \<Rightarrow> (string \<Rightarrow> bool) \<Rightarrow> popularity_config \<Rightarrow> string \<Rightarrow> popularity_result \<Rightarrow> curation_decision" where
  "popularity_decision skeleton is_mixed_script cfg name downloads =
     (let (block_reasons, flag_reasons) = threshold_reasons cfg name downloads;
          lexical = lexical_reasons skeleton is_mixed_script cfg name downloads
      in if block_typosquat cfg then decide (block_reasons @ lexical) flag_reasons
         else decide block_reasons (flag_reasons @ lexical))"

definition popularity_evaluate ::
  "(string \<Rightarrow> string) \<Rightarrow> (string \<Rightarrow> bool) \<Rightarrow> json \<Rightarrow> string \<Rightarrow> string \<Rightarrow> string \<Rightarrow> 'w source \<Rightarrow> 'w \<Rightarrow> curation_decision \<times> 'w" where
  "popularity_evaluate skeleton is_mixed_script config format name version source w =
     (case ecosystem_for_format format of
        None \<Rightarrow> (NotApplicable, w)
      | Some ecosystem \<Rightarrow>
          (let (downloads, w') = source w format name
           in (popularity_decision skeleton is_mixed_script (read_config config ecosystem) name downloads, w')))"

section \<open>Names in requests\<close>

definition hex_value :: "char \<Rightarrow> nat" where
  "hex_value c = (if code_of c < 58 then code_of c - 48 else code_of c - 55)"

text \<open>The decoding a server applies to a path segment.\<close>

fun decode_path_segment :: "string \<Rightarrow> string" where
  "decode_path_segment [] = []"
| "decode_path_segment (c # cs) =
     (case cs of
        a # b # rest \<Rightarrow>
          if c = CHR ''%'' then char_of (16 * hex_value a + hex_value b) # decode_path_segment rest
          else c # decode_path_segment cs
      | _ \<Rightarrow> c # decode_path_segment cs)"

lemma code_of_hex_upper: "n < 16 \<Longrightarrow> code_of (hex_upper n) = (if n < 10 then 48 + n else 55 + n)"
  by (simp add: hex_upper_def code_of_def)

lemma hex_value_upper [simp]: "n < 16 \<Longrightarrow> hex_value (hex_upper n) = n"
  by (simp add: hex_value_def code_of_hex_upper)

lemma path_safe_hex_upper: "n < 16 \<Longrightarrow> path_safe (hex_upper n)"
  by (auto simp: path_safe_def is_ascii_digit_def is_ascii_uppercase_def code_of_hex_upper)

lemma code_of_less [simp]: "code_of c div 16 < 16" "code_of c mod 16 < 16"
  using nat_of_char_less_256[of c] by (simp_all add: code_of_def less_mult_imp_div_less)

lemma char_of_code_of [simp]: "char_of (code_of c) = c"
  by (simp add: code_of_def)

lemma decode_percent [simp]: "decode_path_segment (percent b @ s) = b # decode_path_segment s"
  by (simp add: percent_def)

lemma decode_safe [simp]: "c \<noteq> CHR ''%'' \<Longrightarrow> decode_path_segment (c # s) = c # decode_path_segment s"
  by (simp split: list.split)

lemma percent_not_safe: "\<not> path_safe (CHR ''%'')"
  by (simp add: path_safe_def is_ascii_digit_def is_ascii_uppercase_def is_ascii_lowercase_def code_of_def)

lemma decode_encode: "decode_path_segment (encode_path_segment name) = name"
proof (induction name)
  case (Cons c cs)
  moreover have "c \<noteq> CHR ''%''" if "path_safe c" using that percent_not_safe by auto
  ultimately show ?case by (simp add: encode_path_segment_def del: decode_path_segment.simps(2))
qed (simp add: encode_path_segment_def)

lemma encode_path_segment_safe: "c \<in> set (encode_path_segment name) \<Longrightarrow> path_safe c \<or> c = CHR ''%''"
  by (auto simp: encode_path_segment_def percent_def path_safe_hex_upper split: if_splits)

section \<open>Honest sources\<close>

definition cache_ok :: "(string \<Rightarrow> string \<Rightarrow> u64 \<Rightarrow> bool) \<Rightarrow> cache \<Rightarrow> bool" where
  "cache_ok reported c \<longleftrightarrow> (\<forall>f n at d. c (f, n) = Some (at, Known d) \<longrightarrow> reported f n d)"

lemma cached_downloads_cases:
  "cached_downloads now inner ttl (w, c) f n = (r, w', c') \<longleftrightarrow>
     (\<exists>at. c (f, n) = Some (at, r) \<and> now w - at < entry_ttl ttl r \<and> w' = w \<and> c' = c)
     \<or> (\<forall>at q. c (f, n) = Some (at, q) \<longrightarrow> entry_ttl ttl q \<le> now w - at)
       \<and> inner w f n = (r, w') \<and> c' = c((f, n) \<mapsto> (now w', r))"
  by (cases "inner w f n") (auto simp: cached_downloads_def Let_def split: option.splits if_splits)

text \<open>
  The contract of the trait: a source keeps its own invariant and only answers with a count that
  was reported for the package.
\<close>

locale honest_source =
  fixes downloads :: "'w source" and inv :: "'w \<Rightarrow> bool" and reported :: "string \<Rightarrow> string \<Rightarrow> u64 \<Rightarrow> bool"
  assumes keeps: "inv w \<Longrightarrow> downloads w f n = (r, w') \<Longrightarrow> inv w'"
    and honest: "inv w \<Longrightarrow> downloads w f n = (Known d, w') \<Longrightarrow> reported f n d"
begin

lemma keeps_lookups: "inv w \<Longrightarrow> inv (fold (\<lambda>(f, n) w. snd (downloads w f n)) ks w)"
proof (induction ks arbitrary: w)
  case (Cons k ks)
  then show ?case using keeps[of w "fst k" "snd k"] by (cases k) (auto intro: prod.collapse[symmetric])
qed simp

lemma cached_honest: "honest_source (cached_downloads now downloads ttl) (\<lambda>(w, c). inv w \<and> cache_ok reported c) reported"
proof
  fix s f n r and s' :: "'w \<times> cache"
  assume "case s of (w, c) \<Rightarrow> inv w \<and> cache_ok reported c" and "cached_downloads now downloads ttl s f n = (r, s')"
  then show "case s' of (w, c) \<Rightarrow> inv w \<and> cache_ok reported c"
    by (cases s; cases s') (auto simp: cached_downloads_cases cache_ok_def dest: keeps honest split: if_splits)
next
  fix s f n d and s' :: "'w \<times> cache"
  assume "case s of (w, c) \<Rightarrow> inv w \<and> cache_ok reported c" and "cached_downloads now downloads ttl s f n = (Known d, s')"
  then show "reported f n d"
    by (cases s; cases s') (auto simp: cached_downloads_cases cache_ok_def dest: honest)
qed

end

text \<open>A count a statistics service reported for a package: it was in the answer to the package's own URL.\<close>

definition reported_count :: "('w \<Rightarrow> string \<Rightarrow> json option \<times> 'w) \<Rightarrow> http_source \<Rightarrow> string \<Rightarrow> string \<Rightarrow> u64 \<Rightarrow> bool" where
  "reported_count fetch self format name d \<longleftrightarrow>
     (\<exists>w body w'.
        ecosystem_for_format format = Some ''pypi'' \<and> Option.bind (json_get body ''data'') (\<lambda>b. get_u64 b ''last_month'') = Some d
          \<and> fetch w (pypistats_base self @ ''/api/packages/'' @ encode_path_segment (normalize_pypi_name name) @ ''/recent'') = (Some body, w')
        \<or> ecosystem_for_format format = Some ''npm'' \<and> get_u64 body ''downloads'' = Some d
          \<and> fetch w (npm_base self @ ''/downloads/point/last-month/'' @ encode_path_segment name) = (Some body, w'))"

lemma parse_Known:
  "parse_pypistats_recent body = Known d \<longleftrightarrow> Option.bind (json_get body ''data'') (\<lambda>b. get_u64 b ''last_month'') = Some d"
  "parse_npm_point body = Known d \<longleftrightarrow> get_u64 body ''downloads'' = Some d"
  by (auto simp: parse_pypistats_recent_def parse_npm_point_def split: option.splits)

lemma ecosystem_cases: "ecosystem_for_format f = Some e \<Longrightarrow> e = ''pypi'' \<or> e = ''npm''"
  by (auto simp: ecosystem_for_format_def Let_def split: if_splits)

interpretation http: honest_source "http_downloads fetch self" "\<lambda>_. True" "reported_count fetch self"
  for fetch :: "'w \<Rightarrow> string \<Rightarrow> json option \<times> 'w" and self
proof
  fix w f n d w'
  assume run: "http_downloads fetch self w f n = (Known d, w')"
  then obtain e where e: "ecosystem_for_format f = Some e" by (auto simp: http_downloads_def split: option.splits)
  show "reported_count fetch self f n d"
    using ecosystem_cases[OF e] run e unfolding http_downloads_def reported_count_def Let_def
    by (auto simp: parse_Known split: prod.splits option.splits) blast+
qed simp

interpretation cached_http:
  honest_source "cached_downloads now (http_downloads fetch self) ttl" "\<lambda>(w, c). True \<and> cache_ok (reported_count fetch self) c" "reported_count fetch self"
  for now and fetch :: "'w \<Rightarrow> string \<Rightarrow> json option \<times> 'w" and self and ttl
  by (rule http.cached_honest)

section \<open>Outcomes of the rule\<close>

lemma decide_simps [simp]:
  "(\<exists>r. decide bs fs = Block r) \<longleftrightarrow> bs \<noteq> []" "decide bs fs = Allow \<longleftrightarrow> bs = [] \<and> fs = []"
  "decide bs fs \<noteq> NotApplicable"
  by (auto simp: decide_def)

lemma max_distance_range: "1 \<le> max_distance (read_config config eco) \<and> max_distance (read_config config eco) \<le> 2"
proof -
  have "unat (min (max x 1) 2) \<in> {1, 2}" for x :: u64
    by (auto simp: min_def max_def) (simp_all add: word_le_nat_alt)
  then have "max_distance (read_config config eco) \<in> {1, 2}"
    by (simp add: read_config_def MAX_DISTANCE_CEILING_def)
  then show ?thesis by auto
qed

lemma lexical_reasons_Nil:
  "lexical_reasons skeleton mixed cfg name downloads = [] \<longleftrightarrow>
     (typosquat_check cfg \<longrightarrow>
        is_typosquat name (popular_packages cfg) (max_distance cfg) = None
        \<and> (homoglyph_check cfg \<longrightarrow>
             is_homoglyph_squat skeleton name (popular_packages cfg) = None
             \<and> (mixed name \<longrightarrow> (case nearest_popular_skeleton skeleton name (popular_packages cfg) of
                                  Some (_, d) \<Rightarrow> max_distance cfg < d | None \<Rightarrow> True)))
        \<and> (affix_check cfg \<longrightarrow> low_popularity cfg downloads \<longrightarrow> is_affix_squat skeleton name (popular_packages cfg) = None))"
  by (auto simp: lexical_reasons_def typosquat_reasons_def homoglyph_reasons_def affix_reasons_def split: option.splits)

section \<open>Properties\<close>

text \<open>A package name stays inside its path segment of the request to a statistics service:
  the encoding decodes back to the name, so distinct names never share a URL, and contains no
  character that separates a path segment, a query or a fragment.\<close>

lemma path_segment_roundtrip:
  "decode_path_segment (encode_path_segment name) = name
   \<and> set (encode_path_segment name) \<inter> set ''/?#&= '' = {}"
proof -
  have "\<not> path_safe c \<and> c \<noteq> CHR ''%''" if "c \<in> set ''/?#&= ''" for c
    using that by (auto simp: path_safe_def is_ascii_digit_def is_ascii_uppercase_def is_ascii_lowercase_def code_of_def)
  then show ?thesis using decode_encode encode_path_segment_safe by blast
qed

text \<open>No count is fabricated. From an empty cache, after any sequence of lookups, a known
  count the cached source gives for a package was read from an answer to that package's own URL; and an answer
  that comes from the cache is younger than the lifetime, an unknown one also younger than a minute.\<close>

lemma source_never_fabricates:
  assumes run: "(w, c) = fold (\<lambda>(f, n) s. snd (cached_downloads now (http_downloads fetch self) ttl s f n)) lookups (w0, Map.empty)"
    and ask: "cached_downloads now (http_downloads fetch self) ttl (w, c) format name = (r, w', c')"
  shows "(\<forall>d. r = Known d \<longrightarrow> reported_count fetch self format name d)
     \<and> (http_downloads fetch self w format name = (r, w')
        \<or> (\<exists>at. c (format, name) = Some (at, r) \<and> now w - at < ttl \<and> (r = Unknown \<longrightarrow> now w - at < 60)))"
proof -
  have "cache_ok (reported_count fetch self) c"
    using cached_http.keeps_lookups[where w = "(w0, Map.empty)" and fetch = fetch and self = self and now = now and ttl = ttl and ks = lookups]
      run[symmetric] by (simp add: cache_ok_def)
  then have "\<forall>d. r = Known d \<longrightarrow> reported_count fetch self format name d"
    using cached_http.honest[where w = "(w, c)" and w' = "(w', c')" and now = now and ttl = ttl and f = format and n = name] ask by auto
  then show ?thesis
    using ask by (auto simp: cached_downloads_cases entry_ttl_def NEGATIVE_CACHE_TTL_def split: popularity_result.splits)
qed

definition demo_fetch :: "nat \<Rightarrow> string \<Rightarrow> json option \<times> nat" where
  "demo_fetch w url =
     (if url = ''https://npm/downloads/point/last-month/left-pad'' then Some (JObject [(''downloads'', JPosInt 7)]) else None, w + 1)"

lemma source_never_fabricates_witness:
  "reported_count demo_fetch \<lparr>pypistats_base = [], npm_base = ''https://npm''\<rparr> ''npm'' ''left-pad'' 7"
proof -
  let ?self = "\<lparr>pypistats_base = [], npm_base = ''https://npm''\<rparr>"
  let ?c = "Map.empty((''npm'', ''left-pad'') \<mapsto> (1, Known 7))"
  have first: "http_downloads demo_fetch ?self 0 ''npm'' ''left-pad'' = (Known 7, 1)" by code_simp
  have "(1, ?c) = fold (\<lambda>(f, n) s. snd (cached_downloads id (http_downloads demo_fetch ?self) 900 s f n)) [(''npm'', ''left-pad'')] (0, Map.empty)"
    using first by (simp add: cached_downloads_def)
  moreover have "cached_downloads id (http_downloads demo_fetch ?self) 900 (1, ?c) ''npm'' ''left-pad'' = (Known 7, 1, ?c)"
    by (simp add: cached_downloads_def entry_ttl_def Let_def split: prod.split)
  ultimately show ?thesis using source_never_fabricates[of 1 ?c id demo_fetch ?self 900 "[(''npm'', ''left-pad'')]" 0] by blast
qed

text \<open>The outcome of the popularity rule, for an ecosystem that has download counts. It
  blocks exactly when the action is block and the count is below the threshold, or unknown with the
  opt-in for unknown counts, or when the opt-in for lexical signals is set and one fires; so an
  outage of the statistics service alone blocks nothing by default. It allows exactly when the count
  is known, not below the threshold, and no lexical signal fires.\<close>

lemma popularity_rule_outcome:
  fixes config
  assumes "ecosystem_for_format format = Some ecosystem" and "source w format name = (downloads, w')"
  defines "cfg \<equiv> read_config config ecosystem"
  shows "\<exists>decision. popularity_evaluate skeleton mixed config format name version source w = (decision, w')
     \<and> decision \<noteq> NotApplicable
     \<and> ((\<exists>reason. decision = Block reason) \<longleftrightarrow>
          block_action cfg \<and> (case downloads of Known d \<Rightarrow> d < min_downloads cfg | Unknown \<Rightarrow> block_unknown cfg)
          \<or> block_typosquat cfg \<and> lexical_reasons skeleton mixed cfg name downloads \<noteq> [])
     \<and> (decision = Allow \<longleftrightarrow>
          (\<exists>d. downloads = Known d \<and> min_downloads cfg \<le> d)
          \<and> (typosquat_check cfg \<longrightarrow>
               is_typosquat name (popular_packages cfg) (max_distance cfg) = None
               \<and> (homoglyph_check cfg \<longrightarrow>
                    is_homoglyph_squat skeleton name (popular_packages cfg) = None
                    \<and> (mixed name \<longrightarrow> (case nearest_popular_skeleton skeleton name (popular_packages cfg) of
                                         Some (_, d) \<Rightarrow> max_distance cfg < d | None \<Rightarrow> True)))
               \<and> (affix_check cfg \<longrightarrow> low_popularity cfg downloads \<longrightarrow> is_affix_squat skeleton name (popular_packages cfg) = None)))"
proof -
  let ?lex = "lexical_reasons skeleton mixed cfg name downloads"
  have below: "0 < min_downloads cfg \<and> d < min_downloads cfg \<longleftrightarrow> d < min_downloads cfg" for d
    using word_zero_le[of d] by (auto intro: le_less_trans)
  have "popularity_evaluate skeleton mixed config format name version source w = (popularity_decision skeleton mixed cfg name downloads, w')"
    using assms by (simp add: popularity_evaluate_def)
  moreover have "popularity_decision skeleton mixed cfg name downloads \<noteq> NotApplicable"
    by (simp add: popularity_decision_def Let_def split: prod.split)
  moreover have "(\<exists>reason. popularity_decision skeleton mixed cfg name downloads = Block reason) \<longleftrightarrow>
      block_action cfg \<and> (case downloads of Known d \<Rightarrow> d < min_downloads cfg | Unknown \<Rightarrow> block_unknown cfg)
      \<or> block_typosquat cfg \<and> ?lex \<noteq> []"
    by (auto simp: popularity_decision_def threshold_reasons_def Let_def below split: popularity_result.split)
  moreover have "popularity_decision skeleton mixed cfg name downloads = Allow \<longleftrightarrow>
      (\<exists>d. downloads = Known d \<and> min_downloads cfg \<le> d) \<and> ?lex = []"
    by (auto simp: popularity_decision_def threshold_reasons_def Let_def below not_less split: popularity_result.split)
  ultimately show ?thesis unfolding lexical_reasons_Nil by blast
qed

lemma popularity_rule_outcome_witness:
  "\<exists>reason. popularity_evaluate id (\<lambda>_. False)
      (JObject [(''action'', JString ''block''), (''min_downloads'', JPosInt 500), (''popular_packages'', JArray [])])
      ''npm'' ''left-pad'' ''1.0.0'' (\<lambda>w f n. (Known 7, w)) () = (Block reason, ())"
proof -
  let ?config = "JObject [(''action'', JString ''block''), (''min_downloads'', JPosInt 500), (''popular_packages'', JArray [])]"
  have "ecosystem_for_format ''npm'' = Some ''npm''" "block_action (read_config ?config ''npm'')"
      "(7 :: u64) < min_downloads (read_config ?config ''npm'')" by code_simp+
  then show ?thesis
    using popularity_rule_outcome[of "''npm''" "''npm''" "\<lambda>w f n. (Known 7, w)" "()" "''left-pad''" "Known 7" "()"
        id "\<lambda>_. False" ?config "''1.0.0''"]
    by (simp only: popularity_result.case) blast
qed

end
