(* ===== verification/Publisher.thy ===== *)
theory Publisher
  imports Popularity
begin

text \<open>
  Publisher identities (services/curation/publisher_source.rs) and the publisher-trust rule
  (services/curation/publisher_trust.rs). Shows that no extracted identity is verified, so that the
  rule in attestation mode trusts nobody, and what the rule answers in every configuration.
\<close>

section \<open>Extraction\<close>

datatype publisher_source = Attestation | Metadata

record publisher_identity =
  pub_name :: string
  pub_source :: publisher_source
  pub_verified :: bool

definition APPLICABLE_FORMATS :: "string list" where
  "APPLICABLE_FORMATS = [''pypi'', ''npm'']"

definition is_applicable_format :: "string \<Rightarrow> bool" where
  "is_applicable_format format \<longleftrightarrow> to_lowercase format \<in> set APPLICABLE_FORMATS"

fun find_map :: "('a \<Rightarrow> 'b option) \<Rightarrow> 'a list \<Rightarrow> 'b option" where
  "find_map f [] = None"
| "find_map f (x # xs) = (case f x of Some y \<Rightarrow> Some y | None \<Rightarrow> find_map f xs)"

definition non_empty_str :: "json option \<Rightarrow> string option" where
  "non_empty_str value =
     (case Option.bind value as_str of
        None \<Rightarrow> None
      | Some s \<Rightarrow> if trim s = [] then None else Some (trim s))"

definition trim_matches :: "char \<Rightarrow> string \<Rightarrow> string" where
  "trim_matches d s = trim_end_matches d (dropWhile (\<lambda>c. c = d) s)"

definition display_name_from_contact :: "json option \<Rightarrow> string option" where
  "display_name_from_contact value =
     (case Option.bind value as_str of
        None \<Rightarrow> None
      | Some s \<Rightarrow>
          (case split_once (CHR ''<'') (trim s) of
             None \<Rightarrow> None
           | Some (before, _) \<Rightarrow>
               (let name = trim (trim_matches (CHR 0x22) (trim before))
                in if name = [] then None else Some name)))"

definition pypi_attestation_publisher :: "json \<Rightarrow> string option" where
  "pypi_attestation_publisher metadata =
     (case Option.bind (json_get metadata ''provenance'') (\<lambda>p. get_array p ''attestation_bundles'') of
        None \<Rightarrow> None
      | Some bundles \<Rightarrow>
          (case find_map (\<lambda>b. json_get b ''publisher'') bundles of
             None \<Rightarrow> None
           | Some publisher \<Rightarrow>
               (case non_empty_str (json_get publisher ''repository'') of
                  None \<Rightarrow> None
                | Some repository \<Rightarrow>
                    (let owner = trim (hd (split_chars [CHR ''/''] repository))
                     in if owner = [] then None else Some owner))))"

definition extract_pypi :: "json \<Rightarrow> publisher_identity option" where
  "extract_pypi metadata =
     (case pypi_attestation_publisher metadata of
        Some name \<Rightarrow> Some \<lparr>pub_name = name, pub_source = Attestation, pub_verified = False\<rparr>
      | None \<Rightarrow>
          (case json_get metadata ''info'' of
             None \<Rightarrow> None
           | Some info \<Rightarrow>
               map_option (\<lambda>name. \<lparr>pub_name = name, pub_source = Metadata, pub_verified = False\<rparr>)
                 (or_else (non_empty_str (json_get info ''author''))
                   (or_else (non_empty_str (json_get info ''maintainer''))
                     (or_else (display_name_from_contact (json_get info ''author_email''))
                       (display_name_from_contact (json_get info ''maintainer_email'')))))))"

definition npm_has_provenance :: "json \<Rightarrow> bool" where
  "npm_has_provenance metadata =
     (case Option.bind (Option.bind (json_get metadata ''dist'') (\<lambda>d. json_get d ''attestations'')) (\<lambda>a. json_get a ''provenance'') of
        Some p \<Rightarrow> p \<noteq> JNull | None \<Rightarrow> False)"

definition extract_npm :: "json \<Rightarrow> publisher_identity option" where
  "extract_npm metadata =
     (let name = or_else (non_empty_str (Option.bind (json_get metadata ''_npmUser'') (\<lambda>u. json_get u ''name'')))
                   (Option.bind (get_array metadata ''maintainers'') (find_map (\<lambda>m. non_empty_str (json_get m ''name''))))
      in case name of
           None \<Rightarrow> None
         | Some n \<Rightarrow>
             if npm_has_provenance metadata then Some \<lparr>pub_name = n, pub_source = Attestation, pub_verified = False\<rparr>
             else Some \<lparr>pub_name = n, pub_source = Metadata, pub_verified = False\<rparr>)"

definition extract_publisher :: "string \<Rightarrow> json \<Rightarrow> publisher_identity option" where
  "extract_publisher format metadata =
     (let f = to_lowercase format in
      if f = ''pypi'' then extract_pypi metadata
      else if f = ''npm'' then extract_npm metadata
      else None)"

section \<open>The rule\<close>

definition backquoted :: "string \<Rightarrow> string" where
  "backquoted s = [CHR 0x60] @ s @ [CHR 0x60]"

definition untrusted_reason :: "string \<Rightarrow> string \<Rightarrow> bool \<Rightarrow> string \<Rightarrow> string \<Rightarrow> string \<Rightarrow> string" where
  "untrusted_reason publisher signal_label name_listed match_mode name version =
     (if name_listed \<and> match_mode = ''attestation'' then
        ''publisher '' @ backquoted publisher @ '' for '' @ name @ ''@'' @ version @ '' is on the trusted list but was asserted only via ''
        @ signal_label @ ''; '' @ backquoted ''match: attestation'' @ '' requires registry-verified provenance''
      else
        ''publisher '' @ backquoted publisher @ '' ('' @ signal_label @ '') for '' @ name @ ''@'' @ version
        @ '' is not in the trusted-publisher list'')"

definition trusted_publishers :: "json \<Rightarrow> string list" where
  "trusted_publishers config =
     (case get_array config ''trusted_publishers'' of
        Some list \<Rightarrow> filter (\<lambda>s. s \<noteq> []) (map (\<lambda>s. to_lowercase (trim s)) (List.map_filter as_str list))
      | None \<Rightarrow> [])"

definition signal_label :: "publisher_source \<Rightarrow> string" where
  "signal_label s =
     (case s of
        Attestation \<Rightarrow> ''attestation (present, not cryptographically verified)''
      | Metadata \<Rightarrow> ''self-asserted metadata (unverified)'')"

text \<open>The decision for an extracted identity: the second half of \<open>evaluate\<close>.\<close>

definition judge_publisher :: "string list \<Rightarrow> string \<Rightarrow> string \<Rightarrow> string \<Rightarrow> string \<Rightarrow> publisher_identity \<Rightarrow> curation_decision" where
  "judge_publisher trusted match_mode action name version publisher =
     (let name_listed = to_lowercase (pub_name publisher) \<in> set trusted;
          attestation_present = (pub_source publisher = Attestation);
          signal_sufficient = (if match_mode = ''metadata'' then True else attestation_present \<and> pub_verified publisher);
          is_trusted = (name_listed \<and> signal_sufficient);
          label = signal_label (pub_source publisher);
          reason = untrusted_reason (pub_name publisher) label name_listed match_mode name version
      in if match_mode = ''attestation'' \<and> name_listed \<and> attestation_present \<and> \<not> pub_verified publisher then
           Flag (''publisher '' @ backquoted (pub_name publisher) @ '' for '' @ name @ ''@'' @ version
             @ '' matches the trusted list via an attestation that is present but not cryptographically verified; ''
             @ ''held for review pending attestation verification (#2955)'')
         else if action \<in> set [''allow'', ''block''] \<and> is_trusted then Allow
         else if action = ''block'' then Block reason
         else if action = ''allow'' then Flag reason
         else if action = ''flag'' \<and> is_trusted then
           Flag (''publisher '' @ backquoted (pub_name publisher) @ '' matched trusted-publisher watch list via '' @ label
             @ '' for '' @ name @ ''@'' @ version)
         else Allow)"

definition publisher_evaluate :: "json \<Rightarrow> string \<Rightarrow> string \<Rightarrow> string \<Rightarrow> json \<Rightarrow> curation_decision" where
  "publisher_evaluate config format name version metadata =
     (let trusted = trusted_publishers config;
          match_mode = unwrap_or (get_str config ''match'') ''attestation'';
          action = unwrap_or (get_str config ''action'') ''flag''
      in if \<not> is_applicable_format format then NotApplicable
         else if trusted = [] then
           Flag (''publisher_trust rule misconfigured: '' @ backquoted ''trusted_publishers'' @ '' is missing or empty'')
         else if match_mode \<notin> set [''attestation'', ''metadata''] then
           Flag (''publisher_trust rule misconfigured: unknown match mode '' @ backquoted match_mode)
         else if action \<notin> set [''allow'', ''flag'', ''block''] then
           Flag (''publisher_trust rule misconfigured: unknown action '' @ backquoted action)
         else (case extract_publisher format metadata of
                 None \<Rightarrow> Flag (''publisher unknown: no publisher identity could be extracted for '' @ format @ '' package ''
                           @ name @ ''@'' @ version)
               | Some publisher \<Rightarrow> judge_publisher trusted match_mode action name version publisher))"

section \<open>Identities\<close>

lemma non_empty_str_Some: "non_empty_str v = Some s \<Longrightarrow> s \<noteq> []"
  by (auto simp: non_empty_str_def split: option.splits if_splits)

lemma display_name_Some: "display_name_from_contact v = Some s \<Longrightarrow> s \<noteq> []"
  by (auto simp: display_name_from_contact_def Let_def split: option.splits if_splits)

lemma find_map_Some: "find_map f xs = Some y \<Longrightarrow> \<exists>x\<in>set xs. f x = Some y"
  by (induction xs) (auto split: option.splits)

lemma extract_publisher_unverified:
  "extract_publisher format metadata = Some p \<Longrightarrow> \<not> pub_verified p \<and> pub_name p \<noteq> []"
  by (auto simp: extract_publisher_def extract_pypi_def extract_npm_def pypi_attestation_publisher_def Let_def or_else_Some bind_eq_Some_conv
      dest!: find_map_Some non_empty_str_Some display_name_Some split: if_splits option.splits)

section \<open>Properties\<close>

text \<open>Presence of an attestation is never trust. Whatever the metadata holds, the gating
  actions (allow, block) in attestation mode, which is the default mode, never let a package of an
  applicable format through: a listed name with an attestation is held for review, everything else
  is blocked or held.\<close>

lemma attestation_mode_trusts_nobody:
  assumes "is_applicable_format format" and "get_str config ''match'' \<noteq> Some ''metadata''"
    and "get_str config ''action'' \<in> {Some ''allow'', Some ''block''}"
  shows "\<exists>reason. publisher_evaluate config format name version metadata \<in> {Flag reason, Block reason}"
  using assms extract_publisher_unverified[of format metadata]
  by (auto simp: publisher_evaluate_def judge_publisher_def Let_def unwrap_or_def split: option.splits if_splits)

lemma attestation_mode_trusts_nobody_witness:
  "\<exists>reason. publisher_evaluate
       (JObject [(''action'', JString ''block''), (''trusted_publishers'', JArray [JString ''lodash-team''])])
       ''npm'' ''lodash'' ''4.17.21'' (JObject [(''_npmUser'', JObject [(''name'', JString ''mallory'')])]) \<in> {Flag reason, Block reason}"
  by (rule attestation_mode_trusts_nobody) code_simp+

text \<open>What the rule answers in its gating modes under a valid configuration. It allows
  exactly the packages whose publisher could be extracted and is listed, in metadata mode only; it
  blocks exactly under the block action, when a publisher was extracted that is not listed, or is
  listed but only asserted by self-declared metadata in attestation mode; everything else, an
  unknown publisher included, goes to review.\<close>

lemma publisher_gate_correct:
  assumes "is_applicable_format format" and "trusted_publishers config \<noteq> []"
    and "unwrap_or (get_str config ''match'') ''attestation'' = mode" "mode \<in> {''attestation'', ''metadata''}"
    and "get_str config ''action'' = Some action" "action \<in> {''allow'', ''block''}"
  shows "case extract_publisher format metadata of
       None \<Rightarrow> \<exists>reason. publisher_evaluate config format name version metadata = Flag reason
     | Some p \<Rightarrow>
         let on_list = to_lowercase (pub_name p) \<in> set (trusted_publishers config);
             decision = publisher_evaluate config format name version metadata
         in (decision = Allow \<longleftrightarrow> on_list \<and> mode = ''metadata'')
            \<and> ((\<exists>reason. decision = Block reason) \<longleftrightarrow>
                 action = ''block'' \<and> \<not> (on_list \<and> (mode = ''metadata'' \<or> pub_source p = Attestation)))
            \<and> decision \<noteq> NotApplicable"
proof -
  have "publisher_evaluate config format name version metadata =
      (case extract_publisher format metadata of
         None \<Rightarrow> Flag (''publisher unknown: no publisher identity could be extracted for '' @ format @ '' package '' @ name @ ''@'' @ version)
       | Some p \<Rightarrow> judge_publisher (trusted_publishers config) mode action name version p)"
    using assms by (auto simp: publisher_evaluate_def Let_def)
  then show ?thesis
    using assms(4,6) extract_publisher_unverified[of format metadata]
    by (auto simp: judge_publisher_def Let_def split: option.splits if_splits)
qed

lemma publisher_gate_correct_witness:
  "publisher_evaluate
     (JObject [(''action'', JString ''block''), (''match'', JString ''metadata''), (''trusted_publishers'', JArray [JString ''OpenJS''])])
     ''npm'' ''lodash'' ''4.17.21'' (JObject [(''_npmUser'', JObject [(''name'', JString ''openjs'')])]) = Allow"
proof -
  let ?c = "JObject [(''action'', JString ''block''), (''match'', JString ''metadata''), (''trusted_publishers'', JArray [JString ''OpenJS''])]"
  let ?m = "JObject [(''_npmUser'', JObject [(''name'', JString ''openjs'')])]"
  let ?p = "\<lparr>pub_name = ''openjs'', pub_source = Metadata, pub_verified = False\<rparr>"
  have h: "is_applicable_format ''npm''" "trusted_publishers ?c = [''openjs'']" "extract_publisher ''npm'' ?m = Some ?p"
      "unwrap_or (get_str ?c ''match'') ''attestation'' = ''metadata''" "get_str ?c ''action'' = Some ''block''"
      "to_lowercase ''openjs'' = ''openjs''"
    by code_simp+
  show ?thesis
    using publisher_gate_correct[of "''npm''" ?c "''metadata''" "''block''" "''lodash''" "''4.17.21''" ?m] h by (simp add: Let_def)
qed

end
