(* ===== verification/Curation.thy ===== *)
theory Curation
  imports Publisher Glob Version_Compare App_Error "HOL-Library.Product_Lexorder"
begin

text \<open>
  The curation service (services/curation_service.rs, models/curation.rs): pattern rules and typed
  rules, the rule table and the package catalog, the re-evaluation of pending packages, the download
  gate of the proxy (api/handlers/proxy_helpers.rs) and the last step of the upstream
  synchronisation (services/scheduler_service.rs). A table is the list of its rows; the CHECK
  constraints and defaults are those of the migrations, foreign keys are not modelled. Generated
  identifiers and the clock are arguments.
\<close>

section \<open>Tables\<close>

definition CURATION_RULE_TYPES :: "string list" where
  "CURATION_RULE_TYPES = [''pattern'', ''publisher_trust'', ''popularity'']"

definition CURATION_RULE_SCOPES :: "string list" where
  "CURATION_RULE_SCOPES = [''repository'', ''global'']"

record curation_rule =
  cr_id :: nat
  cr_staging_repo :: "nat option"
  package_pattern :: string
  version_constraint :: string
  cr_architecture :: string
  cr_action :: string
  priority :: int
  cr_reason :: string
  cr_enabled :: bool
  rule_type :: string
  cr_config :: json
  cr_scope :: string
  cr_created_by :: "nat option"
  cr_created_at :: int
  cr_updated_at :: int

record curation_package =
  cp_id :: nat
  cp_staging_repo :: nat
  cp_remote_repo :: nat
  cp_format :: string
  package_name :: string
  cp_version :: string
  release :: "string option"
  cp_architecture :: "string option"
  checksum_sha256 :: "string option"
  upstream_path :: string
  cp_status :: string
  evaluated_at :: "int option"
  evaluated_by :: "nat option"
  evaluation_reason :: "string option"
  cp_rule :: "nat option"
  cp_metadata :: json
  first_seen_at :: int
  upstream_updated_at :: "int option"
  primary_metadata :: "json option"

record curation_db =
  curation_rules :: "curation_rule list"
  curation_packages :: "curation_package list"
  rules_outage :: "sqlx_error option"
  packages_outage :: "sqlx_error option"

type_synonym 'a sqlx_result = "sqlx_error + 'a"

definition on_table :: "sqlx_error option \<Rightarrow> 'a \<Rightarrow> 'a sqlx_result" where
  "on_table outage v = (case outage of Some e \<Rightarrow> Inl e | None \<Rightarrow> Inr v)"

definition app_err :: "'a sqlx_result \<Rightarrow> 'a app_result" where
  "app_err r = (case r of Inl e \<Rightarrow> Inl (Sqlx e) | Inr v \<Rightarrow> Inr v)"

definition row_not_found :: sqlx_error where
  "row_not_found = SqlxOther ''no rows returned by a query that expected to return at least one row''"

definition check_violation :: sqlx_error where
  "check_violation = SqlxOther ''new row violates check constraint''"

section \<open>Matching\<close>

definition pattern_matches :: "string \<Rightarrow> string \<Rightarrow> bool" where
  "pattern_matches pattern name = glob_match pattern name"

definition curation_version_compare :: "string \<Rightarrow> string \<Rightarrow> int" where
  "curation_version_compare a b = compare_segs (split_chars ''.-'' a) (split_chars ''.-'' b)"

definition parse_constraint :: "string \<Rightarrow> string \<times> string" where
  "parse_constraint constraint =
     (case strip_prefix ''>='' constraint of Some v \<Rightarrow> (''>='', trim v) | None \<Rightarrow>
      case strip_prefix ''<='' constraint of Some v \<Rightarrow> (''<='', trim v) | None \<Rightarrow>
      case strip_prefix ''>'' constraint of Some v \<Rightarrow> (''>'', trim v) | None \<Rightarrow>
      case strip_prefix ''<'' constraint of Some v \<Rightarrow> (''<'', trim v) | None \<Rightarrow>
      case strip_prefix ''='' constraint of Some v \<Rightarrow> (''='', trim v) | None \<Rightarrow> (''='', constraint))"

definition version_matches :: "string \<Rightarrow> string \<Rightarrow> bool" where
  "version_matches constraint version =
     (let c = trim constraint in
      if c = ''*'' then True
      else (let (operator, target) = parse_constraint c;
                order = curation_version_compare version target
            in if operator = ''>='' then 0 \<le> order
               else if operator = ''<='' then order \<le> 0
               else if operator = ''>'' then 0 < order
               else if operator = ''<'' then order < 0
               else if operator = ''='' then order = 0
               else False))"

fun fold_loop :: "string \<Rightarrow> bool \<Rightarrow> string \<Rightarrow> string" where
  "fold_loop out last_was_sep [] = out"
| "fold_loop out last_was_sep (c # cs) =
     (if c \<in> set ''-_.'' then
        (if \<not> last_was_sep then fold_loop (out @ ''-'') True cs else fold_loop out last_was_sep cs)
      else fold_loop (out @ [to_lower_char c]) False cs)"

definition fold_pep503 :: "string \<Rightarrow> string" where
  "fold_pep503 value =
     (let out = fold_loop [] True value in if ends_with ''-'' out then butlast out else out)"

section \<open>Pattern rules\<close>

record rule_evaluation =
  ev_action :: string
  ev_reason :: string
  ev_rule :: "nat option"

definition rule_matches :: "curation_rule \<Rightarrow> string \<Rightarrow> string option \<Rightarrow> string option \<Rightarrow> bool \<Rightarrow> bool" where
  "rule_matches rule name version architecture fold_names \<longleftrightarrow>
     rule_type rule = ''pattern''
     \<and> (if fold_names then pattern_matches (fold_pep503 (package_pattern rule)) (fold_pep503 name)
        else pattern_matches (package_pattern rule) name)
     \<and> (let constraint = trim (version_constraint rule)
        in case version of Some v \<Rightarrow> version_matches constraint v | None \<Rightarrow> constraint = ''*'')
     \<and> (cr_architecture rule = ''*'' \<or> architecture = Some (cr_architecture rule))"

fun evaluate_rules ::
  "curation_rule list \<Rightarrow> string \<Rightarrow> string \<Rightarrow> string option \<Rightarrow> string option \<Rightarrow> bool \<Rightarrow> rule_evaluation" where
  "evaluate_rules [] default_action name version architecture fold_names =
     \<lparr>ev_action = default_action, ev_reason = ''No matching rule; default action: '' @ default_action, ev_rule = None\<rparr>"
| "evaluate_rules (rule # rules) default_action name version architecture fold_names =
     (if \<not> rule_matches rule name version architecture fold_names then
        evaluate_rules rules default_action name version architecture fold_names
      else \<lparr>ev_action = cr_action rule, ev_reason = cr_reason rule, ev_rule = Some (cr_id rule)\<rparr>)"

definition evaluate_package_in_memory :: "curation_rule list \<Rightarrow> string \<Rightarrow> string \<Rightarrow> string \<Rightarrow> string option \<Rightarrow> rule_evaluation" where
  "evaluate_package_in_memory rules default_action name version architecture =
     evaluate_rules rules default_action name (Some version) architecture False"

text \<open>ORDER BY priority ASC, created_at ASC.\<close>

definition rule_order :: "curation_rule \<Rightarrow> curation_rule \<Rightarrow> ordering" where
  "rule_order = by_column (\<lambda>r. (priority r, cr_created_at r))"

definition applicable_rules :: "curation_db \<Rightarrow> nat \<Rightarrow> curation_rule list" where
  "applicable_rules db repo =
     sort_by rule_order (filter (\<lambda>r. cr_enabled r \<and> (cr_staging_repo r = Some repo \<or> cr_staging_repo r = None)) (curation_rules db))"

definition fetch_applicable_rules :: "curation_db \<Rightarrow> nat \<Rightarrow> curation_rule list sqlx_result" where
  "fetch_applicable_rules db repo = on_table (rules_outage db) (applicable_rules db repo)"

definition evaluate_package :: "curation_db \<Rightarrow> nat \<Rightarrow> string \<Rightarrow> string \<Rightarrow> string \<Rightarrow> string option \<Rightarrow> rule_evaluation sqlx_result" where
  "evaluate_package db repo default_action name version architecture =
     result_bind (fetch_applicable_rules db repo)
       (\<lambda>rules. Inr (evaluate_package_in_memory rules default_action name version architecture))"

definition evaluate_pep503_package :: "curation_db \<Rightarrow> nat \<Rightarrow> string \<Rightarrow> string \<Rightarrow> string option \<Rightarrow> rule_evaluation sqlx_result" where
  "evaluate_pep503_package db repo default_action name version =
     result_bind (fetch_applicable_rules db repo)
       (\<lambda>rules. Inr (evaluate_rules rules default_action name version None True))"

text \<open>The gate of the proxy download paths; a refused package carries the reason of the rule.\<close>

record curation_target =
  ct_id :: nat
  ct_repo_type :: string
  curation_enabled :: bool
  default_action :: string

definition enforce_curation :: "curation_db \<Rightarrow> curation_target \<Rightarrow> string \<Rightarrow> string option \<Rightarrow> string + unit" where
  "enforce_curation db target package version =
     (if \<not> curation_enabled target \<or> ct_repo_type target \<notin> set [''remote'', ''virtual''] then Inr ()
      else (case evaluate_pep503_package db (ct_id target) (default_action target) package version of
              Inl _ \<Rightarrow> Inr ()
            | Inr eval \<Rightarrow> if ev_action eval = ''block'' then Inl (ev_reason eval) else Inr ()))"

section \<open>Typed rules\<close>

definition evaluate_typed_rule ::
  "(string \<Rightarrow> string) \<Rightarrow> (string \<Rightarrow> bool) \<Rightarrow> curation_rule \<Rightarrow> string \<Rightarrow> string \<Rightarrow> string \<Rightarrow> json \<Rightarrow> 'w source \<Rightarrow> 'w
    \<Rightarrow> curation_decision \<times> 'w" where
  "evaluate_typed_rule skeleton mixed rule format name version metadata source w =
     (if rule_type rule = ''pattern'' then
        (let eval = evaluate_rules [rule] ''allow'' name (Some version) (get_str metadata ''architecture'') False
         in (case ev_rule eval of
               None \<Rightarrow> NotApplicable
             | Some _ \<Rightarrow>
                 if ev_action eval = ''allow'' then Allow
                 else if ev_action eval = ''block'' then Block (ev_reason eval)
                 else Flag (ev_reason eval), w))
      else if rule_type rule = ''publisher_trust'' then
        (publisher_evaluate (cr_config rule) format name version metadata, w)
      else if rule_type rule = ''popularity'' then
        (if \<not> applies_to format then (NotApplicable, w)
         else popularity_evaluate skeleton mixed (cr_config rule) format name version source w)
      else
        (Flag (''Unrecognized curation rule_type '' @ quoted (rule_type rule) @ '' (rule '' @ show_nat (cr_id rule)
               @ ''): routed to manual review''), w))"

fun evaluate_typed_rules ::
  "(string \<Rightarrow> string) \<Rightarrow> (string \<Rightarrow> bool) \<Rightarrow> curation_rule list \<Rightarrow> curation_decision \<Rightarrow> string \<Rightarrow> string \<Rightarrow> string \<Rightarrow> json
    \<Rightarrow> 'w source \<Rightarrow> 'w \<Rightarrow> (curation_decision \<times> nat option) \<times> 'w" where
  "evaluate_typed_rules skeleton mixed [] default_dec format name version metadata source w = ((default_dec, None), w)"
| "evaluate_typed_rules skeleton mixed (rule # rules) default_dec format name version metadata source w =
     (case evaluate_typed_rule skeleton mixed rule format name version metadata source w of
        (decision, w') \<Rightarrow>
          if decision = NotApplicable then evaluate_typed_rules skeleton mixed rules default_dec format name version metadata source w'
          else ((decision, Some (cr_id rule)), w'))"

definition default_decision :: "string \<Rightarrow> curation_decision" where
  "default_decision action =
     (if action = ''allow'' then Allow
      else if action = ''block'' then Block (''No matching rule; default action: '' @ action)
      else Flag (''No matching rule; default action: '' @ action))"

definition context_metadata :: "json \<Rightarrow> string option \<Rightarrow> json" where
  "context_metadata metadata architecture =
     (case architecture of
        Some arch \<Rightarrow>
          if json_get metadata ''architecture'' = None then
            (case metadata of
               JObject fs \<Rightarrow> JObject (insert_field ''architecture'' (JString arch) fs)
             | _ \<Rightarrow> JObject [(''architecture'', JString arch)])
          else metadata
      | None \<Rightarrow> metadata)"

definition evaluate_package_typed ::
  "(string \<Rightarrow> string) \<Rightarrow> (string \<Rightarrow> bool) \<Rightarrow> curation_db \<Rightarrow> nat \<Rightarrow> string \<Rightarrow> string \<Rightarrow> string \<Rightarrow> string \<Rightarrow> string option \<Rightarrow> json
    \<Rightarrow> 'w source \<Rightarrow> 'w \<Rightarrow> (curation_decision \<times> nat option) sqlx_result \<times> 'w" where
  "evaluate_package_typed skeleton mixed db repo action format name version architecture metadata source w =
     (case fetch_applicable_rules db repo of
        Inl e \<Rightarrow> (Inl e, w)
      | Inr rules \<Rightarrow>
          (case evaluate_typed_rules skeleton mixed rules (default_decision action) format name version
                  (context_metadata metadata architecture) source w of
             (result, w') \<Rightarrow> (Inr result, w')))"

definition decision_to_status_reason :: "curation_decision \<Rightarrow> nat option \<Rightarrow> string \<times> string" where
  "decision_to_status_reason decision rule =
     (case decision of
        Allow \<Rightarrow>
          (case rule of
             Some i \<Rightarrow> (''approved'', ''Allowed by curation rule '' @ show_nat i)
           | None \<Rightarrow> (''approved'', ''No matching rule; default action: allow''))
      | Block reason \<Rightarrow> (''blocked'', reason)
      | Flag reason \<Rightarrow> (''review'', reason)
      | NotApplicable \<Rightarrow> (''review'', ''Rule evaluation rendered no decision; routed to manual review''))"

section \<open>Folding names\<close>

text \<open>The reference: the non-empty pieces between separators, in lower case, joined by one dash.\<close>

definition name_pieces :: "string \<Rightarrow> string list" where
  "name_pieces s = filter (\<lambda>p. p \<noteq> []) (split_chars ''-_.'' (to_lowercase s))"

definition dash_prefixed :: "string list \<Rightarrow> string" where
  "dash_prefixed ps = concat (map (\<lambda>p. CHR ''-'' # p) (filter (\<lambda>p. p \<noteq> []) ps))"

definition chop :: "string \<Rightarrow> string" where
  "chop out = (if ends_with ''-'' out then butlast out else out)"

lemma to_lower_char_sep: "to_lower_char c \<in> set ''-_.'' \<longleftrightarrow> c \<in> set ''-_.''"
proof (cases "is_ascii_uppercase c")
  case True
  then have "code_of (to_lower_char c) = code_of c + 32" and "code_of c \<le> 90" "65 \<le> code_of c"
    by (simp_all add: to_lower_char_def is_ascii_uppercase_def code_of_def)
  then have "to_lower_char c \<notin> set ''-_.''" "c \<notin> set ''-_.''" by (auto simp: code_of_def)
  then show ?thesis by simp
qed (simp add: to_lower_char_def)

lemma ends_with_snoc [simp]: "ends_with [d] (out @ [c]) \<longleftrightarrow> c = d"
  by (auto simp: suffix_def)

lemma ends_with_Nil [simp]: "\<not> ends_with [d] []"
  by simp

lemma chop_simps [simp]: "chop (out @ [c]) = (if c = CHR ''-'' then out else out @ [c])" "chop [] = []"
  by (simp_all add: chop_def del: ends_with_iff)

lemma join_with_dash: "join_with (CHR ''-'') (p # ps) = p @ concat (map (\<lambda>q. CHR ''-'' # q) ps)"
  by (induction ps arbitrary: p) auto

lemma fold_loop_pieces:
  fixes s
  defines "P \<equiv> split_chars ''-_.'' (to_lowercase s)"
  shows "last out \<noteq> CHR ''-'' \<Longrightarrow> out \<noteq> [] \<Longrightarrow> chop (fold_loop out False s) = out @ hd P @ dash_prefixed (tl P)"
    and "chop (fold_loop out True s) = (if filter (\<lambda>p. p \<noteq> []) P = [] then chop out else out @ join_with (CHR ''-'') (filter (\<lambda>p. p \<noteq> []) P))"
  unfolding P_def
proof (induction s arbitrary: out)
  case Nil
  {
    case 1
    then show ?case by (cases out rule: rev_cases) (simp_all add: to_lowercase_def dash_prefixed_def)
  next
    case 2
    then show ?case by (simp add: to_lowercase_def)
  }
next
  case (Cons c cs)
  let ?P = "split_chars ''-_.'' (to_lowercase cs)"
  have lower: "to_lowercase (c # cs) = to_lower_char c # to_lowercase cs" by (simp add: to_lowercase_def)
  have dash: "to_lower_char c \<noteq> CHR ''-''" if "c \<notin> set ''-_.''" using that to_lower_char_sep[of c] by auto
  have P: "?P = hd ?P # tl ?P" by simp
  {
    case 1
    show ?case
    proof (cases "c \<in> set ''-_.''")
      case True
      have "join_with (CHR ''-'') (filter (\<lambda>p. p \<noteq> []) ?P) = tl (dash_prefixed ?P)" if "filter (\<lambda>p. p \<noteq> []) ?P \<noteq> []"
        using that by (cases "filter (\<lambda>p. p \<noteq> []) ?P") (simp_all add: dash_prefixed_def join_with_dash)
      moreover have "dash_prefixed ?P = CHR ''-'' # tl (dash_prefixed ?P)" if "filter (\<lambda>p. p \<noteq> []) ?P \<noteq> []"
        using that by (cases "filter (\<lambda>p. p \<noteq> []) ?P") (simp_all add: dash_prefixed_def)
      moreover have "dash_prefixed ?P = []" if "filter (\<lambda>p. p \<noteq> []) ?P = []"
        using that by (simp only: dash_prefixed_def) simp
      ultimately have "chop (fold_loop (out @ ''-'') True cs) = out @ dash_prefixed ?P"
        using Cons.IH(2)[of "out @ ''-''"] by (auto simp del: filter_empty_conv)
      then show ?thesis using True to_lower_char_sep[of c] by (simp add: lower)
    next
      case False
      then show ?thesis
        using Cons.IH(1)[of "out @ [to_lower_char c]"] dash to_lower_char_sep[of c] by (simp add: lower)
    qed
  next
    case 2
    show ?case
    proof (cases "c \<in> set ''-_.''")
      case True
      then show ?thesis using Cons.IH(2)[of out] to_lower_char_sep[of c] by (simp add: lower del: filter_empty_conv)
    next
      case False
      then show ?thesis
        using Cons.IH(1)[of "out @ [to_lower_char c]"] dash to_lower_char_sep[of c]
        by (simp add: lower join_with_dash dash_prefixed_def)
    qed
  }
qed

lemma fold_pep503_pieces: "fold_pep503 s = join_with (CHR ''-'') (name_pieces s)"
  using fold_loop_pieces(2)[of "[]" s] by (auto simp: fold_pep503_def chop_def name_pieces_def Let_def split: if_splits)

lemma split_chars_append: "set p \<inter> set ds = {} \<Longrightarrow> d \<in> set ds \<Longrightarrow> split_chars ds (p @ d # s) = p # split_chars ds s"
  by (induction p) auto

lemma split_join:
  "ps \<noteq> [] \<Longrightarrow> \<forall>p\<in>set ps. set p \<inter> set ds = {} \<Longrightarrow> d \<in> set ds \<Longrightarrow> split_chars ds (join_with d ps) = ps"
  by (induction d ps rule: join_with.induct) (simp_all add: split_chars_append split_chars_id)

lemma set_split_chars: "p \<in> set (split_chars ds s) \<Longrightarrow> set p \<subseteq> set s"
proof (induction s arbitrary: p)
  case (Cons c cs)
  obtain x xs where "split_chars ds cs = x # xs" by (cases "split_chars ds cs") auto
  moreover from this have "set x \<subseteq> set cs" and "\<And>q. q \<in> set xs \<Longrightarrow> set q \<subseteq> set cs" using Cons.IH by simp_all
  ultimately show ?case using Cons.prems by (fastforce split: if_splits)
qed simp

lemma set_join_with: "set (join_with d ps) \<subseteq> insert d (\<Union> (set ` set ps))"
  by (induction d ps rule: join_with.induct) auto

lemma name_pieces_lower:
  assumes "p \<in> set (name_pieces s)" "c \<in> set p"
  shows "to_lower_char c = c"
proof -
  have "c \<in> set (to_lowercase s)" using assms set_split_chars[of p "''-_.''"] by (auto simp: name_pieces_def)
  then show ?thesis by (auto simp: to_lowercase_def)
qed

lemma name_pieces_fold: "name_pieces (fold_pep503 s) = name_pieces s"
proof (cases "name_pieces s = []")
  case False
  have "to_lower_char c = c" if "c \<in> set (fold_pep503 s)" for c
    using that set_join_with[of "CHR ''-''" "name_pieces s"] name_pieces_lower[of _ s c] unfolding fold_pep503_pieces
    by (auto simp: to_lower_char_def is_ascii_uppercase_def code_of_def)
  then have "to_lowercase (fold_pep503 s) = fold_pep503 s" by (simp add: to_lowercase_def map_idI)
  moreover have "split_chars ''-_.'' (fold_pep503 s) = name_pieces s"
    unfolding fold_pep503_pieces using False split_chars_no_sep[of _ "''-_.''" "to_lowercase s"]
    by (intro split_join) (auto simp: name_pieces_def)
  ultimately show ?thesis by (simp add: name_pieces_def[of "fold_pep503 s"]) (simp add: name_pieces_def)
qed (simp add: fold_pep503_pieces, simp add: name_pieces_def to_lowercase_def)

section \<open>First match\<close>

lemma evaluate_rules_find:
  "evaluate_rules rules action name version arch fold_names =
     (case find (\<lambda>r. rule_matches r name version arch fold_names) rules of
        Some r \<Rightarrow> \<lparr>ev_action = cr_action r, ev_reason = cr_reason r, ev_rule = Some (cr_id r)\<rparr>
      | None \<Rightarrow> \<lparr>ev_action = action, ev_reason = ''No matching rule; default action: '' @ action, ev_rule = None\<rparr>)"
  by (induction rules) auto

lemma find_sorted:
  "sorted_wrt R xs \<Longrightarrow> find P xs = Some x \<Longrightarrow> y \<in> set xs \<Longrightarrow> P y \<Longrightarrow> y = x \<or> R x y"
  by (induction xs) (auto split: if_splits)

lemma applicable_rules_iff:
  "r \<in> set (applicable_rules db repo) \<longleftrightarrow> r \<in> set (curation_rules db) \<and> cr_enabled r \<and> cr_staging_repo r \<in> {Some repo, None}"
  by (auto simp: applicable_rules_def)

lemma applicable_rules_first:
  assumes "find P (applicable_rules db repo) = Some r" "r' \<in> set (applicable_rules db repo)" "P r'"
  shows "(priority r, cr_created_at r) \<le> (priority r', cr_created_at r')"
proof -
  have "sorted_wrt (\<lambda>a b. rule_order a b \<noteq> Greater) (applicable_rules db repo)"
    unfolding applicable_rules_def rule_order_def by (rule asc.sorted_sort_by)
  from find_sorted[OF this assms] show ?thesis by (auto simp: rule_order_def by_column_le)
qed

lemma json_get_context:
  "json_get metadata ''architecture'' = None \<Longrightarrow> get_str (context_metadata metadata arch) ''architecture'' = arch"
  by (cases arch; cases metadata) (auto simp: context_metadata_def get_str_def)

lemma evaluate_typed_pattern:
  assumes "rule_type rule = ''pattern''"
  shows "evaluate_typed_rule skeleton mixed rule format name version metadata source w =
     (if rule_matches rule name (Some version) (get_str metadata ''architecture'') False
      then if cr_action rule = ''allow'' then Allow
           else if cr_action rule = ''block'' then Block (cr_reason rule) else Flag (cr_reason rule)
      else NotApplicable, w)"
  using assms by (simp add: evaluate_typed_rule_def Let_def)

lemma publisher_evaluate_applicable:
  "publisher_evaluate config format name version metadata = NotApplicable \<longleftrightarrow> \<not> is_applicable_format format"
  by (auto simp: publisher_evaluate_def judge_publisher_def Let_def split: option.splits)

text \<open>The rules that have an effect on a package: the engine can judge it and, for a pattern, it matches.\<close>

definition judges :: "string \<Rightarrow> string \<Rightarrow> string \<Rightarrow> json \<Rightarrow> curation_rule \<Rightarrow> bool" where
  "judges format name version metadata rule \<longleftrightarrow>
     (if rule_type rule = ''pattern'' then rule_matches rule name (Some version) (get_str metadata ''architecture'') False
      else if rule_type rule = ''publisher_trust'' then is_applicable_format format
      else if rule_type rule = ''popularity'' then applies_to format
      else True)"

lemma popularity_decision_applicable: "popularity_decision skeleton mixed cfg name downloads \<noteq> NotApplicable"
  by (simp add: popularity_decision_def Let_def split: prod.split)

lemma popularity_evaluate_applicable:
  "applies_to format \<Longrightarrow> fst (popularity_evaluate skeleton mixed config format name version source w) \<noteq> NotApplicable"
  by (cases "source w format name") (auto simp: applies_to_def popularity_evaluate_def popularity_decision_applicable)

lemma evaluate_typed_rule_judges:
  "judges format name version metadata rule \<longleftrightarrow>
     fst (evaluate_typed_rule skeleton mixed rule format name version metadata source w) \<noteq> NotApplicable"
  using publisher_evaluate_applicable[of "cr_config rule" format name version metadata]
    popularity_evaluate_applicable[of format skeleton mixed "cr_config rule" name version source w]
  by (auto simp: judges_def evaluate_typed_rule_def Let_def)

lemma evaluate_typed_rule_pure:
  "\<not> judges format name version metadata rule \<Longrightarrow>
     evaluate_typed_rule skeleton mixed rule format name version metadata source w = (NotApplicable, w)"
  using publisher_evaluate_applicable[of "cr_config rule" format name version metadata]
  by (auto simp: judges_def evaluate_typed_rule_def Let_def split: if_splits)

lemma trim_last: "trim t = t \<Longrightarrow> t \<noteq> [] \<Longrightarrow> \<not> is_whitespace (last t)"
  using hd_dropWhile[of is_whitespace "rev (dropWhile is_whitespace t)"] unfolding trim_def
  by (metis hd_rev rev_is_Nil_conv rev_rev_ident)

lemma trim_Cons: "trim t = t \<Longrightarrow> t \<noteq> [] \<Longrightarrow> \<not> is_whitespace c \<Longrightarrow> trim (c # t) = c # t"
  using trim_last[of t] by (cases t rule: rev_cases) (auto simp: trim_def)

lemma operator_not_whitespace: "\<not> is_whitespace (CHR ''<'')" "\<not> is_whitespace (CHR ''>'')" "\<not> is_whitespace (CHR ''='')"
  by (simp_all add: is_whitespace_def code_of_def)

lemma version_matches_operators:
  assumes "trim t = t" and "t \<noteq> []" and "hd t \<notin> set ''<>=''"
  shows "version_matches (''>='' @ t) v \<longleftrightarrow> 0 \<le> curation_version_compare v t"
    and "version_matches (''<='' @ t) v \<longleftrightarrow> curation_version_compare v t \<le> 0"
    and "version_matches (''>'' @ t) v \<longleftrightarrow> 0 < curation_version_compare v t"
    and "version_matches (''<'' @ t) v \<longleftrightarrow> curation_version_compare v t < 0"
    and "version_matches (''='' @ t) v \<longleftrightarrow> curation_version_compare v t = 0"
    and "t \<noteq> ''*'' \<Longrightarrow> version_matches t v \<longleftrightarrow> curation_version_compare v t = 0"
proof -
  obtain c r where t: "t = c # r" using assms(2) by (cases t) auto
  note tr = trim_Cons[OF assms(1,2) operator_not_whitespace(1)] trim_Cons[OF assms(1,2) operator_not_whitespace(2)]
    trim_Cons[OF assms(1,2) operator_not_whitespace(3)]
  have tr2: "trim (c' # ''='' @ t) = c' # ''='' @ t" if "\<not> is_whitespace c'" for c'
    using trim_Cons[of "''='' @ t" c'] tr(3) that by simp
  show "version_matches (''>='' @ t) v \<longleftrightarrow> 0 \<le> curation_version_compare v t"
    and "version_matches (''<='' @ t) v \<longleftrightarrow> curation_version_compare v t \<le> 0"
    using tr2 operator_not_whitespace assms(1) by (simp_all add: version_matches_def parse_constraint_def Let_def)
  show "version_matches (''>'' @ t) v \<longleftrightarrow> 0 < curation_version_compare v t"
    and "version_matches (''<'' @ t) v \<longleftrightarrow> curation_version_compare v t < 0"
    and "version_matches (''='' @ t) v \<longleftrightarrow> curation_version_compare v t = 0"
    and "t \<noteq> ''*'' \<Longrightarrow> version_matches t v \<longleftrightarrow> curation_version_compare v t = 0"
    using tr assms(1,3) t by (auto simp: version_matches_def parse_constraint_def Let_def)
qed

section \<open>Properties\<close>

text \<open>Spelling cannot dodge a rule of the download gate. Folding a name equals joining, by
  single dashes, its non-empty pieces between separators in lower case; it is idempotent; and two
  spellings with the same pieces get the same verdict from the gate.\<close>

lemma pep503_spelling_irrelevant:
  "fold_pep503 a = join_with (CHR ''-'') (name_pieces a) \<and> fold_pep503 (fold_pep503 a) = fold_pep503 a
   \<and> (name_pieces a = name_pieces b \<longrightarrow> enforce_curation db target a version = enforce_curation db target b version)"
  using name_pieces_fold[of a]
  by (auto simp: fold_pep503_pieces enforce_curation_def evaluate_pep503_package_def evaluate_rules_find rule_matches_def)

definition demo_rule :: "string \<Rightarrow> string \<Rightarrow> string \<Rightarrow> curation_rule" where
  "demo_rule pattern constraint action =
     \<lparr>cr_id = 1, cr_staging_repo = None, package_pattern = pattern, version_constraint = constraint, cr_architecture = ''*'',
      cr_action = action, priority = 100, cr_reason = ''policy'', cr_enabled = True, rule_type = ''pattern'', cr_config = JObject [],
      cr_scope = ''global'', cr_created_by = None, cr_created_at = 0, cr_updated_at = 0\<rparr>"

definition demo_rules_db :: "curation_rule list \<Rightarrow> curation_db" where
  "demo_rules_db rules = \<lparr>curation_rules = rules, curation_packages = [], rules_outage = None, packages_outage = None\<rparr>"

definition demo_target :: curation_target where
  "demo_target = \<lparr>ct_id = 5, ct_repo_type = ''remote'', curation_enabled = True, default_action = ''allow''\<rparr>"

lemma demo_applicable: "applicable_rules (demo_rules_db [demo_rule p c a]) repo = [demo_rule p c a]"
  by (simp add: applicable_rules_def demo_rules_db_def demo_rule_def)

lemma pep503_spelling_irrelevant_witness:
  "enforce_curation (demo_rules_db [demo_rule ''My_Package'' ''*'' ''block'']) demo_target ''My..Package'' None
   = enforce_curation (demo_rules_db [demo_rule ''My_Package'' ''*'' ''block'']) demo_target ''my_package'' None"
proof -
  have "name_pieces ''My..Package'' = name_pieces ''my_package''" by code_simp
  then show ?thesis using pep503_spelling_irrelevant by blast
qed

text \<open>C34: the verdict of the download gate. With the rule table available, a package of a proxy
  repository with curation enabled is refused exactly when no enabled rule of the repository or of
  the global baseline matches and the default action is block, or when the matching rule that wins
  has action block; the winner precedes every other matching rule by priority, then by age. Only
  pattern rules take part, and a rule with a version constraint or an architecture matches no request
  that does not carry one.\<close>

theorem curation_gate_correct:
  fixes package version
  assumes "rules_outage db = None" and "curation_enabled target" and "ct_repo_type target \<in> {''remote'', ''virtual''}"
  defines "hits \<equiv> {r \<in> set (curation_rules db). cr_enabled r \<and> cr_staging_repo r \<in> {Some (ct_id target), None}
                      \<and> rule_matches r package version None True}"
  shows "(hits = {} \<longrightarrow> enforce_curation db target package version =
              (if default_action target = ''block'' then Inl (''No matching rule; default action: block'') else Inr ()))
     \<and> (hits \<noteq> {} \<longrightarrow> (\<exists>winner\<in>hits.
            (\<forall>r\<in>hits. (priority winner, cr_created_at winner) \<le> (priority r, cr_created_at r))
            \<and> enforce_curation db target package version =
                (if cr_action winner = ''block'' then Inl (cr_reason winner) else Inr ())))
     \<and> (\<forall>r\<in>hits. rule_type r = ''pattern'' \<and> cr_architecture r = ''*''
            \<and> (version = None \<longrightarrow> trim (version_constraint r) = ''*''))"
proof -
  let ?P = "\<lambda>r. rule_matches r package version None True" and ?rules = "applicable_rules db (ct_id target)"
  have hits: "hits = {r \<in> set ?rules. ?P r}" by (auto simp: hits_def applicable_rules_iff)
  have run: "enforce_curation db target package version =
      (case find ?P ?rules of
         Some r \<Rightarrow> if cr_action r = ''block'' then Inl (cr_reason r) else Inr ()
       | None \<Rightarrow> if default_action target = ''block'' then Inl (''No matching rule; default action: block'') else Inr ())"
    using assms(1-3)
    by (auto simp: enforce_curation_def evaluate_pep503_package_def fetch_applicable_rules_def on_table_def evaluate_rules_find split: option.split)
  have "hits = {} \<longleftrightarrow> find ?P ?rules = None" by (auto simp: hits find_None_iff)
  moreover have "\<exists>winner\<in>hits. find ?P ?rules = Some winner
      \<and> (\<forall>r\<in>hits. (priority winner, cr_created_at winner) \<le> (priority r, cr_created_at r))" if some: "find ?P ?rules \<noteq> None"
  proof -
    obtain r where r: "find ?P ?rules = Some r" using some by blast
    then have "r \<in> hits" by (auto simp: hits find_Some_iff)
    then show ?thesis using r applicable_rules_first[OF r] by (auto simp: hits)
  qed
  moreover have "\<forall>r\<in>hits. rule_type r = ''pattern'' \<and> cr_architecture r = ''*'' \<and> (version = None \<longrightarrow> trim (version_constraint r) = ''*'')"
    by (auto simp: hits rule_matches_def Let_def)
  ultimately show ?thesis using run by fastforce
qed

theorem curation_gate_correct_witness:
  "enforce_curation (demo_rules_db [demo_rule ''My_Package'' ''*'' ''block'']) demo_target ''my-package'' None = Inl ''policy''"
proof -
  let ?r = "demo_rule ''My_Package'' ''*'' ''block''"
  have m: "rule_matches ?r ''my-package'' None None True" by code_simp
  have h: "{r \<in> set (curation_rules (demo_rules_db [?r])). cr_enabled r \<and> cr_staging_repo r \<in> {Some (ct_id demo_target), None}
       \<and> rule_matches r ''my-package'' None None True} = {?r}"
    using m by (auto simp: demo_rules_db_def demo_rule_def)
  show ?thesis
    using curation_gate_correct[of "demo_rules_db [?r]" demo_target "''my-package''" None] unfolding h
    by (simp add: demo_rules_db_def demo_target_def demo_rule_def)
qed

text \<open>On pattern rules the typed evaluation and the original one agree: for a package whose
  metadata has no architecture of its own, both pick the same rule, the status the catalog stores is
  the one of the original action, and the popularity source is not consulted.\<close>

lemma typed_agrees_with_pattern:
  assumes "\<forall>r\<in>set rules. rule_type r = ''pattern''" and "json_get metadata ''architecture'' = None"
  shows "\<exists>decision rule. evaluate_typed_rules skeleton mixed rules (default_decision action) format name version
            (context_metadata metadata architecture) source w = ((decision, rule), w)
       \<and> (let eval = evaluate_package_in_memory rules action name version architecture
          in rule = ev_rule eval
             \<and> fst (decision_to_status_reason decision rule) =
                 (if ev_action eval = ''allow'' then ''approved'' else if ev_action eval = ''block'' then ''blocked'' else ''review'')
             \<and> (ev_action eval \<noteq> ''allow'' \<longrightarrow> snd (decision_to_status_reason decision rule) = ev_reason eval))"
  using assms(1)
proof (induction rules)
  case Nil
  then show ?case by (simp add: evaluate_package_in_memory_def default_decision_def decision_to_status_reason_def)
next
  case (Cons r rules)
  then show ?case
    using evaluate_typed_pattern[of r skeleton mixed format name version "context_metadata metadata architecture" source w]
      json_get_context[OF assms(2)]
    by (auto simp: evaluate_package_in_memory_def decision_to_status_reason_def Let_def)
qed

lemma typed_agrees_with_pattern_witness:
  "\<exists>decision. evaluate_typed_rules id (\<lambda>_. False) [demo_rule ''left*'' ''*'' ''block''] (default_decision ''allow'') ''npm''
      ''left-pad'' ''1.3'' (context_metadata (JObject []) (Some ''noarch'')) (\<lambda>w f n. (Unknown, w)) () = ((decision, Some 1), ())"
proof -
  have "ev_rule (evaluate_package_in_memory [demo_rule ''left*'' ''*'' ''block''] ''allow'' ''left-pad'' ''1.3'' (Some ''noarch'')) = Some 1"
    by code_simp
  moreover have "\<forall>r\<in>set [demo_rule ''left*'' ''*'' ''block'']. rule_type r = ''pattern''" "json_get (JObject []) ''architecture'' = None"
    by (simp_all add: demo_rule_def)
  ultimately show ?thesis
    using typed_agrees_with_pattern[of "[demo_rule ''left*'' ''*'' ''block'']" "JObject []" id "\<lambda>_. False" "''allow''" "''npm''"
        "''left-pad''" "''1.3''" "Some ''noarch''" "\<lambda>w f n. (Unknown, w)" "()"]
    by (metis (no_types, lifting))
qed

text \<open>The first rule that has an effect decides, and only that one: rules of an engine that
  cannot judge the format and patterns that do not match are passed over without consulting the
  popularity source; the winner always renders a decision, and a rule of an unrecognised type
  sends the package to review.\<close>

lemma typed_first_applicable:
  "evaluate_typed_rules skeleton mixed rules default_dec format name version metadata source w =
     (case find (judges format name version metadata) rules of
        None \<Rightarrow> ((default_dec, None), w)
      | Some rule \<Rightarrow>
          (case evaluate_typed_rule skeleton mixed rule format name version metadata source w of
             (decision, w') \<Rightarrow> ((decision, Some (cr_id rule)), w')))
   \<and> (\<forall>rule. find (judges format name version metadata) rules = Some rule \<longrightarrow>
        fst (evaluate_typed_rule skeleton mixed rule format name version metadata source w) \<noteq> NotApplicable
        \<and> (rule_type rule \<notin> set CURATION_RULE_TYPES \<longrightarrow>
             (\<exists>reason. fst (evaluate_typed_rule skeleton mixed rule format name version metadata source w) = Flag reason)))"
proof (intro conjI allI impI)
  show "evaluate_typed_rules skeleton mixed rules default_dec format name version metadata source w =
     (case find (judges format name version metadata) rules of
        None \<Rightarrow> ((default_dec, None), w)
      | Some rule \<Rightarrow>
          (case evaluate_typed_rule skeleton mixed rule format name version metadata source w of
             (decision, w') \<Rightarrow> ((decision, Some (cr_id rule)), w')))"
  proof (induction rules)
    case (Cons r rules)
    then show ?case
      using evaluate_typed_rule_judges[of format name version metadata r skeleton mixed source w]
        evaluate_typed_rule_pure[of format name version metadata r skeleton mixed source w]
      by (auto split: prod.split)
  qed simp
next
  fix rule
  assume "find (judges format name version metadata) rules = Some rule"
  then have "judges format name version metadata rule" by (auto simp: find_Some_iff)
  then show "fst (evaluate_typed_rule skeleton mixed rule format name version metadata source w) \<noteq> NotApplicable"
    using evaluate_typed_rule_judges[of format name version metadata rule skeleton mixed source w] by simp
  show "\<exists>reason. fst (evaluate_typed_rule skeleton mixed rule format name version metadata source w) = Flag reason"
    if "rule_type rule \<notin> set CURATION_RULE_TYPES"
    using that by (auto simp: evaluate_typed_rule_def CURATION_RULE_TYPES_def)
qed

lemma typed_first_applicable_witness:
  "evaluate_typed_rules id (\<lambda>_. False) [(demo_rule ''*'' ''*'' ''block'')\<lparr>rule_type := ''popularity''\<rparr>, demo_rule ''left*'' ''*'' ''block'']
      Allow ''maven'' ''left-pad'' ''1.3'' (JObject []) (\<lambda>w f n. (Unknown, Suc w)) 0 = ((Block ''policy'', Some 1), 0)"
proof -
  let ?rules = "[(demo_rule ''*'' ''*'' ''block'')\<lparr>rule_type := ''popularity''\<rparr>, demo_rule ''left*'' ''*'' ''block'']"
  have "find (judges ''maven'' ''left-pad'' ''1.3'' (JObject [])) ?rules = Some (demo_rule ''left*'' ''*'' ''block'')" by code_simp
  moreover have "evaluate_typed_rule id (\<lambda>_. False) (demo_rule ''left*'' ''*'' ''block'') ''maven'' ''left-pad'' ''1.3'' (JObject [])
      (\<lambda>w f n. (Unknown, Suc w)) 0 = (Block ''policy'', 0)" by code_simp
  ultimately show ?thesis
    using typed_first_applicable[of id "\<lambda>_. False" ?rules Allow "''maven''" "''left-pad''" "''1.3''" "JObject []" "\<lambda>w f n. (Unknown, Suc w)" 0]
    by (simp add: demo_rule_def)
qed

text \<open>The constraint operators are the comparison against the target: below and at-least
  are complements, above and at-most are complements, an exact match is both bounds at once, and on
  numeric versions the comparison is that of the number sequences, a missing segment counting as
  zero.\<close>

lemma version_constraint_operators:
  assumes "trim t = t" and "t \<noteq> []" and "hd t \<notin> set ''<>=*''"
  shows "(version_matches (''<'' @ t) v \<longleftrightarrow> \<not> version_matches (''>='' @ t) v)
       \<and> (version_matches (''>'' @ t) v \<longleftrightarrow> \<not> version_matches (''<='' @ t) v)
       \<and> (version_matches (''='' @ t) v \<longleftrightarrow> version_matches (''>='' @ t) v \<and> version_matches (''<='' @ t) v)
       \<and> (version_matches t v \<longleftrightarrow> version_matches (''='' @ t) v)
       \<and> ((\<forall>p\<in>set (split_chars ''.-'' v @ split_chars ''.-'' t). parse_u64 p \<noteq> None) \<longrightarrow>
            version_matches (''<='' @ t) v =
              (compare_vals (map (\<lambda>p. the (parse_u64 p)) (split_chars ''.-'' v)) (map (\<lambda>p. the (parse_u64 p)) (split_chars ''.-'' t)) \<le> 0))"
proof -
  have "t \<noteq> ''*''" "hd t \<notin> set ''<>=''" using assms(3) by auto
  then show ?thesis
    using version_matches_operators[OF assms(1,2)] compare_segs_numeric[of "split_chars ''.-'' v" "split_chars ''.-'' t"]
    by (auto simp: curation_version_compare_def list_all_iff ball_Un)
qed

lemma version_constraint_operators_witness:
  "version_matches (''<='' @ ''2.0'') ''1.9'' = (compare_vals [1, 9] [2, 0] \<le> 0)"
proof -
  have p: "parse_u64 ''0'' = Some 0" "parse_u64 ''1'' = Some 1" "parse_u64 ''2'' = Some 2" "parse_u64 ''9'' = Some 9"
    by (simp_all add: parse_uint_def digits_value_def digit_val_def is_ascii_digit_def code_of_def)
  have "split_chars ''.-'' ''1.9'' = [''1'', ''9'']" "split_chars ''.-'' ''2.0'' = [''2'', ''0'']" "trim ''2.0'' = ''2.0''" by code_simp+
  then show ?thesis using version_constraint_operators[of "''2.0''" "''1.9''"] by (simp add: p)
qed

text \<open>A prerelease ranks above its release: the segment after the dash is compared with a zero.\<close>

lemma curation_prerelease_above_release: "version_matches ''>=2.0'' ''2.0-rc1'' \<and> \<not> version_matches ''<2.0'' ''2.0-rc1''"
proof -
  have "split_chars ''.-'' ''2.0-rc1'' = [''2'', ''0'', ''rc1'']" "split_chars ''.-'' ''2.0'' = [''2'', ''0'']"
      "trim ''2.0'' = ''2.0''" by code_simp+
  moreover have "parse_u64 ''rc1'' = None" by (simp add: parse_uint_def is_ascii_digit_def code_of_def)
  moreover have "seg_compare s s = 0" for s by (auto simp: seg_compare_def split: option.split)
  moreover have "''0'' < (''rc1'' :: string)" by code_simp
  ultimately show ?thesis
    using version_matches_operators(1,4)[of "''2.0''" "''2.0-rc1''"]
    by (simp add: curation_version_compare_def seg_compare_def)
qed

end
