(* ===== verification/Curation_Catalog.thy ===== *)
theory Curation_Catalog
  imports Curation
begin

text \<open>
  The operations of the curation service on its tables (services/curation_service.rs), the
  validation of rule requests (api/handlers/curation.rs) and the entry loop of the upstream
  synchronisation (services/scheduler_service.rs). Shows the invariants of the tables, that the
  batched re-evaluation gives every pending package its own decision, that a synchronisation never
  overrides a decision already taken, and that a search finds exactly the names that contain the
  query.
\<close>

section \<open>Rules\<close>

definition valid_action :: "string \<Rightarrow> bool" where
  "valid_action action \<longleftrightarrow> action \<in> set [''allow'', ''block'']"

definition validate_typed_rule_fields :: "string \<Rightarrow> json \<Rightarrow> string option \<Rightarrow> nat option \<Rightarrow> unit app_result" where
  "validate_typed_rule_fields kind config declared_scope staging_repo =
     (if kind \<notin> set CURATION_RULE_TYPES then
        Inl (Validation (''Invalid rule_type '' @ quoted kind @ '': expected one of [\"pattern\", \"publisher_trust\", \"popularity\"]''))
      else if (case config of JObject _ \<Rightarrow> False | _ \<Rightarrow> True) then Inl (Validation ''config must be a JSON object'')
      else (case declared_scope of
              None \<Rightarrow> Inr ()
            | Some scope \<Rightarrow>
                if scope \<notin> set CURATION_RULE_SCOPES then
                  Inl (Validation (''Invalid scope '' @ quoted scope @ '': expected one of [\"repository\", \"global\"]''))
                else if scope = ''global'' \<and> staging_repo \<noteq> None then
                  Inl (Validation (''scope '' @ quoted ''global'' @ '' is incompatible with staging_repo_id''))
                else if scope = ''repository'' \<and> staging_repo = None then
                  Inl (Validation (''scope '' @ quoted ''repository'' @ '' requires staging_repo_id''))
                else Inr ()))"

definition create_rule ::
  "nat \<Rightarrow> int \<Rightarrow> curation_db \<Rightarrow> nat option \<Rightarrow> string \<Rightarrow> string \<Rightarrow> string \<Rightarrow> string \<Rightarrow> int \<Rightarrow> string \<Rightarrow> string \<Rightarrow> json \<Rightarrow> nat
    \<Rightarrow> (curation_rule \<times> curation_db) sqlx_result" where
  "create_rule new_id now db staging_repo pattern constraint architecture action prio reason kind config created_by =
     (let scope = (if staging_repo \<noteq> None then ''repository'' else ''global'');
          row = \<lparr>cr_id = new_id, cr_staging_repo = staging_repo, package_pattern = pattern, version_constraint = constraint,
                 cr_architecture = architecture, cr_action = action, priority = prio, cr_reason = reason, cr_enabled = True,
                 rule_type = kind, cr_config = config, cr_scope = scope, cr_created_by = Some created_by,
                 cr_created_at = now, cr_updated_at = now\<rparr>
      in result_bind (on_table (rules_outage db) ())
           (\<lambda>_. if valid_action action then Inr (row, db\<lparr>curation_rules := curation_rules db @ [row]\<rparr>)
                else Inl check_violation))"

definition list_rules :: "curation_db \<Rightarrow> nat option \<Rightarrow> curation_rule list sqlx_result" where
  "list_rules db staging_repo =
     on_table (rules_outage db)
       (case staging_repo of
          Some repo \<Rightarrow> sort_by rule_order (filter (\<lambda>r. cr_staging_repo r = Some repo \<or> cr_staging_repo r = None) (curation_rules db))
        | None \<Rightarrow> sort_by rule_order (curation_rules db))"

definition list_global_rules :: "curation_db \<Rightarrow> curation_rule list sqlx_result" where
  "list_global_rules db =
     on_table (rules_outage db) (sort_by rule_order (filter (\<lambda>r. cr_scope r = ''global'') (curation_rules db)))"

definition get_rule :: "curation_db \<Rightarrow> nat \<Rightarrow> curation_rule app_result" where
  "get_rule db i =
     result_bind (app_err (on_table (rules_outage db) (find (\<lambda>r. cr_id r = i) (curation_rules db))))
       (\<lambda>row. case row of Some r \<Rightarrow> Inr r | None \<Rightarrow> Inl (NotFound ''Curation rule not found''))"

definition update_rule ::
  "int \<Rightarrow> curation_db \<Rightarrow> nat \<Rightarrow> string \<Rightarrow> string \<Rightarrow> string \<Rightarrow> string \<Rightarrow> int \<Rightarrow> string \<Rightarrow> bool \<Rightarrow> string \<Rightarrow> json
    \<Rightarrow> (curation_rule \<times> curation_db) app_result" where
  "update_rule now db i pattern constraint architecture action prio reason enabled kind config =
     (let upd = (\<lambda>r. r\<lparr>package_pattern := pattern, version_constraint := constraint, cr_architecture := architecture,
                        cr_action := action, priority := prio, cr_reason := reason, cr_enabled := enabled,
                        rule_type := kind, cr_config := config, cr_updated_at := now\<rparr>);
          rows = map (\<lambda>r. if cr_id r = i then upd r else r) (curation_rules db)
      in result_bind (app_err (on_table (rules_outage db) ()))
           (\<lambda>_. case find (\<lambda>r. cr_id r = i) rows of
                  Some r \<Rightarrow>
                    if valid_action action then Inr (r, db\<lparr>curation_rules := rows\<rparr>)
                    else Inl (Sqlx check_violation)
                | None \<Rightarrow> Inl (NotFound ''Curation rule not found'')))"

definition delete_rule :: "curation_db \<Rightarrow> nat \<Rightarrow> curation_db app_result" where
  "delete_rule db i =
     result_bind (app_err (on_table (rules_outage db) ()))
       (\<lambda>_. if list_ex (\<lambda>r. cr_id r = i) (curation_rules db)
            then Inr (db\<lparr>curation_rules := filter (\<lambda>r. cr_id r \<noteq> i) (curation_rules db)\<rparr>)
            else Inl (NotFound ''Curation rule not found''))"

section \<open>The catalog\<close>

definition PACKAGE_STATUSES :: "string list" where
  "PACKAGE_STATUSES = [''pending'', ''approved'', ''blocked'', ''review'']"

text \<open>The columns of the unique index.\<close>

definition package_key :: "curation_package \<Rightarrow> nat \<times> string \<times> string \<times> string \<times> string \<times> string" where
  "package_key p = (cp_staging_repo p, cp_format p, package_name p, cp_version p, unwrap_or (release p) [], unwrap_or (cp_architecture p) [])"

text \<open>A row of an upstream index (services/curation_sync.rs): the columns a synchronisation supplies.\<close>

record upstream_entry =
  ue_format :: string
  ue_name :: string
  ue_version :: string
  ue_release :: "string option"
  ue_architecture :: "string option"
  ue_checksum :: "string option"
  ue_path :: string
  ue_metadata :: json
  ue_primary :: "json option"

definition new_package :: "nat \<Rightarrow> int \<Rightarrow> nat \<Rightarrow> nat \<Rightarrow> upstream_entry \<Rightarrow> curation_package" where
  "new_package new_id now staging remote e =
     \<lparr>cp_id = new_id, cp_staging_repo = staging, cp_remote_repo = remote, cp_format = ue_format e, package_name = ue_name e,
      cp_version = ue_version e, release = ue_release e, cp_architecture = ue_architecture e, checksum_sha256 = ue_checksum e,
      upstream_path = ue_path e, cp_status = ''pending'', evaluated_at = None, evaluated_by = None, evaluation_reason = None,
      cp_rule = None, cp_metadata = ue_metadata e, first_seen_at = now, upstream_updated_at = None, primary_metadata = ue_primary e\<rparr>"

definition refresh_package :: "int \<Rightarrow> upstream_entry \<Rightarrow> curation_package \<Rightarrow> curation_package" where
  "refresh_package now e p =
     p\<lparr>checksum_sha256 := ue_checksum e, upstream_path := ue_path e, cp_metadata := ue_metadata e,
       primary_metadata := ue_primary e, upstream_updated_at := Some now\<rparr>"

definition upsert_package ::
  "nat \<Rightarrow> int \<Rightarrow> curation_db \<Rightarrow> nat \<Rightarrow> nat \<Rightarrow> upstream_entry \<Rightarrow> (curation_package \<times> curation_db) sqlx_result" where
  "upsert_package new_id now db staging remote e =
     (let row = new_package new_id now staging remote e;
          k = package_key row
      in on_table (packages_outage db)
           (case find (\<lambda>p. package_key p = k) (curation_packages db) of
              Some p \<Rightarrow>
                (refresh_package now e p,
                 db\<lparr>curation_packages := map (\<lambda>p. if package_key p = k then refresh_package now e p else p) (curation_packages db)\<rparr>)
            | None \<Rightarrow> (row, db\<lparr>curation_packages := curation_packages db @ [row]\<rparr>)))"

definition negative_limit :: sqlx_error where
  "negative_limit = SqlxOther ''LIMIT or OFFSET must not be negative''"

definition page :: "int \<Rightarrow> int \<Rightarrow> 'a list \<Rightarrow> 'a list sqlx_result" where
  "page limit offset xs =
     (if limit < 0 \<or> offset < 0 then Inl negative_limit else Inr (take (nat limit) (drop (nat offset) xs)))"

definition package_order :: "curation_package \<Rightarrow> curation_package \<Rightarrow> ordering" where
  "package_order = by_column (\<lambda>p. (package_name p, cp_version p))"

definition list_packages :: "curation_db \<Rightarrow> nat \<Rightarrow> string option \<Rightarrow> int \<Rightarrow> int \<Rightarrow> curation_package list sqlx_result" where
  "list_packages db repo status limit offset =
     result_bind (on_table (packages_outage db) (curation_packages db))
       (\<lambda>rows. page limit offset (sort_by package_order
          (filter (\<lambda>p. cp_staging_repo p = repo \<and> (case status of Some s \<Rightarrow> cp_status p = s | None \<Rightarrow> True)) rows)))"

definition get_package :: "curation_db \<Rightarrow> nat \<Rightarrow> curation_package sqlx_result" where
  "get_package db i =
     result_bind (on_table (packages_outage db) (find (\<lambda>p. cp_id p = i) (curation_packages db)))
       (\<lambda>row. case row of Some p \<Rightarrow> Inr p | None \<Rightarrow> Inl row_not_found)"

text \<open>The LIKE operator with backslash as the escape character; ILIKE ignores case.\<close>

fun like :: "string \<Rightarrow> string \<Rightarrow> bool" where
  "like [] t = (t = [])"
| "like (c # p) t =
     (if c = CHR ''%'' then like p t \<or> (case t of [] \<Rightarrow> False | _ # t' \<Rightarrow> like (c # p) t')
      else (case t of
              [] \<Rightarrow> False
            | x # t' \<Rightarrow>
                if c = CHR ''_'' then like p t'
                else if c = CHR 0x5C then (case p of [] \<Rightarrow> False | d # p' \<Rightarrow> x = d \<and> like p' t')
                else x = c \<and> like p t'))"

definition ilike :: "string \<Rightarrow> string \<Rightarrow> bool" where
  "ilike pattern s = like (to_lowercase pattern) (to_lowercase s)"

definition replace_char :: "char \<Rightarrow> string \<Rightarrow> string \<Rightarrow> string" where
  "replace_char c r s = concat (map (\<lambda>x. if x = c then r else [x]) s)"

definition name_like :: "string \<Rightarrow> string" where
  "name_like s =
     ''%'' @ replace_char (CHR ''_'') [CHR 0x5C, CHR ''_'']
             (replace_char (CHR ''%'') [CHR 0x5C, CHR ''%''] (replace_char (CHR 0x5C) [CHR 0x5C, CHR 0x5C] s)) @ ''%''"

definition trimmed_filter :: "string option \<Rightarrow> string option" where
  "trimmed_filter q = (case q of Some s \<Rightarrow> if trim s = [] then None else Some (trim s) | None \<Rightarrow> None)"

definition search_packages ::
  "curation_db \<Rightarrow> nat \<Rightarrow> string option \<Rightarrow> string option \<Rightarrow> string option \<Rightarrow> int \<Rightarrow> int \<Rightarrow> curation_package list sqlx_result" where
  "search_packages db repo q arch status limit offset =
     (let q' = map_option name_like (trimmed_filter q); arch' = trimmed_filter arch; status' = trimmed_filter status
      in result_bind (on_table (packages_outage db) (curation_packages db))
           (\<lambda>rows. page limit offset (sort_by package_order
              (filter (\<lambda>p. cp_staging_repo p = repo
                  \<and> (case q' of Some pat \<Rightarrow> ilike pat (package_name p) | None \<Rightarrow> True)
                  \<and> (case arch' of Some a \<Rightarrow> cp_architecture p = Some a | None \<Rightarrow> True)
                  \<and> (case status' of Some s \<Rightarrow> cp_status p = s | None \<Rightarrow> True)) rows))))"

definition decided :: "int \<Rightarrow> string \<Rightarrow> string \<Rightarrow> nat option \<Rightarrow> nat option \<Rightarrow> curation_package \<Rightarrow> curation_package" where
  "decided now status reason by rule p =
     p\<lparr>cp_status := status, evaluation_reason := Some reason, evaluated_by := by, cp_rule := rule, evaluated_at := Some now\<rparr>"

definition set_package_status ::
  "int \<Rightarrow> curation_db \<Rightarrow> nat \<Rightarrow> string \<Rightarrow> string \<Rightarrow> nat option \<Rightarrow> nat option \<Rightarrow> (curation_package \<times> curation_db) sqlx_result" where
  "set_package_status now db i status reason by rule =
     result_bind (on_table (packages_outage db) (find (\<lambda>p. cp_id p = i) (curation_packages db)))
       (\<lambda>row. case row of
                None \<Rightarrow> Inl row_not_found
              | Some p \<Rightarrow>
                  if status \<notin> set PACKAGE_STATUSES then Inl check_violation
                  else Inr (decided now status reason by rule p,
                    db\<lparr>curation_packages := map (\<lambda>p. if cp_id p = i then decided now status reason by rule p else p) (curation_packages db)\<rparr>))"

text \<open>The bulk update leaves the rule column as it is.\<close>

definition bulk_set_status :: "int \<Rightarrow> curation_db \<Rightarrow> nat list \<Rightarrow> string \<Rightarrow> string \<Rightarrow> nat option \<Rightarrow> (nat \<times> curation_db) sqlx_result" where
  "bulk_set_status now db ids status reason by =
     (let hit = (\<lambda>p. cp_id p \<in> set ids)
      in result_bind (on_table (packages_outage db) (length (filter hit (curation_packages db))))
           (\<lambda>n. if 0 < n \<and> status \<notin> set PACKAGE_STATUSES then Inl check_violation
                else Inr (n, db\<lparr>curation_packages :=
                       map (\<lambda>p. if hit p then decided now status reason by (cp_rule p) p else p) (curation_packages db)\<rparr>)))"

definition count_by_status :: "curation_db \<Rightarrow> nat \<Rightarrow> (string \<times> nat) list sqlx_result" where
  "count_by_status db repo =
     (let rows = filter (\<lambda>p. cp_staging_repo p = repo) (curation_packages db)
      in on_table (packages_outage db)
           (map (\<lambda>s. (s, length (filter (\<lambda>p. cp_status p = s) rows))) (remdups (map cp_status rows))))"

section \<open>Re-evaluation\<close>

type_synonym verdict = "string \<times> string \<times> nat option"

text \<open>The hash map from verdicts to the identifiers that got them, in insertion order.\<close>

fun group_push :: "verdict \<Rightarrow> nat \<Rightarrow> (verdict \<times> nat list) list \<Rightarrow> (verdict \<times> nat list) list" where
  "group_push k i [] = [(k, [i])]"
| "group_push k i ((k', ids) # groups) = (if k = k' then (k', ids @ [i]) # groups else (k', ids) # group_push k i groups)"

definition package_verdict ::
  "(string \<Rightarrow> string) \<Rightarrow> (string \<Rightarrow> bool) \<Rightarrow> curation_rule list \<Rightarrow> string \<Rightarrow> 'w source \<Rightarrow> curation_package \<Rightarrow> 'w \<Rightarrow> verdict \<times> 'w" where
  "package_verdict skeleton mixed rules action source p w =
     (case evaluate_typed_rules skeleton mixed rules (default_decision action) (cp_format p) (package_name p) (cp_version p)
             (context_metadata (cp_metadata p) (cp_architecture p)) source w of
        ((decision, rule), w') \<Rightarrow>
          (case decision_to_status_reason decision rule of (status, reason) \<Rightarrow> ((status, reason, rule), w')))"

fun group_pending ::
  "(curation_package \<Rightarrow> 'w \<Rightarrow> verdict \<times> 'w) \<Rightarrow> curation_package list \<Rightarrow> (verdict \<times> nat list) list \<Rightarrow> 'w
    \<Rightarrow> (verdict \<times> nat list) list \<times> 'w" where
  "group_pending judge [] groups w = (groups, w)"
| "group_pending judge (p # ps) groups w =
     (case judge p w of (v, w') \<Rightarrow> group_pending judge ps (group_push v (cp_id p) groups) w')"

definition update_group :: "int \<Rightarrow> verdict \<times> nat list \<Rightarrow> curation_package list \<Rightarrow> curation_package list" where
  "update_group now g rows =
     (case g of ((status, reason, rule), ids) \<Rightarrow>
        map (\<lambda>p. if cp_id p \<in> set ids then decided now status reason None rule p else p) rows)"

definition affected :: "verdict \<times> nat list \<Rightarrow> curation_package list \<Rightarrow> nat" where
  "affected g rows = length (filter (\<lambda>p. cp_id p \<in> set (snd g)) rows)"

text \<open>\<open>order\<close> is the iteration order of the hash map.\<close>

definition re_evaluate_pending ::
  "(string \<Rightarrow> string) \<Rightarrow> (string \<Rightarrow> bool) \<Rightarrow> ((verdict \<times> nat list) list \<Rightarrow> (verdict \<times> nat list) list) \<Rightarrow> 'w source
    \<Rightarrow> int \<Rightarrow> curation_db \<Rightarrow> nat \<Rightarrow> string \<Rightarrow> 'w \<Rightarrow> (nat \<times> curation_db) sqlx_result \<times> 'w" where
  "re_evaluate_pending skeleton mixed order source now db repo action w =
     (let pending = filter (\<lambda>p. cp_staging_repo p = repo \<and> cp_status p = ''pending'') (curation_packages db)
      in case on_table (packages_outage db) pending of
           Inl e \<Rightarrow> (Inl e, w)
         | Inr [] \<Rightarrow> (Inr (0, db), w)
         | Inr pending \<Rightarrow>
             (case fetch_applicable_rules db repo of
                Inl e \<Rightarrow> (Inl e, w)
              | Inr rules \<Rightarrow>
                  (case group_pending (package_verdict skeleton mixed rules action source) pending [] w of
                     (groups, w') \<Rightarrow>
                       (let (updated, rows) =
                              fold (\<lambda>g (n, rows). (n + affected g rows, update_group now g rows)) (order groups) (0, curation_packages db)
                        in (Inr (updated, db\<lparr>curation_packages := rows\<rparr>), w')))))"

section \<open>Synchronisation\<close>

text \<open>One entry of an upstream index; \<open>now\<close> is the clock, \<open>new_id\<close> the identifier of a new row.\<close>

definition sync_entry ::
  "(string \<Rightarrow> string) \<Rightarrow> (string \<Rightarrow> bool) \<Rightarrow> 'w source \<Rightarrow> nat \<Rightarrow> nat \<Rightarrow> string \<Rightarrow> nat \<times> int \<times> upstream_entry \<Rightarrow> curation_db \<times> 'w
    \<Rightarrow> curation_db \<times> 'w" where
  "sync_entry skeleton mixed source staging remote action step s =
     (case (step, s) of ((new_id, now, e), (db, w)) \<Rightarrow>
        (case upsert_package new_id now db staging remote e of
           Inl _ \<Rightarrow> (db, w)
         | Inr (p, db') \<Rightarrow>
             if cp_status p = ''pending'' then
               (case evaluate_package_typed skeleton mixed db' staging action (ue_format e) (ue_name e) (ue_version e)
                       (ue_architecture e) (ue_metadata e) source w of
                  (Inl _, w') \<Rightarrow> (db', w')
                | (Inr (decision, rule), w') \<Rightarrow>
                    (case decision_to_status_reason decision rule of
                       (status, reason) \<Rightarrow>
                         (case set_package_status now db' (cp_id p) status reason None rule of
                            Inl _ \<Rightarrow> (db', w')
                          | Inr (_, db'') \<Rightarrow> (db'', w'))))
             else (db', w)))"

definition sync_entries ::
  "(string \<Rightarrow> string) \<Rightarrow> (string \<Rightarrow> bool) \<Rightarrow> 'w source \<Rightarrow> nat \<Rightarrow> nat \<Rightarrow> string \<Rightarrow> (nat \<times> int \<times> upstream_entry) list
    \<Rightarrow> curation_db \<times> 'w \<Rightarrow> curation_db \<times> 'w" where
  "sync_entries skeleton mixed source staging remote action steps s =
     fold (sync_entry skeleton mixed source staging remote action) steps s"

section \<open>Pattern escaping\<close>

definition escape_char :: "char \<Rightarrow> string" where
  "escape_char c = (if c \<in> {CHR 0x5C, CHR ''%'', CHR ''_''} then [CHR 0x5C, c] else [c])"

lemma replace_char_simps [simp]:
  "replace_char c r [] = []" "replace_char c r (x # s) = (if x = c then r else [x]) @ replace_char c r s"
  "replace_char c r (s @ t) = replace_char c r s @ replace_char c r t"
  by (simp_all add: replace_char_def)

lemma name_like_escape: "name_like s = ''%'' @ concat (map escape_char s) @ ''%''"
proof -
  have "replace_char (CHR ''_'') [CHR 0x5C, CHR ''_''] (replace_char (CHR ''%'') [CHR 0x5C, CHR ''%'']
          (replace_char (CHR 0x5C) [CHR 0x5C, CHR 0x5C] s)) = concat (map escape_char s)"
    by (induction s) (auto simp: escape_char_def)
  then show ?thesis by (simp add: name_like_def)
qed

lemma to_lower_char_eq_iff:
  assumes "\<not> is_ascii_lowercase d" and "\<not> is_ascii_uppercase d"
  shows "to_lower_char c = d \<longleftrightarrow> c = d"
proof (cases "is_ascii_uppercase c")
  case True
  then have "code_of (to_lower_char c) = code_of c + 32"
    by (simp add: to_lower_char_def is_ascii_uppercase_def code_of_def)
  then have "is_ascii_lowercase (to_lower_char c)" using True by (simp add: is_ascii_uppercase_def is_ascii_lowercase_def)
  then show ?thesis using assms True by auto
qed (simp add: to_lower_char_def)

lemma to_lower_char_special [simp]:
  "to_lower_char c = CHR 0x5C \<longleftrightarrow> c = CHR 0x5C" "to_lower_char c = CHR ''%'' \<longleftrightarrow> c = CHR ''%''" "to_lower_char c = CHR ''_'' \<longleftrightarrow> c = CHR ''_''"
  by (rule to_lower_char_eq_iff; simp add: is_ascii_lowercase_def is_ascii_uppercase_def code_of_def)+

lemma to_lowercase_append [simp]: "to_lowercase (s @ t) = to_lowercase s @ to_lowercase t"
  by (simp add: to_lowercase_def)

lemma lower_escape: "to_lowercase (concat (map escape_char s)) = concat (map escape_char (to_lowercase s))"
  by (induction s) (auto simp: to_lowercase_def escape_char_def)

lemma like_percent: "like (CHR ''%'' # p) t \<longleftrightarrow> (\<exists>u v. t = u @ v \<and> like p v)"
proof (induction t)
  case (Cons x t)
  then show ?case by (auto simp: Cons_eq_append_conv)
qed simp

lemma like_escaped: "like (concat (map escape_char s) @ p) t \<longleftrightarrow> (\<exists>u. t = s @ u \<and> like p u)"
proof (induction s arbitrary: t)
  case (Cons c s)
  then show ?case by (cases t) (auto simp: escape_char_def)
qed simp

lemma ilike_name_like: "ilike (name_like s) t \<longleftrightarrow> sublist (to_lowercase s) (to_lowercase t)"
proof -
  have pct: "to_lowercase ''%'' = ''%''" by (simp add: to_lowercase_def)
  have "like (''%'' @ concat (map escape_char s') @ ''%'') t' \<longleftrightarrow> sublist s' t'" for s' t'
    using like_percent[of "concat (map escape_char s') @ ''%''" t'] like_percent[of "[]"] like_escaped[of s' "''%''"]
    by (auto simp: sublist_def)
  then show ?thesis unfolding ilike_def name_like_escape to_lowercase_append lower_escape pct by blast
qed

section \<open>Grouped updates\<close>

text \<open>The reference: one verdict per package, in the order of the pending packages.\<close>

fun verdicts :: "(curation_package \<Rightarrow> 'w \<Rightarrow> verdict \<times> 'w) \<Rightarrow> curation_package list \<Rightarrow> 'w \<Rightarrow> verdict list \<times> 'w" where
  "verdicts judge [] w = ([], w)"
| "verdicts judge (p # ps) w =
     (case judge p w of (v, w') \<Rightarrow> (case verdicts judge ps w' of (vs, w'') \<Rightarrow> (v # vs, w'')))"

definition assignments :: "(verdict \<times> nat list) list \<Rightarrow> (nat \<times> verdict) list" where
  "assignments groups = concat (map (\<lambda>(v, ids). map (\<lambda>i. (i, v)) ids) groups)"

lemma mset_group_push: "mset (assignments (group_push v i groups)) = add_mset (i, v) (mset (assignments groups))"
  by (induction v i groups rule: group_push.induct) (auto simp: assignments_def)

lemma mset_group_pending:
  "group_pending judge ps groups w = (gs, w') \<Longrightarrow> verdicts judge ps w = (vs, w'') \<Longrightarrow>
     w'' = w' \<and> length vs = length ps \<and> mset (assignments gs) = mset (assignments groups) + mset (zip (map cp_id ps) vs)"
proof (induction ps arbitrary: groups w vs)
  case (Cons p ps)
  obtain v w1 where 1: "judge p w = (v, w1)" by fastforce
  obtain vs1 w2 where 2: "verdicts judge ps w1 = (vs1, w2)" by fastforce
  show ?case using Cons.IH[of "group_push v (cp_id p) groups" w1 vs1] Cons.prems 1 2 by (auto simp: mset_group_push)
qed simp

lemma mset_assignments_order: "mset gs = mset hs \<Longrightarrow> mset (assignments gs) = mset (assignments hs)"
proof -
  assume "mset gs = mset hs"
  then have "mset (concat (map f gs)) = mset (concat (map f hs))" for f :: "verdict \<times> nat list \<Rightarrow> (nat \<times> verdict) list"
    by (simp add: mset_concat flip: sum_mset_sum_list)
  then show ?thesis by (simp add: assignments_def)
qed

definition apply_verdict :: "int \<Rightarrow> (nat \<rightharpoonup> verdict) \<Rightarrow> curation_package \<Rightarrow> curation_package" where
  "apply_verdict now m p =
     (case m (cp_id p) of Some (status, reason, rule) \<Rightarrow> decided now status reason None rule p | None \<Rightarrow> p)"

lemma cp_id_decided [simp]: "cp_id (decided now status reason by rule p) = cp_id p"
  by (simp add: decided_def)

lemma update_group_ids [simp]: "map cp_id (update_group now g rows) = map cp_id rows"
  by (auto simp: update_group_def split: prod.split)

lemma fold_update_groups:
  assumes "distinct (map fst (assignments gs))" "distinct (map cp_id rows)" "fst ` set (assignments gs) \<subseteq> cp_id ` set rows"
  shows "fold (\<lambda>g (n, rows). (n + affected g rows, update_group now g rows)) gs (n0, rows) =
     (n0 + length (assignments gs), map (apply_verdict now (map_of (assignments gs))) rows)"
  using assms
proof (induction gs arbitrary: n0 rows)
  case Nil
  then show ?case by (simp add: assignments_def apply_verdict_def map_idI)
next
  case (Cons g gs)
  obtain status reason rule ids where g: "g = ((status, reason, rule), ids)" by (metis prod.collapse)
  have a: "assignments (g # gs) = map (\<lambda>i. (i, (status, reason, rule))) ids @ assignments gs"
    by (simp add: assignments_def g)
  have ids: "distinct ids" "set ids \<subseteq> cp_id ` set rows" "set ids \<inter> fst ` set (assignments gs) = {}"
    using Cons.prems unfolding a by (auto simp: comp_def image_Un image_image)
  have "cp_id ` set (filter (\<lambda>p. cp_id p \<in> set ids) rows) = set ids" using ids(2) by auto
  moreover have "distinct (map cp_id (filter (\<lambda>p. cp_id p \<in> set ids) rows))" using Cons.prems(2) by (rule distinct_map_filter)
  ultimately have n: "affected g rows = length ids"
    using ids(1) by (metis affected_def distinct_card g length_map list.set_map snd_conv)
  let ?rows = "update_group now g rows"
  have "cp_id ` set ?rows = cp_id ` set rows" using update_group_ids[of now g rows] by (metis list.set_map)
  then have IH: "fold (\<lambda>g (n, rows). (n + affected g rows, update_group now g rows)) gs (n0 + length ids, ?rows) =
      (n0 + length ids + length (assignments gs), map (apply_verdict now (map_of (assignments gs))) ?rows)"
    using Cons.prems unfolding a by (intro Cons.IH) auto
  have "apply_verdict now (map_of (assignments gs)) (if cp_id p \<in> set ids then decided now status reason None rule p else p) =
        apply_verdict now (map_of (assignments (g # gs))) p" for p
  proof (cases "cp_id p \<in> set ids")
    case True
    then have "map_of (assignments gs) (cp_id p) = None" using ids(3) by (auto simp: map_of_eq_None_iff)
    moreover have "map_of (map (\<lambda>i. (i, (status, reason, rule))) ids) (cp_id p) = Some (status, reason, rule)"
      using True by (simp add: map_of_map_restrict)
    ultimately show ?thesis using True by (simp add: apply_verdict_def a map_add_def)
  next
    case False
    then show ?thesis by (simp add: apply_verdict_def a map_add_def map_of_map_restrict split: option.split)
  qed
  then show ?case using IH by (simp add: n a) (simp add: update_group_def g a)
qed

definition settled :: "string \<Rightarrow> bool" where
  "settled status \<longleftrightarrow> status \<in> set [''approved'', ''blocked'', ''review'']"

lemma verdict_settled: "package_verdict skeleton mixed rules action source p w = (v, w') \<Longrightarrow> settled (fst v)"
  by (auto simp: package_verdict_def decision_to_status_reason_def settled_def split: prod.splits curation_decision.splits option.splits)

lemma verdicts_settled:
  "verdicts (package_verdict skeleton mixed rules action source) ps w = (vs, w') \<Longrightarrow>
     length vs = length ps \<and> list_all (\<lambda>v. settled (fst v)) vs"
proof (induction ps arbitrary: w vs)
  case (Cons p ps)
  obtain v w1 where 1: "package_verdict skeleton mixed rules action source p w = (v, w1)" by fastforce
  obtain vs1 w2 where 2: "verdicts (package_verdict skeleton mixed rules action source) ps w1 = (vs1, w2)" by fastforce
  show ?case using Cons.IH[of w1 vs1] Cons.prems 1 2 verdict_settled[OF 1] by auto
qed simp

text \<open>An update of some rows that does not touch a column.\<close>

lemma map_update_same:
  assumes "\<And>x. f (g x) = f x"
  shows "map f (map (\<lambda>x. if P x then g x else x) xs) = map f xs" "f ` set (map (\<lambda>x. if P x then g x else x) xs) = f ` set xs"
proof -
  show eq: "map f (map (\<lambda>x. if P x then g x else x) xs) = map f xs" using assms by simp
  show "f ` set (map (\<lambda>x. if P x then g x else x) xs) = f ` set xs" using arg_cong[OF eq, of set] by (metis list.set_map)
qed

lemma map_of_mset:
  assumes "mset xs = mset ys" "distinct (map fst ys)"
  shows "map_of xs = map_of ys" "distinct (map fst xs)"
proof -
  have "mset (map fst xs) = mset (map fst ys)" using assms(1) by simp
  then show d: "distinct (map fst xs)" using assms(2) mset_eq_imp_distinct_iff by blast
  show "map_of xs = map_of ys" using map_of_inject_set[OF d assms(2)] assms(1) mset_eq_setD by blast
qed

section \<open>Invariants of the tables\<close>

definition rules_ok :: "curation_db \<Rightarrow> bool" where
  "rules_ok db \<longleftrightarrow> distinct (map cr_id (curation_rules db))
     \<and> (\<forall>r\<in>set (curation_rules db). valid_action (cr_action r) \<and> cr_scope r \<in> set CURATION_RULE_SCOPES
          \<and> (cr_scope r = ''global'' \<longleftrightarrow> cr_staging_repo r = None))"

inductive rule_step :: "curation_db \<Rightarrow> curation_db \<Rightarrow> bool" where
  created: "create_rule i now db repo pat con arch act prio reason kind config by = Inr (row, db') \<Longrightarrow>
     i \<notin> cr_id ` set (curation_rules db) \<Longrightarrow> rule_step db db'"
| updated: "update_rule now db i pat con arch act prio reason enabled kind config = Inr (row, db') \<Longrightarrow> rule_step db db'"
| deleted: "delete_rule db i = Inr db' \<Longrightarrow> rule_step db db'"

lemma on_table_Inr [simp]: "on_table out v = Inr x \<longleftrightarrow> out = None \<and> x = v"
  by (auto simp: on_table_def split: option.splits)

lemma app_err_Inr [simp]: "app_err r = Inr x \<longleftrightarrow> r = Inr x"
  by (auto simp: app_err_def split: sum.splits)

lemma rule_step_ok: "rule_step db db' \<Longrightarrow> rules_ok db \<Longrightarrow> rules_ok db'"
proof (induction rule: rule_step.induct)
  case (created i now db repo pat con arch act prio reason kind config actor row db')
  then show ?case by (auto simp: create_rule_def rules_ok_def CURATION_RULE_SCOPES_def Let_def split: if_splits)
next
  case (updated now db i pat con arch act prio reason enabled kind config row db')
  then have "valid_action act" and db': "curation_rules db' = map (\<lambda>r. if cr_id r = i then r\<lparr>package_pattern := pat, version_constraint := con,
      cr_architecture := arch, cr_action := act, priority := prio, cr_reason := reason, cr_enabled := enabled, rule_type := kind,
      cr_config := config, cr_updated_at := now\<rparr> else r) (curation_rules db)"
    by (auto simp: update_rule_def Let_def split: option.splits if_splits)
  moreover have "map cr_id (curation_rules db') = map cr_id (curation_rules db)"
    unfolding db' by (rule map_update_same) simp
  then have "distinct (map cr_id (curation_rules db'))" using updated.prems unfolding rules_ok_def by presburger
  ultimately show ?case using updated.prems unfolding rules_ok_def by (simp only: db') auto
next
  case (deleted db i db')
  then show ?case by (auto simp: delete_rule_def rules_ok_def distinct_map_filter split: if_splits)
qed

definition catalog_ok :: "curation_package list \<Rightarrow> bool" where
  "catalog_ok rows \<longleftrightarrow> distinct (map cp_id rows) \<and> distinct (map package_key rows) \<and> cp_status ` set rows \<subseteq> set PACKAGE_STATUSES"

text \<open>A decision once taken: everything an evaluation or an administrator writes.\<close>

definition decision_of :: "curation_package \<Rightarrow> nat \<times> string \<times> string option \<times> nat option \<times> nat option \<times> int option" where
  "decision_of p = (cp_id p, cp_status p, evaluation_reason p, evaluated_by p, cp_rule p, evaluated_at p)"

definition decisions_kept :: "curation_package list \<Rightarrow> curation_package list \<Rightarrow> bool" where
  "decisions_kept rows rows' \<longleftrightarrow>
     (\<forall>p\<in>set rows. cp_status p \<noteq> ''pending'' \<longrightarrow> (\<exists>p'\<in>set rows'. decision_of p' = decision_of p \<and> package_key p' = package_key p))"

lemma decisions_kept_refl [simp]: "decisions_kept rows rows"
  by (auto simp: decisions_kept_def)

lemma decisions_kept_trans: "decisions_kept a b \<Longrightarrow> decisions_kept b c \<Longrightarrow> decisions_kept a c"
proof -
  assume ab: "decisions_kept a b" and bc: "decisions_kept b c"
  show ?thesis unfolding decisions_kept_def
  proof (intro ballI impI)
    fix p
    assume p: "p \<in> set a" "cp_status p \<noteq> ''pending''"
    then obtain q where q: "q \<in> set b" "decision_of q = decision_of p" "package_key q = package_key p"
      using ab unfolding decisions_kept_def by blast
    then have "cp_status q = cp_status p" by (simp add: decision_of_def)
    then show "\<exists>r\<in>set c. decision_of r = decision_of p \<and> package_key r = package_key p"
      using bc p(2) q unfolding decisions_kept_def by metis
  qed
qed

lemma decisions_kept_map:
  "(\<And>p. cp_status p \<noteq> ''pending'' \<Longrightarrow> decision_of (f p) = decision_of p \<and> package_key (f p) = package_key p) \<Longrightarrow> decisions_kept rows (map f rows)"
  by (auto simp: decisions_kept_def)

lemma refresh_simps [simp]:
  "cp_id (refresh_package now e p) = cp_id p" "cp_status (refresh_package now e p) = cp_status p"
  "package_key (refresh_package now e p) = package_key p" "decision_of (refresh_package now e p) = decision_of p"
  by (simp_all add: refresh_package_def package_key_def decision_of_def)

lemma decided_simps [simp]:
  "package_key (decided now status reason by rule p) = package_key p" "cp_status (decided now status reason by rule p) = status"
  by (simp_all add: decided_def package_key_def)

lemma upsert_ok:
  assumes "upsert_package i now db staging remote e = Inr (p, db')" "catalog_ok (curation_packages db)"
    and "i \<notin> cp_id ` set (curation_packages db)"
  shows "catalog_ok (curation_packages db') \<and> decisions_kept (curation_packages db) (curation_packages db')
     \<and> p \<in> set (curation_packages db') \<and> cp_id ` set (curation_packages db') \<subseteq> insert i (cp_id ` set (curation_packages db))
     \<and> rules_outage db' = rules_outage db \<and> packages_outage db' = packages_outage db \<and> curation_rules db' = curation_rules db"
proof (cases "find (\<lambda>q. package_key q = package_key (new_package i now staging remote e)) (curation_packages db)")
  case None
  then have "package_key (new_package i now staging remote e) \<notin> package_key ` set (curation_packages db)"
    by (auto simp: find_None_iff)
  then show ?thesis using assms None
    by (auto simp: upsert_package_def Let_def catalog_ok_def decisions_kept_def new_package_def PACKAGE_STATUSES_def)
next
  case (Some q)
  let ?f = "\<lambda>p. if package_key p = package_key (new_package i now staging remote e) then refresh_package now e p else p"
  have q: "q \<in> set (curation_packages db)" "package_key q = package_key (new_package i now staging remote e)"
    using Some by (auto simp: find_Some_iff)
  have db': "p = refresh_package now e q" "db' = db\<lparr>curation_packages := map ?f (curation_packages db)\<rparr>"
    using assms(1) Some by (auto simp: upsert_package_def Let_def)
  have same: "map cp_id (map ?f (curation_packages db)) = map cp_id (curation_packages db)"
      "map package_key (map ?f (curation_packages db)) = map package_key (curation_packages db)"
      "cp_status ` set (map ?f (curation_packages db)) = cp_status ` set (curation_packages db)"
    by (rule map_update_same, simp)+
  then have "catalog_ok (curation_packages db')" using assms(2) unfolding db' catalog_ok_def by (simp del: map_map set_map)
  moreover have "decisions_kept (curation_packages db) (curation_packages db')" unfolding db' by (simp del: set_map) (rule decisions_kept_map, simp)
  moreover have "p \<in> set (curation_packages db')" using q unfolding db' by (auto intro!: image_eqI[of _ _ q])
  moreover have "cp_id ` set (curation_packages db') = cp_id ` set (curation_packages db)"
    using map_update_same(2)[of cp_id "refresh_package now e" "\<lambda>p. package_key p = package_key (new_package i now staging remote e)"]
    unfolding db' by (simp del: set_map)
  ultimately show ?thesis unfolding db' by auto
qed

lemma set_status_ok:
  assumes run: "set_package_status now db (cp_id p) status reason by rule = Inr (q, db')" and ok: "catalog_ok (curation_packages db)"
    and p: "p \<in> set (curation_packages db)" "cp_status p = ''pending''"
  shows "catalog_ok (curation_packages db') \<and> decisions_kept (curation_packages db) (curation_packages db')
     \<and> cp_id ` set (curation_packages db') = cp_id ` set (curation_packages db)
     \<and> (\<exists>r\<in>set (curation_packages db'). package_key r = package_key p \<and> cp_status r = status)
     \<and> rules_outage db' = rules_outage db \<and> packages_outage db' = packages_outage db"
proof -
  let ?f = "\<lambda>r. if cp_id r = cp_id p then decided now status reason by rule r else r"
  have st: "status \<in> set PACKAGE_STATUSES" and db': "db' = db\<lparr>curation_packages := map ?f (curation_packages db)\<rparr>"
    using run by (auto simp: set_package_status_def split: option.splits if_splits)
  then have rows: "curation_packages db' = map ?f (curation_packages db)" by simp
  have only: "r = p" if "r \<in> set (curation_packages db)" "cp_id r = cp_id p" for r
    using ok that p(1) by (auto simp: catalog_ok_def distinct_map inj_on_def)
  have "map cp_id (map ?f (curation_packages db)) = map cp_id (curation_packages db)"
      "map package_key (map ?f (curation_packages db)) = map package_key (curation_packages db)"
    by (rule map_update_same, simp)+
  moreover have "cp_status ` set (map ?f (curation_packages db)) \<subseteq> insert status (cp_status ` set (curation_packages db))" by auto
  ultimately have "catalog_ok (curation_packages db')"
    using ok st unfolding rows catalog_ok_def by (simp only: simp_thms) blast
  moreover have "decisions_kept (curation_packages db) (curation_packages db')"
    unfolding rows decisions_kept_def
  proof (intro ballI impI)
    fix r
    assume r: "r \<in> set (curation_packages db)" "cp_status r \<noteq> ''pending''"
    then have "?f r = r" using only p(2) by auto
    moreover have "?f r \<in> set (map ?f (curation_packages db))" using r(1) unfolding set_map by (rule imageI)
    ultimately have "r \<in> set (map ?f (curation_packages db))" by (simp only:)
    then show "\<exists>r'\<in>set (map ?f (curation_packages db)). decision_of r' = decision_of r \<and> package_key r' = package_key r" by blast
  qed
  moreover have "cp_id ` set (curation_packages db') = cp_id ` set (curation_packages db)"
    unfolding rows by (rule map_update_same(2)) simp
  moreover have "\<exists>r\<in>set (curation_packages db'). package_key r = package_key p \<and> cp_status r = status"
    using p(1) unfolding rows by (intro bexI[of _ "?f p"]) auto
  ultimately show ?thesis unfolding db' by simp
qed

lemma upsert_key: "upsert_package i now db staging remote e = Inr (p, db') \<Longrightarrow> package_key p = package_key (new_package i' now' staging remote' e)"
proof -
  assume "upsert_package i now db staging remote e = Inr (p, db')"
  then have "package_key p = package_key (new_package i now staging remote e)"
    by (auto simp: upsert_package_def Let_def find_Some_iff split: option.splits)
  then show ?thesis by (simp add: package_key_def new_package_def)
qed

lemma status_reason_settled: "decision_to_status_reason decision rule = (status, reason) \<Longrightarrow> settled status"
  by (auto simp: decision_to_status_reason_def settled_def split: curation_decision.splits option.splits)

lemma settled_simps: "settled status \<Longrightarrow> status \<in> set PACKAGE_STATUSES" "settled status \<Longrightarrow> status \<noteq> ''pending''"
  by (auto simp: settled_def PACKAGE_STATUSES_def)

definition settled_entry :: "nat \<Rightarrow> upstream_entry \<Rightarrow> curation_package list \<Rightarrow> bool" where
  "settled_entry staging e rows \<longleftrightarrow>
     (\<exists>p\<in>set rows. package_key p = package_key (new_package 0 0 staging 0 e) \<and> cp_status p \<noteq> ''pending'')"

lemma settled_entry_kept: "settled_entry staging e rows \<Longrightarrow> decisions_kept rows rows' \<Longrightarrow> settled_entry staging e rows'"
  unfolding settled_entry_def decisions_kept_def decision_of_def by fastforce

lemma sync_entry_ok:
  assumes run: "sync_entry skeleton mixed source staging remote action (i, now, e) (db, w) = (db', w')"
    and ok: "catalog_ok (curation_packages db)" and fresh: "i \<notin> cp_id ` set (curation_packages db)"
  shows "catalog_ok (curation_packages db') \<and> decisions_kept (curation_packages db) (curation_packages db')
     \<and> cp_id ` set (curation_packages db') \<subseteq> insert i (cp_id ` set (curation_packages db))
     \<and> rules_outage db' = rules_outage db \<and> packages_outage db' = packages_outage db
     \<and> (rules_outage db = None \<longrightarrow> packages_outage db = None \<longrightarrow> settled_entry staging e (curation_packages db'))"
proof (cases "upsert_package i now db staging remote e")
  case (Inl err)
  then have "db' = db" "packages_outage db \<noteq> None" using run by (auto simp: sync_entry_def upsert_package_def on_table_def Let_def split: option.splits)
  then show ?thesis using ok by auto
next
  case (Inr r)
  obtain p db1 where r: "r = (p, db1)" by (cases r)
  note u = upsert_ok[OF Inr[unfolded r] ok fresh] and key = upsert_key[OF Inr[unfolded r], of 0 0 0]
  show ?thesis
  proof (cases "cp_status p = ''pending''")
    case False
    then have "db' = db1" using run Inr r by (simp add: sync_entry_def)
    then show ?thesis using u key False by (auto simp: settled_entry_def)
  next
    case True
    obtain ev w1 where ev: "evaluate_package_typed skeleton mixed db1 staging action (ue_format e) (ue_name e) (ue_version e)
                       (ue_architecture e) (ue_metadata e) source w = (ev, w1)" by fastforce
    show ?thesis
    proof (cases ev)
      case (Inl err)
      then have "rules_outage db1 \<noteq> None" using ev
        by (auto simp: evaluate_package_typed_def fetch_applicable_rules_def on_table_def split: option.splits prod.splits)
      moreover have "db' = db1" using run \<open>upsert_package i now db staging remote e = Inr r\<close> r True ev Inl by (simp add: sync_entry_def)
      ultimately show ?thesis using u by auto
    next
      case ok': (Inr dr)
      obtain decision rule status reason where d: "dr = (decision, rule)" "decision_to_status_reason decision rule = (status, reason)"
        by (metis prod.collapse)
      have st: "settled status" using status_reason_settled[OF d(2)] .
      show ?thesis
      proof (cases "set_package_status now db1 (cp_id p) status reason None rule")
        case (Inl err)
        then have "packages_outage db1 \<noteq> None" using u settled_simps(1)[OF st]
          by (auto simp: set_package_status_def on_table_def find_None_iff split: option.splits if_splits)
        moreover have "db' = db1" using run \<open>upsert_package i now db staging remote e = Inr r\<close> r True ev ok' d Inl by (simp add: sync_entry_def)
        ultimately show ?thesis using u by auto
      next
        case (Inr qdb)
        obtain q db2 where qdb: "qdb = (q, db2)" by (cases qdb)
        have "db' = db2" using run \<open>upsert_package i now db staging remote e = Inr r\<close> r True ev ok' d Inr qdb by (simp add: sync_entry_def)
        moreover note set_status_ok[OF Inr[unfolded qdb] _ _ True] u
        ultimately show ?thesis using settled_simps(2)[OF st] key decisions_kept_trans
          by (auto simp: settled_entry_def)
      qed
    qed
  qed
qed

lemma sync_entries_ok:
  assumes "sync_entries skeleton mixed source staging remote action steps (db, w) = (db', w')"
    and "catalog_ok (curation_packages db)" and "distinct (map fst steps)" and "fst ` set steps \<inter> cp_id ` set (curation_packages db) = {}"
  shows "catalog_ok (curation_packages db') \<and> decisions_kept (curation_packages db) (curation_packages db')
     \<and> (rules_outage db = None \<longrightarrow> packages_outage db = None \<longrightarrow> (\<forall>(i, now, e)\<in>set steps. settled_entry staging e (curation_packages db')))"
  using assms unfolding sync_entries_def
proof (induction steps arbitrary: db w)
  case (Cons step steps)
  obtain i now e where step: "step = (i, now, e)" by (metis prod.collapse)
  obtain db1 w1 where 1: "sync_entry skeleton mixed source staging remote action (i, now, e) (db, w) = (db1, w1)" by fastforce
  have fresh: "i \<notin> cp_id ` set (curation_packages db)" using Cons.prems(4) step by auto
  note e1 = sync_entry_ok[OF 1 Cons.prems(2) fresh]
  have "cp_id ` set (curation_packages db1) \<subseteq> insert i (cp_id ` set (curation_packages db))" using e1 by blast
  moreover have "i \<notin> fst ` set steps" "fst ` set steps \<inter> cp_id ` set (curation_packages db) = {}" using Cons.prems(3,4) step by auto
  ultimately have "fst ` set steps \<inter> cp_id ` set (curation_packages db1) = {}" by blast
  moreover have "fold (sync_entry skeleton mixed source staging remote action) steps (db1, w1) = (db', w')"
    using Cons.prems(1) 1 step by simp
  ultimately have "catalog_ok (curation_packages db') \<and> decisions_kept (curation_packages db1) (curation_packages db')
     \<and> (rules_outage db1 = None \<longrightarrow> packages_outage db1 = None \<longrightarrow> (\<forall>(i, now, e)\<in>set steps. settled_entry staging e (curation_packages db')))"
    using Cons.IH[of db1 w1] e1 Cons.prems(3) by auto
  then show ?case using e1 step decisions_kept_trans settled_entry_kept by auto
qed simp

lemma re_evaluate_grouped:
  fixes repo
  assumes "distinct (map cp_id (curation_packages db))" and "packages_outage db = None" and "rules_outage db = None"
    and "\<And>gs. mset (order gs) = mset gs"
  defines "pending \<equiv> filter (\<lambda>p. cp_staging_repo p = repo \<and> cp_status p = ''pending'') (curation_packages db)"
  assumes v: "verdicts (package_verdict skeleton mixed (applicable_rules db repo) action source) pending w = (vs, w')"
  shows "re_evaluate_pending skeleton mixed order source now db repo action w =
     (Inr (length pending, db\<lparr>curation_packages := map (apply_verdict now (map_of (zip (map cp_id pending) vs))) (curation_packages db)\<rparr>), w')"
proof (cases "pending = []")
  case True
  then have "vs = []" "w' = w" using v by auto
  moreover have "map (apply_verdict now Map.empty) rows = rows" for rows by (simp add: apply_verdict_def map_idI)
  ultimately show ?thesis using True assms(2) by (simp add: re_evaluate_pending_def pending_def[symmetric] on_table_def)
next
  case False
  obtain groups w'' where g: "group_pending (package_verdict skeleton mixed (applicable_rules db repo) action source) pending [] w = (groups, w'')"
    by fastforce
  note m = mset_group_pending[OF g v]
  let ?zip = "zip (map cp_id pending) vs"
  have keys: "map fst ?zip = map cp_id pending" using m by simp
  then have d: "distinct (map fst ?zip)" using distinct_map_filter[OF assms(1)] by (simp add: pending_def)
  have "mset (assignments (order groups)) = mset ?zip"
    using m mset_assignments_order[OF assms(4)[of groups]] by (simp add: assignments_def)
  note z = this
  have a: "map_of (assignments (order groups)) = map_of ?zip" "distinct (map fst (assignments (order groups)))"
      "set (assignments (order groups)) = set ?zip"
    using map_of_mset[OF z d] mset_eq_setD[OF z] by blast+
  have n: "length (assignments (order groups)) = length pending" using mset_eq_length[OF z] m by simp
  have "fst ` set ?zip = cp_id ` set pending" using keys by (metis list.set_map)
  then have "fst ` set (assignments (order groups)) \<subseteq> cp_id ` set (curation_packages db)" unfolding a(3) by (auto simp: pending_def)
  from fold_update_groups[OF a(2) assms(1) this, of now 0]
  have f: "fold (\<lambda>g (n, rows). (n + affected g rows, update_group now g rows)) (order groups) (0, curation_packages db) =
      (length pending, map (apply_verdict now (map_of ?zip)) (curation_packages db))" by (simp add: a(1) n)
  obtain q qs where "pending = q # qs" using False by (cases pending) auto
  then show ?thesis
    using f g m assms(2,3) unfolding re_evaluate_pending_def pending_def[symmetric] Let_def
    by (simp add: on_table_def fetch_applicable_rules_def)
qed

text \<open>A bulk decision of an administrator leaves the rule of the previous evaluation on the row, unlike a single one.\<close>

lemma bulk_status_keeps_rule:
  assumes "bulk_set_status now db ids status reason (Some admin) = Inr (n, db')" and "p \<in> set (curation_packages db)" and "cp_id p \<in> set ids"
  shows "\<exists>p'\<in>set (curation_packages db'). cp_id p' = cp_id p \<and> evaluated_by p' = Some admin \<and> cp_rule p' = cp_rule p"
  using assms by (intro bexI[of _ "decided now status reason (Some admin) (cp_rule p) p"])
    (auto simp: bulk_set_status_def Let_def decided_def split: if_splits)

section \<open>Properties\<close>

text \<open>Whatever sequence of creations, updates and deletions of rules ran, identifiers are
  unique, every action is allow or block, and a rule is global exactly when it belongs to no
  staging repository; so the listing of the global baseline is the rules without a repository.\<close>

lemma rule_table_invariant:
  assumes "rule_step\<^sup>*\<^sup>* db0 db" and "curation_rules db0 = []"
  shows "rules_ok db \<and> (\<forall>rules. list_global_rules db = Inr rules \<longrightarrow> set rules = {r \<in> set (curation_rules db). cr_staging_repo r = None})"
proof -
  have "rules_ok db" using assms by (induction rule: rtranclp_induct) (auto simp: rules_ok_def[of db0] intro: rule_step_ok)
  then show ?thesis by (auto simp: list_global_rules_def rules_ok_def)
qed

lemma rule_table_invariant_witness:
  "\<exists>db row. create_rule 1 0 (demo_rules_db []) None ''left*'' ''*'' ''*'' ''block'' 10 ''policy'' ''pattern'' (JObject []) 7 = Inr (row, db) \<and> rules_ok db"
proof -
  obtain row db where c: "create_rule 1 0 (demo_rules_db []) None ''left*'' ''*'' ''*'' ''block'' 10 ''policy'' ''pattern'' (JObject []) 7 = Inr (row, db)"
    by (simp add: create_rule_def demo_rules_db_def valid_action_def on_table_def Let_def)
  then have "rule_step (demo_rules_db []) db" by (rule rule_step.created) (simp add: demo_rules_db_def)
  then show ?thesis using rule_table_invariant[of "demo_rules_db []" db] c by (auto simp: demo_rules_db_def)
qed

text \<open>The batched re-evaluation is the package-by-package one. With both tables available,
  whatever the iteration order of the hash map, every pending package of the repository is updated
  once with the verdict the typed rules give it, evaluated in the order of the query; no other row
  changes; the number of updated rows is the number of pending packages, and none is pending
  afterwards.\<close>

lemma re_evaluation_correct:
  fixes repo
  assumes "distinct (map cp_id (curation_packages db))" and "packages_outage db = None" and "rules_outage db = None"
    and "\<And>gs. mset (order gs) = mset gs"
  defines "pending \<equiv> filter (\<lambda>p. cp_staging_repo p = repo \<and> cp_status p = ''pending'') (curation_packages db)"
  assumes v: "verdicts (package_verdict skeleton mixed (applicable_rules db repo) action source) pending w = (vs, w')"
  shows "\<exists>db'. re_evaluate_pending skeleton mixed order source now db repo action w = (Inr (length pending, db'), w')
     \<and> curation_packages db' = map (apply_verdict now (map_of (zip (map cp_id pending) vs))) (curation_packages db)
     \<and> (\<forall>p\<in>set (curation_packages db). p \<notin> set pending \<longrightarrow> apply_verdict now (map_of (zip (map cp_id pending) vs)) p = p)
     \<and> (\<forall>p\<in>set (curation_packages db'). cp_staging_repo p = repo \<longrightarrow> cp_status p \<noteq> ''pending'')"
proof -
  let ?m = "map_of (zip (map cp_id pending) vs)"
  have len: "length vs = length pending" and settled: "list_all (\<lambda>v. settled (fst v)) vs" using verdicts_settled[OF v] by auto
  have inj: "inj_on cp_id (set (curation_packages db))" using assms(1) by (simp add: distinct_map)
  have "map fst (zip (map cp_id pending) vs) = map cp_id pending" using len by simp
  then have dom: "dom ?m = cp_id ` set pending" by (metis dom_map_of_conv_image_fst list.set_map)
  have none: "?m (cp_id p) = None" if "p \<in> set (curation_packages db)" "p \<notin> set pending" for p
  proof -
    have "cp_id p \<notin> cp_id ` set pending" using that inj by (auto simp: pending_def inj_on_def)
    then show ?thesis using dom by (metis domIff)
  qed
  have "cp_status (apply_verdict now ?m p) \<noteq> ''pending''" if p: "p \<in> set pending" for p
  proof -
    have "cp_id p \<in> dom ?m" using p unfolding dom by simp
    then obtain status reason rule where 1: "?m (cp_id p) = Some (status, reason, rule)" by auto
    then have "(status, reason, rule) \<in> set vs" by (auto dest!: map_of_SomeD set_zip_rightD)
    then have "settled status" using settled by (auto simp: list_all_iff)
    then show ?thesis using 1 settled_simps(2) by (simp add: apply_verdict_def)
  qed
  moreover have "cp_staging_repo (apply_verdict now ?m p) = cp_staging_repo p" for p
    by (simp add: apply_verdict_def decided_def split: option.split prod.split)
  ultimately have "cp_status (apply_verdict now ?m p) \<noteq> ''pending''"
    if "p \<in> set (curation_packages db)" "cp_staging_repo (apply_verdict now ?m p) = repo" for p
  proof (cases "p \<in> set pending")
    case False
    then have "apply_verdict now ?m p = p" using none that(1) by (simp add: apply_verdict_def)
    then show ?thesis using False that by (auto simp: pending_def)
  qed blast
  moreover have "\<forall>p\<in>set (curation_packages db). p \<notin> set pending \<longrightarrow> apply_verdict now ?m p = p"
    using none by (simp add: apply_verdict_def)
  ultimately show ?thesis
    using re_evaluate_grouped[OF assms(1-4) v[unfolded pending_def]] unfolding pending_def[symmetric]
    by (intro exI[of _ "db\<lparr>curation_packages := map (apply_verdict now ?m) (curation_packages db)\<rparr>"]) auto
qed

definition demo_entry :: "string \<Rightarrow> upstream_entry" where
  "demo_entry name = \<lparr>ue_format = ''rpm'', ue_name = name, ue_version = ''1.0'', ue_release = None, ue_architecture = None,
     ue_checksum = None, ue_path = ''p'', ue_metadata = JObject [], ue_primary = None\<rparr>"

definition demo_catalog :: curation_db where
  "demo_catalog = (demo_rules_db [demo_rule ''evil*'' ''*'' ''block''])
     \<lparr>curation_packages := [new_package 1 0 5 6 (demo_entry ''evil-lib''), new_package 2 0 5 6 (demo_entry ''curl'')]\<rparr>"

lemma re_evaluation_correct_witness:
  "\<exists>db'. re_evaluate_pending id (\<lambda>_. False) rev (\<lambda>w f n. (Unknown, w)) 9 demo_catalog 5 ''allow'' () = (Inr (2, db'), ())"
proof -
  let ?judge = "package_verdict id (\<lambda>_. False) (applicable_rules demo_catalog 5) ''allow'' (\<lambda>w f n. (Unknown, w))"
  let ?pending = "filter (\<lambda>p. cp_staging_repo p = 5 \<and> cp_status p = ''pending'') (curation_packages demo_catalog)"
  obtain vs where v: "verdicts ?judge ?pending () = (vs, ())" by (cases "verdicts ?judge ?pending ()") simp
  have "length ?pending = 2" "distinct (map cp_id (curation_packages demo_catalog))" by code_simp+
  then show ?thesis
    using re_evaluation_correct[of demo_catalog rev id "\<lambda>_. False" 5 "''allow''" "\<lambda>w f n. (Unknown, w)" "()" vs "()" 9] v
    by (auto simp: demo_catalog_def demo_rules_db_def)
qed

text \<open>A synchronisation never overrides a decision. Whatever the upstream index holds, a
  package that was approved, blocked or sent to review keeps its status, reason, author, rule and
  time, and the catalog keeps unique identifiers, unique keys and known statuses.\<close>

lemma sync_keeps_decisions:
  assumes "catalog_ok (curation_packages db)" and "distinct (map fst steps)"
    and "fst ` set steps \<inter> cp_id ` set (curation_packages db) = {}"
  shows "case sync_entries skeleton mixed source staging remote action steps (db, w) of
     (db', w') \<Rightarrow> catalog_ok (curation_packages db') \<and> decisions_kept (curation_packages db) (curation_packages db')"
proof -
  obtain db' w' where run: "sync_entries skeleton mixed source staging remote action steps (db, w) = (db', w')" by fastforce
  show ?thesis using sync_entries_ok[OF run assms] by (simp add: run)
qed

lemma sync_keeps_decisions_witness:
  "case sync_entries id (\<lambda>_. False) (\<lambda>w f n. (Unknown, w)) 5 6 ''allow'' [(3, 9, demo_entry ''evil-lib'')] (demo_catalog, ()) of
     (db', w') \<Rightarrow> catalog_ok (curation_packages db') \<and> decisions_kept (curation_packages demo_catalog) (curation_packages db')"
  by (rule sync_keeps_decisions) code_simp+

text \<open>A synchronisation settles what it sees: with the database available, after the run the
  catalog holds, for every entry of the index, a package with its key that is no longer pending.\<close>

lemma sync_settles_entries:
  assumes "catalog_ok (curation_packages db)" and "distinct (map fst steps)"
    and "fst ` set steps \<inter> cp_id ` set (curation_packages db) = {}" and "rules_outage db = None" and "packages_outage db = None"
    and "(i, now, e) \<in> set steps"
  shows "\<exists>db' w' p. sync_entries skeleton mixed source staging remote action steps (db, w) = (db', w')
     \<and> p \<in> set (curation_packages db') \<and> package_key p = package_key (new_package i now staging remote e) \<and> cp_status p \<noteq> ''pending''"
proof -
  obtain db' w' where run: "sync_entries skeleton mixed source staging remote action steps (db, w) = (db', w')" by fastforce
  have "package_key (new_package 0 0 staging 0 e) = package_key (new_package i now staging remote e)"
    by (simp add: package_key_def new_package_def)
  then show ?thesis using sync_entries_ok[OF run assms(1-3)] assms(4-6) run by (fastforce simp: settled_entry_def)
qed

lemma sync_settles_entries_witness:
  "\<exists>db' w' p. sync_entries id (\<lambda>_. False) (\<lambda>w f n. (Unknown, w)) 5 6 ''allow'' [(3, 9, demo_entry ''evil-lib'')] (demo_catalog, ()) = (db', w')
     \<and> p \<in> set (curation_packages db') \<and> package_key p = package_key (new_package 3 9 5 6 (demo_entry ''evil-lib'')) \<and> cp_status p \<noteq> ''pending''"
  by (rule sync_settles_entries) code_simp+

text \<open>A search is a case-insensitive substring search, whatever characters the query has:
  with the catalog available and a valid page, the packages found without a limit are those of the repository whose name
  contains the trimmed query; the wildcards of the pattern language in the query stand for
  themselves.\<close>

lemma search_finds_substrings:
  assumes "packages_outage db = None" and "trim q \<noteq> []" and "int (length (curation_packages db)) \<le> limit"
  shows "\<exists>found. search_packages db repo (Some q) None None limit 0 = Inr found
     \<and> mset found = mset (filter (\<lambda>p. cp_staging_repo p = repo \<and> sublist (to_lowercase (trim q)) (to_lowercase (package_name p)))
                             (curation_packages db))"
proof -
  let ?hits = "filter (\<lambda>p. cp_staging_repo p = repo \<and> sublist (to_lowercase (trim q)) (to_lowercase (package_name p))) (curation_packages db)"
  have "length ?hits \<le> nat limit"
    using assms(3) order_trans[OF length_filter_le, of "curation_packages db" "nat limit"] by simp
  moreover have "length (sort_by package_order rows) = length rows" for rows
    by (rule mset_eq_length) simp
  ultimately have "search_packages db repo (Some q) None None limit 0 = Inr (sort_by package_order ?hits)"
    using assms by (auto simp: search_packages_def trimmed_filter_def page_def on_table_def ilike_name_like Let_def)
  then show ?thesis by simp
qed

lemma search_finds_substrings_witness:
  "\<exists>found. search_packages demo_catalog 5 (Some '' L_'') None None 50 0 = Inr found \<and> mset found = {#}"
proof -
  have "filter (\<lambda>p. cp_staging_repo p = 5 \<and> sublist (to_lowercase (trim '' L_'')) (to_lowercase (package_name p))) (curation_packages demo_catalog) = []"
    unfolding str_contains_iff[symmetric] by code_simp
  moreover have "trim '' L_'' \<noteq> []" by code_simp
  ultimately show ?thesis
    using search_finds_substrings[of demo_catalog "'' L_''" 50 5] by (auto simp: demo_catalog_def demo_rules_db_def)
qed

end
