(* ===== verification/Access_Control.thy ===== *)
theory Access_Control
  imports App_Error
begin

text \<open>
  Who may do what: repository scopes (models/access_scope.rs), token scopes
  (services/token_service.rs), the authenticated principal (api/middleware/auth.rs) and the
  permission service with its two caches (services/permission_service.rs). Tables are lists of rows,
  a query fails with the message of the outage, times are milliseconds. Shows that delegation never
  widens a credential, what decides an action on a repository, and when the caches answer from the
  current tables.
\<close>

section \<open>Repository scopes\<close>

datatype access_scope = Admin | Restricted "nat list"

definition grants :: "access_scope \<Rightarrow> nat \<Rightarrow> bool" where
  "grants scope repo = (case scope of Admin \<Rightarrow> True | Restricted ids \<Rightarrow> repo \<in> set ids)"

definition as_allowed_repo_ids :: "access_scope \<Rightarrow> nat list option" where
  "as_allowed_repo_ids scope = (case scope of Admin \<Rightarrow> None | Restricted ids \<Rightarrow> Some ids)"

definition scope_default :: access_scope where
  "scope_default = Restricted []"

definition scope_from :: "nat list option \<Rightarrow> access_scope" where
  "scope_from v = (case v of None \<Rightarrow> Admin | Some ids \<Rightarrow> Restricted ids)"

section \<open>Token scopes\<close>

definition ALLOWED_SCOPES :: "string list" where
  "ALLOWED_SCOPES = [''read:artifacts'', ''write:artifacts'', ''delete:artifacts'', ''promote:artifacts'', ''read:repositories'',
     ''write:repositories'', ''delete:repositories'', ''read:users'', ''write:users'', ''trigger:sync'', ''admin'', ''*'']"

definition ADMIN_ONLY_SCOPES :: "string list" where
  "ADMIN_ONLY_SCOPES = [''admin'', ''*'', ''delete:artifacts'', ''delete:repositories'', ''promote:artifacts'', ''trigger:sync'', ''write:users'']"

definition quote :: "string \<Rightarrow> string" where
  "quote s = [CHR 0x27] @ s @ [CHR 0x27]"

text \<open>The Debug rendering of a list of strings.\<close>

definition debug_list :: "string list \<Rightarrow> string" where
  "debug_list xs = ''['' @ join_str '', '' (map (\<lambda>s. [CHR 0x22] @ s @ [CHR 0x22]) xs) @ '']''"

fun validate_scopes_pure :: "string list \<Rightarrow> string + unit" where
  "validate_scopes_pure [] = Inr ()"
| "validate_scopes_pure (s # ss) =
     (if s \<notin> set ALLOWED_SCOPES then Inl (''Invalid scope: '' @ quote s @ ''. Allowed scopes: '' @ debug_list ALLOWED_SCOPES)
      else validate_scopes_pure ss)"

fun admin_only_loop :: "string list \<Rightarrow> string + unit" where
  "admin_only_loop [] = Inr ()"
| "admin_only_loop (s # ss) =
     (if s \<in> set ADMIN_ONLY_SCOPES then
        Inl (''Scope '' @ quote s @ '' is admin-only and cannot be granted by a non-admin caller. Admin-only scopes: '' @ debug_list ADMIN_ONLY_SCOPES)
      else admin_only_loop ss)"

definition enforce_admin_only_scopes :: "string list \<Rightarrow> bool \<Rightarrow> string + unit" where
  "enforce_admin_only_scopes scopes caller_is_admin = (if caller_is_admin then Inr () else admin_only_loop scopes)"

definition is_token_expired :: "int \<Rightarrow> int option \<Rightarrow> bool" where
  "is_token_expired now expires_at = (case expires_at of Some e \<Rightarrow> e < now | None \<Rightarrow> False)"

definition is_token_revoked :: "int option \<Rightarrow> bool" where
  "is_token_revoked revoked_at = (revoked_at \<noteq> None)"

definition scopes_grant_access :: "string list \<Rightarrow> string \<Rightarrow> bool" where
  "scopes_grant_access scopes required =
     (let has_admin_wildcard = (''*'' \<in> set scopes \<or> ''admin'' \<in> set scopes) in
      if required \<in> set scopes \<or> has_admin_wildcard then True
      else (case split_once (CHR '':'') required of
              Some (parent, _) \<Rightarrow> parent \<noteq> [] \<and> parent \<in> set scopes
            | None \<Rightarrow> False))"

section \<open>The principal\<close>

record principal =
  user_id :: nat
  username :: string
  email :: string
  is_admin :: bool
  is_api_token :: bool
  is_service_account :: bool
  scopes :: "string list option"
  allowed_repo_ids :: access_scope
  iat_ms :: "int option"

record claims =
  sub :: nat
  cl_username :: string
  cl_email :: string
  cl_is_admin :: bool
  cl_scopes :: "string list option"
  cl_allowed_repo_ids :: "nat list option"
  effective_iat_ms :: int

record user =
  usr_id :: nat
  usr_username :: string
  usr_email :: string
  usr_is_admin :: bool
  usr_is_service_account :: bool
  usr_is_active :: bool
  usr_must_change_password :: bool

definition has_scope :: "principal \<Rightarrow> string \<Rightarrow> bool" where
  "has_scope p scope = (case scopes p of None \<Rightarrow> True | Some ss \<Rightarrow> scopes_grant_access ss scope)"

definition can_access_repo :: "principal \<Rightarrow> nat \<Rightarrow> bool" where
  "can_access_repo p repo = grants (allowed_repo_ids p) repo"

definition require_scope :: "principal \<Rightarrow> string \<Rightarrow> unit app_result" where
  "require_scope p scope =
     (if has_scope p scope then Inr () else Inl (Authorization (''Token does not have required scope: '' @ scope)))"

fun mint_loop :: "principal \<Rightarrow> string list \<Rightarrow> unit app_result" where
  "mint_loop p [] = Inr ()"
| "mint_loop p (s # ss) =
     (if \<not> has_scope p s then
        Inl (Authorization (''Cannot mint a token with scope '' @ quote s @ '': it exceeds the scopes of the presenting credential''))
      else mint_loop p ss)"

definition enforce_mint_ceiling :: "principal \<Rightarrow> string list \<Rightarrow> unit app_result" where
  "enforce_mint_ceiling p requested = (if is_admin p then Inr () else mint_loop p requested)"

definition with_scope_gated_admin :: "principal \<Rightarrow> principal" where
  "with_scope_gated_admin p = p\<lparr>is_admin := is_admin p \<and> has_scope p ''admin''\<rparr>"

definition require_admin :: "principal \<Rightarrow> unit app_result" where
  "require_admin p = (if is_admin p then Inr () else Inl (Authorization ''Admin access required''))"

definition require_self_or_admin :: "principal \<Rightarrow> nat \<Rightarrow> string \<Rightarrow> unit app_result" where
  "require_self_or_admin p target deny_msg =
     (if user_id p = target \<or> is_admin p then Inr () else Inl (Authorization deny_msg))"

definition principal_from_claims :: "claims \<Rightarrow> principal" where
  "principal_from_claims c = with_scope_gated_admin
     \<lparr>user_id = sub c, username = cl_username c, email = cl_email c, is_admin = cl_is_admin c, is_api_token = False,
      is_service_account = False, scopes = cl_scopes c, allowed_repo_ids = scope_from (cl_allowed_repo_ids c),
      iat_ms = Some (effective_iat_ms c)\<rparr>"

definition principal_from_user :: "user \<Rightarrow> principal" where
  "principal_from_user u =
     \<lparr>user_id = usr_id u, username = usr_username u, email = usr_email u, is_admin = usr_is_admin u, is_api_token = False,
      is_service_account = usr_is_service_account u, scopes = None, allowed_repo_ids = Admin, iat_ms = None\<rparr>"

section \<open>The permission service\<close>

record permission_row =
  principal_type :: string
  principal_id :: nat
  target_type :: string
  target_id :: nat
  actions :: "string list"

record role_assignment =
  ra_user :: nat
  ra_repository :: "nat option"
  ra_permissions :: "string list"

text \<open>A role assignment carries the permissions of its role: the join of the two tables.\<close>

record perm_db =
  permissions :: "permission_row list"
  user_group_members :: "(nat \<times> nat) list"
  role_assignments :: "role_assignment list"
  repository_projects :: "(nat \<times> nat option) list"
  perm_users :: "user list"
  perm_groups :: "nat list"
  perm_outage :: "string option"

definition query :: "perm_db \<Rightarrow> 'a \<Rightarrow> 'a app_result" where
  "query db v = (case perm_outage db of Some m \<Rightarrow> Inl (Database m) | None \<Rightarrow> Inr v)"

definition CACHE_TTL :: nat where "CACHE_TTL = 30000"

record perm_service =
  perm_cache :: "nat \<times> string \<times> nat \<rightharpoonup> string list \<times> nat"
  rules_cache :: "string \<times> nat \<rightharpoonup> bool \<times> nat"

definition new_perm_service :: perm_service where
  "new_perm_service = \<lparr>perm_cache = Map.empty, rules_cache = Map.empty\<rparr>"

definition is_expired :: "nat \<Rightarrow> 'v \<times> nat \<Rightarrow> bool" where
  "is_expired now entry \<longleftrightarrow> CACHE_TTL < now - snd entry"

definition retain_insert :: "nat \<Rightarrow> 'k \<Rightarrow> 'v \<Rightarrow> ('k \<rightharpoonup> 'v \<times> nat) \<Rightarrow> ('k \<rightharpoonup> 'v \<times> nat)" where
  "retain_insert now k v cache =
     (\<lambda>k'. case cache k' of Some e \<Rightarrow> if is_expired now e then None else Some e | None \<Rightarrow> None)(k \<mapsto> (v, now))"

definition fresh_entry :: "nat \<Rightarrow> ('k \<rightharpoonup> 'v \<times> nat) \<Rightarrow> 'k \<Rightarrow> 'v option" where
  "fresh_entry now cache k = (case cache k of Some e \<Rightarrow> if is_expired now e then None else Some (fst e) | None \<Rightarrow> None)"

definition holds_grant :: "perm_db \<Rightarrow> nat \<Rightarrow> permission_row \<Rightarrow> bool" where
  "holds_grant db usr p \<longleftrightarrow>
     principal_type p \<in> {''user'', ''service_account''} \<and> principal_id p = usr
     \<or> principal_type p = ''group'' \<and> (usr, principal_id p) \<in> set (user_group_members db)"

definition project_of :: "perm_db \<Rightarrow> nat \<Rightarrow> nat option" where
  "project_of db repo = (case map_of (repository_projects db) repo of Some p \<Rightarrow> p | None \<Rightarrow> None)"

definition on_target :: "perm_db \<Rightarrow> string \<Rightarrow> nat \<Rightarrow> permission_row \<Rightarrow> bool" where
  "on_target db ttype tid p \<longleftrightarrow>
     target_type p = ttype \<and> target_id p = tid
     \<or> ttype = ''repository'' \<and> target_type p = ''project'' \<and> project_of db tid = Some (target_id p)"

definition granted_actions :: "perm_db \<Rightarrow> nat \<Rightarrow> string \<Rightarrow> nat \<Rightarrow> string list" where
  "granted_actions db usr ttype tid =
     remdups (concat (map actions (filter (\<lambda>p. holds_grant db usr p \<and> on_target db ttype tid p) (permissions db))))"

definition query_actions :: "perm_db \<Rightarrow> nat \<Rightarrow> string \<Rightarrow> nat \<Rightarrow> string list app_result" where
  "query_actions db usr ttype tid = query db (granted_actions db usr ttype tid)"

definition resolve_actions :: "nat \<Rightarrow> perm_db \<Rightarrow> perm_service \<Rightarrow> nat \<Rightarrow> string \<Rightarrow> nat \<Rightarrow> string list app_result \<times> perm_service" where
  "resolve_actions now db svc usr ttype tid =
     (case fresh_entry now (perm_cache svc) (usr, ttype, tid) of
        Some acts \<Rightarrow> (Inr acts, svc)
      | None \<Rightarrow>
          (case query_actions db usr ttype tid of
             Inl e \<Rightarrow> (Inl e, svc)
           | Inr acts \<Rightarrow> (Inr acts, svc\<lparr>perm_cache := retain_insert now (usr, ttype, tid) acts (perm_cache svc)\<rparr>)))"

definition check_permission ::
  "nat \<Rightarrow> perm_db \<Rightarrow> perm_service \<Rightarrow> nat \<Rightarrow> string \<Rightarrow> nat \<Rightarrow> string \<Rightarrow> bool \<Rightarrow> bool app_result \<times> perm_service" where
  "check_permission now db svc usr ttype tid action admin =
     (if admin then (Inr True, svc)
      else (case resolve_actions now db svc usr ttype tid of
              (Inl e, svc') \<Rightarrow> (Inl e, svc')
            | (Inr acts, svc') \<Rightarrow> (Inr (action \<in> set acts), svc')))"

definition applicable_grants :: "perm_db \<Rightarrow> nat \<Rightarrow> nat \<Rightarrow> permission_row list" where
  "applicable_grants db usr repo =
     filter (\<lambda>p. holds_grant db usr p
        \<and> (target_type p = ''repository'' \<and> target_id p = repo
           \<or> target_type p = ''project'' \<and> project_of db repo = Some (target_id p))) (permissions db)"

definition assigned_roles :: "perm_db \<Rightarrow> nat \<Rightarrow> nat \<Rightarrow> role_assignment list" where
  "assigned_roles db usr repo =
     filter (\<lambda>ra. ra_user ra = usr \<and> (ra_repository ra = Some repo \<or> ra_repository ra = None)) (role_assignments db)"

definition check_repository_action :: "perm_db \<Rightarrow> nat \<Rightarrow> nat \<Rightarrow> string \<Rightarrow> bool \<Rightarrow> bool app_result" where
  "check_repository_action db usr repo action admin =
     (if admin then Inr True
      else query db
        (let rules = applicable_grants db usr repo; roles = assigned_roles db usr repo
         in list_ex (\<lambda>ra. ''admin'' \<in> set (ra_permissions ra)) roles
            \<or> (if rules \<noteq> [] then list_ex (\<lambda>p. action \<in> set (actions p) \<or> ''admin'' \<in> set (actions p)) rules
               else list_ex (\<lambda>ra. action \<in> set (ra_permissions ra) \<or> ''admin'' \<in> set (ra_permissions ra)) roles)))"

definition has_any_rules_for_target :: "nat \<Rightarrow> perm_db \<Rightarrow> perm_service \<Rightarrow> string \<Rightarrow> nat \<Rightarrow> bool app_result \<times> perm_service" where
  "has_any_rules_for_target now db svc ttype tid =
     (case fresh_entry now (rules_cache svc) (ttype, tid) of
        Some found \<Rightarrow> (Inr found, svc)
      | None \<Rightarrow>
          (case query db (list_ex (on_target db ttype tid) (permissions db)) of
             Inl e \<Rightarrow> (Inl e, svc)
           | Inr found \<Rightarrow> (Inr found, svc\<lparr>rules_cache := retain_insert now (ttype, tid) found (rules_cache svc)\<rparr>)))"

definition invalidate_cache :: "perm_service \<Rightarrow> perm_service" where
  "invalidate_cache svc = svc\<lparr>perm_cache := Map.empty, rules_cache := Map.empty\<rparr>"

definition principal_exists :: "perm_db \<Rightarrow> string \<Rightarrow> nat \<Rightarrow> bool option" where
  "principal_exists db ptype pid =
     (if ptype = ''user'' then Some (list_ex (\<lambda>u. usr_id u = pid \<and> \<not> usr_is_service_account u) (perm_users db))
      else if ptype = ''service_account'' then Some (list_ex (\<lambda>u. usr_id u = pid \<and> usr_is_service_account u) (perm_users db))
      else if ptype = ''group'' then Some (pid \<in> set (perm_groups db))
      else None)"

definition validate_principal :: "perm_db \<Rightarrow> string \<Rightarrow> nat \<Rightarrow> unit app_result" where
  "validate_principal db ptype pid =
     (case principal_exists db ptype pid of
        None \<Rightarrow> Inl (Validation (''Invalid principal_type '' @ quote ptype @ '': expected one of user, service_account, group''))
      | Some found \<Rightarrow>
          result_bind (query db found)
            (\<lambda>b. if b then Inr () else Inl (Validation (''principal_id '' @ show_nat pid @ '' does not exist as a '' @ ptype))))"

text \<open>The tail of the handler that removes members from a group (api/handlers/groups.rs).\<close>

definition remove_members :: "nat \<Rightarrow> nat list \<Rightarrow> perm_db \<Rightarrow> perm_db" where
  "remove_members grp users db =
     db\<lparr>user_group_members := filter (\<lambda>(u, g). \<not> (g = grp \<and> u \<in> set users)) (user_group_members db)\<rparr>"

section \<open>Delegation\<close>

lemma scopes_grant_access_iff:
  "scopes_grant_access ss r \<longleftrightarrow>
     r \<in> set ss \<or> ''*'' \<in> set ss \<or> ''admin'' \<in> set ss
     \<or> (\<exists>parent rest. r = parent @ CHR '':'' # rest \<and> CHR '':'' \<notin> set parent \<and> parent \<noteq> [] \<and> parent \<in> set ss)"
proof (cases "split_once (CHR '':'') r")
  case None
  then have "CHR '':'' \<notin> set r" by (simp add: split_once_None)
  then show ?thesis using None by (auto simp: scopes_grant_access_def Let_def)
next
  case (Some pr)
  obtain parent rest where pr: "pr = (parent, rest)" by (cases pr)
  then have r: "r = parent @ CHR '':'' # rest" "CHR '':'' \<notin> set parent" using Some split_once_Some by auto
  have "takeWhile (\<lambda>c. c \<noteq> CHR '':'') (q @ CHR '':'' # t) = q" if "CHR '':'' \<notin> set q" for q t
    using that by (simp add: takeWhile_tail takeWhile_eq_all_conv) metis
  then have "q = parent" if "r = q @ CHR '':'' # t" "CHR '':'' \<notin> set q" for q t
    using that r by metis
  then show ?thesis using Some pr r by (auto simp: scopes_grant_access_def Let_def)
qed

lemma mint_loop_Inr: "mint_loop p ss = Inr () \<longleftrightarrow> (\<forall>s\<in>set ss. has_scope p s)"
  by (induction p ss rule: mint_loop.induct) auto

lemma bare_scope: "CHR '':'' \<notin> set s \<Longrightarrow> scopes_grant_access ss s \<longleftrightarrow> s \<in> set ss \<or> ''*'' \<in> set ss \<or> ''admin'' \<in> set ss"
  by (auto simp: scopes_grant_access_iff)

lemma grant_closed:
  assumes "\<And>s. s \<in> set rs \<Longrightarrow> scopes_grant_access ss s" and "scopes_grant_access rs x"
  shows "scopes_grant_access ss x"
proof -
  have wild: "scopes_grant_access ss x" if "''*'' \<in> set rs \<or> ''admin'' \<in> set rs"
    using that assms(1)[of "''*''"] assms(1)[of "''admin''"] bare_scope[of "''*''" ss] bare_scope[of "''admin''" ss]
    by (auto simp: scopes_grant_access_iff[of ss x])
  show ?thesis
    using assms(2) unfolding scopes_grant_access_iff[of rs x]
  proof (elim disjE)
    assume "\<exists>parent rest. x = parent @ CHR '':'' # rest \<and> CHR '':'' \<notin> set parent \<and> parent \<noteq> [] \<and> parent \<in> set rs"
    then obtain parent rest where x: "x = parent @ CHR '':'' # rest" "CHR '':'' \<notin> set parent" "parent \<noteq> []" "parent \<in> set rs" by blast
    then show ?thesis using assms(1)[of parent] bare_scope[of parent ss] unfolding scopes_grant_access_iff[of ss x] by blast
  qed (use assms(1) wild in blast)+
qed

text \<open>The scopes a token can carry after a chain of mintings by non-admin holders, from the scopes of the first.\<close>

inductive minted_from :: "string list \<Rightarrow> string list \<Rightarrow> bool" for origin where
  original: "minted_from origin origin"
| minted: "minted_from origin ss \<Longrightarrow> scopes p = Some ss \<Longrightarrow> \<not> is_admin p \<Longrightarrow> enforce_mint_ceiling p requested = Inr () \<Longrightarrow>
     minted_from origin requested"

lemma minted_from_covered: "minted_from origin ss \<Longrightarrow> scopes_grant_access ss x \<Longrightarrow> scopes_grant_access origin x"
proof (induction arbitrary: x rule: minted_from.induct)
  case (minted ss p requested)
  then have "scopes_grant_access ss s" if "s \<in> set requested" for s
    using that by (auto simp: enforce_mint_ceiling_def mint_loop_Inr has_scope_def)
  then show ?case using grant_closed minted.IH minted.prems by blast
qed

section \<open>Caches\<close>

text \<open>
  A cache of a function of the tables: every entry was computed from the tables as they were at the
  time it carries. \<open>hist\<close> gives the tables over time.
\<close>

definition honest :: "(nat \<Rightarrow> perm_db) \<Rightarrow> (perm_db \<Rightarrow> 'k \<Rightarrow> 'v) \<Rightarrow> nat \<Rightarrow> ('k \<rightharpoonup> 'v \<times> nat) \<Rightarrow> bool" where
  "honest hist f now cache \<longleftrightarrow> (\<forall>k v at. cache k = Some (v, at) \<longrightarrow> at \<le> now \<and> v = f (hist at) k)"

lemma honest_empty [simp]: "honest hist f now Map.empty"
  by (simp add: honest_def)

lemma honest_later: "honest hist f now cache \<Longrightarrow> now \<le> later \<Longrightarrow> honest hist f later cache"
  by (fastforce simp: honest_def)

lemma honest_insert: "honest hist f now cache \<Longrightarrow> honest hist f now (retain_insert now k (f (hist now) k) cache)"
  by (auto simp: honest_def retain_insert_def split: option.splits if_splits)

lemma honest_fresh:
  assumes "honest hist f now cache" and "fresh_entry now cache k = Some v"
  shows "\<exists>t. now - CACHE_TTL \<le> t \<and> t \<le> now \<and> v = f (hist t) k"
proof -
  obtain at where "cache k = Some (v, at)" "\<not> is_expired now (v, at)"
    using assms(2) by (auto simp: fresh_entry_def split: option.splits if_splits)
  then show ?thesis using assms(1) by (intro exI[of _ at]) (auto simp: honest_def is_expired_def)
qed

definition actions_of :: "perm_db \<Rightarrow> nat \<times> string \<times> nat \<Rightarrow> string list" where
  "actions_of db k = (case k of (usr, ttype, tid) \<Rightarrow> granted_actions db usr ttype tid)"

definition rules_of :: "perm_db \<Rightarrow> string \<times> nat \<Rightarrow> bool" where
  "rules_of db k = (case k of (ttype, tid) \<Rightarrow> list_ex (on_target db ttype tid) (permissions db))"

definition service_honest :: "(nat \<Rightarrow> perm_db) \<Rightarrow> nat \<Rightarrow> perm_service \<Rightarrow> bool" where
  "service_honest hist now svc \<longleftrightarrow> honest hist actions_of now (perm_cache svc) \<and> honest hist rules_of now (rules_cache svc)"

lemma query_Inr [simp]: "query db v = Inr x \<longleftrightarrow> perm_outage db = None \<and> x = v"
  by (auto simp: query_def split: option.splits)

lemma resolve_actions_honest:
  assumes "service_honest hist now svc" and "resolve_actions now (hist now) svc usr ttype tid = (r, svc')"
  shows "service_honest hist now svc' \<and> (\<forall>acts. r = Inr acts \<longrightarrow> (\<exists>t. now - CACHE_TTL \<le> t \<and> t \<le> now \<and> acts = granted_actions (hist t) usr ttype tid))"
proof (cases "fresh_entry now (perm_cache svc) (usr, ttype, tid)")
  case None
  have "actions_of (hist now) (usr, ttype, tid) = granted_actions (hist now) usr ttype tid" by (simp add: actions_of_def)
  then show ?thesis
    using assms None honest_insert[of hist actions_of now "perm_cache svc" "(usr, ttype, tid)"]
    by (auto simp: resolve_actions_def query_actions_def service_honest_def split: sum.splits intro!: exI[of _ now])
next
  case (Some acts)
  then show ?thesis
    using assms honest_fresh[of hist actions_of now "perm_cache svc" "(usr, ttype, tid)" acts]
    by (auto simp: resolve_actions_def service_honest_def actions_of_def)
qed

lemma has_any_rules_honest:
  assumes "service_honest hist now svc" and "has_any_rules_for_target now (hist now) svc ttype tid = (r, svc')"
  shows "service_honest hist now svc' \<and> (\<forall>b. r = Inr b \<longrightarrow>
           (\<exists>t. now - CACHE_TTL \<le> t \<and> t \<le> now \<and> b = list_ex (on_target (hist t) ttype tid) (permissions (hist t))))"
proof (cases "fresh_entry now (rules_cache svc) (ttype, tid)")
  case None
  have "rules_of (hist now) (ttype, tid) = list_ex (on_target (hist now) ttype tid) (permissions (hist now))" by (simp add: rules_of_def)
  then show ?thesis
    using assms None honest_insert[of hist rules_of now "rules_cache svc" "(ttype, tid)"]
    by (auto simp: has_any_rules_for_target_def service_honest_def split: sum.splits intro!: exI[of _ now])
next
  case (Some b)
  then show ?thesis
    using assms honest_fresh[of hist rules_of now "rules_cache svc" "(ttype, tid)" b]
    by (auto simp: has_any_rules_for_target_def service_honest_def rules_of_def)
qed

lemma check_permission_honest:
  assumes "service_honest hist now svc" and "check_permission now (hist now) svc usr ttype tid action admin = (r, svc')"
  shows "service_honest hist now svc' \<and> (\<forall>b. \<not> admin \<longrightarrow> r = Inr b \<longrightarrow>
           (\<exists>t. now - CACHE_TTL \<le> t \<and> t \<le> now \<and> b = (action \<in> set (granted_actions (hist t) usr ttype tid))))"
proof -
  obtain q s where q: "resolve_actions now (hist now) svc usr ttype tid = (q, s)" by fastforce
  show ?thesis using assms resolve_actions_honest[OF assms(1) q] q by (cases q) (auto simp: check_permission_def split: if_splits)
qed

text \<open>The states of the service over time: lookups and invalidations at any moment.\<close>

inductive perm_run :: "(nat \<Rightarrow> perm_db) \<Rightarrow> nat \<Rightarrow> perm_service \<Rightarrow> bool" for hist where
  start: "perm_run hist now new_perm_service"
| later: "perm_run hist now svc \<Longrightarrow> now \<le> now' \<Longrightarrow> perm_run hist now' svc"
| checked: "perm_run hist now svc \<Longrightarrow> check_permission now (hist now) svc usr ttype tid action admin = (r, svc') \<Longrightarrow> perm_run hist now svc'"
| rules: "perm_run hist now svc \<Longrightarrow> has_any_rules_for_target now (hist now) svc ttype tid = (b, svc') \<Longrightarrow> perm_run hist now svc'"
| invalidated: "perm_run hist now svc \<Longrightarrow> perm_run hist now (invalidate_cache svc)"

lemma perm_run_honest: "perm_run hist now svc \<Longrightarrow> service_honest hist now svc"
proof (induction rule: perm_run.induct)
  case (later now svc now')
  then show ?case by (auto simp: service_honest_def intro: honest_later)
next
  case (checked now svc usr ttype tid action admin r svc')
  then show ?case using check_permission_honest by blast
next
  case (rules now svc ttype tid b svc')
  then show ?case using has_any_rules_honest by blast
qed (simp_all add: service_honest_def new_perm_service_def invalidate_cache_def)

section \<open>Properties\<close>

text \<open>C2: delegation never widens a credential. Whatever chain of tokens non-admin holders mint
  from a credential with some scopes, the last token passes no scope check the first one fails; and
  it wields administrator rights only when the first scopes hold admin or the wildcard.\<close>

theorem delegation_never_escalates:
  assumes "minted_from origin ss" and "scopes p = Some ss"
  shows "(has_scope p x \<longrightarrow> scopes_grant_access origin x)
     \<and> (is_admin (with_scope_gated_admin p) \<longrightarrow> ''admin'' \<in> set origin \<or> ''*'' \<in> set origin)"
proof -
  have "has_scope p y \<Longrightarrow> scopes_grant_access origin y" for y
    using assms minted_from_covered by (simp add: has_scope_def)
  moreover have "scopes_grant_access origin ''admin'' \<longleftrightarrow> ''admin'' \<in> set origin \<or> ''*'' \<in> set origin"
    using bare_scope[of "''admin''" origin] by auto
  ultimately show ?thesis by (auto simp: with_scope_gated_admin_def)
qed

definition demo_principal :: "string list \<Rightarrow> principal" where
  "demo_principal ss = \<lparr>user_id = 1, username = ''ci'', email = [], is_admin = False, is_api_token = True, is_service_account = False,
     scopes = Some ss, allowed_repo_ids = Admin, iat_ms = None\<rparr>"

theorem delegation_never_escalates_witness:
  "\<not> has_scope (demo_principal [''read:artifacts'']) ''write:artifacts''"
proof
  assume h: "has_scope (demo_principal [''read:artifacts'']) ''write:artifacts''"
  have "enforce_mint_ceiling (demo_principal [''read:artifacts'']) [''read:artifacts''] = Inr ()" by code_simp
  then have "minted_from [''read:artifacts''] [''read:artifacts'']"
    by (rule minted[OF original, rotated -1]) (simp_all add: demo_principal_def)
  then have "scopes_grant_access [''read:artifacts''] ''write:artifacts''"
    using delegation_never_escalates[of "[''read:artifacts'']" "[''read:artifacts'']" "demo_principal [''read:artifacts'']" "''write:artifacts''"] h
    by (simp add: demo_principal_def)
  moreover have "\<not> scopes_grant_access [''read:artifacts''] ''write:artifacts''" by code_simp
  ultimately show False by simp
qed

text \<open>Rules bind only the principals they name. Adding a permission row that the user does
  not hold, directly or through a group, never changes what the user may do on a repository; a user
  with neither a rule nor a role may do nothing; and a user whom a rule names without the action is
  refused even when a role carries it, unless a role makes the user the owner.\<close>

lemma repository_rules_isolated:
  assumes "perm_outage db = None"
  shows "(\<not> holds_grant db usr row \<longrightarrow>
            check_repository_action (db\<lparr>permissions := row # permissions db\<rparr>) usr repo action False = check_repository_action db usr repo action False)
       \<and> (applicable_grants db usr repo = [] \<longrightarrow> assigned_roles db usr repo = [] \<longrightarrow> check_repository_action db usr repo action False = Inr False)
       \<and> (applicable_grants db usr repo \<noteq> [] \<longrightarrow> (\<forall>p\<in>set (applicable_grants db usr repo). set (actions p) \<inter> {action, ''admin''} = {}) \<longrightarrow>
            (\<forall>ra\<in>set (assigned_roles db usr repo). ''admin'' \<notin> set (ra_permissions ra)) \<longrightarrow>
            check_repository_action db usr repo action False = Inr False)"
proof -
  have "applicable_grants (db\<lparr>permissions := row # permissions db\<rparr>) usr repo = applicable_grants db usr repo" if "\<not> holds_grant db usr row"
  proof -
    have "holds_grant (db\<lparr>permissions := row # permissions db\<rparr>) usr p = holds_grant db usr p"
      "project_of (db\<lparr>permissions := row # permissions db\<rparr>) repo = project_of db repo" for p
      by (simp_all add: holds_grant_def project_of_def)
    then show ?thesis using that by (simp add: applicable_grants_def)
  qed
  moreover have "assigned_roles (db\<lparr>permissions := row # permissions db\<rparr>) usr repo = assigned_roles db usr repo"
    by (simp add: assigned_roles_def)
  ultimately show ?thesis using assms by (auto simp: check_repository_action_def query_def Let_def list_ex_iff)
qed

definition demo_perms :: perm_db where
  "demo_perms = \<lparr>permissions = [\<lparr>principal_type = ''group'', principal_id = 7, target_type = ''repository'', target_id = 5, actions = [''read'', ''write'']\<rparr>],
     user_group_members = [(1, 7)], role_assignments = [\<lparr>ra_user = 2, ra_repository = None, ra_permissions = [''read'']\<rparr>],
     repository_projects = [(5, None)], perm_users = [], perm_groups = [7], perm_outage = None\<rparr>"

lemma repository_rules_isolated_witness:
  "check_repository_action demo_perms 3 5 ''read'' False = Inr False"
  using repository_rules_isolated[of demo_perms 3 "hd (permissions demo_perms)" 5 "''read''"]
  by (simp add: demo_perms_def applicable_grants_def assigned_roles_def holds_grant_def)

text \<open>A revocation takes effect within thirty seconds. In any run of the service, whatever
  lookups and invalidations happened, an answer about a user that is not an administrator is what the
  tables said at some moment of the last thirty seconds; and right after an invalidation it is what
  they say now.\<close>

lemma permission_staleness_bounded:
  assumes "perm_run hist now svc" and "check_permission now (hist now) svc usr ttype tid action False = (Inr b, svc')"
  shows "(\<exists>t. now - 30000 \<le> t \<and> t \<le> now \<and> b = (action \<in> set (granted_actions (hist t) usr ttype tid)))
     \<and> (perm_outage (hist now) = None \<longrightarrow>
          fst (check_permission now (hist now) (invalidate_cache svc) usr ttype tid action False)
            = Inr (action \<in> set (granted_actions (hist now) usr ttype tid)))"
  using check_permission_honest[OF perm_run_honest[OF assms(1)] assms(2)]
  by (auto simp: CACHE_TTL_def check_permission_def resolve_actions_def query_actions_def query_def invalidate_cache_def fresh_entry_def)

lemma permission_staleness_bounded_witness:
  "fst (check_permission 9 demo_perms (invalidate_cache new_perm_service) 1 ''repository'' 5 ''write'' False) = Inr True"
proof -
  have "check_permission 9 demo_perms new_perm_service 1 ''repository'' 5 ''write'' False
      = (Inr True, snd (check_permission 9 demo_perms new_perm_service 1 ''repository'' 5 ''write'' False))"
    "''write'' \<in> set (granted_actions demo_perms 1 ''repository'' 5)" "perm_outage demo_perms = None"
    by (simp_all add: check_permission_def resolve_actions_def query_actions_def query_def fresh_entry_def new_perm_service_def
        granted_actions_def demo_perms_def holds_grant_def on_target_def)
  then show ?thesis
    using permission_staleness_bounded[OF perm_run.start[of "\<lambda>_. demo_perms" 9], of 1 "''repository''" 5 "''write''" True] by simp
qed

text \<open>Removing a member from a group leaves the cached grants of the group in force.\<close>

lemma removed_member_keeps_access:
  assumes "check_permission now demo_perms new_perm_service 1 ''repository'' 5 ''write'' False = (r, svc)" and "later \<le> now + 30000"
  shows "granted_actions (remove_members 7 [1] demo_perms) 1 ''repository'' 5 = []
       \<and> fst (check_permission later (remove_members 7 [1] demo_perms) svc 1 ''repository'' 5 ''write'' False) = Inr True"
  using assms
  by (auto simp: check_permission_def resolve_actions_def query_actions_def query_def fresh_entry_def new_perm_service_def retain_insert_def
      is_expired_def CACHE_TTL_def granted_actions_def demo_perms_def holds_grant_def on_target_def remove_members_def)

end
