(* ===== verification/Repo_Gate.thy ===== *)
theory Repo_Gate
  imports Access_Control
begin

text \<open>
  The authentication middleware (api/middleware/auth.rs): extraction of credentials, their
  resolution to a principal, download tickets (services/auth_config_service.rs) and the four
  middlewares, above all the gate in front of every repository route. Token verification, password
  checks and base64 decoding are parameters here; Auth_Stack instantiates them with the definitions of
  services/auth_service.rs. Times are milliseconds. Shows who passes the gate, that it fails closed, what it does not reveal, and what
  a ticket can do.
\<close>

section \<open>Requests\<close>

datatype http_method = GET | HEAD | OPTIONS | PUT | POST | PATCH | DELETE | OtherMethod string

record request =
  http_method_of :: http_method
  path :: string
  original_path :: "string option"
  query_string :: "string option"
  authorization :: "string option"
  x_api_key :: "string option"
  x_nuget_api_key :: "string option"
  cookie :: "string option"

datatype extracted_token = Bearer string | ApiKey string | Basic string | NoToken | InvalidToken

definition extract_token_from_auth_header :: "string \<Rightarrow> extracted_token" where
  "extract_token_from_auth_header h =
     (case strip_prefix ''Bearer '' h of Some t \<Rightarrow> Bearer t | None \<Rightarrow>
      case strip_prefix ''ApiKey '' h of Some t \<Rightarrow> ApiKey t | None \<Rightarrow>
      case (case strip_prefix ''Basic '' h of Some c \<Rightarrow> Some c | None \<Rightarrow> strip_prefix ''basic '' h) of Some c \<Rightarrow> Basic c | None \<Rightarrow>
      if h \<noteq> [] \<and> CHR '' '' \<notin> set h then Bearer h else InvalidToken)"

fun first_session_cookie :: "string list \<Rightarrow> string option" where
  "first_session_cookie [] = None"
| "first_session_cookie (c # cs) =
     (case strip_prefix ''ak_access_token='' (trim c) of Some t \<Rightarrow> Some t | None \<Rightarrow> first_session_cookie cs)"

definition extract_token :: "request \<Rightarrow> extracted_token" where
  "extract_token req =
     (let rest = (case x_api_key req of
                    Some k \<Rightarrow> ApiKey k
                  | None \<Rightarrow>
                      (case cookie req of
                         None \<Rightarrow> NoToken
                       | Some h \<Rightarrow> (case first_session_cookie (split_chars '';'' h) of Some t \<Rightarrow> Bearer t | None \<Rightarrow> NoToken)))
      in case authorization req of
           Some h \<Rightarrow> (let r = extract_token_from_auth_header h in if r \<noteq> NoToken then r else rest)
         | None \<Rightarrow> rest)"

definition path_segments :: "string \<Rightarrow> string list" where
  "path_segments p = split_chars ''/'' (dropWhile (\<lambda>c. c = CHR ''/'') p)"

definition nth_segment :: "string list \<Rightarrow> nat \<Rightarrow> string" where
  "nth_segment ss i = (if i < length ss then ss ! i else [])"

definition extract_repo_key :: "string \<Rightarrow> string" where
  "extract_repo_key p =
     (let ss = path_segments p
      in if nth_segment ss 0 = ''conda'' \<and> 1 < length ss \<and> ss ! 1 = ''t'' then nth_segment ss 3 else nth_segment ss 1)"

definition extract_conda_url_token :: "string \<Rightarrow> string option" where
  "extract_conda_url_token p =
     (let ss = path_segments p
      in if 2 < length ss \<and> ss ! 0 = ''conda'' \<and> ss ! 1 = ''t'' \<and> ss ! 2 \<noteq> [] then Some (ss ! 2) else None)"

definition is_nuget_push_path :: "string \<Rightarrow> bool" where
  "is_nuget_push_path p =
     (let ss = path_segments p
      in 5 \<le> length ss \<and> ss ! 0 = ''nuget'' \<and> ss ! 1 \<noteq> [] \<and> ss ! 2 = ''api'' \<and> ss ! 3 = ''v2'' \<and> ss ! 4 = ''package''
         \<and> (length ss = 5 \<or> length ss = 6 \<and> ss ! 5 = []))"

definition extract_nuget_push_api_key :: "request \<Rightarrow> string option" where
  "extract_nuget_push_api_key req =
     (if http_method_of req \<noteq> PUT \<or> \<not> is_nuget_push_path (path req) then None
      else (case x_nuget_api_key req of Some v \<Rightarrow> if v = [] then None else Some v | None \<Rightarrow> None))"

definition extract_visibility_token :: "request \<Rightarrow> extracted_token" where
  "extract_visibility_token req =
     (if extract_token req \<noteq> NoToken then extract_token req
      else (case extract_conda_url_token (path req) of
              Some t \<Rightarrow> ApiKey t
            | None \<Rightarrow> (case extract_nuget_push_api_key req of Some t \<Rightarrow> ApiKey t | None \<Rightarrow> NoToken)))"

section \<open>Resolving a credential\<close>

record token_validation =
  tv_user :: user
  tv_scopes :: "string list"
  tv_allowed_repo_ids :: access_scope

text \<open>The authentication service and the base64 decoder of credentials.\<close>

record auth_env =
  validate_access_token :: "string \<Rightarrow> app_error + claims"
  validate_api_token :: "string \<Rightarrow> app_error + token_validation"
  authenticate :: "string \<Rightarrow> string \<Rightarrow> app_error + user"
  decode_base64 :: "string \<Rightarrow> string option"

datatype token_auth_error = TokenInvalid | TokenOverloaded

definition classify_token_validation_err :: "app_error \<Rightarrow> token_auth_error" where
  "classify_token_validation_err e =
     (case e of ServiceUnavailable _ \<Rightarrow> TokenOverloaded | _ \<Rightarrow> if is_pool_timeout e then TokenOverloaded else TokenInvalid)"

definition validate_api_token_with_scopes :: "auth_env \<Rightarrow> string \<Rightarrow> token_auth_error + principal" where
  "validate_api_token_with_scopes env t =
     (case validate_api_token env t of
        Inl e \<Rightarrow> Inl (classify_token_validation_err e)
      | Inr v \<Rightarrow>
          Inr (with_scope_gated_admin
            \<lparr>user_id = usr_id (tv_user v), username = usr_username (tv_user v), email = usr_email (tv_user v),
             is_admin = usr_is_admin (tv_user v), is_api_token = True, is_service_account = usr_is_service_account (tv_user v),
             scopes = Some (tv_scopes v), allowed_repo_ids = tv_allowed_repo_ids v, iat_ms = None\<rparr>))"

definition decode_basic_credentials :: "auth_env \<Rightarrow> string \<Rightarrow> (string \<times> string) option" where
  "decode_basic_credentials env s = Option.bind (decode_base64 env s) (split_once (CHR '':''))"

datatype auth_outcome = Resolved principal | NoCredential | InvalidCredential | Overloaded

definition outcome_of_token :: "token_auth_error + principal \<Rightarrow> auth_outcome" where
  "outcome_of_token r = (case r of Inr p \<Rightarrow> Resolved p | Inl TokenOverloaded \<Rightarrow> Overloaded | Inl TokenInvalid \<Rightarrow> InvalidCredential)"

definition is_service_unavailable :: "app_error \<Rightarrow> bool" where
  "is_service_unavailable e = (case e of ServiceUnavailable _ \<Rightarrow> True | _ \<Rightarrow> False)"

definition try_resolve_auth_outcome :: "auth_env \<Rightarrow> extracted_token \<Rightarrow> bool \<Rightarrow> auth_outcome" where
  "try_resolve_auth_outcome env extracted allow_basic_api_token =
     (case extracted of
        Bearer t \<Rightarrow>
          (case validate_access_token env t of
             Inr c \<Rightarrow> Resolved (principal_from_claims c)
           | Inl _ \<Rightarrow>
               (case validate_api_token_with_scopes env t of
                  Inr p \<Rightarrow> Resolved p
                | Inl TokenOverloaded \<Rightarrow> Overloaded
                | Inl TokenInvalid \<Rightarrow>
                    (case decode_basic_credentials env t of
                       None \<Rightarrow> InvalidCredential
                     | Some (u, pw) \<Rightarrow>
                         (case authenticate env u pw of
                            Inr usr \<Rightarrow> Resolved (principal_from_user usr)
                          | Inl e \<Rightarrow> if is_service_unavailable e then Overloaded else InvalidCredential))))
      | ApiKey t \<Rightarrow> outcome_of_token (validate_api_token_with_scopes env t)
      | Basic encoded \<Rightarrow>
          (case decode_basic_credentials env encoded of
             None \<Rightarrow> InvalidCredential
           | Some (u, pw) \<Rightarrow>
               (case authenticate env u pw of
                  Inr usr \<Rightarrow> Resolved (principal_from_user usr)
                | Inl e \<Rightarrow>
                    if is_service_unavailable e \<or> is_pool_timeout e then Overloaded
                    else (case validate_access_token env pw of
                            Inr c \<Rightarrow> Resolved (principal_from_claims c)
                          | Inl _ \<Rightarrow>
                              if \<not> allow_basic_api_token then InvalidCredential
                              else outcome_of_token (validate_api_token_with_scopes env pw))))
      | NoToken \<Rightarrow> NoCredential
      | InvalidToken \<Rightarrow> InvalidCredential)"

section \<open>Download tickets\<close>

record ticket =
  tk_value :: string
  tk_user :: nat
  tk_resource_path :: "string option"
  tk_expires_at :: int

record gate_db =
  perm_tables :: perm_db
  repos :: "(string \<times> nat \<times> bool) list"
  tickets :: "ticket list"

definition hex_digit_value :: "char \<Rightarrow> nat option" where
  "hex_digit_value c =
     (if is_ascii_digit c then Some (code_of c - 48)
      else if 97 \<le> code_of c \<and> code_of c \<le> 102 then Some (code_of c - 87)
      else if 65 \<le> code_of c \<and> code_of c \<le> 70 then Some (code_of c - 55)
      else None)"

fun decode_query_value :: "string \<Rightarrow> string" where
  "decode_query_value [] = []"
| "decode_query_value (b # bs) =
     (if b = CHR ''+'' then CHR '' '' # decode_query_value bs
      else if b = CHR ''%'' then
        (case bs of
           h # l # rest \<Rightarrow>
             (case (hex_digit_value h, hex_digit_value l) of
                (Some hv, Some lv) \<Rightarrow> char_of (hv * 16 + lv) # decode_query_value rest
              | _ \<Rightarrow> b # decode_query_value bs)
         | _ \<Rightarrow> b # decode_query_value bs)
      else b # decode_query_value bs)"

fun ticket_pair :: "string list \<Rightarrow> string option" where
  "ticket_pair [] = None"
| "ticket_pair (pair # pairs) =
     (let (key, raw) = (case split_once (CHR ''='') pair of Some kv \<Rightarrow> kv | None \<Rightarrow> (pair, []))
      in if key \<noteq> ''ticket'' then ticket_pair pairs
         else if raw = [] then None
         else Some (decode_query_value raw))"

definition extract_ticket_from_query :: "string option \<Rightarrow> string option" where
  "extract_ticket_from_query q = (case q of None \<Rightarrow> None | Some s \<Rightarrow> ticket_pair (split_chars ''&'' s))"

definition ticket_method_allowed :: "http_method \<Rightarrow> bool" where
  "ticket_method_allowed m \<longleftrightarrow> m \<in> {GET, HEAD}"

definition ticket_path_allowed :: "string option \<Rightarrow> string \<Rightarrow> bool" where
  "ticket_path_allowed bound p = (case bound of None \<Rightarrow> True | Some b \<Rightarrow> b = p)"

definition validate_download_ticket :: "int \<Rightarrow> gate_db \<Rightarrow> string \<Rightarrow> (nat \<times> string option) app_result \<times> gate_db" where
  "validate_download_ticket now db t =
     (let live = (\<lambda>k. tk_value k = t \<and> now < tk_expires_at k)
      in case query (perm_tables db) (find live (tickets db)) of
           Inl e \<Rightarrow> (Inl e, db)
         | Inr None \<Rightarrow> (Inl (Authentication ''Invalid or expired download ticket''), db)
         | Inr (Some k) \<Rightarrow>
             (Inr (tk_user k, tk_resource_path k), db\<lparr>tickets := filter (\<lambda>k. \<not> live k) (tickets db)\<rparr>))"

definition try_resolve_ticket_auth :: "int \<Rightarrow> gate_db \<Rightarrow> string \<Rightarrow> http_method \<Rightarrow> string \<Rightarrow> principal option \<times> gate_db" where
  "try_resolve_ticket_auth now db t m p =
     (if \<not> ticket_method_allowed m then (None, db)
      else (case validate_download_ticket now db t of
              (Inl _, db') \<Rightarrow> (None, db')
            | (Inr (usr, bound), db') \<Rightarrow>
                if \<not> ticket_path_allowed bound p then (None, db')
                else (case query (perm_tables db') (find (\<lambda>u. usr_id u = usr \<and> usr_is_active u) (perm_users (perm_tables db'))) of
                        Inr (Some u) \<Rightarrow> (Some ((principal_from_user u)\<lparr>is_admin := False, is_api_token := True, scopes := Some []\<rparr>), db')
                      | _ \<Rightarrow> (None, db'))))"

definition ticket_fallback :: "int \<Rightarrow> gate_db \<Rightarrow> request \<Rightarrow> principal option \<times> gate_db" where
  "ticket_fallback now db req =
     (case extract_ticket_from_query (query_string req) of
        None \<Rightarrow> (None, db)
      | Some t \<Rightarrow> try_resolve_ticket_auth now db t (http_method_of req) (path req))"

section \<open>The gate in front of the repositories\<close>

datatype gate_response =
    PassThrough
  | Proceed "principal option" bool
  | Unauthorized401
  | Unauthorized401Because string
  | ForbiddenRepo
  | ForbiddenPermission
  | AdminRequired
  | RepoNotFound
  | PasswordChangeRequired
  | Unavailable503

record gate_state =
  repo_cache :: "string \<rightharpoonup> (nat \<times> bool) \<times> nat"
  perms :: perm_service

definition REPO_CACHE_TTL_SECS :: nat where "REPO_CACHE_TTL_SECS = 60"

definition repo_entry_live :: "nat \<Rightarrow> nat \<Rightarrow> bool" where
  "repo_entry_live now at \<longleftrightarrow> (now - at) div 1000 < REPO_CACHE_TTL_SECS"

text \<open>The repository of a key, its identifier and whether it is public; a failed query finds none.\<close>

definition lookup_repo :: "nat \<Rightarrow> gate_db \<Rightarrow> gate_state \<Rightarrow> string \<Rightarrow> (nat \<times> bool) option \<times> gate_state" where
  "lookup_repo now db st key =
     (case (case repo_cache st key of Some (r, at) \<Rightarrow> if repo_entry_live now at then Some r else None | None \<Rightarrow> None) of
        Some r \<Rightarrow> (Some r, st)
      | None \<Rightarrow>
          (case query (perm_tables db) (map_of (repos db) key) of
             Inr (Some r) \<Rightarrow>
               (Some r, st\<lparr>repo_cache :=
                  (\<lambda>k. case repo_cache st k of Some (r, at) \<Rightarrow> if repo_entry_live now at then Some (r, at) else None | None \<Rightarrow> None)
                    (key \<mapsto> (r, now))\<rparr>)
           | _ \<Rightarrow> (None, st)))"

definition should_allow_repo_access :: "bool \<Rightarrow> bool \<Rightarrow> bool" where
  "should_allow_repo_access is_public has_auth \<longleftrightarrow> is_public \<or> has_auth"

definition is_write_method :: "http_method \<Rightarrow> bool" where
  "is_write_method m \<longleftrightarrow> m \<in> {POST, PUT, PATCH, DELETE}"

definition is_non_mutating_format_post :: "string \<Rightarrow> bool" where
  "is_non_mutating_format_post p =
     (let ss = path_segments p
      in length ss = 4 \<and> ss ! 0 = ''lfs'' \<and> ss ! 1 \<noteq> [] \<and> ss ! 2 = ''objects'' \<and> ss ! 3 = ''batch''
         \<or> length ss = 5 \<and> ss ! 0 = ''conan'' \<and> ss ! 1 \<noteq> [] \<and> ss ! 2 = ''v2'' \<and> ss ! 3 = ''users'' \<and> ss ! 4 = ''authenticate'')"

definition action_for_method :: "http_method \<Rightarrow> string" where
  "action_for_method m =
     (case m of GET \<Rightarrow> ''read'' | HEAD \<Rightarrow> ''read'' | OPTIONS \<Rightarrow> ''read'' | PUT \<Rightarrow> ''write'' | POST \<Rightarrow> ''write'' | PATCH \<Rightarrow> ''write''
      | DELETE \<Rightarrow> ''delete'' | OtherMethod _ \<Rightarrow> ''read'')"

definition public_read_satisfies_acl :: "bool \<Rightarrow> string \<Rightarrow> bool" where
  "public_read_satisfies_acl is_public action \<longleftrightarrow> is_public \<and> action = ''read''"

definition unwrap_false :: "bool app_result \<Rightarrow> bool" where
  "unwrap_false r = (case r of Inr b \<Rightarrow> b | Inl _ \<Rightarrow> False)"

text \<open>The permission check of a principal that is not an administrator; \<open>None\<close> lets the request pass.\<close>

definition repo_permission :: "nat \<Rightarrow> perm_db \<Rightarrow> perm_service \<Rightarrow> principal \<Rightarrow> nat \<times> bool \<Rightarrow> request \<Rightarrow> gate_response option \<times> perm_service" where
  "repo_permission now pdb svc p repo req =
     (case repo of (rid, is_public) \<Rightarrow>
        (let non_mutating = is_non_mutating_format_post (path req);
             action = (if non_mutating then ''read'' else action_for_method (http_method_of req))
         in if is_write_method (http_method_of req) \<and> \<not> non_mutating then
              (case check_repository_action pdb (user_id p) rid action False of
                 Inr True \<Rightarrow> (None, svc)
               | Inr False \<Rightarrow> (Some ForbiddenPermission, svc)
               | Inl _ \<Rightarrow> (Some Unavailable503, svc))
            else
              (case has_any_rules_for_target now pdb svc ''repository'' rid of
                 (Inl _, svc1) \<Rightarrow> (Some Unavailable503, svc1)
               | (Inr True, svc1) \<Rightarrow>
                   if public_read_satisfies_acl is_public action then (None, svc1)
                   else (case check_permission now pdb svc1 (user_id p) ''repository'' rid action False of
                           (r1, svc2) \<Rightarrow>
                             if unwrap_false r1 then (None, svc2)
                             else (case check_permission now pdb svc2 (user_id p) ''repository'' rid ''admin'' False of
                                     (r2, svc3) \<Rightarrow> (if unwrap_false r2 then None else Some ForbiddenPermission, svc3)))
               | (Inr False, svc1) \<Rightarrow>
                   if is_public then (None, svc1)
                   else (case query pdb (assigned_roles pdb (user_id p) rid \<noteq> []) of
                           Inr True \<Rightarrow> (None, svc1)
                         | Inr False \<Rightarrow> (Some RepoNotFound, svc1)
                         | Inl _ \<Rightarrow> (Some Unavailable503, svc1)))))"

text \<open>Who the request is: the header credential, or a ticket when there is none or it failed.\<close>

definition gate_identity :: "auth_outcome \<Rightarrow> nat \<Rightarrow> gate_db \<Rightarrow> request \<Rightarrow> principal option \<times> bool \<times> gate_db" where
  "gate_identity outcome now db req =
     (case outcome of
        Resolved p \<Rightarrow> (Some p, False, db)
      | _ \<Rightarrow> (case ticket_fallback (int now) db req of (t, db') \<Rightarrow> (t, t \<noteq> None, db')))"

definition repo_visibility_middleware ::
  "auth_env \<Rightarrow> nat \<Rightarrow> gate_db \<Rightarrow> gate_state \<Rightarrow> request \<Rightarrow> gate_response \<times> gate_db \<times> gate_state" where
  "repo_visibility_middleware env now db st req =
     (let key = extract_repo_key (path req) in
      if key = [] then (PassThrough, db, st)
      else (case lookup_repo now db st key of
        (None, st1) \<Rightarrow>
          (case try_resolve_auth_outcome env (extract_visibility_token req) True of
             Overloaded \<Rightarrow> (Unavailable503, db, st1)
           | InvalidCredential \<Rightarrow> (Unauthorized401, db, st1)
           | NoCredential \<Rightarrow> (Unauthorized401, db, st1)
           | Resolved p \<Rightarrow> (Proceed (Some p) False, db, st1))
      | (Some repo, st1) \<Rightarrow>
          (let outcome = try_resolve_auth_outcome env (extract_visibility_token req) True in
           if outcome = Overloaded then (Unavailable503, db, st1)
           else
             (case gate_identity outcome now db req of (auth, via_ticket, db1) \<Rightarrow>
                 if outcome = InvalidCredential \<and> auth = None then (Unauthorized401, db1, st1)
                 else if is_write_method (http_method_of req) \<and> \<not> (auth \<noteq> None \<and> \<not> via_ticket) then (Unauthorized401, db1, st1)
                 else if \<not> should_allow_repo_access (snd repo) (auth \<noteq> None) then (Unauthorized401, db1, st1)
                 else (case auth of
                         None \<Rightarrow> (Proceed None via_ticket, db1, st1)
                       | Some p \<Rightarrow>
                           if \<not> can_access_repo p (fst repo) then (ForbiddenRepo, db1, st1)
                           else if is_admin p then (Proceed auth via_ticket, db1, st1)
                           else (case repo_permission now (perm_tables db1) (perms st1) p repo req of
                                   (Some resp, svc) \<Rightarrow> (resp, db1, st1\<lparr>perms := svc\<rparr>)
                                 | (None, svc) \<Rightarrow> (Proceed auth via_ticket, db1, st1\<lparr>perms := svc\<rparr>)))))))"

section \<open>The other middlewares\<close>

definition path_exempt_from_password_change :: "string \<Rightarrow> bool" where
  "path_exempt_from_password_change p =
     (let q = (case strip_suffix ''/'' p of Some r \<Rightarrow> r | None \<Rightarrow> p)
      in ends_with ''/auth/me'' q \<or> ends_with ''/password'' q \<or> ends_with ''/auth/logout'' q)"

definition principal_must_change_password :: "perm_db \<Rightarrow> nat \<Rightarrow> bool" where
  "principal_must_change_password db usr =
     (case query db (find (\<lambda>u. usr_id u = usr \<and> usr_is_active u) (perm_users db)) of
        Inr (Some u) \<Rightarrow> usr_must_change_password u
      | _ \<Rightarrow> False)"

definition message_of_token :: "string \<Rightarrow> token_auth_error + principal \<Rightarrow> (gate_response + string) + principal" where
  "message_of_token msg r =
     (case r of Inr p \<Rightarrow> Inr p | Inl TokenOverloaded \<Rightarrow> Inl (Inl Unavailable503) | Inl TokenInvalid \<Rightarrow> Inl (Inr msg))"

text \<open>The header credentials of the strict middleware: a principal, an immediate response, or a message.\<close>

definition header_auth :: "auth_env \<Rightarrow> extracted_token \<Rightarrow> (gate_response + string) + principal" where
  "header_auth env extracted =
     (case extracted of
        Bearer t \<Rightarrow>
          (case validate_access_token env t of
             Inr c \<Rightarrow> Inr (principal_from_claims c)
           | Inl _ \<Rightarrow> message_of_token ''Invalid or expired token'' (validate_api_token_with_scopes env t))
      | ApiKey t \<Rightarrow> message_of_token ''Invalid or expired API token'' (validate_api_token_with_scopes env t)
      | Basic encoded \<Rightarrow>
          (case decode_basic_credentials env encoded of
             None \<Rightarrow> Inl (Inr ''Invalid Basic auth credentials'')
           | Some (u, pw) \<Rightarrow>
               (case authenticate env u pw of
                  Inr usr \<Rightarrow> Inr (principal_from_user usr)
                | Inl e \<Rightarrow>
                    if is_service_unavailable e \<or> is_pool_timeout e then Inl (Inl Unavailable503)
                    else (case validate_access_token env pw of
                            Inr c \<Rightarrow> Inr (principal_from_claims c)
                          | Inl _ \<Rightarrow> Inl (Inr ''Invalid credentials''))))
      | NoToken \<Rightarrow> Inl (Inr ''Missing authorization header'')
      | InvalidToken \<Rightarrow> Inl (Inr ''Invalid authorization header format''))"

definition auth_middleware :: "auth_env \<Rightarrow> int \<Rightarrow> gate_db \<Rightarrow> request \<Rightarrow> gate_response \<times> gate_db" where
  "auth_middleware env now db req =
     (let extracted = extract_token req in
      case header_auth env extracted of
        Inl (Inl resp) \<Rightarrow> (resp, db)
      | Inr p \<Rightarrow>
          (if \<not> path_exempt_from_password_change (unwrap_or (original_path req) (path req))
              \<and> principal_must_change_password (perm_tables db) (user_id p)
           then (PasswordChangeRequired, db) else (Proceed (Some p) False, db))
      | Inl (Inr msg) \<Rightarrow>
          (case ticket_fallback now db req of
             (Some p, db') \<Rightarrow> (Proceed (Some p) True, db')
           | (None, db') \<Rightarrow>
               (Unauthorized401Because
                  (if extracted = NoToken \<and> extract_ticket_from_query (query_string req) \<noteq> None
                   then ''Invalid or expired download ticket'' else msg), db')))"

definition optional_auth_middleware :: "auth_env \<Rightarrow> int \<Rightarrow> gate_db \<Rightarrow> request \<Rightarrow> gate_response \<times> gate_db" where
  "optional_auth_middleware env now db req =
     (let outcome = try_resolve_auth_outcome env (extract_token req) False in
      case outcome of
        Overloaded \<Rightarrow> (Unavailable503, db)
      | Resolved p \<Rightarrow> (Proceed (Some p) False, db)
      | _ \<Rightarrow>
          (case ticket_fallback now db req of
             (auth, db') \<Rightarrow>
               if outcome = InvalidCredential \<and> auth = None then (Unauthorized401, db')
               else (Proceed auth (auth \<noteq> None), db')))"

definition admin_middleware :: "auth_env \<Rightarrow> request \<Rightarrow> gate_response" where
  "admin_middleware env req =
     (let extracted = extract_token req in
      if (case extracted of Basic c \<Rightarrow> decode_basic_credentials env c = None | _ \<Rightarrow> False)
      then Unauthorized401Because ''Invalid Basic auth credentials''
      else (case try_resolve_auth_outcome env extracted False of
              Resolved p \<Rightarrow> if is_admin p then Proceed (Some p) False else AdminRequired
            | Overloaded \<Rightarrow> Unavailable503
            | _ \<Rightarrow>
                Unauthorized401Because
                  (case extracted of
                     Bearer _ \<Rightarrow> ''Invalid or expired token''
                   | ApiKey _ \<Rightarrow> ''Invalid or expired API token''
                   | Basic _ \<Rightarrow> ''Invalid credentials''
                   | NoToken \<Rightarrow> ''Missing authorization header''
                   | InvalidToken \<Rightarrow> ''Invalid authorization header format'')))"

section \<open>Principals of credentials\<close>

text \<open>Administrators by credential: only a credential whose scopes grant admin, or an unscoped one.\<close>

definition admin_backed :: "principal \<Rightarrow> bool" where
  "admin_backed p \<longleftrightarrow> (is_admin p \<longrightarrow> has_scope p ''admin'')"

lemma has_scope_gated [simp]: "has_scope (p\<lparr>is_admin := b\<rparr>) s = has_scope p s"
  by (simp add: has_scope_def)

lemma admin_backed_gated [simp]: "admin_backed (with_scope_gated_admin p)"
  by (simp add: admin_backed_def with_scope_gated_admin_def)

lemma admin_backed_sources [simp]: "admin_backed (principal_from_claims c)" "admin_backed (principal_from_user u)"
  by (simp_all add: principal_from_claims_def) (simp add: admin_backed_def principal_from_user_def has_scope_def)

lemma validate_api_token_backed: "validate_api_token_with_scopes env t = Inr p \<Longrightarrow> admin_backed p \<and> is_api_token p \<and> scopes p \<noteq> None"
  by (auto simp: validate_api_token_with_scopes_def with_scope_gated_admin_def admin_backed_def split: sum.splits)

lemma resolved_backed: "try_resolve_auth_outcome env x allow = Resolved p \<Longrightarrow> admin_backed p"
  by (auto simp: try_resolve_auth_outcome_def outcome_of_token_def dest!: validate_api_token_backed
      split: extracted_token.splits sum.splits option.splits token_auth_error.splits prod.splits if_splits)

lemma ticket_principal:
  assumes "try_resolve_ticket_auth now db t m p = (Some a, db')"
  shows "\<not> is_admin a \<and> scopes a = Some [] \<and> m \<in> {GET, HEAD}
     \<and> (\<exists>k\<in>set (tickets db). tk_value k = t \<and> now < tk_expires_at k \<and> user_id a = tk_user k \<and> ticket_path_allowed (tk_resource_path k) p)
     \<and> tickets db' = filter (\<lambda>k. \<not> (tk_value k = t \<and> now < tk_expires_at k)) (tickets db)"
proof -
  have m: "ticket_method_allowed m" using assms by (auto simp: try_resolve_ticket_auth_def split: if_splits)
  obtain v d where v: "validate_download_ticket now db t = (v, d)" by fastforce
  obtain usr bound where ok: "v = Inr (usr, bound)"
    using assms m v by (cases v) (auto simp: try_resolve_ticket_auth_def)
  obtain k where k: "find (\<lambda>k. tk_value k = t \<and> now < tk_expires_at k) (tickets db) = Some k" "usr = tk_user k" "bound = tk_resource_path k"
      "d = db\<lparr>tickets := filter (\<lambda>k. \<not> (tk_value k = t \<and> now < tk_expires_at k)) (tickets db)\<rparr>"
    using v ok by (auto simp: validate_download_ticket_def Let_def split: sum.splits option.splits)
  have kin: "k \<in> set (tickets db)" "tk_value k = t" "now < tk_expires_at k" using k(1) by (auto simp: find_Some_iff)
  have "ticket_path_allowed bound p" "db' = d" and u: "\<exists>u. usr_id u = usr \<and> a = (principal_from_user u)\<lparr>is_admin := False, is_api_token := True, scopes := Some []\<rparr>"
    using assms m v ok by (auto simp: try_resolve_ticket_auth_def find_Some_iff split: if_splits sum.splits option.splits)
  then show ?thesis using k kin m by (auto simp: principal_from_user_def ticket_method_allowed_def)
qed

section \<open>Passing the gate\<close>

lemma lookup_repo_perms: "lookup_repo now db st key = (r, st1) \<Longrightarrow> perms st1 = perms st"
  by (auto simp: lookup_repo_def split: option.splits sum.splits if_splits)

lemma ticket_fallback_tables: "ticket_fallback now db req = (a, db') \<Longrightarrow> perm_tables db' = perm_tables db"
  by (auto simp: ticket_fallback_def try_resolve_ticket_auth_def validate_download_ticket_def Let_def
      split: option.splits sum.splits prod.splits if_splits)

lemma gate_identity_facts:
  assumes "gate_identity outcome now db req = (auth, via, db1)"
  shows "perm_tables db1 = perm_tables db" and "via \<Longrightarrow> \<exists>p. auth = Some p \<and> \<not> is_admin p"
    and "\<not> via \<Longrightarrow> auth = Some p \<Longrightarrow> outcome = Resolved p"
proof -
  obtain t db' where t: "ticket_fallback (int now) db req = (t, db')" by fastforce
  show "perm_tables db1 = perm_tables db"
    using assms ticket_fallback_tables[OF t] t by (cases outcome) (auto simp: gate_identity_def)
  show "\<exists>p. auth = Some p \<and> \<not> is_admin p" if via
  proof -
    have "auth = t" "t \<noteq> None" using assms that t by (cases outcome; auto simp: gate_identity_def)+
    then show ?thesis using t ticket_principal by (auto simp: ticket_fallback_def split: option.splits)
  qed
  show "outcome = Resolved p" if "\<not> via" "auth = Some p"
    using assms that t by (cases outcome) (auto simp: gate_identity_def)
qed

text \<open>The part of the gate after the repository and the credential are known.\<close>

lemma gate_with_repo:
  assumes "extract_repo_key (path req) \<noteq> []" and "lookup_repo now db st (extract_repo_key (path req)) = (Some repo, st1)"
    and "try_resolve_auth_outcome env (extract_visibility_token req) True = outcome" and "gate_identity outcome now db req = (auth, via, db1)"
  shows "repo_visibility_middleware env now db st req =
     (if outcome = Overloaded then (Unavailable503, db, st1)
      else if outcome = InvalidCredential \<and> auth = None then (Unauthorized401, db1, st1)
      else if is_write_method (http_method_of req) \<and> \<not> (auth \<noteq> None \<and> \<not> via) then (Unauthorized401, db1, st1)
      else if \<not> should_allow_repo_access (snd repo) (auth \<noteq> None) then (Unauthorized401, db1, st1)
      else (case auth of
              None \<Rightarrow> (Proceed None via, db1, st1)
            | Some p \<Rightarrow>
                if \<not> can_access_repo p (fst repo) then (ForbiddenRepo, db1, st1)
                else if is_admin p then (Proceed auth via, db1, st1)
                else (case repo_permission now (perm_tables db1) (perms st1) p repo req of
                        (Some resp, svc) \<Rightarrow> (resp, db1, st1\<lparr>perms := svc\<rparr>)
                      | (None, svc) \<Rightarrow> (Proceed auth via, db1, st1\<lparr>perms := svc\<rparr>))))"
  using assms unfolding repo_visibility_middleware_def Let_def by simp

lemma repo_permission_denies: "fst (repo_permission now pdb svc p repo req) = Some resp \<Longrightarrow> \<forall>a b. resp \<noteq> Proceed a b \<and> resp \<noteq> PassThrough"
  by (auto simp: repo_permission_def Let_def split: prod.splits sum.splits bool.splits if_splits)

abbreviation mutates :: "request \<Rightarrow> bool" where
  "mutates req \<equiv> is_write_method (http_method_of req) \<and> \<not> is_non_mutating_format_post (path req)"

lemma action_for_read: "\<not> is_write_method m \<Longrightarrow> action_for_method m = ''read''"
  by (cases m) (auto simp: is_write_method_def action_for_method_def)

lemma repo_permission_write:
  "mutates req \<Longrightarrow> repo_permission now pdb svc p (rid, pub) req = (None, svc') \<Longrightarrow>
     check_repository_action pdb (user_id p) rid (action_for_method (http_method_of req)) False = Inr True"
  by (auto simp: repo_permission_def Let_def split: sum.splits bool.splits if_splits)

lemma repo_permission_read:
  assumes "\<not> mutates req" and "\<not> pub" and "service_honest hist now svc" and "hist now = pdb"
    and run: "repo_permission now pdb svc p (rid, pub) req = (None, svc')"
  shows "(\<exists>t. now - CACHE_TTL \<le> t \<and> t \<le> now \<and> set (granted_actions (hist t) (user_id p) ''repository'' rid) \<inter> {''read'', ''admin''} \<noteq> {})
     \<or> assigned_roles pdb (user_id p) rid \<noteq> []"
proof -
  have act: "(if is_non_mutating_format_post (path req) then ''read'' else action_for_method (http_method_of req)) = ''read''"
    using assms(1) action_for_read by auto
  obtain b svc1 where b: "has_any_rules_for_target now pdb svc ''repository'' rid = (b, svc1)" by fastforce
  have h1: "service_honest hist now svc1" using has_any_rules_honest[OF assms(3)] b assms(4) by blast
  obtain r1 svc2 where r1: "check_permission now pdb svc1 (user_id p) ''repository'' rid ''read'' False = (r1, svc2)" by fastforce
  note g1 = check_permission_honest[OF h1, of "user_id p" "''repository''" rid "''read''" False r1 svc2]
  obtain r2 svc3 where r2: "check_permission now pdb svc2 (user_id p) ''repository'' rid ''admin'' False = (r2, svc3)" by fastforce
  note g2 = check_permission_honest[of hist now svc2 "user_id p" "''repository''" rid "''admin''" False r2 svc3]
  consider "b = Inr True" "r1 = Inr True" | "b = Inr True" "r2 = Inr True" | "assigned_roles pdb (user_id p) rid \<noteq> []"
    using run assms(1,2) act b r1 r2
    by (auto simp: repo_permission_def Let_def public_read_satisfies_acl_def unwrap_false_def query_def
        split: sum.splits bool.splits if_splits option.splits)
  then show ?thesis
  proof cases
    case 1
    then show ?thesis using g1 r1 assms(4) by auto
  next
    case 2
    then show ?thesis using g1 g2 r1 r2 assms(4) by auto
  qed simp
qed

section \<open>Properties\<close>


definition demo_env :: auth_env where
  "demo_env = \<lparr>validate_access_token = (\<lambda>_. Inl (Authentication [])), validate_api_token = (\<lambda>_. Inl (Authentication [])),
     authenticate = (\<lambda>_ _. Inl (Authentication [])), decode_base64 = (\<lambda>_. None)\<rparr>"

definition demo_gate_db :: gate_db where
  "demo_gate_db = \<lparr>perm_tables = demo_perms, repos = [(''libs'', 5, True), (''secret'', 6, False)], tickets = []\<rparr>"

definition demo_get :: "string \<Rightarrow> request" where
  "demo_get p = \<lparr>http_method_of = GET, path = p, original_path = None, query_string = None, authorization = None, x_api_key = None,
     x_nuget_api_key = None, cookie = None\<rparr>"

definition demo_gate_state :: gate_state where
  "demo_gate_state = \<lparr>repo_cache = Map.empty, perms = new_perm_service\<rparr>"

lemma demo_segments: "path_segments ''/npm/libs/left-pad'' = [''npm'', ''libs'', ''left-pad'']"
    "path_segments ''/npm/secret/left-pad'' = [''npm'', ''secret'', ''left-pad'']"
    "path_segments ''/npm/absent/left-pad'' = [''npm'', ''absent'', ''left-pad'']"
  by code_simp+

lemma demo_keys: "extract_repo_key ''/npm/libs/left-pad'' = ''libs''" "extract_repo_key ''/npm/secret/left-pad'' = ''secret''"
    "extract_repo_key ''/npm/absent/left-pad'' = ''absent''"
    "extract_conda_url_token ''/npm/libs/left-pad'' = None" "extract_conda_url_token ''/npm/secret/left-pad'' = None"
    "extract_conda_url_token ''/npm/absent/left-pad'' = None"
  by (simp_all add: extract_repo_key_def extract_conda_url_token_def demo_segments nth_segment_def)

lemma demo_anonymous [simp]:
  "extract_visibility_token (demo_get ''/npm/libs/left-pad'') = NoToken" "extract_visibility_token (demo_get ''/npm/secret/left-pad'') = NoToken"
  "extract_visibility_token (demo_get ''/npm/absent/left-pad'') = NoToken"
  "ticket_fallback now db (demo_get p) = (None, db)"
  by (simp_all add: extract_visibility_token_def extract_token_def demo_get_def demo_keys extract_nuget_push_api_key_def
      ticket_fallback_def extract_ticket_from_query_def)

lemma demo_lookup:
  "\<exists>st1. lookup_repo 9 demo_gate_db demo_gate_state ''libs'' = (Some (5, True), st1)"
  "\<exists>st1. lookup_repo 9 demo_gate_db demo_gate_state ''secret'' = (Some (6, False), st1)"
  by (simp_all add: lookup_repo_def demo_gate_db_def demo_gate_state_def query_def demo_perms_def)


text \<open>An anonymous caller cannot tell a private repository from one that does not exist: without
  a credential and without a valid ticket the gate answers both with the same challenge, whatever the
  method.\<close>

lemma private_repositories_hidden:
  assumes "extract_repo_key (path req) \<noteq> []" and "extract_visibility_token req = NoToken" and "fst (ticket_fallback (int now) db req) = None"
    and "fst (lookup_repo now db st (extract_repo_key (path req))) = None
         \<or> (\<exists>rid. fst (lookup_repo now db st (extract_repo_key (path req))) = Some (rid, False))"
  shows "fst (repo_visibility_middleware env now db st req) = Unauthorized401"
proof -
  obtain r st1 where l: "lookup_repo now db st (extract_repo_key (path req)) = (r, st1)" by fastforce
  have o: "try_resolve_auth_outcome env (extract_visibility_token req) True = NoCredential"
    using assms(2) by (simp add: try_resolve_auth_outcome_def)
  obtain db1 where t: "ticket_fallback (int now) db req = (None, db1)" using assms(3) by (cases "ticket_fallback (int now) db req") auto
  show ?thesis
  proof (cases r)
    case None
    then show ?thesis using l o assms(1) by (simp add: repo_visibility_middleware_def Let_def)
  next
    case (Some repo)
    then show ?thesis
      using gate_with_repo[OF assms(1) l[unfolded Some] o, of None False db1] t assms(4) l
      by (auto simp: gate_identity_def should_allow_repo_access_def)
  qed
qed

lemma private_repositories_hidden_witness:
  "fst (repo_visibility_middleware demo_env 9 demo_gate_db demo_gate_state (demo_get ''/npm/secret/left-pad'')) =
   fst (repo_visibility_middleware demo_env 9 demo_gate_db demo_gate_state (demo_get ''/npm/absent/left-pad''))"
proof -
  have p: "path (demo_get q) = q" for q by (simp add: demo_get_def)
  have "fst (lookup_repo 9 demo_gate_db demo_gate_state ''absent'') = None"
    by (simp add: lookup_repo_def demo_gate_db_def demo_gate_state_def query_def demo_perms_def)
  moreover have "\<exists>rid. fst (lookup_repo 9 demo_gate_db demo_gate_state ''secret'') = Some (rid, False)" using demo_lookup(2) by force
  ultimately show ?thesis
    using private_repositories_hidden[of "demo_get ''/npm/secret/left-pad''" 9 demo_gate_db demo_gate_state demo_env]
      private_repositories_hidden[of "demo_get ''/npm/absent/left-pad''" 9 demo_gate_db demo_gate_state demo_env]
    by (simp add: p demo_keys)
qed



text \<open>C4: a download ticket is read-only, single-use and powerless beyond its purpose: it only
  authenticates a read of the path it is bound to before it expires, the principal it gives is no
  administrator and passes no scope check, and the same ticket never authenticates again.\<close>

theorem ticket_single_use:
  assumes "try_resolve_ticket_auth now db t m p = (Some a, db')"
  shows "m \<in> {GET, HEAD} \<and> \<not> is_admin a \<and> \<not> has_scope a scope
     \<and> (\<exists>k\<in>set (tickets db). tk_value k = t \<and> now < tk_expires_at k \<and> user_id a = tk_user k \<and> (\<forall>b. tk_resource_path k = Some b \<longrightarrow> b = p))
     \<and> (now \<le> later \<longrightarrow> fst (try_resolve_ticket_auth later db' t m' p') = None)"
proof -
  note tp = ticket_principal[OF assms]
  have "\<not> has_scope a scope" using tp by (auto simp: has_scope_def scopes_grant_access_def split: option.splits)
  moreover have "find (\<lambda>k. tk_value k = t \<and> later < tk_expires_at k) (tickets db') = None" if "now \<le> later"
    using tp that by (auto simp: find_None_iff)
  then have "fst (try_resolve_ticket_auth later db' t m' p') = None" if "now \<le> later"
    using that by (auto simp: try_resolve_ticket_auth_def validate_download_ticket_def Let_def query_def split: option.splits)
  ultimately show ?thesis using tp by (auto simp: ticket_path_allowed_def)
qed

definition demo_ticket_db :: gate_db where
  "demo_ticket_db = demo_gate_db\<lparr>tickets := [\<lparr>tk_value = ''abc'', tk_user = 1, tk_resource_path = Some ''/npm/secret/left-pad'', tk_expires_at = 30\<rparr>],
     perm_tables := demo_perms\<lparr>perm_users := [\<lparr>usr_id = 1, usr_username = ''root'', usr_email = [], usr_is_admin = True,
        usr_is_service_account = False, usr_is_active = True, usr_must_change_password = False\<rparr>]\<rparr>\<rparr>"

theorem ticket_single_use_witness:
  "fst (try_resolve_ticket_auth 10 (snd (try_resolve_ticket_auth 9 demo_ticket_db ''abc'' GET ''/npm/secret/left-pad'')) ''abc'' GET ''/npm/secret/left-pad'') = None"
proof -
  obtain a db' where "try_resolve_ticket_auth 9 demo_ticket_db ''abc'' GET ''/npm/secret/left-pad'' = (Some a, db')"
    by (simp add: try_resolve_ticket_auth_def validate_download_ticket_def demo_ticket_db_def demo_gate_db_def demo_perms_def query_def
        ticket_method_allowed_def ticket_path_allowed_def Let_def)
  then show ?thesis using ticket_single_use[of 9 demo_ticket_db "''abc''" GET "''/npm/secret/left-pad''" a db' "[]" 10] by simp
qed

text \<open>The management interface. An administrator route lets a request through only for an
  administrator whose credential grants the admin scope, and an interface token is never accepted as
  the password of Basic authentication there.\<close>

lemma admin_routes_guarded:
  assumes "admin_middleware env req = Proceed auth via"
  shows "\<exists>p. auth = Some p \<and> is_admin p \<and> has_scope p ''admin'' \<and> (\<forall>c. extract_token req = Basic c \<longrightarrow> \<not> is_api_token p)"
proof -
  obtain p where p: "try_resolve_auth_outcome env (extract_token req) False = Resolved p" "auth = Some p" "is_admin p"
    using assms by (auto simp: admin_middleware_def Let_def split: if_splits auth_outcome.splits)
  moreover have "\<not> is_api_token p" if "extract_token req = Basic c" for c
    using p(1) that
    by (auto simp: try_resolve_auth_outcome_def principal_from_user_def principal_from_claims_def with_scope_gated_admin_def
        split: option.splits sum.splits prod.splits if_splits)
  ultimately show ?thesis using resolved_backed[OF p(1)] by (auto simp: admin_backed_def)
qed

definition demo_admin_env :: auth_env where
  "demo_admin_env = demo_env\<lparr>validate_access_token := (\<lambda>t. if t = ''jwt'' then
     Inr \<lparr>sub = 1, cl_username = ''root'', cl_email = [], cl_is_admin = True, cl_scopes = None, cl_allowed_repo_ids = None, effective_iat_ms = 0\<rparr>
     else Inl (Authentication []))\<rparr>"

lemma admin_routes_guarded_witness:
  "\<exists>p. admin_middleware demo_admin_env ((demo_get ''/'')\<lparr>authorization := Some ''Bearer jwt''\<rparr>) = Proceed (Some p) False \<and> is_admin p \<and> has_scope p ''admin''"
proof -
  let ?req = "(demo_get ''/'')\<lparr>authorization := Some ''Bearer jwt''\<rparr>"
  have e: "extract_token ?req = Bearer ''jwt''" by (simp add: extract_token_def extract_token_from_auth_header_def)
  obtain p where "admin_middleware demo_admin_env ?req = Proceed (Some p) False"
    by (simp add: admin_middleware_def e try_resolve_auth_outcome_def demo_admin_env_def principal_from_claims_def with_scope_gated_admin_def has_scope_def)
  then show ?thesis using admin_routes_guarded[of demo_admin_env ?req "Some p" False] by auto
qed

section \<open>Deviations\<close>

text \<open>A saturated pool while a Bearer credential is checked as a password answers like a wrong password.\<close>

lemma bearer_pool_timeout_refused:
  assumes "validate_access_token env t = Inl e" and "validate_api_token env t = Inl (Authentication m)"
    and "decode_base64 env t = Some ''user:secret''" and "authenticate env ''user'' ''secret'' = Inl (Sqlx PoolTimedOut)"
  shows "try_resolve_auth_outcome env (Bearer t) True = InvalidCredential
       \<and> try_resolve_auth_outcome env (Basic t) True = Overloaded"
  using assms by (simp add: try_resolve_auth_outcome_def validate_api_token_with_scopes_def classify_token_validation_err_def
      decode_basic_credentials_def is_service_unavailable_def)

text \<open>Any route that ends in the word password is open to a user who has to change the password.\<close>

lemma password_suffix_exempt:
  "path_exempt_from_password_change (p @ ''/password'') \<and> path_exempt_from_password_change ''/api/v1/sbom/password''
   \<and> \<not> path_exempt_from_password_change ''/api/v1/sbom/me''"
proof -
  have "path_exempt_from_password_change ''/api/v1/sbom/password''" "\<not> path_exempt_from_password_change ''/api/v1/sbom/me''" by code_simp+
  moreover have "strip_suffix ''/'' (p @ ''/password'') = None"
    by (simp add: strip_suffix_def)
  ultimately show ?thesis by (simp add: path_exempt_from_password_change_def suffix_def)
qed

end
