(* ===== verification/Repo_Selector.thy ===== *)
theory Repo_Selector
  imports Access_Control
begin

text \<open>
  Repository selectors (services/repo_selector_service.rs): the wildcard matcher for names and the
  resolution of a selector to repositories, used to restrict the tokens of service accounts. A
  HashMap of labels is an association list, the group of labels of a repository is the list of its
  rows, and a query fails with the message of the outage. Shows that the matcher decides the
  language of the pattern and what a selector selects.
\<close>

section \<open>The wildcard matcher\<close>

text \<open>\<open>str::find\<close>: the offset of the first occurrence.\<close>

fun str_find :: "string \<Rightarrow> string \<Rightarrow> nat option" where
  "str_find p s =
     (if starts_with p s then Some 0
      else (case s of [] \<Rightarrow> None | _ # cs \<Rightarrow> map_option Suc (str_find p cs)))"

declare str_find.simps [simp del]

fun like_loop :: "string \<Rightarrow> nat \<Rightarrow> nat \<Rightarrow> nat \<Rightarrow> string list \<Rightarrow> bool" where
  "like_loop value n i pos [] = True"
| "like_loop value n i pos (part # parts) =
     (if part = [] then like_loop value n (i + 1) pos parts
      else if i = 0 then
        (if \<not> starts_with part value then False else like_loop value n (i + 1) (length part) parts)
      else if i = n - 1 then
        (if \<not> ends_with part (drop pos value) then False else like_loop value n (i + 1) (length value) parts)
      else (case str_find part (drop pos value) of
              Some found \<Rightarrow> like_loop value n (i + 1) (pos + (found + length part)) parts
            | None \<Rightarrow> False))"

definition sql_like_match :: "string \<Rightarrow> string \<Rightarrow> bool" where
  "sql_like_match value pattern =
     (let parts = split_chars ''%'' pattern in
      if length parts = 1 then value = pattern else like_loop value (length parts) 0 0 parts)"

section \<open>Resolution\<close>

record repo_selector =
  match_labels :: "(string \<times> string) list"
  match_formats :: "string list"
  match_pattern :: "string option"
  match_repos :: "nat list"

record repo_row =
  rr_id :: nat
  rr_key :: string
  rr_format :: string

record selector_db =
  sel_repositories :: "repo_row list"
  sel_labels :: "(nat \<times> string \<times> string) list"
  sel_outage :: "string option"

definition sel_query :: "selector_db \<Rightarrow> 'a \<Rightarrow> 'a app_result" where
  "sel_query db x = (case sel_outage db of Some e \<Rightarrow> Inl (Database e) | None \<Rightarrow> Inr x)"

definition selector_is_empty :: "repo_selector \<Rightarrow> bool" where
  "selector_is_empty s \<longleftrightarrow> match_labels s = [] \<and> match_formats s = [] \<and> match_pattern s = None \<and> match_repos s = []"

definition selector_default :: repo_selector where
  "selector_default = \<lparr>match_labels = [], match_formats = [], match_pattern = None, match_repos = []\<rparr>"

definition labels_of :: "selector_db \<Rightarrow> nat \<Rightarrow> (string \<times> string) list" where
  "labels_of db repo = map snd (filter (\<lambda>r. fst r = repo) (sel_labels db))"

definition resolve_repos_by_labels :: "selector_db \<Rightarrow> (string \<times> string) list \<Rightarrow> nat list app_result" where
  "resolve_repos_by_labels db labels =
     (if labels = [] then Inr []
      else sel_query db
        (filter (\<lambda>repo. list_all (\<lambda>l. l \<in> set (labels_of db repo)) labels) (remdups (map fst (sel_labels db)))))"

definition resolve_rows :: "selector_db \<Rightarrow> repo_selector \<Rightarrow> repo_row list app_result" where
  "resolve_rows db s =
     (if match_repos s \<noteq> [] then sel_query db (filter (\<lambda>r. rr_id r \<in> set (match_repos s)) (sel_repositories db))
      else result_bind (sel_query db (sort_by (by_column rr_key) (sel_repositories db))) (\<lambda>all.
        if match_labels s = [] \<and> match_formats s = [] \<and> match_pattern s = None then Inr []
        else
          (let all = (if match_formats s = [] then all
                      else filter (\<lambda>r. to_lowercase (rr_format r) \<in> set (map to_lowercase (match_formats s))) all);
               all = (case match_pattern s of
                        Some p \<Rightarrow> filter (\<lambda>r. sql_like_match (rr_key r) (map (\<lambda>c. if c = CHR ''*'' then CHR ''%'' else c) p)) all
                      | None \<Rightarrow> all)
           in if match_labels s = [] then Inr all
              else result_bind (resolve_repos_by_labels db (match_labels s))
                     (\<lambda>ids. Inr (filter (\<lambda>r. rr_id r \<in> set ids) all)))))"

record matched_repo =
  mr_id :: nat
  mr_key :: string
  mr_format :: string

definition resolve_selector :: "selector_db \<Rightarrow> repo_selector \<Rightarrow> matched_repo list app_result" where
  "resolve_selector db s =
     result_bind (resolve_rows db s) (\<lambda>rows. Inr (map (\<lambda>r. \<lparr>mr_id = rr_id r, mr_key = rr_key r, mr_format = rr_format r\<rparr>) rows))"

definition resolve_ids :: "selector_db \<Rightarrow> repo_selector \<Rightarrow> nat list app_result" where
  "resolve_ids db s = result_bind (resolve_rows db s) (\<lambda>rows. Inr (map rr_id rows))"

section \<open>The language of a pattern\<close>

inductive like_lang :: "string \<Rightarrow> string \<Rightarrow> bool" where
  nil: "like_lang [] []"
| gap: "like_lang p t \<Longrightarrow> like_lang (CHR ''%'' # p) (s @ t)"
| same: "like_lang p t \<Longrightarrow> c \<noteq> CHR ''%'' \<Longrightarrow> like_lang (c # p) (c # t)"

inductive_simps like_lang_Nil [simp]: "like_lang [] t"
inductive_cases like_lang_ConsE: "like_lang (c # p) t"

text \<open>The pieces after the first, each preceded by an arbitrary gap; the last one ends the text.\<close>

fun pieces_match :: "string list \<Rightarrow> string \<Rightarrow> bool" where
  "pieces_match [] w = (w = [])"
| "pieces_match [p] w = suffix p w"
| "pieces_match (p # q # ps) w = (\<exists>a b. w = a @ p @ b \<and> pieces_match (q # ps) b)"

lemma like_lang_same: "c \<noteq> CHR ''%'' \<Longrightarrow> like_lang (c # p) t \<longleftrightarrow> (\<exists>u. t = c # u \<and> like_lang p u)"
  by (auto elim: like_lang_ConsE intro: like_lang.intros)

lemma like_lang_gap: "like_lang (CHR ''%'' # p) t \<longleftrightarrow> (\<exists>s u. t = s @ u \<and> like_lang p u)"
proof
  assume "like_lang (CHR ''%'' # p) t"
  then show "\<exists>s u. t = s @ u \<and> like_lang p u" by cases auto
qed (auto intro: like_lang.intros)

lemma like_lang_literal: "CHR ''%'' \<notin> set x \<Longrightarrow> like_lang (x @ p) t \<longleftrightarrow> (\<exists>u. t = x @ u \<and> like_lang p u)"
  by (induction x arbitrary: t) (auto simp: like_lang_same)

lemma like_lang_pieces:
  "ps \<noteq> [] \<Longrightarrow> \<forall>x\<in>set ps. CHR ''%'' \<notin> set x \<Longrightarrow> like_lang (CHR ''%'' # join_with (CHR ''%'') ps) t \<longleftrightarrow> pieces_match ps t"
proof (induction ps t rule: pieces_match.induct)
  case (2 p w)
  then show ?case using like_lang_literal[of p "[]"] by (auto simp: like_lang_gap suffix_def)
next
  case (3 p q ps w)
  have IH: "like_lang (CHR ''%'' # join_with (CHR ''%'') (q # ps)) b \<longleftrightarrow> pieces_match (q # ps) b" for b
    using 3 by simp
  show ?case using "3.prems" like_lang_literal[of p] by (auto simp: like_lang_gap[of "p @ _"] IH) 
qed simp

lemma pieces_match_suffix: "pieces_match ps b \<Longrightarrow> suffix b w \<Longrightarrow> ps \<noteq> [] \<Longrightarrow> pieces_match ps w"
proof (induction ps b rule: pieces_match.induct)
  case (2 p b)
  then show ?case by (metis pieces_match.simps(2) suffix_order.trans)
next
  case (3 p q ps b)
  then obtain a b' z where "b = a @ p @ b'" "pieces_match (q # ps) b'" "w = z @ b" by (auto simp: suffix_def)
  then have "w = (z @ a) @ p @ b'" by simp
  then show ?case using \<open>pieces_match (q # ps) b'\<close> by (metis pieces_match.simps(3))
qed simp

lemma str_find_Some:
  "str_find p s = Some k \<Longrightarrow> \<exists>b. drop k s = p @ b \<and> k \<le> length s \<and> (\<forall>a c. s = a @ p @ c \<longrightarrow> suffix c b)"
proof (induction p s arbitrary: k rule: str_find.induct)
  case (1 p s)
  show ?case
  proof (cases "starts_with p s")
    case True
    then have "k = 0" using 1(2) by (simp add: str_find.simps)
    moreover obtain b where b: "s = p @ b" using True by (auto simp: prefix_def)
    moreover have "suffix c b" if "s = a @ p @ c" for a c
    proof -
      have "length c \<le> length b" using arg_cong[OF that, of length] b by simp
      moreover have "suffix c s" using that by (auto simp: suffix_def)
      moreover have "suffix b s" using b by (auto simp: suffix_def)
      ultimately show ?thesis using suffix_length_suffix by blast
    qed
    ultimately show ?thesis by auto
  next
    case False
    then obtain x cs j where s: "s = x # cs" "str_find p cs = Some j" "k = Suc j"
      using 1(2) by (auto simp: str_find.simps[of p s] split: list.splits)
    from 1(1)[OF False s(1,2)] obtain b where b: "drop j cs = p @ b" "j \<le> length cs" "\<forall>a c. cs = a @ p @ c \<longrightarrow> suffix c b" by blast
    have "suffix c b" if "s = a @ p @ c" for a c
      using that b(3) False s(1) by (cases a) auto
    then show ?thesis using b s by auto
  qed
qed

lemma str_find_None: "str_find p s = None \<Longrightarrow> s \<noteq> a @ p @ c"
proof (induction p s arbitrary: a rule: str_find.induct)
  case (1 p s)
  show ?case
  proof (cases a)
    case Nil
    then show ?thesis using 1(2) by (auto simp: str_find.simps[of p s] split: if_splits)
  next
    case (Cons x a')
    show ?thesis
    proof
      assume s: "s = a @ p @ c"
      have "\<not> starts_with p s" using 1(2) by (auto simp: str_find.simps[of p s] split: if_splits)
      moreover from this have "str_find p (a' @ p @ c) = None" using 1(2) Cons s str_find.simps[of p s] by simp
      ultimately show False using 1(1)[of x "a' @ p @ c" a'] Cons s by simp
    qed
  qed
qed

lemma like_loop_pieces:
  "parts \<noteq> [] \<Longrightarrow> 0 < i \<Longrightarrow> i + length parts = n \<Longrightarrow> like_loop value n i pos parts \<longleftrightarrow> pieces_match parts (drop pos value)"
proof (induction parts arbitrary: i pos)
  case (Cons part parts)
  show ?case
  proof (cases parts)
    case Nil
    then show ?thesis using Cons.prems by auto
  next
    case (Cons q qs)
    have i: "i \<noteq> n - 1" using Cons.prems \<open>parts = q # qs\<close> by simp
    have IH: "like_loop value n (i + 1) m parts \<longleftrightarrow> pieces_match parts (drop m value)" for m
      using Cons.IH[of "i + 1" m] Cons.prems \<open>parts = q # qs\<close> by simp
    show ?thesis
    proof (cases "part = []")
      case True
      then show ?thesis using IH[of pos] \<open>parts = q # qs\<close> pieces_match_suffix[of parts] by (auto simp: suffix_def)
    next
      case False
      show ?thesis
      proof (cases "str_find part (drop pos value)")
        case None
        then show ?thesis using False i \<open>0 < i\<close> \<open>parts = q # qs\<close> str_find_None[OF None] by auto
      next
        case (Some k)
        from str_find_Some[OF this] obtain b where b: "drop k (drop pos value) = part @ b"
          "\<forall>a c. drop pos value = a @ part @ c \<longrightarrow> suffix c b" by blast
        have "drop (pos + (k + length part)) value = b"
          using arg_cong[OF b(1), of "drop (length part)"] by (simp add: add_ac)
        moreover have "drop pos value = take k (drop pos value) @ part @ b" using b(1) by (metis append_take_drop_id)
        moreover have "pieces_match parts c \<Longrightarrow> drop pos value = a @ part @ c \<Longrightarrow> pieces_match parts b" for a c
          using b(2) pieces_match_suffix[of parts c b] \<open>parts = q # qs\<close> by blast
        ultimately have "pieces_match parts b \<longleftrightarrow> pieces_match (part # parts) (drop pos value)"
          unfolding \<open>parts = q # qs\<close> pieces_match.simps(3) by blast
        then show ?thesis
          using Some False i \<open>0 < i\<close> IH \<open>drop (pos + (k + length part)) value = b\<close> by simp
      qed
    qed
  qed
qed simp

lemma sql_like_match_lang: "sql_like_match value pattern \<longleftrightarrow> like_lang pattern value"
proof -
  obtain p ps where parts: "split_chars ''%'' pattern = p # ps" by (cases "split_chars ''%'' pattern") auto
  have clean: "CHR ''%'' \<notin> set x" if "x \<in> set (p # ps)" for x
    using split_chars_no_sep[of x "''%''" pattern] that parts by auto
  have join: "pattern = join_with (CHR ''%'') (p # ps)" using join_split[of "CHR ''%''" pattern] parts by simp
  show ?thesis
  proof (cases "ps = []")
    case True
    then show ?thesis using parts join clean like_lang_literal[of p "[]" "value"] by (auto simp: sql_like_match_def)
  next
    case False
    have "like_loop value n (Suc 0) m ps \<longleftrightarrow> pieces_match ps (drop m value)" if "n = Suc (length ps)" for n m
      using like_loop_pieces[of ps "Suc 0" n "value" m] False that by simp
    then show ?thesis
      using parts join False clean like_lang_literal[of p "CHR ''%'' # join_with (CHR ''%'') ps" "value"] like_lang_pieces[of ps]
      by (auto simp: sql_like_match_def join_with_Cons prefix_def)
  qed
qed

section \<open>Properties\<close>

text \<open>The name matcher, which takes the leftmost occurrence of each piece, accepts exactly the
  names the pattern denotes: every percent sign stands for any sequence and every other character
  for itself.\<close>

lemma sql_like_match_correct: "sql_like_match value pattern \<longleftrightarrow> like_lang pattern value"
  by (rule sql_like_match_lang)

text \<open>What a selector selects. When no repository is named, it selects exactly the repositories
  whose format is one of its formats, whose name its pattern denotes and that carry all of its
  labels, each criterion only where it is present; a selector without any criterion selects nothing,
  and an outage is an error.\<close>

lemma selector_semantics:
  assumes "match_repos s = []"
  shows "(sel_outage db = Some e \<longrightarrow> resolve_ids db s = Inl (Database e))
     \<and> (sel_outage db = None \<longrightarrow> selector_is_empty s \<longrightarrow> resolve_ids db s = Inr [])
     \<and> (sel_outage db = None \<longrightarrow> \<not> selector_is_empty s \<longrightarrow> (\<exists>ids. resolve_ids db s = Inr ids \<and>
          set ids = {rr_id r |r. r \<in> set (sel_repositories db)
             \<and> (match_formats s = [] \<or> to_lowercase (rr_format r) \<in> to_lowercase ` set (match_formats s))
             \<and> (\<forall>p. match_pattern s = Some p \<longrightarrow> like_lang (map (\<lambda>c. if c = CHR ''*'' then CHR ''%'' else c) p) (rr_key r))
             \<and> (\<forall>l\<in>set (match_labels s). (rr_id r, l) \<in> set (sel_labels db))}))"
proof -
  have labels: "set (filter (\<lambda>repo. list_all (\<lambda>l. l \<in> set (labels_of db repo)) ls) (remdups (map fst (sel_labels db))))
      = {i. \<forall>l\<in>set ls. (i, l) \<in> set (sel_labels db)}" if "ls \<noteq> []" for ls
    using that by (auto simp: labels_of_def list_all_iff neq_Nil_conv image_iff) force+
  show ?thesis
  proof (cases "match_labels s = []")
    case True
    then show ?thesis using assms
      by (auto simp: resolve_ids_def resolve_rows_def sel_query_def selector_is_empty_def Let_def sql_like_match_lang split: option.splits)
  next
    case False
    then show ?thesis using assms
      by (auto simp: resolve_ids_def resolve_rows_def resolve_repos_by_labels_def sel_query_def selector_is_empty_def Let_def
          sql_like_match_lang labels[OF False, simplified] split: option.splits)
  qed
qed

definition demo_selector_db :: selector_db where
  "demo_selector_db = \<lparr>sel_repositories = [\<lparr>rr_id = 1, rr_key = ''libs-a'', rr_format = ''npm''\<rparr>, \<lparr>rr_id = 2, rr_key = ''apps'', rr_format = ''Maven''\<rparr>],
     sel_labels = [(2, ''team'', ''core'')], sel_outage = None\<rparr>"

lemma selector_semantics_witness:
  "\<exists>ids. resolve_ids demo_selector_db (selector_default\<lparr>match_formats := [''maven'']\<rparr>) = Inr ids \<and> set ids = {2}"
proof -
  have "to_lowercase ''maven'' = ''maven''" "to_lowercase ''Maven'' = ''maven''" "to_lowercase ''npm'' = ''npm''" by code_simp+
  then show ?thesis
    using selector_semantics[of "selector_default\<lparr>match_formats := [''maven'']\<rparr>" demo_selector_db]
    by (auto simp: selector_default_def selector_is_empty_def demo_selector_db_def)
      (rule exI[of _ "\<lparr>rr_id = 2, rr_key = ''apps'', rr_format = ''Maven''\<rparr>"], simp)
qed

text \<open>Named repositories switch every other criterion off.\<close>

lemma named_repositories_skip_filters:
  assumes "match_repos s \<noteq> []" and "sel_outage db = None"
  shows "resolve_ids db s = Inr (map rr_id (filter (\<lambda>r. rr_id r \<in> set (match_repos s)) (sel_repositories db)))"
  using assms by (simp add: resolve_ids_def resolve_rows_def sel_query_def)

end
