(* ===== verification/Api_Token.thy ===== *)
theory Api_Token
  imports Repo_Gate Repo_Selector
begin

text \<open>
  API tokens: their validation with the in-memory cache, the revocation marks and the user
  invalidations (services/auth_service.rs), and the operations of the token service
  (services/token_service.rs). SHA-256, bcrypt, the random token and the row id are parameters. One
  clock, in milliseconds, gives the instants of the process and the timestamps of the database.
  Shows that a revoked token never authenticates again and how stale a cached validation can be.
\<close>

section \<open>Tables and memory\<close>

text \<open>The selector column holds NULL, JSON that is not a selector, or a selector.\<close>

record api_token =
  at_id :: nat
  at_user :: nat
  at_name :: string
  at_hash :: string
  at_prefix :: string
  at_scopes :: "string list"
  at_expires_at :: "int option"
  at_last_used_at :: "int option"
  at_created_at :: int
  at_repo_selector :: "repo_selector option option"
  at_revoked_at :: "int option"

record auth_db =
  db_tokens :: "api_token list"
  db_token_repos :: "(nat \<times> nat) list"
  db_users :: "user list"
  db_selectors :: selector_db
  db_outage :: "string option"

record cached_token =
  ce_validation :: token_validation
  ce_token_id :: nat
  ce_expires_at :: "int option"

record auth_mem =
  token_cache :: "string \<rightharpoonup> cached_token \<times> nat"
  revoked_tokens :: "nat \<rightharpoonup> nat"
  user_invalidations :: "nat \<rightharpoonup> nat"

record auth_prims =
  sha256_hex :: "string \<Rightarrow> string"
  verify_password :: "string \<Rightarrow> string \<Rightarrow> bool app_result"
  hash_password :: "string \<Rightarrow> string app_result"
  dummy_bcrypt_hash :: string

definition auth_query :: "auth_db \<Rightarrow> 'a \<Rightarrow> 'a app_result" where
  "auth_query db x = (case db_outage db of Some e \<Rightarrow> Inl (Database e) | None \<Rightarrow> Inr x)"

definition API_TOKEN_CACHE_TTL_SECS :: nat where "API_TOKEN_CACHE_TTL_SECS = 300"

definition elapsed_secs :: "nat \<Rightarrow> nat \<Rightarrow> nat" where
  "elapsed_secs now at = (now - at) div 1000"

definition retain_recent :: "nat \<Rightarrow> (nat \<rightharpoonup> nat) \<Rightarrow> (nat \<rightharpoonup> nat)" where
  "retain_recent now m =
     (\<lambda>k. case m k of Some at \<Rightarrow> if elapsed_secs now at < API_TOKEN_CACHE_TTL_SECS * 2 then Some at else None | None \<Rightarrow> None)"

definition mark_api_token_revoked :: "nat \<Rightarrow> nat \<Rightarrow> auth_mem \<Rightarrow> auth_mem" where
  "mark_api_token_revoked now i mem = mem\<lparr>revoked_tokens := retain_recent now ((revoked_tokens mem)(i \<mapsto> now))\<rparr>"

definition is_api_token_revoked_in_cache :: "auth_mem \<Rightarrow> nat \<Rightarrow> bool" where
  "is_api_token_revoked_in_cache mem i = (revoked_tokens mem i \<noteq> None)"

definition drop_user_entries :: "nat \<Rightarrow> (string \<rightharpoonup> cached_token \<times> nat) \<Rightarrow> (string \<rightharpoonup> cached_token \<times> nat)" where
  "drop_user_entries u cache =
     (\<lambda>k. case cache k of Some (e, at) \<Rightarrow> if usr_id (tv_user (ce_validation e)) \<noteq> u then Some (e, at) else None | None \<Rightarrow> None)"

definition invalidate_user_token_cache_entries :: "nat \<Rightarrow> nat \<Rightarrow> auth_mem \<Rightarrow> auth_mem" where
  "invalidate_user_token_cache_entries now u mem =
     mem\<lparr>user_invalidations := retain_recent now ((user_invalidations mem)(u \<mapsto> now)), token_cache := drop_user_entries u (token_cache mem)\<rparr>"

definition prune_stale_user_token_invalidations :: "nat \<Rightarrow> auth_mem \<Rightarrow> auth_mem" where
  "prune_stale_user_token_invalidations now mem = mem\<lparr>user_invalidations := retain_recent now (user_invalidations mem)\<rparr>"

definition flush_all_api_token_cache_entries :: "auth_mem \<Rightarrow> auth_mem" where
  "flush_all_api_token_cache_entries mem = mem\<lparr>token_cache := Map.empty\<rparr>"

definition flush_user_token_cache_entries :: "nat \<Rightarrow> auth_mem \<Rightarrow> auth_mem" where
  "flush_user_token_cache_entries u mem = mem\<lparr>token_cache := drop_user_entries u (token_cache mem)\<rparr>"

definition is_user_api_tokens_invalidated_after :: "auth_mem \<Rightarrow> nat \<Rightarrow> nat \<Rightarrow> bool" where
  "is_user_api_tokens_invalidated_after mem u cached_at =
     (case user_invalidations mem u of Some invalidated_at \<Rightarrow> cached_at \<le> invalidated_at | None \<Rightarrow> False)"

section \<open>Validation\<close>

definition check_token_validation_result :: "bool \<Rightarrow> bool \<Rightarrow> bool \<Rightarrow> unit app_result" where
  "check_token_validation_result token_exists is_revoked hash_matches =
     (if \<not> token_exists then Inl (Authentication ''Invalid API token'')
      else if is_revoked then Inl (Unauthorized ''Token has been revoked'')
      else if \<not> hash_matches then Inl (Authentication ''Invalid API token'')
      else Inr ())"

definition should_debounce_usage_update :: "nat \<Rightarrow> int option \<Rightarrow> bool" where
  "should_debounce_usage_update now last_used =
     (case last_used of None \<Rightarrow> True | Some lu \<Rightarrow> 5 * 60 * 1000 < int now - lu)"

definition expired_at :: "nat \<Rightarrow> int option \<Rightarrow> bool" where
  "expired_at now e = (case e of Some t \<Rightarrow> t < int now | None \<Rightarrow> False)"

definition token_repo_restriction :: "auth_db \<Rightarrow> api_token \<Rightarrow> nat list option app_result" where
  "token_repo_restriction db row =
     (case at_repo_selector row of
        Some json \<Rightarrow>
          (let selector = unwrap_or json selector_default in
           if selector_is_empty selector then Inr None
           else result_bind (resolve_ids (db_selectors db) selector) (\<lambda>ids. Inr (Some ids)))
      | None \<Rightarrow>
          result_bind (auth_query db (map snd (filter (\<lambda>r. fst r = at_id row) (db_token_repos db))))
            (\<lambda>ids. Inr (if ids = [] then None else Some ids)))"

text \<open>The row of a token that exists, is neither revoked nor expired and whose hash matches.\<close>

definition load_stored_token :: "auth_prims \<Rightarrow> nat \<Rightarrow> auth_db \<Rightarrow> string \<Rightarrow> api_token app_result" where
  "load_stored_token prims now db token =
     (if length token < 8 then Inl (Authentication ''Invalid API token'')
      else
        result_bind (auth_query db (find (\<lambda>r. at_prefix r = take 8 token) (db_tokens db))) (\<lambda>stored.
        result_bind (verify_password prims token (case stored of Some r \<Rightarrow> at_hash r | None \<Rightarrow> dummy_bcrypt_hash prims)) (\<lambda>hash_matches.
        result_bind (check_token_validation_result (stored \<noteq> None) (case stored of Some r \<Rightarrow> at_revoked_at r \<noteq> None | None \<Rightarrow> False) hash_matches) (\<lambda>_.
          (case stored of
             None \<Rightarrow> Inl (Authentication ''Invalid API token'')
           | Some row \<Rightarrow> if expired_at now (at_expires_at row) then Inl (Authentication ''API token expired'') else Inr row)))))"

definition complete_validation :: "auth_db \<Rightarrow> api_token \<Rightarrow> token_validation app_result" where
  "complete_validation db row =
     result_bind (auth_query db (find (\<lambda>u. usr_id u = at_user row \<and> usr_is_active u) (db_users db))) (\<lambda>found.
       (case found of
          None \<Rightarrow> Inl (Authentication ''User not found'')
        | Some u \<Rightarrow>
            result_bind (token_repo_restriction db row) (\<lambda>allowed.
              Inr \<lparr>tv_user = u, tv_scopes = at_scopes row, tv_allowed_repo_ids = scope_from allowed\<rparr>)))"

definition touch_token :: "nat \<Rightarrow> nat \<Rightarrow> auth_db \<Rightarrow> auth_db" where
  "touch_token now i db =
     db\<lparr>db_tokens := map (\<lambda>r. if at_id r = i \<and> should_debounce_usage_update now (at_last_used_at r) then r\<lparr>at_last_used_at := Some (int now)\<rparr> else r) (db_tokens db)\<rparr>"

definition cache_validation :: "nat \<Rightarrow> string \<Rightarrow> token_validation \<Rightarrow> api_token \<Rightarrow> auth_mem \<Rightarrow> auth_mem" where
  "cache_validation now key v row mem =
     mem\<lparr>token_cache :=
       (\<lambda>k. case token_cache mem k of
              Some (e, at) \<Rightarrow> if elapsed_secs now at < API_TOKEN_CACHE_TTL_SECS then Some (e, at) else None
            | None \<Rightarrow> None)
         (key \<mapsto> (\<lparr>ce_validation = v, ce_token_id = at_id row, ce_expires_at = at_expires_at row\<rparr>, now))\<rparr>"

definition fresh_token_entry :: "nat \<Rightarrow> auth_mem \<Rightarrow> string \<Rightarrow> (cached_token \<times> nat) option" where
  "fresh_token_entry now mem key =
     (case token_cache mem key of
        Some (e, at) \<Rightarrow> if elapsed_secs now at < API_TOKEN_CACHE_TTL_SECS then Some (e, at) else None
      | None \<Rightarrow> None)"

definition validate_api_token_svc ::
  "auth_prims \<Rightarrow> nat \<Rightarrow> auth_db \<Rightarrow> auth_mem \<Rightarrow> string \<Rightarrow> token_validation app_result \<times> auth_db \<times> auth_mem" where
  "validate_api_token_svc prims now db mem token =
     (let key = sha256_hex prims token in
      case fresh_token_entry now mem key of
        Some (e, at) \<Rightarrow>
          (if is_api_token_revoked_in_cache mem (ce_token_id e) then Inl (Unauthorized ''Token has been revoked'')
           else if expired_at now (ce_expires_at e) then Inl (Authentication ''API token expired'')
           else if is_user_api_tokens_invalidated_after mem (usr_id (tv_user (ce_validation e))) at
             then Inl (Authentication ''User account is deactivated'')
           else Inr (ce_validation e), db, mem)
      | None \<Rightarrow>
          (case load_stored_token prims now db token of
             Inl e \<Rightarrow> (Inl e, db, mem)
           | Inr row \<Rightarrow>
               (let db' = touch_token now (at_id row) db in
                case complete_validation db row of
                  Inl e \<Rightarrow> (Inl e, db', mem)
                | Inr v \<Rightarrow> (Inr v, db', cache_validation now key v row mem))))"

section \<open>Issuing and revoking\<close>

definition days_ms :: "int \<Rightarrow> int" where
  "days_ms d = d * (24 * 60 * 60 * 1000)"

definition new_token_row :: "nat \<Rightarrow> string \<Rightarrow> string \<Rightarrow> nat \<Rightarrow> nat \<Rightarrow> string \<Rightarrow> string list \<Rightarrow> int option \<Rightarrow> api_token" where
  "new_token_row now h random_token new_id usr name scps expires_in_days =
     \<lparr>at_id = new_id, at_user = usr, at_name = name, at_hash = h, at_prefix = take 8 random_token, at_scopes = scps,
      at_expires_at = map_option (\<lambda>d. int now + days_ms (max 1 (min 3650 d))) expires_in_days, at_last_used_at = None,
      at_created_at = int now, at_repo_selector = None, at_revoked_at = None\<rparr>"

definition generate_api_token ::
  "auth_prims \<Rightarrow> nat \<Rightarrow> auth_db \<Rightarrow> string \<Rightarrow> nat \<Rightarrow> nat \<Rightarrow> string \<Rightarrow> string list \<Rightarrow> int option \<Rightarrow> (string \<times> nat) app_result \<times> auth_db" where
  "generate_api_token prims now db random_token new_id usr name scps expires_in_days =
     (if 50 < length scps then (Inl (Validation ''Too many scopes (max 50)''), db)
      else if list_ex (\<lambda>s. 256 < length s) scps then (Inl (Validation ''Scope name too long (max 256 characters)''), db)
      else (case validate_scopes_pure scps of
              Inl m \<Rightarrow> (Inl (Validation m), db)
            | Inr _ \<Rightarrow>
                (case hash_password prims random_token of
                   Inl e \<Rightarrow> (Inl e, db)
                 | Inr h \<Rightarrow>
                     (case auth_query db (db_tokens db @ [new_token_row now h random_token new_id usr name scps expires_in_days]) of
                        Inl e \<Rightarrow> (Inl e, db)
                      | Inr ts \<Rightarrow> (Inr (random_token, new_id), db\<lparr>db_tokens := ts\<rparr>)))))"

definition revoke_rows :: "nat \<Rightarrow> (api_token \<Rightarrow> bool) \<Rightarrow> api_token list \<Rightarrow> api_token list" where
  "revoke_rows now sel ts = map (\<lambda>r. if sel r \<and> at_revoked_at r = None then r\<lparr>at_revoked_at := Some (int now)\<rparr> else r) ts"

definition revoke_api_token :: "nat \<Rightarrow> auth_db \<Rightarrow> auth_mem \<Rightarrow> nat \<Rightarrow> nat \<Rightarrow> unit app_result \<times> auth_db \<times> auth_mem" where
  "revoke_api_token now db mem i usr =
     (case auth_query db (revoke_rows now (\<lambda>r. at_id r = i \<and> at_user r = usr) (db_tokens db)) of
        Inl e \<Rightarrow> (Inl e, db, mem)
      | Inr ts \<Rightarrow>
          if \<not> list_ex (\<lambda>r. at_id r = i \<and> at_user r = usr \<and> at_revoked_at r = None) (db_tokens db)
          then (Inl (NotFound ''API token not found''), db, mem)
          else (Inr (), db\<lparr>db_tokens := ts\<rparr>, mark_api_token_revoked now i mem))"

section \<open>The token service\<close>

definition create_token ::
  "auth_prims \<Rightarrow> nat \<Rightarrow> auth_db \<Rightarrow> string \<Rightarrow> nat \<Rightarrow> nat \<Rightarrow> string \<Rightarrow> string list \<Rightarrow> int option \<Rightarrow> (string \<times> nat) app_result \<times> auth_db" where
  "create_token prims now db random_token new_id usr name scps expires_in_days =
     (case validate_scopes_pure scps of
        Inl m \<Rightarrow> (Inl (Validation m), db)
      | Inr _ \<Rightarrow>
          if (case expires_in_days of Some d \<Rightarrow> \<not> (1 \<le> d \<and> d \<le> 365) | None \<Rightarrow> False)
          then (Inl (Validation ''Token expiration must be between 1 and 365 days''), db)
          else generate_api_token prims now db random_token new_id usr name scps expires_in_days)"

record token_info =
  ti_id :: nat
  ti_user :: nat
  ti_name :: string
  ti_prefix :: string
  ti_scopes :: "string list"
  ti_expires_at :: "int option"
  ti_last_used_at :: "int option"
  ti_created_at :: int
  ti_is_expired :: bool
  ti_is_revoked :: bool
  ti_revoked_at :: "int option"

definition token_info_from :: "nat \<Rightarrow> api_token \<Rightarrow> token_info" where
  "token_info_from now t =
     \<lparr>ti_id = at_id t, ti_user = at_user t, ti_name = at_name t, ti_prefix = at_prefix t, ti_scopes = at_scopes t,
      ti_expires_at = at_expires_at t, ti_last_used_at = at_last_used_at t, ti_created_at = at_created_at t,
      ti_is_expired = is_token_expired (int now) (at_expires_at t), ti_is_revoked = is_token_revoked (at_revoked_at t),
      ti_revoked_at = at_revoked_at t\<rparr>"

definition list_tokens :: "nat \<Rightarrow> auth_db \<Rightarrow> nat \<Rightarrow> token_info list app_result" where
  "list_tokens now db usr =
     auth_query db (map (token_info_from now)
       (sort_by (by_column_desc at_created_at) (filter (\<lambda>t. at_user t = usr \<and> at_revoked_at t = None) (db_tokens db))))"

definition get_token :: "nat \<Rightarrow> auth_db \<Rightarrow> nat \<Rightarrow> nat \<Rightarrow> token_info app_result" where
  "get_token now db i usr =
     result_bind (auth_query db (find (\<lambda>t. at_id t = i \<and> at_user t = usr) (db_tokens db)))
       (\<lambda>t. case t of Some r \<Rightarrow> Inr (token_info_from now r) | None \<Rightarrow> Inl (NotFound ''API token not found''))"

definition revoke_all_tokens :: "nat \<Rightarrow> auth_db \<Rightarrow> auth_mem \<Rightarrow> nat \<Rightarrow> nat app_result \<times> auth_db \<times> auth_mem" where
  "revoke_all_tokens now db mem usr =
     (case auth_query db (map at_id (filter (\<lambda>t. at_user t = usr \<and> at_revoked_at t = None) (db_tokens db))) of
        Inl e \<Rightarrow> (Inl e, db, mem)
      | Inr ids \<Rightarrow>
          (Inr (length ids), db\<lparr>db_tokens := revoke_rows now (\<lambda>r. at_user r = usr) (db_tokens db)\<rparr>, fold (mark_api_token_revoked now) ids mem))"

text \<open>The details of a valid token are read by its prefix; the service validates with an empty cache.\<close>

definition validate_token :: "auth_prims \<Rightarrow> nat \<Rightarrow> auth_db \<Rightarrow> auth_mem \<Rightarrow> string \<Rightarrow> (nat \<times> string list \<times> int option) app_result \<times> auth_db" where
  "validate_token prims now db mem token =
     (case validate_api_token_svc prims now db (mem\<lparr>token_cache := Map.empty\<rparr>) token of
        (Inl e, db', _) \<Rightarrow> (Inl e, db')
      | (Inr v, db', _) \<Rightarrow>
          (case (if 8 \<le> length token then find (\<lambda>r. at_prefix r = take 8 token) (db_tokens db') else None) of
             Some r \<Rightarrow>
               (Inr (usr_id (tv_user v), at_scopes r,
                  Option.bind (at_expires_at r) (\<lambda>e. let s = sgn (e - int now) * (\<bar>e - int now\<bar> div 1000) in if 0 < s then Some s else None)), db')
           | None \<Rightarrow> (Inr (usr_id (tv_user v), [], None), db')))"

definition token_has_scope :: "auth_db \<Rightarrow> string \<Rightarrow> string \<Rightarrow> bool app_result" where
  "token_has_scope db token required =
     (if length token < 8 then Inl (Authentication ''Invalid token format'')
      else result_bind (auth_query db (find (\<lambda>r. at_prefix r = take 8 token) (db_tokens db)))
             (\<lambda>r. case r of Some row \<Rightarrow> Inr (scopes_grant_access (at_scopes row) required) | None \<Rightarrow> Inl (Authentication ''Invalid token'')))"

definition cleanup_expired_tokens :: "nat \<Rightarrow> auth_db \<Rightarrow> nat app_result \<times> auth_db" where
  "cleanup_expired_tokens now db =
     (case auth_query db (filter (\<lambda>t. \<not> expired_at now (at_expires_at t)) (db_tokens db)) of
        Inl e \<Rightarrow> (Inl e, db)
      | Inr ts \<Rightarrow> (Inr (length (db_tokens db) - length ts), db\<lparr>db_tokens := ts\<rparr>))"

record token_stats =
  ts_total :: nat
  ts_expired :: nat
  ts_used_last_24h :: nat
  ts_never_used :: nat

definition get_token_stats :: "nat \<Rightarrow> auth_db \<Rightarrow> nat \<Rightarrow> token_stats app_result" where
  "get_token_stats now db usr =
     (let mine = filter (\<lambda>t. at_user t = usr) (db_tokens db) in
      auth_query db \<lparr>ts_total = length mine, ts_expired = length (filter (\<lambda>t. expired_at now (at_expires_at t)) mine),
        ts_used_last_24h = length (filter (\<lambda>t. case at_last_used_at t of Some u \<Rightarrow> int now - days_ms 1 < u | None \<Rightarrow> False) mine),
        ts_never_used = length (filter (\<lambda>t. at_last_used_at t = None) mine)\<rparr>)"

section \<open>Runs of one replica\<close>

text \<open>
  The steps of a replica that concern the token \<open>t\<close> with row \<open>i\<close>: every operation above, the clock,
  and changes of the other tables by anyone. A row id and a token prefix are never issued twice.
\<close>

type_synonym replica = "nat \<times> auth_db \<times> auth_mem"

inductive token_step :: "auth_prims \<Rightarrow> nat \<Rightarrow> string \<Rightarrow> replica \<Rightarrow> replica \<Rightarrow> bool" for prims i t where
  tick: "now \<le> now' \<Longrightarrow> token_step prims i t (now, db, mem) (now', db, mem)"
| validate: "validate_api_token_svc prims now db mem tok = (r, db', mem') \<Longrightarrow> token_step prims i t (now, db, mem) (now, db', mem')"
| issue: "generate_api_token prims now db tok new usr name scps days = (r, db') \<Longrightarrow> new \<notin> insert i (at_id ` set (db_tokens db))
    \<Longrightarrow> take 8 tok \<noteq> take 8 t \<Longrightarrow> token_step prims i t (now, db, mem) (now, db', mem)"
| revoke: "revoke_api_token now db mem j usr = (r, db', mem') \<Longrightarrow> token_step prims i t (now, db, mem) (now, db', mem')"
| revoke_all: "revoke_all_tokens now db mem usr = (r, db', mem') \<Longrightarrow> token_step prims i t (now, db, mem) (now, db', mem')"
| cleanup: "cleanup_expired_tokens now db = (r, db') \<Longrightarrow> token_step prims i t (now, db, mem) (now, db', mem)"
| invalidate: "token_step prims i t (now, db, mem) (now, db, invalidate_user_token_cache_entries now usr mem)"
| prune: "token_step prims i t (now, db, mem) (now, db, prune_stale_user_token_invalidations now mem)"
| flush: "token_step prims i t (now, db, mem) (now, db, flush_all_api_token_cache_entries mem)"
| flush_user: "token_step prims i t (now, db, mem) (now, db, flush_user_token_cache_entries usr mem)"
| admin: "db_tokens db' = db_tokens db \<Longrightarrow> token_step prims i t (now, db, mem) (now, db', mem)"

abbreviation token_run :: "auth_prims \<Rightarrow> nat \<Rightarrow> string \<Rightarrow> replica \<Rightarrow> replica \<Rightarrow> bool" where
  "token_run prims i t \<equiv> (token_step prims i t)\<^sup>*\<^sup>*"

text \<open>Ids are keys, and only row \<open>i\<close> has the prefix of \<open>t\<close>.\<close>

definition rows_ok :: "nat \<Rightarrow> string \<Rightarrow> api_token list \<Rightarrow> bool" where
  "rows_ok i t ts \<longleftrightarrow> distinct (map at_id ts) \<and> (\<forall>r\<in>set ts. at_prefix r = take 8 t \<longrightarrow> at_id r = i)"

definition entry_ok :: "auth_prims \<Rightarrow> nat \<Rightarrow> string \<Rightarrow> nat \<Rightarrow> auth_mem \<Rightarrow> bool" where
  "entry_ok prims i t bound mem \<longleftrightarrow> (\<forall>e at. token_cache mem (sha256_hex prims t) = Some (e, at) \<longrightarrow> ce_token_id e = i \<and> at \<le> bound)"

text \<open>Dead since \<open>r\<close>: revoked in the table, cached before at the latest, and marked as long as the cache could answer.\<close>

definition dead_since :: "auth_prims \<Rightarrow> nat \<Rightarrow> string \<Rightarrow> nat \<Rightarrow> replica \<Rightarrow> bool" where
  "dead_since prims i t r s \<longleftrightarrow> (case s of (now, db, mem) \<Rightarrow>
     r \<le> now \<and> (\<forall>row\<in>set (db_tokens db). at_prefix row = take 8 t \<longrightarrow> at_revoked_at row \<noteq> None) \<and> entry_ok prims i t r mem
     \<and> ((\<exists>m\<ge>r. revoked_tokens mem i = Some m) \<or> 600000 \<le> now - r))"

lemma retain_recent_kept:
  "m i = Some a \<Longrightarrow> r \<le> a \<Longrightarrow> (\<exists>b\<ge>r. retain_recent now m i = Some b) \<or> 600000 \<le> now - r"
  by (auto simp: retain_recent_def elapsed_secs_def API_TOKEN_CACHE_TTL_SECS_def)

lemma marks_kept:
  assumes "(\<exists>m\<ge>r. revoked_tokens mem i = Some m) \<or> 600000 \<le> now - r" and "r \<le> now"
  shows "(\<exists>m\<ge>r. revoked_tokens (mark_api_token_revoked now j mem) i = Some m) \<or> 600000 \<le> now - r"
  using assms retain_recent_kept[of "(revoked_tokens mem)(j \<mapsto> now)" i _ r now]
  by (cases "i = j") (auto simp: mark_api_token_revoked_def)

lemma marks_kept_fold:
  "(\<exists>m\<ge>r. revoked_tokens mem i = Some m) \<or> 600000 \<le> now - r \<Longrightarrow> r \<le> now \<Longrightarrow>
   (\<exists>m\<ge>r. revoked_tokens (fold (mark_api_token_revoked now) ids mem) i = Some m) \<or> 600000 \<le> now - r"
proof (induction ids arbitrary: mem)
  case (Cons j ids)
  show ?case using Cons.IH[OF marks_kept[OF Cons.prems] Cons.prems(2)] by simp
qed simp

lemma cache_mark [simp]: "token_cache (mark_api_token_revoked now j mem) = token_cache mem"
  by (simp add: mark_api_token_revoked_def)

lemma cache_mark_fold [simp]: "token_cache (fold (mark_api_token_revoked now) ids mem) = token_cache mem"
  by (induction ids arbitrary: mem) auto

lemma auth_query_Inr [simp]: "auth_query db x = Inr y \<longleftrightarrow> db_outage db = None \<and> x = y"
  by (auto simp: auth_query_def split: option.splits)

lemma load_stored_token_Inr:
  "load_stored_token prims now db tok = Inr row \<Longrightarrow>
     row \<in> set (db_tokens db) \<and> at_prefix row = take 8 tok \<and> at_revoked_at row = None \<and> \<not> expired_at now (at_expires_at row)"
  by (auto simp: load_stored_token_def check_token_validation_result_def find_Some_iff split: if_splits option.splits)

text \<open>The tokens table after a step: rows keep their key and their revocation, or are new or deleted.\<close>

definition table_step :: "string \<Rightarrow> nat \<Rightarrow> api_token list \<Rightarrow> api_token list \<Rightarrow> bool" where
  "table_step t i ts ts' \<longleftrightarrow> (rows_ok i t ts \<longrightarrow> rows_ok i t ts')
     \<and> (\<forall>r'\<in>set ts'. at_prefix r' = take 8 t \<longrightarrow> (\<exists>r\<in>set ts. at_prefix r = take 8 t \<and> (at_revoked_at r \<noteq> None \<longrightarrow> at_revoked_at r' \<noteq> None)))"

lemma table_step_refl [simp]: "table_step t i ts ts"
  by (auto simp: table_step_def)

lemma table_step_map:
  assumes "\<And>r. at_id (f r) = at_id r \<and> at_prefix (f r) = at_prefix r \<and> (at_revoked_at r \<noteq> None \<longrightarrow> at_revoked_at (f r) \<noteq> None)"
  shows "table_step t i ts (map f ts)"
  using assms by (auto simp: table_step_def rows_ok_def comp_def)

lemma table_step_filter: "table_step t i ts (filter P ts)"
  by (auto simp: table_step_def rows_ok_def distinct_map_filter)

lemma table_step_snoc: "at_id row \<notin> at_id ` set ts \<Longrightarrow> at_prefix row \<noteq> take 8 t \<Longrightarrow> table_step t i ts (ts @ [row])"
  by (auto simp: table_step_def rows_ok_def)

lemma validate_parts:
  assumes "validate_api_token_svc prims now db mem tok = (r, db', mem')"
  shows "table_step t i (db_tokens db) (db_tokens db')" and "revoked_tokens mem' = revoked_tokens mem"
    and "mem' = mem \<or> (\<exists>row v. load_stored_token prims now db tok = Inr row \<and> mem' = cache_validation now (sha256_hex prims tok) v row mem)"
proof -
  have touch: "table_step t i (db_tokens db) (db_tokens (touch_token now j db))" for j
    unfolding touch_token_def by (simp add: table_step_map)
  show "table_step t i (db_tokens db) (db_tokens db')" "revoked_tokens mem' = revoked_tokens mem"
    "mem' = mem \<or> (\<exists>row v. load_stored_token prims now db tok = Inr row \<and> mem' = cache_validation now (sha256_hex prims tok) v row mem)"
    using assms touch by (auto simp: validate_api_token_svc_def cache_validation_def Let_def split: option.splits prod.splits sum.splits)
qed

text \<open>What a step does to the table, to the entry of \<open>t\<close> and to the mark of \<open>i\<close>.\<close>

lemma token_step_frame:
  assumes "token_step prims i t (now, db, mem) (now', db', mem')" and "inj (sha256_hex prims)"
  shows "now \<le> now'" and "table_step t i (db_tokens db) (db_tokens db')"
    and "token_cache mem' (sha256_hex prims t) \<in> {token_cache mem (sha256_hex prims t), None}
      \<or> (\<exists>e row. token_cache mem' (sha256_hex prims t) = Some (e, now) \<and> load_stored_token prims now db t = Inr row \<and> ce_token_id e = at_id row)"
    and "(\<exists>m\<ge>r. revoked_tokens mem i = Some m) \<or> 600000 \<le> now - r \<Longrightarrow> r \<le> now
      \<Longrightarrow> (\<exists>m\<ge>r. revoked_tokens mem' i = Some m) \<or> 600000 \<le> now' - r"
proof -
  let ?key = "sha256_hex prims t"
  have "now \<le> now' \<and> table_step t i (db_tokens db) (db_tokens db') \<and>
     (token_cache mem' ?key \<in> {token_cache mem ?key, None}
      \<or> (\<exists>e row. token_cache mem' ?key = Some (e, now) \<and> load_stored_token prims now db t = Inr row \<and> ce_token_id e = at_id row))
     \<and> ((\<exists>m\<ge>r. revoked_tokens mem i = Some m) \<or> 600000 \<le> now - r \<longrightarrow> r \<le> now
        \<longrightarrow> (\<exists>m\<ge>r. revoked_tokens mem' i = Some m) \<or> 600000 \<le> now' - r)"
    using assms(1)
  proof cases
    case (validate tok res)
    note parts = validate_parts[OF validate(2)]
    have "token_cache mem' ?key \<in> {token_cache mem ?key, None}
      \<or> (\<exists>e row. token_cache mem' ?key = Some (e, now) \<and> load_stored_token prims now db t = Inr row \<and> ce_token_id e = at_id row)"
    proof (cases "mem' = mem")
      case False
      then obtain row v where row: "load_stored_token prims now db tok = Inr row" "mem' = cache_validation now (sha256_hex prims tok) v row mem"
        using parts(3) by blast
      show ?thesis
      proof (cases "tok = t")
        case True
        then show ?thesis using row by (auto simp: cache_validation_def)
      next
        case neq: False
        then have "?key \<noteq> sha256_hex prims tok" using assms(2) by (auto dest: injD)
        then show ?thesis using row by (auto simp: cache_validation_def split: option.splits prod.splits)
      qed
    qed simp
    then show ?thesis using parts(1,2) validate(1) by simp
  next
    case (issue tok new usr name scps days res)
    have "db' = db \<or> (\<exists>h. db' = db\<lparr>db_tokens := db_tokens db @ [new_token_row now h tok new usr name scps days]\<rparr>)"
      using issue(3) by (auto simp: generate_api_token_def split: if_splits sum.splits)
    moreover have "table_step t i (db_tokens db) (db_tokens db @ [new_token_row now h tok new usr name scps days])" for h
      using issue by (intro table_step_snoc) (auto simp: new_token_row_def)
    ultimately show ?thesis using issue by auto
  next
    case (revoke j usr res)
    then have "(db', mem') = (db, mem) \<or> (db' = db\<lparr>db_tokens := revoke_rows now (\<lambda>r. at_id r = j \<and> at_user r = usr) (db_tokens db)\<rparr> \<and> mem' = mark_api_token_revoked now j mem)"
      by (auto simp: revoke_api_token_def split: if_splits sum.splits)
    moreover have "table_step t i (db_tokens db) (revoke_rows now P (db_tokens db))" for P
      unfolding revoke_rows_def by (rule table_step_map) auto
    ultimately show ?thesis using revoke(1) marks_kept[of r mem i now j] by auto
  next
    case (revoke_all usr res)
    then have "(db', mem') = (db, mem) \<or> (\<exists>ids. db' = db\<lparr>db_tokens := revoke_rows now (\<lambda>r. at_user r = usr) (db_tokens db)\<rparr> \<and> mem' = fold (mark_api_token_revoked now) ids mem)"
      by (auto simp: revoke_all_tokens_def split: sum.splits)
    moreover have "table_step t i (db_tokens db) (revoke_rows now P (db_tokens db))" for P
      unfolding revoke_rows_def by (rule table_step_map) auto
    ultimately show ?thesis using revoke_all(1) marks_kept_fold[of r mem i now] by auto
  next
    case (cleanup res)
    then show ?thesis by (auto simp: cleanup_expired_tokens_def table_step_filter split: sum.splits)
  next
    case (invalidate usr)
    then show ?thesis by (auto simp: invalidate_user_token_cache_entries_def drop_user_entries_def split: option.splits prod.splits)
  next
    case prune
    then show ?thesis by (auto simp: prune_stale_user_token_invalidations_def)
  next
    case flush
    then show ?thesis by (auto simp: flush_all_api_token_cache_entries_def)
  next
    case (flush_user usr)
    then show ?thesis by (auto simp: flush_user_token_cache_entries_def drop_user_entries_def split: option.splits prod.splits)
  qed auto
  then show "now \<le> now'" "table_step t i (db_tokens db) (db_tokens db')"
    "token_cache mem' ?key \<in> {token_cache mem ?key, None}
      \<or> (\<exists>e row. token_cache mem' ?key = Some (e, now) \<and> load_stored_token prims now db t = Inr row \<and> ce_token_id e = at_id row)"
    "(\<exists>m\<ge>r. revoked_tokens mem i = Some m) \<or> 600000 \<le> now - r \<Longrightarrow> r \<le> now
      \<Longrightarrow> (\<exists>m\<ge>r. revoked_tokens mem' i = Some m) \<or> 600000 \<le> now' - r"
    by blast+
qed

definition known :: "auth_prims \<Rightarrow> nat \<Rightarrow> string \<Rightarrow> replica \<Rightarrow> bool" where
  "known prims i t s \<longleftrightarrow> (case s of (now, db, mem) \<Rightarrow> rows_ok i t (db_tokens db) \<and> entry_ok prims i t now mem)"

lemma known_step:
  assumes "token_step prims i t s s'" "inj (sha256_hex prims)" "known prims i t s"
  shows "known prims i t s'"
proof -
  obtain now db mem now' db' mem' where s: "s = (now, db, mem)" "s' = (now', db', mem')" by (metis prod_cases3)
  note f = token_step_frame[OF assms(1)[unfolded s] assms(2)]
  have "rows_ok i t (db_tokens db')" using f(2) assms(3) s by (auto simp: known_def table_step_def)
  moreover have "at_id row = i" if "load_stored_token prims now db t = Inr row" for row
    using load_stored_token_Inr[OF that] assms(3) s by (auto simp: known_def rows_ok_def)
  then have "entry_ok prims i t now' mem'" using f(1,3) assms(3) s by (fastforce simp: known_def entry_ok_def)
  ultimately show ?thesis by (simp add: known_def s)
qed

lemma dead_step:
  assumes "token_step prims i t s s'" "inj (sha256_hex prims)" "dead_since prims i t r s"
  shows "dead_since prims i t r s'"
proof -
  obtain now db mem now' db' mem' where s: "s = (now, db, mem)" "s' = (now', db', mem')" by (metis prod_cases3)
  note f = token_step_frame[OF assms(1)[unfolded s] assms(2)]
  have d: "r \<le> now" "\<forall>row\<in>set (db_tokens db). at_prefix row = take 8 t \<longrightarrow> at_revoked_at row \<noteq> None" "entry_ok prims i t r mem"
    "(\<exists>m\<ge>r. revoked_tokens mem i = Some m) \<or> 600000 \<le> now - r"
    using assms(3) s by (auto simp: dead_since_def)
  have "load_stored_token prims now db t \<noteq> Inr row" for row using load_stored_token_Inr[of prims now db t row] d(2) by auto
  then have "entry_ok prims i t r mem'" using f(3) d(3) by (fastforce simp: entry_ok_def)
  moreover have "\<forall>row\<in>set (db_tokens db'). at_prefix row = take 8 t \<longrightarrow> at_revoked_at row \<noteq> None"
    using f(2) d(2) unfolding table_step_def by blast
  ultimately show ?thesis using f(1) f(4)[OF d(4,1)] d(1) by (simp add: dead_since_def s)
qed

interpretation known_token: stable "token_step prims i t" "\<lambda>s. inj (sha256_hex prims) \<and> known prims i t s" for prims i t
  by unfold_locales (auto intro: known_step)

interpretation dead_token: stable "token_step prims i t" "\<lambda>s. inj (sha256_hex prims) \<and> dead_since prims i t r s" for prims i t r
  by unfold_locales (auto intro: dead_step)

lemma known_run: "token_run prims i t s s' \<Longrightarrow> inj (sha256_hex prims) \<Longrightarrow> known prims i t s \<Longrightarrow> known prims i t s'"
  using known_token.good_run by blast

lemma dead_run: "token_run prims i t s s' \<Longrightarrow> inj (sha256_hex prims) \<Longrightarrow> dead_since prims i t r s \<Longrightarrow> dead_since prims i t r s'"
  using dead_token.good_run by blast

lemma dead_refused:
  assumes "dead_since prims i t r (now, db, mem)"
  shows "\<exists>e. fst (validate_api_token_svc prims now db mem t) = Inl e"
proof (cases "fresh_token_entry now mem (sha256_hex prims t)")
  case None
  have "load_stored_token prims now db t \<noteq> Inr row" for row
    using load_stored_token_Inr[of prims now db t row] assms by (auto simp: dead_since_def)
  then show ?thesis using None by (auto simp: validate_api_token_svc_def Let_def split: sum.splits)
next
  case (Some ea)
  then obtain e at where e: "ea = (e, at)" "token_cache mem (sha256_hex prims t) = Some (e, at)" "now - at < 300000"
    by (auto simp: fresh_token_entry_def elapsed_secs_def API_TOKEN_CACHE_TTL_SECS_def split: option.splits if_splits)
  then have "ce_token_id e = i" "at \<le> r" using assms by (auto simp: dead_since_def entry_ok_def)
  moreover have "revoked_tokens mem i \<noteq> None" using assms e(3) \<open>at \<le> r\<close> by (auto simp: dead_since_def)
  ultimately show ?thesis using Some e(1) by (simp add: validate_api_token_svc_def is_api_token_revoked_in_cache_def)
qed

lemma revoke_kills:
  assumes "known prims i t (now, db, mem)" and "revoke_api_token now db mem i usr = (Inr (), db', mem')"
  shows "dead_since prims i t now (now, db', mem')"
proof -
  have r: "list_ex (\<lambda>r. at_id r = i \<and> at_user r = usr \<and> at_revoked_at r = None) (db_tokens db)"
    "db' = db\<lparr>db_tokens := revoke_rows now (\<lambda>r. at_id r = i \<and> at_user r = usr) (db_tokens db)\<rparr>" "mem' = mark_api_token_revoked now i mem"
    using assms(2) by (auto simp: revoke_api_token_def split: if_splits sum.splits)
  obtain row where row: "row \<in> set (db_tokens db)" "at_id row = i" "at_user row = usr" using r(1) by (auto simp: list_ex_iff)
  have "x = row" if "x \<in> set (db_tokens db)" "at_prefix x = take 8 t" for x
    using that row assms(1) by (auto simp: known_def rows_ok_def distinct_map dest: inj_onD)
  then have "at_revoked_at x \<noteq> None" if x: "x \<in> set (db_tokens db')" and px: "at_prefix x = take 8 t" for x
  proof -
    obtain y where y: "y \<in> set (db_tokens db)" "x = (if (at_id y = i \<and> at_user y = usr) \<and> at_revoked_at y = None then y\<lparr>at_revoked_at := Some (int now)\<rparr> else y)"
      using x r(2) by (auto simp: revoke_rows_def)
    then have "at_prefix y = take 8 t" using px by (auto split: if_splits)
    then have "y = row" using \<open>\<And>x. x \<in> set (db_tokens db) \<Longrightarrow> at_prefix x = take 8 t \<Longrightarrow> x = row\<close> y(1) by blast
    then show ?thesis using y(2) row by (auto split: if_splits)
  qed
  moreover have "revoked_tokens mem' i = Some now"
    by (simp add: r(3) mark_api_token_revoked_def retain_recent_def elapsed_secs_def API_TOKEN_CACHE_TTL_SECS_def)
  ultimately show ?thesis using assms(1) by (auto simp: dead_since_def known_def r(3) entry_ok_def)
qed

section \<open>Staleness\<close>

text \<open>
  A replica whose cache is filled from a database that changes under it: \<open>hist\<close> gives the tables
  at every moment, whoever changed them.
\<close>

inductive cache_run :: "auth_prims \<Rightarrow> (nat \<Rightarrow> auth_db) \<Rightarrow> nat \<Rightarrow> auth_mem \<Rightarrow> bool" for prims hist where
  start: "token_cache mem = Map.empty \<Longrightarrow> cache_run prims hist now mem"
| tick: "cache_run prims hist now mem \<Longrightarrow> now \<le> now' \<Longrightarrow> cache_run prims hist now' mem"
| validate: "cache_run prims hist now mem \<Longrightarrow> validate_api_token_svc prims now (hist now) mem tok = (r, db', mem') \<Longrightarrow> cache_run prims hist now mem'"
| revoke: "cache_run prims hist now mem \<Longrightarrow> cache_run prims hist now (mark_api_token_revoked now j mem)"
| invalidate: "cache_run prims hist now mem \<Longrightarrow> cache_run prims hist now (invalidate_user_token_cache_entries now usr mem)"
| prune: "cache_run prims hist now mem \<Longrightarrow> cache_run prims hist now (prune_stale_user_token_invalidations now mem)"
| flush: "cache_run prims hist now mem \<Longrightarrow> cache_run prims hist now (flush_all_api_token_cache_entries mem)"

definition accepted :: "auth_prims \<Rightarrow> nat \<Rightarrow> auth_db \<Rightarrow> string \<Rightarrow> token_validation \<Rightarrow> api_token \<Rightarrow> bool" where
  "accepted prims now db t v row \<longleftrightarrow> load_stored_token prims now db t = Inr row \<and> complete_validation db row = Inr v"

definition cache_honest :: "auth_prims \<Rightarrow> (nat \<Rightarrow> auth_db) \<Rightarrow> nat \<Rightarrow> auth_mem \<Rightarrow> bool" where
  "cache_honest prims hist now mem \<longleftrightarrow> (\<forall>k e at. token_cache mem k = Some (e, at) \<longrightarrow> at \<le> now \<and>
     (\<exists>tok row. sha256_hex prims tok = k \<and> accepted prims at (hist at) tok (ce_validation e) row \<and> ce_expires_at e = at_expires_at row))"

lemma cache_honest_less:
  "cache_honest prims hist now mem \<Longrightarrow> (\<And>k. token_cache mem' k = token_cache mem k \<or> token_cache mem' k = None) \<Longrightarrow> cache_honest prims hist now mem'"
  unfolding cache_honest_def by (metis option.distinct(1))

lemma validate_cases:
  assumes "validate_api_token_svc prims now db mem t = (r, db', mem')"
  shows "mem' = mem \<or> (\<exists>v row. accepted prims now db t v row \<and> mem' = cache_validation now (sha256_hex prims t) v row mem)"
    and "r = Inr v \<Longrightarrow> (\<exists>row. accepted prims now db t v row)
      \<or> (\<exists>e at. token_cache mem (sha256_hex prims t) = Some (e, at) \<and> now - at < 300000 \<and> v = ce_validation e \<and> \<not> expired_at now (ce_expires_at e))"
  using assms
  by (auto simp: validate_api_token_svc_def fresh_token_entry_def accepted_def elapsed_secs_def API_TOKEN_CACHE_TTL_SECS_def Let_def
      split: option.splits prod.splits sum.splits if_splits) (metis)+

lemma cache_run_honest: "cache_run prims hist now mem \<Longrightarrow> cache_honest prims hist now mem"
proof (induction rule: cache_run.induct)
  case (tick now mem now')
  then show ?case unfolding cache_honest_def using le_trans by blast
next
  case (validate now mem tok r db' mem')
  from validate_cases(1)[OF validate(2)] consider "mem' = mem"
    | v row where "accepted prims now (hist now) tok v row" "mem' = cache_validation now (sha256_hex prims tok) v row mem" by blast
  then show ?case
  proof cases
    case 2
    then show ?thesis using validate.IH
      by (fastforce simp: cache_honest_def cache_validation_def split: if_splits option.splits prod.splits)
  qed (use validate.IH in simp)
next
  case (revoke now mem j)
  show ?case by (rule cache_honest_less[OF revoke.IH]) simp
next
  case (invalidate now mem usr)
  show ?case by (rule cache_honest_less[OF invalidate.IH]) (simp add: invalidate_user_token_cache_entries_def drop_user_entries_def split: option.splits prod.splits)
next
  case (prune now mem)
  show ?case by (rule cache_honest_less[OF prune.IH]) (simp add: prune_stale_user_token_invalidations_def)
next
  case (flush now mem)
  show ?case by (rule cache_honest_less[OF flush.IH]) (simp add: flush_all_api_token_cache_entries_def)
qed (simp add: cache_honest_def)

section \<open>Properties\<close>

text \<open>Revocation is final. Once a token has been revoked on a replica, no later validation of it
  there succeeds, whatever is validated, issued, revoked, deleted, invalidated or flushed in between
  and however much time passes: the cache, the revocation marks with their limited retention and the
  table never leave a gap.\<close>

lemma revoked_token_stays_refused:
  assumes "inj (sha256_hex prims)" and "rows_ok i t (db_tokens db0)" and "token_cache mem0 = Map.empty"
    and "token_run prims i t (now0, db0, mem0) (now1, db1, mem1)"
    and "revoke_api_token now1 db1 mem1 i usr = (Inr (), db2, mem2)"
    and "token_run prims i t (now1, db2, mem2) (now3, db3, mem3)"
  shows "\<exists>e. fst (validate_api_token_svc prims now3 db3 mem3 t) = Inl e"
proof -
  have "known prims i t (now0, db0, mem0)" using assms(2,3) by (simp add: known_def entry_ok_def)
  then have "known prims i t (now1, db1, mem1)" by (rule known_run[OF assms(4,1)])
  then show ?thesis using revoke_kills assms(5) dead_run[OF assms(6,1)] dead_refused by blast
qed

definition demo_prims :: auth_prims where
  "demo_prims = \<lparr>sha256_hex = id, verify_password = (\<lambda>p h. Inr (p = h)), hash_password = Inr, dummy_bcrypt_hash = []\<rparr>"

definition demo_token_user :: user where
  "demo_token_user = \<lparr>usr_id = 4, usr_username = ''ci'', usr_email = [], usr_is_admin = False, usr_is_service_account = True, usr_is_active = True,
     usr_must_change_password = False\<rparr>"

definition demo_token_row :: api_token where
  "demo_token_row = new_token_row 0 ''12345678_s'' ''12345678_s'' 7 4 ''ci'' [''read:artifacts''] None"

definition demo_token_db :: auth_db where
  "demo_token_db = \<lparr>db_tokens = [demo_token_row], db_token_repos = [], db_users = [demo_token_user], db_selectors = demo_selector_db, db_outage = None\<rparr>"

definition demo_token_mem :: auth_mem where
  "demo_token_mem = \<lparr>token_cache = Map.empty, revoked_tokens = Map.empty, user_invalidations = Map.empty\<rparr>"

lemmas demo_token_defs = demo_prims_def demo_token_user_def demo_token_row_def demo_token_db_def demo_token_mem_def new_token_row_def

lemma demo_accepts: "fst (validate_api_token_svc demo_prims 9 demo_token_db demo_token_mem ''12345678_s'')
    = Inr \<lparr>tv_user = demo_token_user, tv_scopes = [''read:artifacts''], tv_allowed_repo_ids = Admin\<rparr>"
  by (simp add: validate_api_token_svc_def fresh_token_entry_def load_stored_token_def auth_query_def check_token_validation_result_def expired_at_def
      complete_validation_def token_repo_restriction_def scope_from_def demo_token_defs)

lemma demo_revocation:
  obtains r db mem db' mem' where "validate_api_token_svc demo_prims 9 demo_token_db demo_token_mem ''12345678_s'' = (r, db, mem)" "is_ok r"
    "revoke_api_token 10 db mem 7 4 = (Inr (), db', mem')" "token_run demo_prims 7 ''12345678_s'' (9, demo_token_db, demo_token_mem) (10, db, mem)"
    "token_run demo_prims 7 ''12345678_s'' (10, db', mem') (11, db', mem')"
proof -
  obtain r db mem where v: "validate_api_token_svc demo_prims 9 demo_token_db demo_token_mem ''12345678_s'' = (r, db, mem)" by (metis prod_cases3)
  have ok: "is_ok r" using demo_accepts v by simp
  have db: "db = touch_token 9 7 demo_token_db"
    using v by (simp add: validate_api_token_svc_def fresh_token_entry_def load_stored_token_def auth_query_def check_token_validation_result_def
        expired_at_def complete_validation_def token_repo_restriction_def Let_def demo_token_defs split: sum.splits)
  obtain db' mem' where rv: "revoke_api_token 10 db mem 7 4 = (Inr (), db', mem')"
    by (simp add: db revoke_api_token_def auth_query_def touch_token_def should_debounce_usage_update_def demo_token_defs)
  have "token_run demo_prims 7 ''12345678_s'' (9, demo_token_db, demo_token_mem) (10, db, mem)"
    using token_step.validate[OF v, of 7 "''12345678_s''"]
    by (rule converse_rtranclp_into_rtranclp) (simp add: r_into_rtranclp token_step.tick)
  moreover have "token_run demo_prims 7 ''12345678_s'' (10, db', mem') (11, db', mem')" by (simp add: r_into_rtranclp token_step.tick)
  ultimately show thesis using that[OF v ok rv] by blast
qed

lemma demo_token_table: "inj (sha256_hex demo_prims)" "rows_ok 7 ''12345678_s'' (db_tokens demo_token_db)" "token_cache demo_token_mem = Map.empty"
  by (auto simp: rows_ok_def demo_token_defs)

lemma revoked_token_stays_refused_witness:
  "(case validate_api_token_svc demo_prims 9 demo_token_db demo_token_mem ''12345678_s'' of (r, db, mem) \<Rightarrow>
     is_ok r \<and> (case revoke_api_token 10 db mem 7 4 of (r', db', mem') \<Rightarrow>
       r' = Inr () \<and> \<not> is_ok (fst (validate_api_token_svc demo_prims 11 db' mem' ''12345678_s''))))"
proof -
  obtain r db mem db' mem' where d: "validate_api_token_svc demo_prims 9 demo_token_db demo_token_mem ''12345678_s'' = (r, db, mem)" "is_ok r"
    "revoke_api_token 10 db mem 7 4 = (Inr (), db', mem')" "token_run demo_prims 7 ''12345678_s'' (9, demo_token_db, demo_token_mem) (10, db, mem)"
    "token_run demo_prims 7 ''12345678_s'' (10, db', mem') (11, db', mem')" by (rule demo_revocation)
  have "\<exists>e. fst (validate_api_token_svc demo_prims 11 db' mem' ''12345678_s'') = Inl e"
    by (rule revoked_token_stays_refused[OF demo_token_table d(4,3,5)])
  then show ?thesis using d by auto
qed

text \<open>C10: staleness is bounded. In any run of a replica, a validation that succeeds returns what the
  database granted the token at some moment of the last five minutes, and the token has not expired
  since, even when another replica revoked it, deactivated its owner or changed its scopes.\<close>

theorem token_validation_staleness_bounded:
  assumes "cache_run prims hist now mem" and "inj (sha256_hex prims)"
    and "fst (validate_api_token_svc prims now (hist now) mem t) = Inr v"
  shows "\<exists>at row. at \<le> now \<and> now - at < 300000 \<and> load_stored_token prims at (hist at) t = Inr row \<and> complete_validation (hist at) row = Inr v
     \<and> \<not> expired_at now (at_expires_at row)"
proof -
  obtain db' mem' where val: "validate_api_token_svc prims now (hist now) mem t = (Inr v, db', mem')"
    using assms(3) by (metis prod.collapse)
  from validate_cases(2)[OF val refl] consider row where "accepted prims now (hist now) t v row"
    | e at where "token_cache mem (sha256_hex prims t) = Some (e, at)" "now - at < 300000" "v = ce_validation e" "\<not> expired_at now (ce_expires_at e)" by blast
  then show ?thesis
  proof cases
    case 1
    then show ?thesis using load_stored_token_Inr[of prims now "hist now" t] by (intro exI[of _ now]) (auto simp: accepted_def)
  next
    case 2
    obtain tok row where "at \<le> now" "sha256_hex prims tok = sha256_hex prims t" "accepted prims at (hist at) tok v row" "ce_expires_at e = at_expires_at row"
      using cache_run_honest[OF assms(1)] 2 unfolding cache_honest_def by blast
    moreover from this have "tok = t" using assms(2) by (auto dest: injD)
    ultimately show ?thesis using 2 by (auto simp: accepted_def)
  qed
qed

theorem token_validation_staleness_bounded_witness:
  "\<exists>at row. at \<le> 9 \<and> 9 - at < 300000 \<and> load_stored_token demo_prims at demo_token_db ''12345678_s'' = Inr row \<and> \<not> expired_at 9 (at_expires_at row)"
proof -
  have "cache_run demo_prims (\<lambda>_. demo_token_db) 9 demo_token_mem" by (rule cache_run.start) (simp add: demo_token_mem_def)
  moreover have "inj (sha256_hex demo_prims)" by (simp add: demo_prims_def)
  ultimately show ?thesis using token_validation_staleness_bounded[OF _ _ demo_accepts] by blast
qed

section \<open>Deviations\<close>

text \<open>A selector column that cannot be read lifts the restriction of the token.\<close>

lemma unreadable_selector_unrestricted:
  assumes "at_repo_selector row = Some None"
  shows "token_repo_restriction db row = Inr None" and "grants (scope_from None) repo"
  using assms by (simp_all add: token_repo_restriction_def selector_default_def selector_is_empty_def scope_from_def grants_def)

text \<open>The scope question is answered for any string that begins like a token.\<close>

lemma has_scope_ignores_secret:
  "take 8 t = take 8 t' \<Longrightarrow> length t = length t' \<Longrightarrow> token_has_scope db t s = token_has_scope db t' s"
  by (simp add: token_has_scope_def)

text \<open>A validation between the invalidation of a user and the deactivation keeps its entry.\<close>

lemma invalidation_before_deactivation_leaks:
  defines "mem1 \<equiv> invalidate_user_token_cache_entries 8 4 demo_token_mem"
  defines "mem2 \<equiv> snd (snd (validate_api_token_svc demo_prims 9 demo_token_db mem1 ''12345678_s''))"
  shows "is_ok (fst (validate_api_token_svc demo_prims 299000 (demo_token_db\<lparr>db_users := [demo_token_user\<lparr>usr_is_active := False\<rparr>]\<rparr>) mem2 ''12345678_s''))"
proof -
  have "token_cache mem2 ''12345678_s'' = Some (\<lparr>ce_validation = \<lparr>tv_user = demo_token_user, tv_scopes = [''read:artifacts''], tv_allowed_repo_ids = Admin\<rparr>,
      ce_token_id = 7, ce_expires_at = None\<rparr>, 9)" "revoked_tokens mem2 = Map.empty" "user_invalidations mem2 4 = Some 8"
    by (simp_all add: mem2_def mem1_def invalidate_user_token_cache_entries_def drop_user_entries_def retain_recent_def elapsed_secs_def
        API_TOKEN_CACHE_TTL_SECS_def validate_api_token_svc_def fresh_token_entry_def load_stored_token_def auth_query_def
        check_token_validation_result_def expired_at_def complete_validation_def token_repo_restriction_def scope_from_def cache_validation_def demo_token_defs)
  then show ?thesis
    by (simp add: validate_api_token_svc_def fresh_token_entry_def elapsed_secs_def API_TOKEN_CACHE_TTL_SECS_def is_api_token_revoked_in_cache_def
        expired_at_def is_user_api_tokens_invalidated_after_def demo_prims_def demo_token_user_def)
qed

end
