(* ===== verification/Session.thy ===== *)
theory Session
  imports Access_Control
begin

text \<open>
  Sessions (services/auth_service.rs): password login with its lockout, the credential-change
  watermark, access tokens, and refresh tokens with single-use rotation and replay detection. The
  JWT library and bcrypt are parameters, as are the random identifiers of a new token. The consume
  and rotate transaction is one step. Times are milliseconds, claims count seconds.
\<close>

section \<open>Tables, claims and configuration\<close>

datatype auth_provider = Local | ExternalProvider string

record account = user +
  ac_password_hash :: "string option"
  ac_auth_provider :: auth_provider
  ac_failed_login_attempts :: int
  ac_locked_until :: "int option"
  ac_last_failed_login_at :: "int option"
  ac_last_login_at :: "int option"
  ac_password_changed_at :: int
  ac_totp_verified_at :: "int option"
  ac_privileges_changed_at :: int

record jwt =
  j_sub :: nat
  j_username :: string
  j_email :: string
  j_is_admin :: bool
  j_allowed_repo_ids :: "nat list option"
  j_iat :: int
  j_iat_ms :: "int option"
  j_exp :: int
  j_token_type :: string
  j_jti :: "nat option"
  j_family_id :: "nat option"
  j_scan_pull_repo :: "string option"
  j_scopes :: "string list option"

record jti_row =
  jr_jti :: nat
  jr_user :: nat
  jr_family :: nat
  jr_issued_at :: int
  jr_expires_at :: int
  jr_consumed_at :: "int option"
  jr_revoked_at :: "int option"
  jr_superseded_by :: "nat option"

record session_db =
  accounts :: "account list"
  jti_rows :: "jti_row list"
  session_outage :: "string option"

record session_config =
  account_lockout_threshold :: nat
  account_lockout_duration_minutes :: int
  password_expiry_days :: nat
  jwt_access_token_expiry_minutes :: int
  jwt_refresh_token_expiry_days :: int

text \<open>The JWT library: a signed token is a string; decoding checks signature and expiry at a time.\<close>

record jwt_lib =
  jwt_encode :: "jwt \<Rightarrow> string app_result"
  jwt_decode :: "nat \<Rightarrow> string \<Rightarrow> jwt app_result"

definition session_query :: "session_db \<Rightarrow> 'a \<Rightarrow> 'a app_result" where
  "session_query db x = (case session_outage db of Some e \<Rightarrow> Inl (Database e) | None \<Rightarrow> Inr x)"

lemma session_query_Inr [simp]: "session_query db x = Inr y \<longleftrightarrow> session_outage db = None \<and> x = y"
  by (auto simp: session_query_def split: option.splits)

definition jwt_effective_iat_ms :: "jwt \<Rightarrow> int" where
  "jwt_effective_iat_ms c = (case j_iat_ms c of Some ms \<Rightarrow> ms | None \<Rightarrow> saturate_i64 (j_iat c * 1000))"

section \<open>The credential-change watermark\<close>

type_synonym watermarks = "nat \<rightharpoonup> int \<times> nat"

definition INVALIDATION_RETENTION_MS :: int where "INVALIDATION_RETENTION_MS = 7 * 24 * 3600 * 1000"
definition CREDENTIAL_DB_CACHE_TTL_SECS :: nat where "CREDENTIAL_DB_CACHE_TTL_SECS = 5"
definition CREDENTIAL_DB_CLOCK_SKEW_TOLERANCE_MS :: int where "CREDENTIAL_DB_CLOCK_SKEW_TOLERANCE_MS = 2000"

definition apply_db_clock_skew_tolerance :: "int \<Rightarrow> int" where
  "apply_db_clock_skew_tolerance w = saturate_i64 (w - CREDENTIAL_DB_CLOCK_SKEW_TOLERANCE_MS)"

definition invalidate_user_tokens_at :: "nat \<Rightarrow> nat \<Rightarrow> int \<Rightarrow> watermarks \<Rightarrow> watermarks" where
  "invalidate_user_tokens_at now u w m =
     (let m' = (case m u of Some (old, _) \<Rightarrow> if old < w then m(u \<mapsto> (w, now)) else m | None \<Rightarrow> m(u \<mapsto> (w, now)))
      in (\<lambda>k. case m' k of Some (ts, at) \<Rightarrow> if int now - INVALIDATION_RETENTION_MS < ts then Some (ts, at) else None | None \<Rightarrow> None))"

definition invalidate_user_tokens :: "nat \<Rightarrow> nat \<Rightarrow> watermarks \<Rightarrow> watermarks" where
  "invalidate_user_tokens now u m = invalidate_user_tokens_at now u (int now) m"

definition invalidate_user_tokens_except_caller :: "nat \<Rightarrow> nat \<Rightarrow> int \<Rightarrow> watermarks \<Rightarrow> watermarks" where
  "invalidate_user_tokens_except_caller now u caller_iat_ms m = invalidate_user_tokens_at now u (saturate_i64 (caller_iat_ms - 1)) m"

definition invalidate_other_sessions :: "nat \<Rightarrow> nat \<Rightarrow> int option \<Rightarrow> watermarks \<Rightarrow> watermarks" where
  "invalidate_other_sessions now u caller m =
     (case caller of Some ms \<Rightarrow> invalidate_user_tokens_except_caller now u ms m | None \<Rightarrow> invalidate_user_tokens now u m)"

definition is_token_invalidated :: "watermarks \<Rightarrow> nat \<Rightarrow> int \<Rightarrow> bool" where
  "is_token_invalidated m u issued_at_ms = (case m u of Some (changed_at, _) \<Rightarrow> issued_at_ms \<le> changed_at | None \<Rightarrow> False)"

definition find_account :: "session_db \<Rightarrow> nat \<Rightarrow> account option" where
  "find_account db u = find (\<lambda>a. usr_id a = u) (accounts db)"

definition db_watermark :: "account \<Rightarrow> int" where
  "db_watermark a =
     max (ac_password_changed_at a) (max (case ac_totp_verified_at a of Some t \<Rightarrow> t | None \<Rightarrow> ac_password_changed_at a) (ac_privileges_changed_at a))"

definition fetch_credential_change_watermark :: "nat \<Rightarrow> session_db \<Rightarrow> watermarks \<Rightarrow> nat \<Rightarrow> (int \<times> bool) option app_result \<times> watermarks" where
  "fetch_credential_change_watermark now db m u =
     (case (case m u of Some (w, at) \<Rightarrow> if (now - at) div 1000 < CREDENTIAL_DB_CACHE_TTL_SECS then Some w else None | None \<Rightarrow> None) of
        Some w \<Rightarrow> (Inr (Some (w, True)), m)
      | None \<Rightarrow>
          (case session_query db (find_account db u) of
             Inl e \<Rightarrow> (Inl e, m)
           | Inr None \<Rightarrow> (Inr None, m)
           | Inr (Some a) \<Rightarrow>
               (let w = apply_db_clock_skew_tolerance (db_watermark a) in
                (Inr (Some (w, usr_is_active a)), if usr_is_active a then invalidate_user_tokens_at now u w m else m))))"

definition is_token_invalidated_replica_safe :: "nat \<Rightarrow> session_db \<Rightarrow> watermarks \<Rightarrow> nat \<Rightarrow> int \<Rightarrow> bool app_result \<times> watermarks" where
  "is_token_invalidated_replica_safe now db m u issued_at_ms =
     (case fetch_credential_change_watermark now db m u of
        (Inl e, m') \<Rightarrow> (Inl e, m')
      | (Inr None, m') \<Rightarrow> (Inr False, m')
      | (Inr (Some (w, active)), m') \<Rightarrow> (Inr (if \<not> active then True else issued_at_ms < w), m'))"

definition find_active :: "session_db \<Rightarrow> nat \<Rightarrow> account option" where
  "find_active db u = find (\<lambda>a. usr_id a = u \<and> usr_is_active a) (accounts db)"

definition fetch_live_is_admin :: "session_db \<Rightarrow> nat \<Rightarrow> bool option app_result" where
  "fetch_live_is_admin db u = session_query db (map_option usr_is_admin (find_active db u))"

definition load_active_user :: "session_db \<Rightarrow> nat \<Rightarrow> account app_result" where
  "load_active_user db u =
     result_bind (session_query db (find_active db u)) (\<lambda>a. case a of Some x \<Rightarrow> Inr x | None \<Rightarrow> Inl (Authentication ''User not found''))"

section \<open>Access tokens\<close>

definition validate_access_token_sync :: "jwt_lib \<Rightarrow> nat \<Rightarrow> watermarks \<Rightarrow> string \<Rightarrow> jwt app_result" where
  "validate_access_token_sync lib now m token =
     result_bind (jwt_decode lib now token) (\<lambda>c.
       if j_token_type c \<noteq> ''access'' then Inl (Authentication ''Invalid token type'')
       else if is_token_invalidated m (j_sub c) (jwt_effective_iat_ms c) then Inl (Authentication ''Token invalidated by credential change'')
       else Inr c)"

definition validate_access_token_async :: "jwt_lib \<Rightarrow> nat \<Rightarrow> session_db \<Rightarrow> watermarks \<Rightarrow> string \<Rightarrow> jwt app_result \<times> watermarks" where
  "validate_access_token_async lib now db m token =
     (case jwt_decode lib now token of
        Inl e \<Rightarrow> (Inl e, m)
      | Inr c \<Rightarrow>
          if j_token_type c \<noteq> ''access'' then (Inl (Authentication ''Invalid token type''), m)
          else (case is_token_invalidated_replica_safe now db m (j_sub c) (jwt_effective_iat_ms c) of
                  (Inl e, m') \<Rightarrow> (Inl e, m')
                | (Inr True, m') \<Rightarrow> (Inl (Authentication ''Token invalidated by credential change''), m')
                | (Inr False, m') \<Rightarrow>
                    (result_bind (fetch_live_is_admin db (j_sub c)) (\<lambda>adm.
                       case adm of Some b \<Rightarrow> Inr (c\<lparr>j_is_admin := b\<rparr>)
                       | None \<Rightarrow> Inl (Authentication ''Token subject is no longer an active user'')), m')))"

section \<open>Minting\<close>

definition REGISTRY_REFRESH_TOKEN_TYPE :: string where "REGISTRY_REFRESH_TOKEN_TYPE = ''registry_refresh''"

definition secs :: "int \<Rightarrow> int" where
  "secs ms = ms div 1000"

definition access_claims :: "session_config \<Rightarrow> nat \<Rightarrow> 'a user_scheme \<Rightarrow> nat list option \<Rightarrow> string list option \<Rightarrow> jwt" where
  "access_claims cfg now u allowed scps =
     \<lparr>j_sub = usr_id u, j_username = usr_username u, j_email = usr_email u, j_is_admin = usr_is_admin u, j_allowed_repo_ids = allowed, j_iat = secs (int now), j_iat_ms = Some (int now),
      j_exp = secs (int now + jwt_access_token_expiry_minutes cfg * 60000), j_token_type = ''access'', j_jti = None, j_family_id = None,
      j_scan_pull_repo = None, j_scopes = scps\<rparr>"

definition refresh_claims :: "session_config \<Rightarrow> nat \<Rightarrow> 'a user_scheme \<Rightarrow> nat \<Rightarrow> nat \<Rightarrow> string list option \<Rightarrow> string \<Rightarrow> jwt" where
  "refresh_claims cfg now u jti family scps typ =
     \<lparr>j_sub = usr_id u, j_username = usr_username u, j_email = usr_email u, j_is_admin = usr_is_admin u, j_allowed_repo_ids = None, j_iat = secs (int now), j_iat_ms = Some (int now),
      j_exp = secs (int now + jwt_refresh_token_expiry_days cfg * 86400000), j_token_type = typ, j_jti = Some jti, j_family_id = Some family,
      j_scan_pull_repo = None, j_scopes = scps\<rparr>"

record token_pair =
  access_token :: string
  refresh_token :: string

definition generate_token_pair_typed ::
  "jwt_lib \<Rightarrow> session_config \<Rightarrow> nat \<Rightarrow> 'a user_scheme \<Rightarrow> nat \<Rightarrow> nat \<Rightarrow> nat list option \<Rightarrow> string list option \<Rightarrow> string \<Rightarrow> token_pair app_result" where
  "generate_token_pair_typed lib cfg now u jti family allowed scps typ =
     result_bind (jwt_encode lib (access_claims cfg now u allowed scps)) (\<lambda>a.
     result_bind (jwt_encode lib (refresh_claims cfg now u jti family scps typ)) (\<lambda>r.
       Inr \<lparr>access_token = a, refresh_token = r\<rparr>))"

definition generate_scan_token :: "jwt_lib \<Rightarrow> nat \<Rightarrow> 'a user_scheme \<Rightarrow> string \<Rightarrow> int \<Rightarrow> string app_result" where
  "generate_scan_token lib now u repo_key ttl =
     jwt_encode lib \<lparr>j_sub = usr_id u, j_username = usr_username u, j_email = usr_email u, j_is_admin = usr_is_admin u, j_allowed_repo_ids = None, j_iat = secs (int now), j_iat_ms = Some (int now),
       j_exp = secs (int now + ttl * 1000), j_token_type = ''access'', j_jti = None, j_family_id = None, j_scan_pull_repo = Some repo_key, j_scopes = None\<rparr>"

definition new_jti_row :: "nat \<Rightarrow> nat \<Rightarrow> nat \<Rightarrow> int \<Rightarrow> int \<Rightarrow> jti_row" where
  "new_jti_row jti usr family iat ex =
     \<lparr>jr_jti = jti, jr_user = usr, jr_family = family, jr_issued_at = iat * 1000, jr_expires_at = ex * 1000, jr_consumed_at = None,
      jr_revoked_at = None, jr_superseded_by = None\<rparr>"

text \<open>\<open>INSERT ... ON CONFLICT (jti) DO NOTHING\<close>\<close>

definition insert_jti :: "jti_row \<Rightarrow> jti_row list \<Rightarrow> jti_row list" where
  "insert_jti row rows = (if jr_jti row \<in> jr_jti ` set rows then rows else rows @ [row])"

definition persist_refresh_jti_from_pair :: "jwt_lib \<Rightarrow> nat \<Rightarrow> session_db \<Rightarrow> token_pair \<Rightarrow> nat \<Rightarrow> unit app_result \<times> session_db" where
  "persist_refresh_jti_from_pair lib now db pair usr =
     (case jwt_decode lib now (refresh_token pair) of
        Inl e \<Rightarrow> (Inl e, db)
      | Inr c \<Rightarrow>
          (case (j_jti c, j_family_id c) of
             (Some j, Some f) \<Rightarrow>
               (case session_query db (insert_jti (new_jti_row j usr f (j_iat c) (j_exp c)) (jti_rows db)) of
                  Inl e \<Rightarrow> (Inl e, db)
                | Inr rows \<Rightarrow> (Inr (), db\<lparr>jti_rows := rows\<rparr>))
           | _ \<Rightarrow> (Inr (), db)))"

text \<open>Mint for a user and record the refresh token: the end of a login, a registry login and the legacy rotations.\<close>

definition mint_and_persist ::
  "jwt_lib \<Rightarrow> session_config \<Rightarrow> nat \<Rightarrow> session_db \<Rightarrow> 'a user_scheme \<Rightarrow> nat \<Rightarrow> nat \<Rightarrow> nat list option \<Rightarrow> string list option \<Rightarrow> string
    \<Rightarrow> token_pair app_result \<times> session_db" where
  "mint_and_persist lib cfg now db u jti family allowed scps typ =
     (case generate_token_pair_typed lib cfg now u jti family allowed scps typ of
        Inl e \<Rightarrow> (Inl e, db)
      | Inr pair \<Rightarrow>
          (case persist_refresh_jti_from_pair lib now db pair (usr_id u) of
             (Inl e, db') \<Rightarrow> (Inl e, db')
           | (Inr _, db') \<Rightarrow> (Inr pair, db')))"

definition generate_registry_offline_token ::
  "jwt_lib \<Rightarrow> session_config \<Rightarrow> nat \<Rightarrow> session_db \<Rightarrow> 'a user_scheme \<Rightarrow> nat \<Rightarrow> nat \<Rightarrow> nat list option \<Rightarrow> string list option \<Rightarrow> string app_result \<times> session_db" where
  "generate_registry_offline_token lib cfg now db u jti family allowed scps =
     (case mint_and_persist lib cfg now db u jti family allowed scps REGISTRY_REFRESH_TOKEN_TYPE of
        (Inl e, db') \<Rightarrow> (Inl e, db')
      | (Inr pair, db') \<Rightarrow> (Inr (refresh_token pair), db'))"

section \<open>Rotation\<close>

definition REFRESH_REPLAY_BENIGN_GRACE_SECS :: int where "REFRESH_REPLAY_BENIGN_GRACE_SECS = 30"

definition revoke_family :: "nat \<Rightarrow> nat \<Rightarrow> jti_row list \<Rightarrow> jti_row list" where
  "revoke_family now f rows = map (\<lambda>r. if jr_family r = f \<and> jr_revoked_at r = None then r\<lparr>jr_revoked_at := Some (int now)\<rparr> else r) rows"

definition live :: "jti_row \<Rightarrow> bool" where
  "live r \<longleftrightarrow> jr_consumed_at r = None \<and> jr_revoked_at r = None"

definition consume_row :: "nat \<Rightarrow> nat \<Rightarrow> nat \<Rightarrow> jti_row \<Rightarrow> jti_row" where
  "consume_row now j succ r =
     (if jr_jti r \<noteq> j then r
      else (if live r then r\<lparr>jr_consumed_at := Some (int now)\<rparr> else r)\<lparr>jr_superseded_by := Some succ\<rparr>)"

definition consume :: "nat \<Rightarrow> nat \<Rightarrow> nat \<Rightarrow> jti_row list \<Rightarrow> jti_row list" where
  "consume now j succ rows = map (consume_row now j succ) rows"

definition genuine_replay :: "nat \<Rightarrow> jti_row list \<Rightarrow> jti_row \<Rightarrow> bool" where
  "genuine_replay now rows row =
     (let successor = Option.bind (jr_superseded_by row) (\<lambda>s. find (\<lambda>r. jr_jti r = s) rows);
          past_grace = (case jr_consumed_at row of Some t \<Rightarrow> t < int now - REFRESH_REPLAY_BENIGN_GRACE_SECS * 1000 | None \<Rightarrow> False);
          spent = (case successor of Some s \<Rightarrow> jr_consumed_at s \<noteq> None \<or> jr_revoked_at s \<noteq> None | None \<Rightarrow> False)
      in past_grace \<or> successor = None \<or> spent)"

text \<open>The winner of the conditional update: mint in the same family and link the successor, or roll back.\<close>

definition rotate ::
  "jwt_lib \<Rightarrow> session_config \<Rightarrow> nat \<Rightarrow> session_db \<Rightarrow> jwt \<Rightarrow> nat \<Rightarrow> nat \<Rightarrow> nat \<Rightarrow> (account \<times> token_pair) app_result \<times> session_db" where
  "rotate lib cfg now db c j f new_jti =
     (case load_active_user db (j_sub c) of
        Inl e \<Rightarrow> (Inl e, db)
      | Inr u \<Rightarrow>
          (case generate_token_pair_typed lib cfg now u new_jti f (j_allowed_repo_ids c) (j_scopes c) ''refresh'' of
             Inl e \<Rightarrow> (Inl e, db)
           | Inr pair \<Rightarrow>
               (case jwt_decode lib now (refresh_token pair) of
                  Inl e \<Rightarrow> (Inl e, db)
                | Inr succ \<Rightarrow>
                    (case (j_jti succ, j_family_id succ) of
                       (Some sj, Some sf) \<Rightarrow>
                         (Inr (u, pair), db\<lparr>jti_rows := consume now j sj (insert_jti (new_jti_row sj (usr_id u) sf (j_iat succ) (j_exp succ)) (jti_rows db))\<rparr>)
                     | _ \<Rightarrow> (Inr (u, pair), db\<lparr>jti_rows := map (\<lambda>r. if jr_jti r = j \<and> live r then r\<lparr>jr_consumed_at := Some (int now)\<rparr> else r) (jti_rows db)\<rparr>)))))"

definition legacy_rotate ::
  "jwt_lib \<Rightarrow> session_config \<Rightarrow> nat \<Rightarrow> session_db \<Rightarrow> jwt \<Rightarrow> nat \<Rightarrow> nat \<Rightarrow> (account \<times> token_pair) app_result \<times> session_db" where
  "legacy_rotate lib cfg now db c f new_jti =
     (case load_active_user db (j_sub c) of
        Inl e \<Rightarrow> (Inl e, db)
      | Inr u \<Rightarrow>
          (case mint_and_persist lib cfg now db u new_jti f (j_allowed_repo_ids c) (j_scopes c) ''refresh'' of
             (Inl e, db') \<Rightarrow> (Inl e, db')
           | (Inr pair, db') \<Rightarrow> (Inr (u, pair), db')))"

definition refresh_by_jti ::
  "jwt_lib \<Rightarrow> session_config \<Rightarrow> nat \<Rightarrow> session_db \<Rightarrow> jwt \<Rightarrow> nat \<Rightarrow> nat \<Rightarrow> nat \<Rightarrow> (account \<times> token_pair) app_result \<times> session_db" where
  "refresh_by_jti lib cfg now db c j f new_jti =
     (case session_query db (find (\<lambda>r. jr_jti r = j) (jti_rows db)) of
        Inl e \<Rightarrow> (Inl e, db)
      | Inr None \<Rightarrow> legacy_rotate lib cfg now db c f new_jti
      | Inr (Some row) \<Rightarrow>
          (if live row then rotate lib cfg now db c j f new_jti
           else if jr_revoked_at row \<noteq> None then (Inl (Authentication ''Refresh token has been revoked''), db)
           else if genuine_replay now (jti_rows db) row then
             (Inl (Authentication ''Refresh token replay detected''), db\<lparr>jti_rows := revoke_family now (jr_family row) (jti_rows db)\<rparr>)
           else (Inl (Authentication ''Refresh token already used''), db)))"

definition refresh_tokens ::
  "jwt_lib \<Rightarrow> session_config \<Rightarrow> nat \<Rightarrow> session_db \<Rightarrow> watermarks \<Rightarrow> string \<Rightarrow> nat \<Rightarrow> nat \<Rightarrow> (account \<times> token_pair) app_result \<times> session_db \<times> watermarks" where
  "refresh_tokens lib cfg now db m token new_jti new_family =
     (case jwt_decode lib now token of
        Inl e \<Rightarrow> (Inl e, db, m)
      | Inr c \<Rightarrow>
          if j_token_type c \<noteq> ''refresh'' then (Inl (Authentication ''Invalid token type''), db, m)
          else (case is_token_invalidated_replica_safe now db m (j_sub c) (jwt_effective_iat_ms c) of
                  (Inl e, m') \<Rightarrow> (Inl e, db, m')
                | (Inr True, m') \<Rightarrow> (Inl (Authentication ''Token invalidated by credential change''), db, m')
                | (Inr False, m') \<Rightarrow>
                    (case (case (j_jti c, j_family_id c) of
                             (Some j, Some f) \<Rightarrow> refresh_by_jti lib cfg now db c j f new_jti
                           | _ \<Rightarrow> legacy_rotate lib cfg now db c new_family new_jti) of
                       (r, db') \<Rightarrow> (r, db', m'))))"

definition mint_access_from_registry_refresh ::
  "jwt_lib \<Rightarrow> session_config \<Rightarrow> nat \<Rightarrow> session_db \<Rightarrow> watermarks \<Rightarrow> string \<Rightarrow> nat \<Rightarrow> nat \<Rightarrow> (account \<times> token_pair) app_result \<times> watermarks" where
  "mint_access_from_registry_refresh lib cfg now db m token new_jti new_family =
     (case jwt_decode lib now token of
        Inl e \<Rightarrow> (Inl e, m)
      | Inr c \<Rightarrow>
          if j_token_type c \<noteq> REGISTRY_REFRESH_TOKEN_TYPE then (Inl (Authentication ''Invalid token type''), m)
          else (case is_token_invalidated_replica_safe now db m (j_sub c) (jwt_effective_iat_ms c) of
                  (Inl e, m') \<Rightarrow> (Inl e, m')
                | (Inr True, m') \<Rightarrow> (Inl (Authentication ''Token invalidated by credential change''), m')
                | (Inr False, m') \<Rightarrow>
                    (result_bind (session_query db (Option.bind (j_jti c) (\<lambda>j. find (\<lambda>r. jr_jti r = j) (jti_rows db)))) (\<lambda>row.
                       if (case row of Some r \<Rightarrow> jr_revoked_at r \<noteq> None | None \<Rightarrow> False) then Inl (Authentication ''Refresh token has been revoked'')
                       else result_bind (load_active_user db (j_sub c)) (\<lambda>u.
                         result_bind (generate_token_pair_typed lib cfg now u new_jti (unwrap_or (j_family_id c) new_family) (j_allowed_repo_ids c) (j_scopes c) ''refresh'')
                           (\<lambda>minted. Inr (u, \<lparr>access_token = access_token minted, refresh_token = token\<rparr>)))), m')))"

definition revoke_all_refresh_token_families :: "nat \<Rightarrow> session_db \<Rightarrow> nat \<Rightarrow> nat app_result \<times> session_db" where
  "revoke_all_refresh_token_families now db u =
     (case session_query db (map (\<lambda>r. if jr_user r = u \<and> jr_revoked_at r = None then r\<lparr>jr_revoked_at := Some (int now)\<rparr> else r) (jti_rows db)) of
        Inl e \<Rightarrow> (Inl e, db)
      | Inr rows \<Rightarrow> (Inr (length (filter (\<lambda>r. jr_user r = u \<and> jr_revoked_at r = None) (jti_rows db))), db\<lparr>jti_rows := rows\<rparr>))"

definition revoke_refresh_token_family_for :: "jwt_lib \<Rightarrow> nat \<Rightarrow> session_db \<Rightarrow> string \<Rightarrow> nat app_result \<times> session_db" where
  "revoke_refresh_token_family_for lib now db token =
     (case jwt_decode lib now token of
        Inl e \<Rightarrow> (Inl e, db)
      | Inr c \<Rightarrow>
          if j_token_type c \<noteq> ''refresh'' then (Inl (Authentication ''Invalid token type''), db)
          else (case j_family_id c of
                  None \<Rightarrow> (Inr 0, db)
                | Some f \<Rightarrow>
                    (case session_query db (revoke_family now f (jti_rows db)) of
                       Inl e \<Rightarrow> (Inl e, db)
                     | Inr rows \<Rightarrow> (Inr (length (filter (\<lambda>r. jr_family r = f \<and> jr_revoked_at r = None) (jti_rows db))), db\<lparr>jti_rows := rows\<rparr>))))"

definition cleanup_expired_refresh_token_jti :: "nat \<Rightarrow> int \<Rightarrow> session_db \<Rightarrow> nat app_result \<times> session_db" where
  "cleanup_expired_refresh_token_jti now grace db =
     (case session_query db (filter (\<lambda>r. \<not> jr_expires_at r < int now - grace) (jti_rows db)) of
        Inl e \<Rightarrow> (Inl e, db)
      | Inr rows \<Rightarrow> (Inr (length (jti_rows db) - length rows), db\<lparr>jti_rows := rows\<rparr>))"

section \<open>Password login\<close>

definition is_account_locked :: "int option \<Rightarrow> int \<Rightarrow> bool" where
  "is_account_locked locked_until now = (case locked_until of Some t \<Rightarrow> now < t | None \<Rightarrow> False)"

definition is_password_expired :: "int \<Rightarrow> nat \<Rightarrow> int \<Rightarrow> bool" where
  "is_password_expired changed_at expiry_days now = (if expiry_days = 0 then False else changed_at + int expiry_days * 86400000 \<le> now)"

definition should_lock :: "int \<Rightarrow> nat \<Rightarrow> int \<Rightarrow> int \<Rightarrow> int option" where
  "should_lock attempts threshold duration_minutes now =
     (if threshold = 0 then None else if wrap_i32 (int threshold) \<le> attempts then Some (now + duration_minutes * 60000) else None)"

definition failed_attempt_is_locked :: "bool \<Rightarrow> bool \<Rightarrow> bool" where
  "failed_attempt_is_locked newly_locked already_locked \<longleftrightarrow> newly_locked \<or> already_locked"

definition update_account :: "nat \<Rightarrow> (account \<Rightarrow> account) \<Rightarrow> session_db \<Rightarrow> session_db" where
  "update_account u f db = db\<lparr>accounts := map (\<lambda>a. if usr_id a = u then f a else a) (accounts db)\<rparr>"

definition record_failure :: "nat \<Rightarrow> int \<Rightarrow> int option \<Rightarrow> account \<Rightarrow> account" where
  "record_failure now attempts lock_until a =
     a\<lparr>ac_failed_login_attempts := attempts, ac_locked_until := lock_until, ac_last_failed_login_at := Some (int now)\<rparr>"

definition login_due :: "nat \<Rightarrow> account \<Rightarrow> bool" where
  "login_due now a = (case ac_last_login_at a of None \<Rightarrow> True | Some t \<Rightarrow> t < int now - 300000)"

definition record_success :: "nat \<Rightarrow> account \<Rightarrow> account" where
  "record_success now a =
     (if login_due now a \<or> 0 < ac_failed_login_attempts a \<or> ac_locked_until a \<noteq> None \<or> ac_last_failed_login_at a \<noteq> None
      then a\<lparr>ac_last_login_at := (if login_due now a then Some (int now) else ac_last_login_at a), ac_failed_login_attempts := 0,
             ac_locked_until := None, ac_last_failed_login_at := None\<rparr>
      else a)"

definition login_user ::
  "jwt_lib \<Rightarrow> session_config \<Rightarrow> (string \<Rightarrow> string \<Rightarrow> bool app_result) \<Rightarrow> nat \<Rightarrow> session_db \<Rightarrow> string \<Rightarrow> string \<Rightarrow> nat \<Rightarrow> nat
    \<Rightarrow> (account \<times> token_pair) app_result \<times> session_db" where
  "login_user lib cfg verify now db name password new_jti new_family =
     (case session_query db (find (\<lambda>a. usr_username a = name \<and> usr_is_active a) (accounts db)) of
        Inl e \<Rightarrow> (Inl e, db)
      | Inr None \<Rightarrow> (Inl (Authentication ''Invalid username or password''), db)
      | Inr (Some u) \<Rightarrow>
          (let already_locked = is_account_locked (ac_locked_until u) (int now) in
           if ac_auth_provider u \<noteq> Local then (Inl (Authentication ''Use SSO provider to authenticate''), db)
           else (case ac_password_hash u of
                   None \<Rightarrow> (Inl (Authentication ''Invalid username or password''), db)
                 | Some h \<Rightarrow>
                     (case verify password h of
                        Inl e \<Rightarrow> (Inl e, db)
                      | Inr False \<Rightarrow>
                          (let new_count = ac_failed_login_attempts u + 1;
                               lock_until = should_lock new_count (account_lockout_threshold cfg) (account_lockout_duration_minutes cfg) (int now)
                           in (Inl (Authentication (if failed_attempt_is_locked (lock_until \<noteq> None) already_locked
                                 then ''Account temporarily locked due to too many failed login attempts'' else ''Invalid username or password'')),
                               update_account (usr_id u) (record_failure now new_count lock_until) db))
                      | Inr True \<Rightarrow>
                          (let db1 = update_account (usr_id u) (record_success now) db;
                               stale = (\<not> usr_must_change_password u \<and> is_password_expired (ac_password_changed_at u) (password_expiry_days cfg) (int now));
                               u' = (if stale then u\<lparr>usr_must_change_password := True\<rparr> else u);
                               db2 = (if stale then update_account (usr_id u) (\<lambda>a. a\<lparr>usr_must_change_password := True\<rparr>) db1 else db1)
                           in (case mint_and_persist lib cfg now db2 u' new_jti new_family None None ''refresh'' of
                                 (Inl e, db3) \<Rightarrow> (Inl e, db3)
                               | (Inr pair, db3) \<Rightarrow> (Inr (u', pair), db3)))))))"

section \<open>Runs\<close>

text \<open>
  What the library promises: decoding gives the encoded claims or an error, always the same claims
  for a token, and no token more than a minute after it expired.
\<close>

definition codec_ok :: "jwt_lib \<Rightarrow> bool" where
  "codec_ok lib \<longleftrightarrow>
     (\<forall>c s now c'. jwt_encode lib c = Inr s \<longrightarrow> jwt_decode lib now s = Inr c' \<longrightarrow> c' = c)
     \<and> (\<forall>now now' s c c'. jwt_decode lib now s = Inr c \<longrightarrow> jwt_decode lib now' s = Inr c' \<longrightarrow> c' = c)
     \<and> (\<forall>now s c. jwt_decode lib now s = Inr c \<longrightarrow> int now div 1000 \<le> j_exp c + 60)"

text \<open>
  A state also holds the refresh claims handed out so far: a signature cannot be forged, so only
  they can be presented. Identifiers are new when they are drawn.
\<close>

type_synonym session = "nat \<times> session_db \<times> watermarks \<times> jwt set"

definition issued_by :: "jwt_lib \<Rightarrow> nat \<Rightarrow> token_pair \<Rightarrow> jwt set" where
  "issued_by lib now pair = {c. jwt_decode lib now (refresh_token pair) = Inr c}"

definition fresh_jti :: "session_db \<Rightarrow> jwt set \<Rightarrow> nat \<Rightarrow> bool" where
  "fresh_jti db I j \<longleftrightarrow> j \<notin> jr_jti ` set (jti_rows db) \<and> (\<forall>c\<in>I. j_jti c \<noteq> Some j)"

definition fresh_family :: "session_db \<Rightarrow> jwt set \<Rightarrow> nat \<Rightarrow> bool" where
  "fresh_family db I f \<longleftrightarrow> f \<notin> jr_family ` set (jti_rows db) \<and> (\<forall>c\<in>I. j_family_id c \<noteq> Some f)"

inductive session_step :: "jwt_lib \<Rightarrow> session_config \<Rightarrow> session \<Rightarrow> session \<Rightarrow> bool" for lib cfg where
  tick: "now \<le> now' \<Longrightarrow> session_step lib cfg (now, db, m, I) (now', db, m, I)"
| mint: "mint_and_persist lib cfg now db (u :: account) j f allowed scps typ = (Inr pair, db') \<Longrightarrow> fresh_jti db I j \<Longrightarrow> fresh_family db I f
    \<Longrightarrow> session_step lib cfg (now, db, m, I) (now, db', m, I \<union> issued_by lib now pair)"
| refreshed: "refresh_tokens lib cfg now db m token j f = (Inr (u, pair), db', m') \<Longrightarrow> (\<And>c. jwt_decode lib now token = Inr c \<Longrightarrow> c \<in> I)
    \<Longrightarrow> fresh_jti db I j \<Longrightarrow> fresh_family db I f \<Longrightarrow> session_step lib cfg (now, db, m, I) (now, db', m', I \<union> issued_by lib now pair)"
| refused: "refresh_tokens lib cfg now db m token j f = (Inl e, db', m') \<Longrightarrow> (\<And>c. jwt_decode lib now token = Inr c \<Longrightarrow> c \<in> I)
    \<Longrightarrow> fresh_jti db I j \<Longrightarrow> fresh_family db I f \<Longrightarrow> session_step lib cfg (now, db, m, I) (now, db', m', I)"
| logout: "revoke_refresh_token_family_for lib now db token = (r, db') \<Longrightarrow> session_step lib cfg (now, db, m, I) (now, db', m, I)"
| revoke_all: "revoke_all_refresh_token_families now db usr = (r, db') \<Longrightarrow> session_step lib cfg (now, db, m, I) (now, db', m, I)"
| cleanup: "cleanup_expired_refresh_token_jti now grace db = (r, db') \<Longrightarrow> 61000 \<le> grace \<Longrightarrow> session_step lib cfg (now, db, m, I) (now, db', m, I)"
| others: "jti_rows db' = jti_rows db \<Longrightarrow> session_step lib cfg (now, db, m, I) (now, db', m', I)"

abbreviation session_run :: "jwt_lib \<Rightarrow> session_config \<Rightarrow> session \<Rightarrow> session \<Rightarrow> bool" where
  "session_run lib cfg \<equiv> (session_step lib cfg)\<^sup>*\<^sup>*"

section \<open>The chain of a family\<close>

definition recorded :: "nat \<Rightarrow> jti_row list \<Rightarrow> jwt \<Rightarrow> bool" where
  "recorded now rows c \<longleftrightarrow> (\<exists>j f. j_jti c = Some j \<and> j_family_id c = Some f \<and>
     ((\<exists>r\<in>set rows. jr_jti r = j \<and> jr_family r = f \<and> jr_expires_at r = j_exp c * 1000) \<or> j_exp c * 1000 < int now - 61000))"

definition one_live :: "jti_row list \<Rightarrow> bool" where
  "one_live rows \<longleftrightarrow> (\<forall>r\<in>set rows. \<forall>r'\<in>set rows. live r \<longrightarrow> live r' \<longrightarrow> jr_family r = jr_family r' \<longrightarrow> r = r')"

definition chain_ok :: "session \<Rightarrow> bool" where
  "chain_ok s \<longleftrightarrow> (case s of (now, db, m, I) \<Rightarrow>
     distinct (map jr_jti (jti_rows db)) \<and> one_live (jti_rows db) \<and> (\<forall>c\<in>I. recorded now (jti_rows db) c))"

text \<open>A change of a row that keeps its key and never revives it.\<close>

definition fades :: "(jti_row \<Rightarrow> jti_row) \<Rightarrow> bool" where
  "fades g \<longleftrightarrow> (\<forall>r. jr_jti (g r) = jr_jti r \<and> jr_family (g r) = jr_family r \<and> jr_expires_at (g r) = jr_expires_at r
     \<and> (live (g r) \<longrightarrow> g r = r) \<and> (jr_revoked_at r \<noteq> None \<longrightarrow> jr_revoked_at (g r) \<noteq> None))"

lemma fades_simps [simp]:
  "fades g \<Longrightarrow> jr_jti (g r) = jr_jti r" "fades g \<Longrightarrow> jr_family (g r) = jr_family r" "fades g \<Longrightarrow> jr_expires_at (g r) = jr_expires_at r"
  by (auto simp: fades_def)

lemma fades_live: "fades g \<Longrightarrow> live (g r) \<Longrightarrow> g r = r" and fades_revoked: "fades g \<Longrightarrow> jr_revoked_at r \<noteq> None \<Longrightarrow> jr_revoked_at (g r) \<noteq> None"
  unfolding fades_def by blast+

lemma find_jti: "distinct (map jr_jti rows) \<Longrightarrow> find (\<lambda>r. jr_jti r = j) rows = Some r \<longleftrightarrow> r \<in> set rows \<and> jr_jti r = j"
  by (induction rows) auto

lemma fades_consume: "fades (consume_row now j succ)" and consume_spends: "jr_jti r = j \<Longrightarrow> \<not> live (consume_row now j succ r)"
proof -
  show spent: "jr_jti r = j \<Longrightarrow> \<not> live (consume_row now j succ r)" for r
    by (auto simp: consume_row_def live_def)
  have "jr_jti (consume_row now j succ r) = jr_jti r \<and> jr_family (consume_row now j succ r) = jr_family r
     \<and> jr_expires_at (consume_row now j succ r) = jr_expires_at r \<and> (live (consume_row now j succ r) \<longrightarrow> consume_row now j succ r = r)
     \<and> (jr_revoked_at r \<noteq> None \<longrightarrow> jr_revoked_at (consume_row now j succ r) \<noteq> None)" for r
    using spent[of r] by (cases "jr_jti r = j"; cases "live r") (simp_all add: consume_row_def)
  then show "fades (consume_row now j succ)" unfolding fades_def by blast
qed

lemma consume_snoc:
  "jr_jti new \<notin> jr_jti ` set rows \<Longrightarrow> jr_jti new \<noteq> j \<Longrightarrow>
   consume now j (jr_jti new) (insert_jti new rows) = map (consume_row now j (jr_jti new)) rows @ [new]"
  by (simp add: consume_def insert_jti_def consume_row_def)

lemma mint_rows:
  assumes "codec_ok lib" and "mint_and_persist lib cfg now db u j f allowed scps typ = (Inr pair, db')" and "fresh_jti db I j"
  shows "issued_by lib now pair = {refresh_claims cfg now u j f scps typ}"
    and "jti_rows db' = jti_rows db @ [new_jti_row j (usr_id u) f (secs (int now)) (j_exp (refresh_claims cfg now u j f scps typ))]"
proof -
  let ?c = "refresh_claims cfg now u j f scps typ"
  have enc: "jwt_encode lib ?c = Inr (refresh_token pair)"
    using assms(2) by (auto simp: mint_and_persist_def generate_token_pair_typed_def split: sum.splits prod.splits)
  have p: "persist_refresh_jti_from_pair lib now db pair (usr_id u) = (Inr (), db')"
    using assms(2) by (auto simp: mint_and_persist_def split: sum.splits prod.splits)
  then obtain c where dec: "jwt_decode lib now (refresh_token pair) = Inr c"
    by (auto simp: persist_refresh_jti_from_pair_def split: sum.splits)
  have c: "c = ?c" using assms(1) enc dec unfolding codec_ok_def by blast
  show "issued_by lib now pair = {?c}" using dec c by (auto simp: issued_by_def)
  show "jti_rows db' = jti_rows db @ [new_jti_row j (usr_id u) f (secs (int now)) (j_exp ?c)]"
    using p dec c assms(3)
    by (auto simp: persist_refresh_jti_from_pair_def refresh_claims_def insert_jti_def new_jti_row_def fresh_jti_def split: sum.splits)
qed

lemma rotate_rows:
  assumes "codec_ok lib" and "rotate lib cfg now db c j f nj = (Inr (u, pair), db')" and "fresh_jti db I nj"
  shows "issued_by lib now pair = {refresh_claims cfg now u nj f (j_scopes c) ''refresh''}"
    and "jti_rows db' = consume now j nj (insert_jti (new_jti_row nj (usr_id u) f (secs (int now)) (j_exp (refresh_claims cfg now u nj f (j_scopes c) ''refresh''))) (jti_rows db))"
    and "jwt_encode lib (access_claims cfg now u (j_allowed_repo_ids c) (j_scopes c)) = Inr (access_token pair)"
    and "usr_id u = j_sub c \<and> usr_is_active u"
proof -
  let ?c = "refresh_claims cfg now u nj f (j_scopes c) ''refresh''"
  have enc: "jwt_encode lib ?c = Inr (refresh_token pair)" "jwt_encode lib (access_claims cfg now u (j_allowed_repo_ids c) (j_scopes c)) = Inr (access_token pair)"
    using assms(2) by (auto simp: rotate_def generate_token_pair_typed_def split: sum.splits prod.splits option.splits)
  obtain d where dec: "jwt_decode lib now (refresh_token pair) = Inr d"
    using assms(2) by (auto simp: rotate_def split: sum.splits option.splits)
  have d: "d = ?c" using assms(1) enc(1) dec unfolding codec_ok_def by blast
  show "issued_by lib now pair = {?c}" using dec d by (auto simp: issued_by_def)
  show "jti_rows db' = consume now j nj (insert_jti (new_jti_row nj (usr_id u) f (secs (int now)) (j_exp ?c)) (jti_rows db))"
    using assms(2) dec d by (auto simp: rotate_def refresh_claims_def split: sum.splits option.splits)
  show "jwt_encode lib (access_claims cfg now u (j_allowed_repo_ids c) (j_scopes c)) = Inr (access_token pair)" by (rule enc(2))
  show "usr_id u = j_sub c \<and> usr_is_active u"
    using assms(2) by (auto simp: rotate_def load_active_user_def find_active_def find_Some_iff split: sum.splits option.splits)
qed

text \<open>A token that still decodes is in the table.\<close>

lemma recorded_row:
  assumes "codec_ok lib" "jwt_decode lib now token = Inr c" "recorded now rows c" "distinct (map jr_jti rows)"
  obtains j f r where "j_jti c = Some j" "j_family_id c = Some f" "r \<in> set rows" "jr_jti r = j" "jr_family r = f" "find (\<lambda>r. jr_jti r = j) rows = Some r"
proof -
  have "int now div 1000 \<le> j_exp c + 60" using assms(1,2) unfolding codec_ok_def by blast
  then have "\<not> j_exp c * 1000 < int now - 61000" by linarith
  then show thesis using assms(3,4) that by (auto simp: recorded_def find_jti)
qed

text \<open>A refresh in a state where the tokens are recorded: a rotation of the live row, or a refusal.\<close>

lemma refresh_cases:
  assumes "codec_ok lib" "chain_ok (now, db, m, I)" "refresh_tokens lib cfg now db m token nj nf = (res, db', m')"
    and "\<And>c. jwt_decode lib now token = Inr c \<Longrightarrow> c \<in> I"
  shows "(\<exists>e. res = Inl e \<and> (db' = db \<or> (\<exists>row\<in>set (jti_rows db). db' = db\<lparr>jti_rows := revoke_family now (jr_family row) (jti_rows db)\<rparr>)))
    \<or> (\<exists>c j f row u pair. jwt_decode lib now token = Inr c \<and> j_jti c = Some j \<and> j_family_id c = Some f \<and> row \<in> set (jti_rows db) \<and> jr_jti row = j
        \<and> jr_family row = f \<and> live row \<and> res = Inr (u, pair) \<and> rotate lib cfg now db c j f nj = (Inr (u, pair), db'))"
proof (cases "jwt_decode lib now token")
  case (Inl e)
  then show ?thesis using assms(3) by (auto simp: refresh_tokens_def)
next
  case (Inr c)
  have rec: "recorded now (jti_rows db) c" "distinct (map jr_jti (jti_rows db))" using assms(2,4) Inr by (auto simp: chain_ok_def)
  obtain j f row where row: "j_jti c = Some j" "j_family_id c = Some f" "row \<in> set (jti_rows db)" "jr_jti row = j" "jr_family row = f"
    "find (\<lambda>r. jr_jti r = j) (jti_rows db) = Some row"
    by (rule recorded_row[OF assms(1) Inr rec])
  obtain inv m1 where inv: "is_token_invalidated_replica_safe now db m (j_sub c) (jwt_effective_iat_ms c) = (inv, m1)" by fastforce
  consider "\<exists>e. res = Inl e \<and> db' = db" | "refresh_by_jti lib cfg now db c j f nj = (res, db')"
    using assms(3) Inr row(1,2) inv by (auto simp: refresh_tokens_def split: if_splits sum.splits bool.splits prod.splits)
  then show ?thesis
  proof cases
    case 2
    show ?thesis
    proof (cases "live row")
      case False
      then have "\<exists>e. res = Inl e \<and> (db' = db \<or> db' = db\<lparr>jti_rows := revoke_family now (jr_family row) (jti_rows db)\<rparr>)"
        using 2 row(6) by (auto simp: refresh_by_jti_def session_query_def split: option.splits if_splits)
      then show ?thesis using row(3) by blast
    next
      case True
      then consider "\<exists>e. res = Inl e \<and> db' = db" | "rotate lib cfg now db c j f nj = (res, db')"
        using 2 row(6) by (auto simp: refresh_by_jti_def session_query_def split: option.splits if_splits)
      then show ?thesis
      proof cases
        case rot: 2
        show ?thesis
        proof (cases res)
          case (Inl e)
          then have "db' = db" using rot by (auto simp: rotate_def split: sum.splits option.splits)
          then show ?thesis using Inl by blast
        next
          case res: (Inr up)
          obtain u pair where "up = (u, pair)" by fastforce
          then show ?thesis using rot res Inr row True by blast
        qed
      qed blast
    qed
  qed blast
qed

lemma fades_revoke:
  "fades (\<lambda>r. if P r \<and> jr_revoked_at r = None then r\<lparr>jr_revoked_at := Some t\<rparr> else r)"
proof -
  let ?g = "\<lambda>r. if P r \<and> jr_revoked_at r = None then r\<lparr>jr_revoked_at := Some t\<rparr> else r"
  have "jr_jti (?g r) = jr_jti r \<and> jr_family (?g r) = jr_family r \<and> jr_expires_at (?g r) = jr_expires_at r \<and> (live (?g r) \<longrightarrow> ?g r = r)
     \<and> (jr_revoked_at r \<noteq> None \<longrightarrow> jr_revoked_at (?g r) \<noteq> None)" for r
    by (cases "P r \<and> jr_revoked_at r = None") (simp_all add: live_def)
  then show ?thesis unfolding fades_def by blast
qed

lemma revoke_family_revokes: "list_all (\<lambda>r. f = jr_family r \<longrightarrow> jr_revoked_at r \<noteq> None) (revoke_family now f rows)"
  by (induction rows) (simp_all add: revoke_family_def)

lemma fades_id: "fades (\<lambda>r. r)"
  by (simp add: fades_def)

definition weakens :: "nat \<Rightarrow> jti_row list \<Rightarrow> jti_row list \<Rightarrow> bool" where
  "weakens now rows rows' \<longleftrightarrow> (\<exists>g P. fades g \<and> (\<forall>r. \<not> P r \<longrightarrow> jr_expires_at r < int now - 61000) \<and> rows' = map g (filter P rows))"

lemma weakens_map: "fades g \<Longrightarrow> weakens now rows (map g rows)"
  unfolding weakens_def by (intro exI[of _ g] exI[of _ "\<lambda>_. True"]) simp

lemma weakens_refl [simp]: "weakens now rows rows"
  using weakens_map[OF fades_id, of now rows] by simp

definition extends :: "nat \<Rightarrow> session_db \<Rightarrow> jwt set \<Rightarrow> jti_row list \<Rightarrow> jwt \<Rightarrow> bool" where
  "extends now db I rows' c \<longleftrightarrow> (\<exists>new. fresh_jti db I (jr_jti new) \<and> j_jti c = Some (jr_jti new) \<and> j_family_id c = Some (jr_family new)
     \<and> jr_expires_at new = j_exp c * 1000
     \<and> (fresh_family db I (jr_family new) \<and> rows' = jti_rows db @ [new]
        \<or> (\<exists>r g. r \<in> set (jti_rows db) \<and> live r \<and> jr_family r = jr_family new \<and> fades g \<and> \<not> live (g r) \<and> rows' = map g (jti_rows db) @ [new])))"

lemma session_step_frame:
  assumes "codec_ok lib" "chain_ok (now, db, m, I)" "session_step lib cfg (now, db, m, I) (now', db', m', I')"
  shows "now \<le> now' \<and> (I' = I \<and> weakens now (jti_rows db) (jti_rows db') \<or> (\<exists>c. I' = insert c I \<and> extends now db I (jti_rows db') c))"
  using assms(3)
proof cases
  case (mint u j f allowed scps tt pair)
  let ?c = "refresh_claims cfg now u j f scps tt"
  have "extends now db I (jti_rows db') ?c"
    unfolding extends_def
    by (intro exI[of _ "new_jti_row j (usr_id u) f (secs (int now)) (j_exp ?c)"])
      (use mint mint_rows(2)[OF assms(1) mint(4,5)] in \<open>simp add: new_jti_row_def refresh_claims_def\<close>)
  moreover have "I' = insert ?c I" using mint mint_rows(1)[OF assms(1) mint(4,5)] by simp
  ultimately show ?thesis using mint(1) by blast
next
  case (refreshed token nj nf u pair)
  from refresh_cases[OF assms(1,2) refreshed(3,4)] obtain c j row where
    row: "row \<in> set (jti_rows db)" "jr_jti row = j" "live row" and rot: "rotate lib cfg now db c j (jr_family row) nj = (Inr (u, pair), db')"
    by auto
  let ?c = "refresh_claims cfg now u nj (jr_family row) (j_scopes c) ''refresh''"
  let ?new = "new_jti_row nj (usr_id u) (jr_family row) (secs (int now)) (j_exp ?c)"
  note rr = rotate_rows[OF assms(1) rot refreshed(5)]
  have nj: "nj \<notin> jr_jti ` set (jti_rows db)" using refreshed(5) by (simp add: fresh_jti_def)
  have new: "jr_jti ?new = nj" "jr_family ?new = jr_family row" "jr_expires_at ?new = j_exp ?c * 1000" by (simp_all add: new_jti_row_def)
  have "jti_rows db' = map (consume_row now j nj) (jti_rows db) @ [?new]"
    using consume_snoc[of ?new "jti_rows db" j now] rr(2) nj row new(1) by force
  moreover have "\<not> live (consume_row now j nj row)" "fades (consume_row now j nj)" using consume_spends[OF row(2)] fades_consume by blast+
  ultimately have "extends now db I (jti_rows db') ?c"
    unfolding extends_def using new refreshed(5) row
    by (intro exI[of _ ?new] conjI disjI2 exI[of _ row] exI[of _ "consume_row now j nj"]) (simp_all add: refresh_claims_def)
  then show ?thesis using refreshed(1,2) rr(1) by auto
next
  case (refused token nj nf e)
  from refresh_cases[OF assms(1,2) refused(3,4)] have "weakens now (jti_rows db) (jti_rows db')"
    using weakens_map[OF fades_revoke] by (auto simp: revoke_family_def)
  then show ?thesis using refused by simp
next
  case (logout token r)
  then have "weakens now (jti_rows db) (jti_rows db')"
    using weakens_map[OF fades_revoke] by (auto simp: revoke_refresh_token_family_for_def revoke_family_def split: sum.splits if_splits option.splits)
  then show ?thesis using logout by simp
next
  case (revoke_all usr r)
  then have "weakens now (jti_rows db) (jti_rows db')"
    using weakens_map[OF fades_revoke] by (auto simp: revoke_all_refresh_token_families_def split: sum.splits)
  then show ?thesis using revoke_all by simp
next
  case (cleanup grace r)
  then have "db' = db \<or> jti_rows db' = filter (\<lambda>r. \<not> jr_expires_at r < int now - grace) (jti_rows db)"
    by (auto simp: cleanup_expired_refresh_token_jti_def split: sum.splits)
  moreover have "weakens now (jti_rows db) (filter (\<lambda>r. \<not> jr_expires_at r < int now - grace) (jti_rows db))"
    unfolding weakens_def using cleanup(5) by (intro exI[of _ "\<lambda>r. r"] exI[of _ "\<lambda>r. \<not> jr_expires_at r < int now - grace"]) (auto simp: fades_id)
  ultimately show ?thesis using cleanup by auto
qed auto

lemma weakens_in:
  assumes "weakens now rows rows'" and "r' \<in> set rows'"
  obtains r where "r \<in> set rows" "jr_jti r' = jr_jti r" "jr_family r' = jr_family r" "live r' \<Longrightarrow> r' = r" "jr_revoked_at r \<noteq> None \<Longrightarrow> jr_revoked_at r' \<noteq> None"
proof -
  obtain g P where g: "fades g" "rows' = map g (filter P rows)" using assms(1) by (auto simp: weakens_def)
  obtain r where r: "r \<in> set rows" "r' = g r" using assms(2) g(2) by auto
  have "jr_jti (g r) = jr_jti r \<and> jr_family (g r) = jr_family r \<and> (live (g r) \<longrightarrow> g r = r) \<and> (jr_revoked_at r \<noteq> None \<longrightarrow> jr_revoked_at (g r) \<noteq> None)"
    using g(1) unfolding fades_def by blast
  then show thesis using that[of r] r by blast
qed

lemma weakens_keeps:
  assumes "weakens now rows rows'" and "r \<in> set rows"
  shows "jr_expires_at r < int now - 61000 \<or> (\<exists>r'\<in>set rows'. jr_jti r' = jr_jti r \<and> jr_family r' = jr_family r \<and> jr_expires_at r' = jr_expires_at r)"
proof -
  obtain g P where g: "fades g" "\<And>r. \<not> P r \<Longrightarrow> jr_expires_at r < int now - 61000" "rows' = map g (filter P rows)" using assms(1) by (auto simp: weakens_def)
  show ?thesis
  proof (cases "P r")
    case True
    then have "g r \<in> set rows'" using g(3) assms(2) by simp
    then show ?thesis using g(1) by (metis fades_simps)
  qed (use g(2) in blast)
qed

lemma weakens_chain:
  assumes "weakens now rows rows'" "distinct (map jr_jti rows)" "one_live rows"
  shows "distinct (map jr_jti rows')" and "one_live rows'"
proof -
  obtain g P where g: "fades g" "rows' = map g (filter P rows)" using assms(1) by (auto simp: weakens_def)
  show "distinct (map jr_jti rows')" using assms(2) by (simp add: g comp_def distinct_map_filter)
  show "one_live rows'"
    unfolding one_live_def
  proof (intro ballI impI)
    fix x y assume xy: "x \<in> set rows'" "y \<in> set rows'" "live x" "live y" "jr_family x = jr_family y"
    have "z \<in> set rows" if z: "z \<in> set rows'" "live z" for z by (rule weakens_in[OF assms(1) z(1)]) (use z(2) in blast)
    then have "x \<in> set rows" "y \<in> set rows" using xy by blast+
    then show "x = y" using assms(3) xy unfolding one_live_def by blast
  qed
qed

lemma extends_cases:
  assumes "extends now db I rows' c"
  obtains new g where "fresh_jti db I (jr_jti new)" "j_jti c = Some (jr_jti new)" "j_family_id c = Some (jr_family new)" "jr_expires_at new = j_exp c * 1000"
    "fades g" "rows' = map g (jti_rows db) @ [new]"
    "fresh_family db I (jr_family new) \<or> (\<exists>r\<in>set (jti_rows db). live r \<and> jr_family r = jr_family new \<and> \<not> live (g r))"
proof -
  from assms obtain new where new: "fresh_jti db I (jr_jti new)" "j_jti c = Some (jr_jti new)" "j_family_id c = Some (jr_family new)" "jr_expires_at new = j_exp c * 1000"
    and alt: "fresh_family db I (jr_family new) \<and> rows' = jti_rows db @ [new]
        \<or> (\<exists>r g. r \<in> set (jti_rows db) \<and> live r \<and> jr_family r = jr_family new \<and> fades g \<and> \<not> live (g r) \<and> rows' = map g (jti_rows db) @ [new])"
    unfolding extends_def by blast
  from alt show thesis
  proof
    assume "fresh_family db I (jr_family new) \<and> rows' = jti_rows db @ [new]"
    then show thesis using that[OF new fades_id] by simp
  next
    assume "\<exists>r g. r \<in> set (jti_rows db) \<and> live r \<and> jr_family r = jr_family new \<and> fades g \<and> \<not> live (g r) \<and> rows' = map g (jti_rows db) @ [new]"
    then show thesis using that[OF new] by blast
  qed
qed

lemma extends_chain:
  assumes "extends now db I rows' c" "distinct (map jr_jti (jti_rows db))" "one_live (jti_rows db)"
  shows "distinct (map jr_jti rows')" and "one_live rows'"
proof -
  from assms(1) obtain new g where new: "fresh_jti db I (jr_jti new)" "fades g" "rows' = map g (jti_rows db) @ [new]"
    "fresh_family db I (jr_family new) \<or> (\<exists>r\<in>set (jti_rows db). live r \<and> jr_family r = jr_family new \<and> \<not> live (g r))"
    by (rule extends_cases)
  show "distinct (map jr_jti rows')" using assms(2) new by (simp add: comp_def fresh_jti_def)
  have old: "g r = r \<and> jr_family r \<noteq> jr_family new" if "r \<in> set (jti_rows db)" "live (g r)" for r
  proof -
    have "g r = r" by (rule fades_live[OF new(2) that(2)])
    then show ?thesis using new(4) that assms(3) unfolding fresh_family_def one_live_def by (metis imageI)
  qed
  show "one_live rows'"
    unfolding one_live_def
  proof (intro ballI impI)
    fix x y assume xy: "x \<in> set rows'" "y \<in> set rows'" "live x" "live y" "jr_family x = jr_family y"
    have side: "z = new \<or> z \<in> set (jti_rows db) \<and> jr_family z \<noteq> jr_family new" if z: "z \<in> set rows'" "live z" for z
    proof (cases "z = new")
      case False
      then obtain r where "r \<in> set (jti_rows db)" "z = g r" using z(1) new(3) by auto
      then show ?thesis using old[of r] z(2) by simp
    qed simp
    show "x = y"
      using side[OF xy(1,3)] side[OF xy(2,4)] xy assms(3) unfolding one_live_def by metis
  qed
qed

lemma recorded_extends:
  assumes "extends now db I rows' c" "recorded now (jti_rows db) d"
  shows "recorded now rows' d"
proof -
  from assms(1) obtain new g where g: "fades g" "rows' = map g (jti_rows db) @ [new]" by (rule extends_cases)
  then show ?thesis using assms(2) by (fastforce simp: recorded_def)
qed

lemma recorded_new: "extends now db I rows' c \<Longrightarrow> recorded now rows' c"
  by (erule extends_cases) (auto simp: recorded_def)

lemma recorded_weakens: "weakens now rows rows' \<Longrightarrow> recorded now rows d \<Longrightarrow> recorded now rows' d"
  using weakens_keeps unfolding recorded_def by metis

lemma recorded_later: "recorded now rows d \<Longrightarrow> now \<le> now' \<Longrightarrow> recorded now' rows d"
  unfolding recorded_def by fastforce

lemma chain_step:
  assumes "codec_ok lib" "chain_ok s" "session_step lib cfg s s'"
  shows "chain_ok s'"
proof -
  obtain now db m I now' db' m' I' where s: "s = (now, db, m, I)" "s' = (now', db', m', I')" by (metis prod_cases4)
  have c: "distinct (map jr_jti (jti_rows db))" "one_live (jti_rows db)" "\<forall>c\<in>I. recorded now (jti_rows db) c"
    using assms(2) by (auto simp: chain_ok_def s)
  from session_step_frame[OF assms(1) assms(2)[unfolded s] assms(3)[unfolded s]] have le: "now \<le> now'"
    and alt: "I' = I \<and> weakens now (jti_rows db) (jti_rows db') \<or> (\<exists>c. I' = insert c I \<and> extends now db I (jti_rows db') c)" by auto
  from alt show ?thesis
  proof
    assume w: "I' = I \<and> weakens now (jti_rows db) (jti_rows db')"
    then show ?thesis using weakens_chain[OF _ c(1,2)] c(3) recorded_weakens recorded_later[OF _ le] by (auto simp: chain_ok_def s)
  next
    assume "\<exists>c. I' = insert c I \<and> extends now db I (jti_rows db') c"
    then obtain c where e: "I' = insert c I" "extends now db I (jti_rows db') c" by blast
    show ?thesis
      using extends_chain[OF e(2) c(1,2)] e(1) c(3) recorded_extends[OF e(2)] recorded_new[OF e(2)] recorded_later[OF _ le] by (auto simp: chain_ok_def s)
  qed
qed

interpretation chain: stable "session_step lib cfg" "\<lambda>s. codec_ok lib \<and> chain_ok s" for lib cfg
  by unfold_locales (auto intro: chain_step)

lemma chain_run: "session_run lib cfg s s' \<Longrightarrow> codec_ok lib \<Longrightarrow> chain_ok s \<Longrightarrow> chain_ok s'"
  using chain.good_run by blast

lemma chain_start: "jti_rows db = [] \<Longrightarrow> chain_ok (now, db, m, {})"
  by (simp add: chain_ok_def one_live_def)

text \<open>A token that is spent stays spent, and a family that is revoked stays revoked.\<close>

definition spent :: "jwt \<Rightarrow> session \<Rightarrow> bool" where
  "spent c s \<longleftrightarrow> (case s of (now, db, m, I) \<Rightarrow> c \<in> I \<and> (\<forall>r\<in>set (jti_rows db). j_jti c = Some (jr_jti r) \<longrightarrow> \<not> live r))"

definition family_dead :: "jwt \<Rightarrow> session \<Rightarrow> bool" where
  "family_dead c s \<longleftrightarrow> (case s of (now, db, m, I) \<Rightarrow> c \<in> I \<and> (\<forall>r\<in>set (jti_rows db). j_family_id c = Some (jr_family r) \<longrightarrow> jr_revoked_at r \<noteq> None))"

lemma spent_step:
  assumes "codec_ok lib" "chain_ok s" "session_step lib cfg s s'" "spent c s"
  shows "spent c s'"
proof -
  obtain now db m I now' db' m' I' where s: "s = (now, db, m, I)" "s' = (now', db', m', I')" by (metis prod_cases4)
  have sp: "c \<in> I" "\<And>r. r \<in> set (jti_rows db) \<Longrightarrow> j_jti c = Some (jr_jti r) \<Longrightarrow> \<not> live r" using assms(4) by (auto simp: spent_def s)
  from session_step_frame[OF assms(1) assms(2)[unfolded s] assms(3)[unfolded s]]
  have alt: "I' = I \<and> weakens now (jti_rows db) (jti_rows db') \<or> (\<exists>c. I' = insert c I \<and> extends now db I (jti_rows db') c)" by auto
  from alt show ?thesis
  proof
    assume w: "I' = I \<and> weakens now (jti_rows db) (jti_rows db')"
    have "\<not> live r'" if r': "r' \<in> set (jti_rows db')" "j_jti c = Some (jr_jti r')" for r'
    proof -
      obtain r where "r \<in> set (jti_rows db)" "jr_jti r' = jr_jti r" "live r' \<Longrightarrow> r' = r" by (rule weakens_in[OF conjunct2[OF w] r'(1)]) blast
      then show ?thesis using sp(2)[of r] r'(2) by auto
    qed
    then show ?thesis using w sp(1) by (auto simp: spent_def s)
  next
    assume "\<exists>c. I' = insert c I \<and> extends now db I (jti_rows db') c"
    then obtain d where e: "I' = insert d I" "extends now db I (jti_rows db') d" by blast
    from e(2) obtain new g where new: "fresh_jti db I (jr_jti new)" "fades g" "jti_rows db' = map g (jti_rows db) @ [new]" by (rule extends_cases)
    have "\<not> live (g r)" if "r \<in> set (jti_rows db)" "j_jti c = Some (jr_jti r)" for r
      using sp(2)[OF that] fades_live[OF new(2), of r] by auto
    then show ?thesis using new e(1) sp(1) by (auto simp: spent_def s fresh_jti_def)
  qed
qed

lemma family_dead_step:
  assumes "codec_ok lib" "chain_ok s" "session_step lib cfg s s'" "family_dead c s"
  shows "family_dead c s'"
proof -
  obtain now db m I now' db' m' I' where s: "s = (now, db, m, I)" "s' = (now', db', m', I')" by (metis prod_cases4)
  have fd: "c \<in> I" "\<And>r. r \<in> set (jti_rows db) \<Longrightarrow> j_family_id c = Some (jr_family r) \<Longrightarrow> jr_revoked_at r \<noteq> None" using assms(4) by (auto simp: family_dead_def s)
  from session_step_frame[OF assms(1) assms(2)[unfolded s] assms(3)[unfolded s]]
  have alt: "I' = I \<and> weakens now (jti_rows db) (jti_rows db') \<or> (\<exists>c. I' = insert c I \<and> extends now db I (jti_rows db') c)" by auto
  from alt show ?thesis
  proof
    assume w: "I' = I \<and> weakens now (jti_rows db) (jti_rows db')"
    have "jr_revoked_at r' \<noteq> None" if r': "r' \<in> set (jti_rows db')" "j_family_id c = Some (jr_family r')" for r'
    proof -
      obtain r where "r \<in> set (jti_rows db)" "jr_family r' = jr_family r" "jr_revoked_at r \<noteq> None \<Longrightarrow> jr_revoked_at r' \<noteq> None"
        by (rule weakens_in[OF conjunct2[OF w] r'(1)]) blast
      then show ?thesis using fd(2)[of r] r'(2) by auto
    qed
    then show ?thesis using w fd(1) by (auto simp: family_dead_def s)
  next
    assume "\<exists>c. I' = insert c I \<and> extends now db I (jti_rows db') c"
    then obtain d where e: "I' = insert d I" "extends now db I (jti_rows db') d" by blast
    from e(2) obtain new g where new: "fades g" "jti_rows db' = map g (jti_rows db) @ [new]"
      "fresh_family db I (jr_family new) \<or> (\<exists>r\<in>set (jti_rows db). live r \<and> jr_family r = jr_family new \<and> \<not> live (g r))" by (rule extends_cases)
    have "j_family_id c \<noteq> Some (jr_family new)" using new(3) fd by (fastforce simp: fresh_family_def live_def)
    moreover have "jr_revoked_at (g r) \<noteq> None" if "r \<in> set (jti_rows db)" "j_family_id c = Some (jr_family r)" for r
      using fd(2)[OF that] by (rule fades_revoked[OF new(1)])
    ultimately show ?thesis using new(1,2) e(1) fd(1) by (auto simp: family_dead_def s)
  qed
qed

interpretation spent_token: stable "session_step lib cfg" "\<lambda>s. codec_ok lib \<and> chain_ok s \<and> spent c s" for lib cfg c
  by unfold_locales (auto intro: spent_step chain_step)

interpretation dead_family: stable "session_step lib cfg" "\<lambda>s. codec_ok lib \<and> chain_ok s \<and> family_dead c s" for lib cfg c
  by unfold_locales (auto intro: family_dead_step chain_step)

lemma spent_run: "session_run lib cfg s s' \<Longrightarrow> codec_ok lib \<Longrightarrow> chain_ok s \<Longrightarrow> spent c s \<Longrightarrow> chain_ok s' \<and> spent c s'"
  using spent_token.good_run by blast

lemma family_dead_run: "session_run lib cfg s s' \<Longrightarrow> codec_ok lib \<Longrightarrow> chain_ok s \<Longrightarrow> family_dead c s \<Longrightarrow> chain_ok s' \<and> family_dead c s'"
  using dead_family.good_run by blast

lemma spent_refused:
  assumes "codec_ok lib" "chain_ok (now, db, m, I)" "spent c (now, db, m, I)" "jwt_decode lib now1 token = Inr c"
  shows "\<exists>e. fst (refresh_tokens lib cfg now db m token j f) = Inl e"
proof -
  obtain res db' m' where run: "refresh_tokens lib cfg now db m token j f = (res, db', m')" by (metis prod_cases3)
  have same: "d = c" if "jwt_decode lib now token = Inr d" for d using assms(1,4) that unfolding codec_ok_def by blast
  have "\<not> (\<exists>d k row. jwt_decode lib now token = Inr d \<and> j_jti d = Some k \<and> row \<in> set (jti_rows db) \<and> jr_jti row = k \<and> live row)"
    using same assms(3) by (auto simp: spent_def)
  then show ?thesis using refresh_cases[OF assms(1,2) run] same assms(3) run by (auto simp: spent_def)
qed

lemma family_dead_refused:
  assumes "codec_ok lib" "chain_ok (now, db, m, I)" "family_dead c (now, db, m, I)" "jwt_decode lib now token = Inr d" "d \<in> I" "j_family_id d = j_family_id c"
  shows "\<exists>e. fst (refresh_tokens lib cfg now db m token j f) = Inl e"
proof -
  obtain res db' m' where run: "refresh_tokens lib cfg now db m token j f = (res, db', m')" by (metis prod_cases3)
  have "\<not> live row" if "row \<in> set (jti_rows db)" "j_family_id d = Some (jr_family row)" for row
    using assms(3,6) that by (auto simp: family_dead_def live_def)
  then show ?thesis using refresh_cases[OF assms(1,2) run] assms(4,5) run by auto
qed

section \<open>Properties\<close>

text \<open>C7: the chain of a session. In every reachable state identifiers are keys of the table, a family
  has at most one token that can still be exchanged, and every token handed out is recorded in its
  family until more than a minute after it expired.\<close>

theorem refresh_family_chain:
  assumes "codec_ok lib" and "jti_rows db0 = []" and "session_run lib cfg (now0, db0, m0, {}) (now, db, m, I)"
  shows "distinct (map jr_jti (jti_rows db))
     \<and> (\<forall>r\<in>set (jti_rows db). \<forall>r'\<in>set (jti_rows db). live r \<longrightarrow> live r' \<longrightarrow> jr_family r = jr_family r' \<longrightarrow> r = r')
     \<and> (\<forall>c\<in>I. \<exists>j f. j_jti c = Some j \<and> j_family_id c = Some f \<and>
          ((\<exists>r\<in>set (jti_rows db). jr_jti r = j \<and> jr_family r = f \<and> jr_expires_at r = j_exp c * 1000) \<or> j_exp c * 1000 < int now - 61000))"
  using chain_run[OF assms(3,1) chain_start[OF assms(2)]] by (simp add: chain_ok_def one_live_def recorded_def)

definition demo_codec :: "jwt list \<Rightarrow> jwt_lib" where
  "demo_codec tbl = \<lparr>jwt_encode = (\<lambda>c. case find (\<lambda>i. tbl ! i = c) [0..<length tbl] of Some i \<Rightarrow> Inr (replicate i (CHR ''x'')) | None \<Rightarrow> Inl (Internal [])),
     jwt_decode = (\<lambda>now s. if length s < length tbl \<and> s = replicate (length s) (CHR ''x'') \<and> int now div 1000 \<le> j_exp (tbl ! length s) + 60
       then Inr (tbl ! length s) else Inl (Authentication []))\<rparr>"

lemma demo_codec_ok: "codec_ok (demo_codec tbl)"
  by (auto simp: codec_ok_def demo_codec_def find_Some_iff split: option.splits if_splits)

definition demo_cfg :: session_config where
  "demo_cfg = \<lparr>account_lockout_threshold = 2, account_lockout_duration_minutes = 15, password_expiry_days = 0, jwt_access_token_expiry_minutes = 30,
     jwt_refresh_token_expiry_days = 7\<rparr>"

definition demo_account :: account where
  "demo_account = \<lparr>usr_id = 4, usr_username = ''ann'', usr_email = [], usr_is_admin = False, usr_is_service_account = False, usr_is_active = True,
     usr_must_change_password = False, ac_password_hash = Some ''pw'', ac_auth_provider = Local, ac_failed_login_attempts = 0, ac_locked_until = None,
     ac_last_failed_login_at = None, ac_last_login_at = None, ac_password_changed_at = 0, ac_totp_verified_at = None, ac_privileges_changed_at = 0\<rparr>"

definition demo_session_db :: session_db where
  "demo_session_db = \<lparr>accounts = [demo_account], jti_rows = [], session_outage = None\<rparr>"

abbreviation demo_refresh_claims :: "nat \<Rightarrow> nat \<Rightarrow> jwt" where
  "demo_refresh_claims now j \<equiv> refresh_claims demo_cfg now demo_account j 21 None ''refresh''"

definition demo_table :: "jwt list" where
  "demo_table = [access_claims demo_cfg 1000 demo_account None None, demo_refresh_claims 1000 11, access_claims demo_cfg 2000 demo_account None None,
     demo_refresh_claims 2000 12]"

definition demo_login_db :: session_db where
  "demo_login_db = demo_session_db\<lparr>jti_rows := [new_jti_row 11 4 21 1 604801]\<rparr>"

lemma demo_mint:
  "mint_and_persist (demo_codec demo_table) demo_cfg 1000 demo_session_db demo_account 11 21 None None ''refresh''
     = (Inr \<lparr>access_token = [], refresh_token = ''x''\<rparr>, demo_login_db)"
  by (simp add: mint_and_persist_def generate_token_pair_typed_def persist_refresh_jti_from_pair_def demo_codec_def demo_table_def access_claims_def
      refresh_claims_def secs_def demo_cfg_def demo_account_def demo_session_db_def demo_login_db_def insert_jti_def session_query_def upt_rec)

lemma demo_login_run:
  "session_run (demo_codec demo_table) demo_cfg (1000, demo_session_db, Map.empty, {}) (2000, demo_login_db, Map.empty, {demo_refresh_claims 1000 11})"
proof -
  have i: "issued_by (demo_codec demo_table) 1000 \<lparr>access_token = [], refresh_token = ''x''\<rparr> = {demo_refresh_claims 1000 11}"
    by (auto simp: issued_by_def demo_codec_def demo_table_def refresh_claims_def secs_def demo_cfg_def)
  have "session_step (demo_codec demo_table) demo_cfg (1000, demo_session_db, Map.empty, {}) (1000, demo_login_db, Map.empty, {demo_refresh_claims 1000 11})"
    using session_step.mint[OF demo_mint, of "{}" Map.empty] i by (simp add: fresh_jti_def fresh_family_def demo_session_db_def)
  moreover have "session_step (demo_codec demo_table) demo_cfg (1000, demo_login_db, Map.empty, {demo_refresh_claims 1000 11})
      (2000, demo_login_db, Map.empty, {demo_refresh_claims 1000 11})" by (rule session_step.tick) simp
  ultimately show ?thesis by (meson converse_rtranclp_into_rtranclp rtranclp.rtrancl_refl)
qed

theorem refresh_family_chain_witness:
  "distinct (map jr_jti (jti_rows demo_login_db))"
  using refresh_family_chain[OF demo_codec_ok _ demo_login_run] by (simp add: demo_session_db_def)

text \<open>C8: a refresh token is exchanged at most once. After a successful exchange every later
  presentation of the same token is refused, in every continuation of the run.\<close>

theorem refresh_token_single_use:
  assumes "codec_ok lib" and "jti_rows db0 = []" and "session_run lib cfg (now0, db0, m0, {}) (now1, db1, m1, I1)"
    and "refresh_tokens lib cfg now1 db1 m1 token j f = (Inr (u, pair), db2, m2)" and "\<And>c. jwt_decode lib now1 token = Inr c \<Longrightarrow> c \<in> I1"
    and "fresh_jti db1 I1 j" and "fresh_family db1 I1 f"
    and "session_run lib cfg (now1, db2, m2, I1 \<union> issued_by lib now1 pair) (now3, db3, m3, I3)"
  shows "\<exists>e. fst (refresh_tokens lib cfg now3 db3 m3 token j' f') = Inl e"
proof -
  have ok1: "chain_ok (now1, db1, m1, I1)" by (rule chain_run[OF assms(3,1) chain_start[OF assms(2)]])
  from refresh_cases[OF assms(1) ok1 assms(4,5)] obtain c k row where c: "jwt_decode lib now1 token = Inr c" "j_jti c = Some k" "row \<in> set (jti_rows db1)"
    "jr_jti row = k" "rotate lib cfg now1 db1 c k (jr_family row) j = (Inr (u, pair), db2)" by auto
  have step: "session_step lib cfg (now1, db1, m1, I1) (now1, db2, m2, I1 \<union> issued_by lib now1 pair)"
    by (rule session_step.refreshed[OF assms(4,5,6,7)])
  have rows2: "jti_rows db2 = map (consume_row now1 k j) (insert_jti (new_jti_row j (usr_id u) (jr_family row) (secs (int now1))
      (j_exp (refresh_claims cfg now1 u j (jr_family row) (j_scopes c) ''refresh''))) (jti_rows db1))"
    using rotate_rows(2)[OF assms(1) c(5) assms(6)] by (simp add: consume_def)
  have "\<not> live r" if r: "r \<in> set (jti_rows db2)" "jr_jti r = k" for r
  proof -
    obtain x where "r = consume_row now1 k j x" using r(1) unfolding rows2 by auto
    then show ?thesis using r(2) consume_spends[of x k now1 j] fades_simps(1)[OF fades_consume, of now1 k j x] by simp
  qed
  then have "spent c (now1, db2, m2, I1 \<union> issued_by lib now1 pair)" using c(1,2) assms(5) by (auto simp: spent_def)
  then have "chain_ok (now3, db3, m3, I3) \<and> spent c (now3, db3, m3, I3)"
    by (rule spent_run[OF assms(8,1) chain_step[OF assms(1) ok1 step]])
  then show ?thesis using spent_refused[OF assms(1)] c(1) by blast
qed

definition demo_rotated_db :: session_db where
  "demo_rotated_db = demo_login_db\<lparr>jti_rows := [consume_row 2000 11 12 (new_jti_row 11 4 21 1 604801), new_jti_row 12 4 21 2 604802]\<rparr>"

lemma demo_rotation:
  "\<exists>m. refresh_tokens (demo_codec demo_table) demo_cfg 2000 demo_login_db Map.empty ''x'' 12 22
     = (Inr (demo_account, \<lparr>access_token = ''xx'', refresh_token = ''xxx''\<rparr>), demo_rotated_db, m)"
  by (simp add: refresh_tokens_def refresh_by_jti_def rotate_def load_active_user_def find_active_def is_token_invalidated_replica_safe_def
      fetch_credential_change_watermark_def find_account_def db_watermark_def apply_db_clock_skew_tolerance_def CREDENTIAL_DB_CLOCK_SKEW_TOLERANCE_MS_def
      saturate_i64_def jwt_effective_iat_ms_def generate_token_pair_typed_def demo_codec_def demo_table_def access_claims_def refresh_claims_def secs_def
      demo_cfg_def demo_account_def demo_session_db_def demo_login_db_def demo_rotated_db_def consume_def consume_row_def insert_jti_def new_jti_row_def live_def
      session_query_def upt_rec)

theorem refresh_token_single_use_witness:
  "(case refresh_tokens (demo_codec demo_table) demo_cfg 2000 demo_login_db Map.empty ''x'' 12 22 of (r, db, m) \<Rightarrow>
     is_ok r \<and> \<not> is_ok (fst (refresh_tokens (demo_codec demo_table) demo_cfg 2000 db m ''x'' 13 23)))"
proof -
  obtain db m where run: "refresh_tokens (demo_codec demo_table) demo_cfg 2000 demo_login_db Map.empty ''x'' 12 22
     = (Inr (demo_account, \<lparr>access_token = ''xx'', refresh_token = ''xxx''\<rparr>), db, m)" using demo_rotation by blast
  have "c \<in> {demo_refresh_claims 1000 11}" if "jwt_decode (demo_codec demo_table) 2000 ''x'' = Inr c" for c
    using that by (auto simp: demo_codec_def demo_table_def split: if_splits)
  moreover have "fresh_jti demo_login_db {demo_refresh_claims 1000 11} 12" "fresh_family demo_login_db {demo_refresh_claims 1000 11} 22"
    by (simp_all add: fresh_jti_def fresh_family_def demo_login_db_def new_jti_row_def refresh_claims_def)
  ultimately have "\<exists>e. fst (refresh_tokens (demo_codec demo_table) demo_cfg 2000 db m ''x'' 13 23) = Inl e"
    using refresh_token_single_use[OF demo_codec_ok _ demo_login_run run _ _ _ rtranclp.rtrancl_refl] by (simp add: demo_session_db_def)
  then show ?thesis using run by auto
qed

text \<open>C9: a replay ends the session. When a token of the session is presented after it was exchanged, and
  the exchange is more than thirty seconds old or its successor can no longer be exchanged, the replay
  is reported, and from then on no token of the session's family is ever exchanged again.\<close>

theorem refresh_replay_kills_family:
  assumes "codec_ok lib" and "jti_rows db0 = []" and "session_run lib cfg (now0, db0, m0, {}) (now1, db1, m1, I1)"
    and "jwt_decode lib now1 token = Inr c" and "c \<in> I1" and "fresh_jti db1 I1 j" and "fresh_family db1 I1 f"
    and "j_token_type c = ''refresh''" and "session_outage db1 = None"
    and "fst (is_token_invalidated_replica_safe now1 db1 m1 (j_sub c) (jwt_effective_iat_ms c)) = Inr False"
    and "row \<in> set (jti_rows db1)" and "j_jti c = Some (jr_jti row)" and "jr_consumed_at row \<noteq> None" and "jr_revoked_at row = None"
    and "genuine_replay now1 (jti_rows db1) row"
    and "refresh_tokens lib cfg now1 db1 m1 token j f = (res, db2, m2)"
    and "session_run lib cfg (now1, db2, m2, I1) (now3, db3, m3, I3)"
    and "jwt_decode lib now3 token' = Inr d" and "d \<in> I3" and "j_family_id d = j_family_id c"
  shows "res = Inl (Authentication ''Refresh token replay detected'')
     \<and> (\<exists>e. fst (refresh_tokens lib cfg now3 db3 m3 token' j' f') = Inl e)"
proof -
  have ok1: "chain_ok (now1, db1, m1, I1)" by (rule chain_run[OF assms(3,1) chain_start[OF assms(2)]])
  then have rec: "recorded now1 (jti_rows db1) c" "distinct (map jr_jti (jti_rows db1))" using assms(5) by (auto simp: chain_ok_def)
  have row: "find (\<lambda>r. jr_jti r = jr_jti row) (jti_rows db1) = Some row" using assms(11) rec(2) by (simp add: find_jti)
  have fam: "j_family_id c = Some (jr_family row)"
    by (rule recorded_row[OF assms(1,4) rec]) (use assms(12) row in auto)
  have "refresh_by_jti lib cfg now1 db1 c (jr_jti row) (jr_family row) j
      = (Inl (Authentication ''Refresh token replay detected''), db1\<lparr>jti_rows := revoke_family now1 (jr_family row) (jti_rows db1)\<rparr>)"
    using row assms(9,13-15) by (auto simp: refresh_by_jti_def session_query_def live_def)
  then have r: "res = Inl (Authentication ''Refresh token replay detected'')" "db2 = db1\<lparr>jti_rows := revoke_family now1 (jr_family row) (jti_rows db1)\<rparr>"
    using assms(4,8,10,12,16) fam by (auto simp: refresh_tokens_def split: prod.splits sum.splits)
  have step: "session_step lib cfg (now1, db1, m1, I1) (now1, db2, m2, I1)"
    by (rule session_step.refused[OF assms(16)[unfolded r(1)] _ assms(6,7)]) (use assms(4,5) in simp)
  have "family_dead c (now1, db2, m2, I1)" using assms(5) fam revoke_family_revokes[of "jr_family row" now1 "jti_rows db1"] by (simp add: family_dead_def r(2) list_all_iff)
  then have "chain_ok (now3, db3, m3, I3) \<and> family_dead c (now3, db3, m3, I3)"
    by (rule family_dead_run[OF assms(17,1) chain_step[OF assms(1) ok1 step]])
  then show ?thesis using family_dead_refused[OF assms(1) _ _ assms(18-20)] r(1) by blast
qed

lemma demo_rotation_run:
  "session_run (demo_codec demo_table) demo_cfg (1000, demo_session_db, Map.empty, {})
     (40000, demo_rotated_db, Map.empty, {demo_refresh_claims 1000 11, demo_refresh_claims 2000 12})"
proof -
  let ?I = "{demo_refresh_claims 1000 11}"
  obtain m where run: "refresh_tokens (demo_codec demo_table) demo_cfg 2000 demo_login_db Map.empty ''x'' 12 22
     = (Inr (demo_account, \<lparr>access_token = ''xx'', refresh_token = ''xxx''\<rparr>), demo_rotated_db, m)" using demo_rotation by blast
  have i: "issued_by (demo_codec demo_table) 2000 \<lparr>access_token = ''xx'', refresh_token = ''xxx''\<rparr> = {demo_refresh_claims 2000 12}"
    by (auto simp: issued_by_def demo_codec_def demo_table_def refresh_claims_def secs_def demo_cfg_def)
  have known: "c \<in> ?I" if "jwt_decode (demo_codec demo_table) 2000 ''x'' = Inr c" for c
    using that by (auto simp: demo_codec_def demo_table_def split: if_splits)
  have fresh: "fresh_jti demo_login_db ?I 12" "fresh_family demo_login_db ?I 22"
    by (simp_all add: fresh_jti_def fresh_family_def demo_login_db_def new_jti_row_def refresh_claims_def)
  let ?J = "?I \<union> {demo_refresh_claims 2000 12}"
  have 1: "session_step (demo_codec demo_table) demo_cfg (2000, demo_login_db, Map.empty, ?I) (2000, demo_rotated_db, m, ?J)"
    using session_step.refreshed[OF run known fresh] i by simp
  have 2: "session_step (demo_codec demo_table) demo_cfg (2000, demo_rotated_db, m, ?J) (2000, demo_rotated_db, Map.empty, ?J)"
    by (rule session_step.others) simp
  have 3: "session_step (demo_codec demo_table) demo_cfg (2000, demo_rotated_db, Map.empty, ?J) (40000, demo_rotated_db, Map.empty, ?J)"
    by (rule session_step.tick) simp
  have "session_run (demo_codec demo_table) demo_cfg (2000, demo_login_db, Map.empty, ?I) (40000, demo_rotated_db, Map.empty, ?J)"
    by (rule converse_rtranclp_into_rtranclp, rule 1, rule converse_rtranclp_into_rtranclp, rule 2, rule r_into_rtranclp, rule 3)
  then have "session_run (demo_codec demo_table) demo_cfg (1000, demo_session_db, Map.empty, {}) (40000, demo_rotated_db, Map.empty, ?J)"
    by (rule rtranclp_trans[OF demo_login_run])
  moreover have "?J = {demo_refresh_claims 1000 11, demo_refresh_claims 2000 12}" by blast
  ultimately show ?thesis by (simp only:)
qed

theorem refresh_replay_kills_family_witness:
  "(case refresh_tokens (demo_codec demo_table) demo_cfg 40000 demo_rotated_db Map.empty ''x'' 13 23 of (r, db, m) \<Rightarrow>
     r = Inl (Authentication ''Refresh token replay detected'') \<and> \<not> is_ok (fst (refresh_tokens (demo_codec demo_table) demo_cfg 40000 db m ''xxx'' 14 24)))"
proof -
  obtain r db m where run: "refresh_tokens (demo_codec demo_table) demo_cfg 40000 demo_rotated_db Map.empty ''x'' 13 23 = (r, db, m)" by (metis prod_cases3)
  let ?row = "consume_row 2000 11 12 (new_jti_row 11 4 21 1 604801)"
  have row: "?row \<in> set (jti_rows demo_rotated_db)" "j_jti (demo_refresh_claims 1000 11) = Some (jr_jti ?row)" "jr_consumed_at ?row \<noteq> None" "jr_revoked_at ?row = None"
    "genuine_replay 40000 (jti_rows demo_rotated_db) ?row"
    by (simp_all add: demo_rotated_db_def consume_row_def new_jti_row_def live_def refresh_claims_def genuine_replay_def REFRESH_REPLAY_BENIGN_GRACE_SECS_def Let_def)
  have tok: "jwt_decode (demo_codec demo_table) 40000 ''x'' = Inr (demo_refresh_claims 1000 11)"
    "jwt_decode (demo_codec demo_table) 40000 ''xxx'' = Inr (demo_refresh_claims 2000 12)"
    by (simp_all add: demo_codec_def demo_table_def refresh_claims_def secs_def demo_cfg_def)
  have fresh: "fresh_jti demo_rotated_db {demo_refresh_claims 1000 11, demo_refresh_claims 2000 12} 13"
    "fresh_family demo_rotated_db {demo_refresh_claims 1000 11, demo_refresh_claims 2000 12} 23"
    by (simp_all add: fresh_jti_def fresh_family_def demo_rotated_db_def consume_row_def new_jti_row_def refresh_claims_def)
  have valid: "fst (is_token_invalidated_replica_safe 40000 demo_rotated_db Map.empty (j_sub (demo_refresh_claims 1000 11)) (jwt_effective_iat_ms (demo_refresh_claims 1000 11))) = Inr False"
    by (simp add: is_token_invalidated_replica_safe_def fetch_credential_change_watermark_def find_account_def db_watermark_def apply_db_clock_skew_tolerance_def
        CREDENTIAL_DB_CLOCK_SKEW_TOLERANCE_MS_def saturate_i64_def jwt_effective_iat_ms_def refresh_claims_def demo_rotated_db_def demo_login_db_def
        demo_session_db_def demo_account_def session_query_def)
  have side: "jti_rows demo_session_db = []" "demo_refresh_claims 1000 11 \<in> {demo_refresh_claims 1000 11, demo_refresh_claims 2000 12}"
    "j_token_type (demo_refresh_claims 1000 11) = ''refresh''" "session_outage demo_rotated_db = None"
    by (simp_all add: refresh_claims_def demo_rotated_db_def demo_login_db_def demo_session_db_def)
  show ?thesis
    using refresh_replay_kills_family[OF demo_codec_ok side(1) demo_rotation_run tok(1) side(2) fresh side(3,4) valid row run rtranclp.rtrancl_refl tok(2), of 14 24] run
    by (auto simp: refresh_claims_def)
qed

text \<open>A refresh never widens a session. The access token of a successful refresh names an account that is
  active now, carries its current administrator flag and exactly the scopes of the presented token.\<close>

lemma refresh_keeps_scope:
  assumes "codec_ok lib" and "jti_rows db0 = []" and "session_run lib cfg (now0, db0, m0, {}) (now, db, m, I)"
    and "refresh_tokens lib cfg now db m token j f = (Inr (u, pair), db', m')" and "jwt_decode lib now token = Inr c" and "c \<in> I"
    and "fresh_jti db I j" and "jwt_decode lib now (access_token pair) = Inr a"
  shows "u \<in> set (accounts db) \<and> usr_is_active u \<and> j_sub a = j_sub c \<and> j_sub a = usr_id u \<and> j_is_admin a = usr_is_admin u
     \<and> j_scopes a = j_scopes c \<and> j_allowed_repo_ids a = j_allowed_repo_ids c \<and> j_token_type a = ''access''"
proof -
  have "chain_ok (now, db, m, I)" by (rule chain_run[OF assms(3,1) chain_start[OF assms(2)]])
  from refresh_cases[OF assms(1) this assms(4)] obtain k g where rot: "rotate lib cfg now db c k g j = (Inr (u, pair), db')" using assms(5,6) by auto
  have "a = access_claims cfg now u (j_allowed_repo_ids c) (j_scopes c)"
    using rotate_rows(3)[OF assms(1) rot assms(7)] assms(1,8) unfolding codec_ok_def by blast
  moreover have "u \<in> set (accounts db)"
    using rot by (auto simp: rotate_def load_active_user_def find_active_def find_Some_iff split: sum.splits option.splits)
  ultimately show ?thesis using rotate_rows(4)[OF assms(1) rot assms(7)] by (simp add: access_claims_def)
qed

lemma refresh_keeps_scope_witness:
  "\<exists>a. jwt_decode (demo_codec demo_table) 2000 ''xx'' = Inr a \<and> j_sub a = 4 \<and> j_scopes a = None \<and> j_token_type a = ''access''"
proof -
  obtain m where run: "refresh_tokens (demo_codec demo_table) demo_cfg 2000 demo_login_db Map.empty ''x'' 12 22
     = (Inr (demo_account, \<lparr>access_token = ''xx'', refresh_token = ''xxx''\<rparr>), demo_rotated_db, m)" using demo_rotation by blast
  have tok: "jwt_decode (demo_codec demo_table) 2000 ''x'' = Inr (demo_refresh_claims 1000 11)"
    "jwt_decode (demo_codec demo_table) 2000 ''xx'' = Inr (access_claims demo_cfg 2000 demo_account None None)"
    by (simp_all add: demo_codec_def demo_table_def refresh_claims_def access_claims_def secs_def demo_cfg_def)
  have "fresh_jti demo_login_db {demo_refresh_claims 1000 11} 12" by (simp add: fresh_jti_def demo_login_db_def new_jti_row_def refresh_claims_def)
  then show ?thesis
    using refresh_keeps_scope[OF demo_codec_ok _ demo_login_run run tok(1)] tok(2) by (simp add: demo_session_db_def refresh_claims_def demo_account_def)
qed

section \<open>Login and lockout\<close>

text \<open>Accounts as the table keeps them: identifiers and user names are keys.\<close>

definition accounts_ok :: "session_db \<Rightarrow> bool" where
  "accounts_ok db \<longleftrightarrow> distinct (map usr_id (accounts db)) \<and> distinct (map usr_username (accounts db))"

lemma find_key: "distinct (map k xs) \<Longrightarrow> a \<in> set xs \<Longrightarrow> find (\<lambda>x. k x = k a \<and> P x) xs = (if P a then Some a else None)"
  by (induction xs) (auto simp: find_None_iff image_iff)

lemma find_account_ok: "accounts_ok db \<Longrightarrow> a \<in> set (accounts db) \<Longrightarrow> find_account db (usr_id a) = Some a"
  using find_key[of usr_id "accounts db" a "\<lambda>_. True"] by (simp add: accounts_ok_def find_account_def)

lemma find_login_ok:
  "accounts_ok db \<Longrightarrow> a \<in> set (accounts db) \<Longrightarrow>
   find (\<lambda>x. usr_username x = usr_username a \<and> usr_is_active x) (accounts db) = (if usr_is_active a then Some a else None)"
  by (simp add: accounts_ok_def find_key)

lemma update_account_ok:
  assumes "accounts_ok db" "a \<in> set (accounts db)" "\<And>x. usr_id (f x) = usr_id x" "\<And>x. usr_username (f x) = usr_username x"
  shows "accounts_ok (update_account (usr_id a) f db)" and "f a \<in> set (accounts (update_account (usr_id a) f db))"
proof -
  have "map usr_id (accounts (update_account (usr_id a) f db)) = map usr_id (accounts db)"
    "map usr_username (accounts (update_account (usr_id a) f db)) = map usr_username (accounts db)"
    by (simp_all add: update_account_def assms(3,4))
  then show "accounts_ok (update_account (usr_id a) f db)" using assms(1) by (simp add: accounts_ok_def)
  show "f a \<in> set (accounts (update_account (usr_id a) f db))" using assms(2) by (auto simp: update_account_def)
qed

lemma record_failure_keeps [simp]:
  "usr_id (record_failure now n l a) = usr_id a" "usr_username (record_failure now n l a) = usr_username a"
  "usr_is_active (record_failure now n l a) = usr_is_active a" "ac_auth_provider (record_failure now n l a) = ac_auth_provider a"
  "ac_password_hash (record_failure now n l a) = ac_password_hash a" "ac_failed_login_attempts (record_failure now n l a) = n"
  "ac_locked_until (record_failure now n l a) = l"
  by (simp_all add: record_failure_def)

lemma record_success_keeps [simp]:
  "usr_id (record_success now a) = usr_id a" "usr_username (record_success now a) = usr_username a"
  "ac_locked_until (record_success now a) = None" "ac_last_failed_login_at (record_success now a) = None"
  by (auto simp: record_success_def)

lemma record_success_attempts: "0 \<le> ac_failed_login_attempts a \<Longrightarrow> ac_failed_login_attempts (record_success now a) = 0"
  by (auto simp: record_success_def)

text \<open>An active local account with a password hash, in a table that answers.\<close>

definition local_account :: "session_db \<Rightarrow> account \<Rightarrow> string \<Rightarrow> bool" where
  "local_account db u h \<longleftrightarrow> accounts_ok db \<and> session_outage db = None \<and> u \<in> set (accounts db) \<and> usr_is_active u \<and> ac_auth_provider u = Local
     \<and> ac_password_hash u = Some h"

lemma local_account_failure:
  "local_account db u h \<Longrightarrow> local_account (update_account (usr_id u) (record_failure now n l) db) (record_failure now n l u) h"
  using update_account_ok[of db u "record_failure now n l"] by (simp add: local_account_def) (simp add: update_account_def)

lemma wrong_password:
  "local_account db u h \<Longrightarrow> verify p h = Inr False \<Longrightarrow> login_user lib cfg verify now db (usr_username u) p j f =
     (let n = ac_failed_login_attempts u + 1; l = should_lock n (account_lockout_threshold cfg) (account_lockout_duration_minutes cfg) (int now)
      in (Inl (Authentication (if l \<noteq> None \<or> is_account_locked (ac_locked_until u) (int now)
            then ''Account temporarily locked due to too many failed login attempts'' else ''Invalid username or password'')),
          update_account (usr_id u) (record_failure now n l) db))"
  by (simp add: local_account_def login_user_def session_query_def find_login_ok Let_def failed_attempt_is_locked_def)

text \<open>A series of attempts, each a time and a password.\<close>

fun guesses :: "jwt_lib \<Rightarrow> session_config \<Rightarrow> (string \<Rightarrow> string \<Rightarrow> bool app_result) \<Rightarrow> string \<Rightarrow> (nat \<times> string) list \<Rightarrow> session_db \<Rightarrow> session_db" where
  "guesses lib cfg verify name [] db = db"
| "guesses lib cfg verify name ((now, p) # ps) db = guesses lib cfg verify name ps (snd (login_user lib cfg verify now db name p 0 0))"

lemma guesses_count:
  assumes "local_account db u h" and "list_all (\<lambda>(now, p). verify p h = Inr False) ps"
  obtains u' where "local_account (guesses lib cfg verify (usr_username u) ps db) u' h" "usr_username u' = usr_username u" "usr_id u' = usr_id u"
    "ac_failed_login_attempts u' = ac_failed_login_attempts u + int (length ps)"
  using assms
proof (induction ps arbitrary: db u thesis)
  case (Cons a ps)
  obtain now p where a: "a = (now, p)" by fastforce
  define n where "n = ac_failed_login_attempts u + 1"
  define l where "l = should_lock n (account_lockout_threshold cfg) (account_lockout_duration_minutes cfg) (int now)"
  have db: "snd (login_user lib cfg verify now db (usr_username u) p 0 0) = update_account (usr_id u) (record_failure now n l) db"
    using wrong_password[where verify = verify and p = p, OF Cons.prems(2)] Cons.prems(3) by (simp add: a Let_def n_def l_def)
  show ?case
    by (rule Cons.IH[OF _ local_account_failure[OF Cons.prems(2), of now n l]]) (use Cons.prems(1,3) db in \<open>simp_all add: a n_def\<close>)
qed simp

text \<open>C11: lockout. Once a series of wrong passwords has brought the counter of an account one short of the
  threshold, the next wrong password is answered as locked, at any time, whatever came before, and it locks the
  account for the configured duration.\<close>

theorem wrong_guesses_lock_account:
  assumes "local_account db u h" and "list_all (\<lambda>(now, p). verify p h = Inr False) ps" and "verify p h = Inr False"
    and "0 < account_lockout_threshold cfg" and "account_lockout_threshold cfg < 2 ^ 31"
    and "int (account_lockout_threshold cfg) \<le> ac_failed_login_attempts u + int (length ps) + 1"
    and "login_user lib cfg verify now (guesses lib cfg verify (usr_username u) ps db) (usr_username u) p j f = (r, db')"
  shows "r = Inl (Authentication ''Account temporarily locked due to too many failed login attempts'')
     \<and> map_option ac_locked_until (find_account db' (usr_id u)) = Some (Some (int now + account_lockout_duration_minutes cfg * 60000))"
proof -
  let ?db = "guesses lib cfg verify (usr_username u) ps db"
  obtain v where v: "local_account ?db v h" "usr_username v = usr_username u" "usr_id v = usr_id u"
    "ac_failed_login_attempts v = ac_failed_login_attempts u + int (length ps)"
    by (rule guesses_count[where verify = verify and h = h, OF assms(1,2)])
  let ?n = "ac_failed_login_attempts v + 1"
  let ?l = "Some (int now + account_lockout_duration_minutes cfg * 60000)"
  have l: "should_lock ?n (account_lockout_threshold cfg) (account_lockout_duration_minutes cfg) (int now) = ?l"
    using assms(4-6) v(4) by (simp add: should_lock_def wrap_i32_def Let_def)
  have run: "login_user lib cfg verify now ?db (usr_username v) p j f =
      (Inl (Authentication ''Account temporarily locked due to too many failed login attempts''), update_account (usr_id v) (record_failure now ?n ?l) ?db)"
    using wrong_password[where verify = verify and p = p, OF v(1) assms(3)] l by (simp add: Let_def)
  have "find_account (update_account (usr_id v) (record_failure now ?n ?l) ?db) (usr_id (record_failure now ?n ?l v)) = Some (record_failure now ?n ?l v)"
    using local_account_failure[OF v(1)] unfolding local_account_def by (blast intro: find_account_ok)
  then show ?thesis using run assms(7) v(2,3) by simp
qed

definition demo_verify :: "string \<Rightarrow> string \<Rightarrow> bool app_result" where
  "demo_verify p h = Inr (p = h)"

theorem wrong_guesses_lock_account_witness:
  "fst (login_user (demo_codec []) demo_cfg demo_verify 9000 (guesses (demo_codec []) demo_cfg demo_verify ''ann'' [(1000, ''a''), (5000, ''b'')] demo_session_db)
     ''ann'' ''c'' 0 0) = Inl (Authentication ''Account temporarily locked due to too many failed login attempts'')"
proof -
  obtain r db' where run: "login_user (demo_codec []) demo_cfg demo_verify 9000 (guesses (demo_codec []) demo_cfg demo_verify (usr_username demo_account)
     [(1000, ''a''), (5000, ''b'')] demo_session_db) (usr_username demo_account) ''c'' 0 0 = (r, db')" by fastforce
  have "local_account demo_session_db demo_account ''pw''" "usr_username demo_account = ''ann''"
    "ac_failed_login_attempts demo_account = 0" "account_lockout_threshold demo_cfg = 2"
    by (simp_all add: local_account_def accounts_ok_def demo_session_db_def demo_account_def demo_cfg_def)
  note demo = this
  show ?thesis
    using wrong_guesses_lock_account[where verify = demo_verify, OF demo(1) _ _ _ _ _ run] run demo(2-4) by (simp add: demo_verify_def)
qed

text \<open>The owner is never locked out. Whatever the lock and the counter of an account say, the right password of
  an active local account logs in when tokens can be minted, and leaves no lock and no failed attempt behind.\<close>

lemma correct_password_clears_lock:
  assumes "local_account db u h" and "verify p h = Inr True" and "0 \<le> ac_failed_login_attempts u"
    and "jwt_encode lib (access_claims cfg now u None None) = Inr sa" and "jwt_encode lib (refresh_claims cfg now u j f None ''refresh'') = Inr sr"
    and "jwt_decode lib now sr = Inr (refresh_claims cfg now u j f None ''refresh'')"
  shows "\<exists>u' db' a. login_user lib cfg verify now db (usr_username u) p j f = (Inr (u', \<lparr>access_token = sa, refresh_token = sr\<rparr>), db') \<and> usr_id u' = usr_id u
     \<and> usr_must_change_password u' = (usr_must_change_password u \<or> is_password_expired (ac_password_changed_at u) (password_expiry_days cfg) (int now))
     \<and> find_account db' (usr_id u) = Some a \<and> ac_locked_until a = None \<and> ac_failed_login_attempts a = 0
     \<and> usr_must_change_password a = usr_must_change_password u'"
proof -
  have u: "accounts_ok db" "u \<in> set (accounts db)" "session_outage db = None" using assms(1) by (simp_all add: local_account_def)
  let ?stale = "\<not> usr_must_change_password u \<and> is_password_expired (ac_password_changed_at u) (password_expiry_days cfg) (int now)"
  let ?u = "if ?stale then u\<lparr>usr_must_change_password := True\<rparr> else u"
  let ?db1 = "update_account (usr_id u) (record_success now) db"
  let ?mark = "\<lambda>a :: account. a\<lparr>usr_must_change_password := True\<rparr>"
  let ?db2 = "if ?stale then update_account (usr_id u) ?mark ?db1 else ?db1"
  let ?a = "if ?stale then ?mark (record_success now u) else record_success now u"
  have ok1: "accounts_ok ?db1" "record_success now u \<in> set (accounts ?db1)" using update_account_ok[OF u(1,2), of "record_success now"] by simp_all
  have ok2: "accounts_ok ?db2 \<and> ?a \<in> set (accounts ?db2)"
    using ok1 update_account_ok[OF ok1, of ?mark] by simp
  have out: "session_outage ?db2 = None" using u(3) by (simp add: update_account_def)
  have enc: "jwt_encode lib (access_claims cfg now ?u None None) = Inr sa" "jwt_encode lib (refresh_claims cfg now ?u j f None ''refresh'') = Inr sr"
    "jwt_decode lib now sr = Inr (refresh_claims cfg now ?u j f None ''refresh'')"
    using assms(4-6) by (simp_all add: access_claims_def refresh_claims_def)
  obtain db3 where minted: "mint_and_persist lib cfg now ?db2 ?u j f None None ''refresh'' = (Inr \<lparr>access_token = sa, refresh_token = sr\<rparr>, db3)" "accounts db3 = accounts ?db2"
    using enc out by (simp add: mint_and_persist_def generate_token_pair_typed_def persist_refresh_jti_from_pair_def session_query_def refresh_claims_def)
  have run: "login_user lib cfg verify now db (usr_username u) p j f = (Inr (?u, \<lparr>access_token = sa, refresh_token = sr\<rparr>), db3)"
    using assms(1,2) find_login_ok[OF u(1,2)] minted(1) by (simp add: local_account_def login_user_def session_query_def Let_def)
  have "find_account ?db2 (usr_id ?a) = Some ?a" by (rule find_account_ok) (use ok2 in blast)+
  moreover have "usr_id ?a = usr_id u" by simp
  ultimately have a: "find_account db3 (usr_id u) = Some ?a" using minted(2) unfolding find_account_def by metis
  have flag: "usr_must_change_password (record_success now u) = usr_must_change_password u" by (simp add: record_success_def)
  show ?thesis by (intro exI conjI, rule run, simp, simp, rule a) (use record_success_attempts[OF assms(3)] flag in simp_all)
qed

definition demo_locked_account :: account where
  "demo_locked_account = demo_account\<lparr>ac_failed_login_attempts := 7, ac_locked_until := Some 900000\<rparr>"

lemma correct_password_clears_lock_witness:
  "is_account_locked (ac_locked_until demo_locked_account) 1000
   \<and> is_ok (fst (login_user (demo_codec demo_table) demo_cfg demo_verify 1000 (demo_session_db\<lparr>accounts := [demo_locked_account]\<rparr>) ''ann'' ''pw'' 11 21))"
proof -
  have "local_account (demo_session_db\<lparr>accounts := [demo_locked_account]\<rparr>) demo_locked_account ''pw''" "usr_username demo_locked_account = ''ann''"
    "0 \<le> ac_failed_login_attempts demo_locked_account" "is_account_locked (ac_locked_until demo_locked_account) 1000"
    by (simp_all add: local_account_def accounts_ok_def demo_session_db_def demo_locked_account_def demo_account_def is_account_locked_def)
  note demo = this
  have codec: "jwt_encode (demo_codec demo_table) (access_claims demo_cfg 1000 demo_locked_account None None) = Inr []"
    "jwt_encode (demo_codec demo_table) (refresh_claims demo_cfg 1000 demo_locked_account 11 21 None ''refresh'') = Inr ''x''"
    "jwt_decode (demo_codec demo_table) 1000 ''x'' = Inr (refresh_claims demo_cfg 1000 demo_locked_account 11 21 None ''refresh'')"
    by (simp_all add: demo_codec_def demo_table_def access_claims_def refresh_claims_def secs_def demo_cfg_def demo_locked_account_def demo_account_def upt_rec)
  show ?thesis
    using correct_password_clears_lock[where verify = demo_verify and p = "''pw''", OF demo(1) _ demo(3) codec] demo(2,4) by (auto simp: demo_verify_def)
qed

section \<open>Behaviour that differs from the documentation\<close>

text \<open>A refresh token never carries the repository allow-list, so the access token of a rotation has none,
  whatever list the session was opened with.\<close>

lemma rotation_drops_allow_list:
  assumes "codec_ok lib" and "mint_and_persist lib cfg now db u j f (Some repos) scps typ = (Inr pair, db')"
    and "jwt_decode lib now' (refresh_token pair) = Inr c"
  shows "j_allowed_repo_ids c = None"
proof -
  have "jwt_encode lib (refresh_claims cfg now u j f scps typ) = Inr (refresh_token pair)"
    using assms(2) by (auto simp: mint_and_persist_def generate_token_pair_typed_def split: sum.splits prod.splits)
  then have "c = refresh_claims cfg now u j f scps typ" using assms(1,3) unfolding codec_ok_def by blast
  then show ?thesis by (simp add: refresh_claims_def)
qed

text \<open>A token with no row in the table is exchanged without being recorded: it can be exchanged again.\<close>

lemma unrecorded_token_reusable:
  assumes "find (\<lambda>r. jr_jti r = j) (jti_rows db) = None" and "refresh_by_jti lib cfg now db c j f nj = (Inr (u, pair), db')"
    and "codec_ok lib" and "nj \<noteq> j"
  shows "find (\<lambda>r. jr_jti r = j) (jti_rows db') = None"
proof -
  have leg: "legacy_rotate lib cfg now db c f nj = (Inr (u, pair), db')"
    using assms(1,2) by (auto simp: refresh_by_jti_def session_query_def split: option.splits)
  then have m: "mint_and_persist lib cfg now db u nj f (j_allowed_repo_ids c) (j_scopes c) ''refresh'' = (Inr pair, db')"
    by (auto simp: legacy_rotate_def split: sum.splits prod.splits)
  have enc: "jwt_encode lib (refresh_claims cfg now u nj f (j_scopes c) ''refresh'') = Inr (refresh_token pair)"
    using m by (auto simp: mint_and_persist_def generate_token_pair_typed_def split: sum.splits prod.splits)
  have "d = refresh_claims cfg now u nj f (j_scopes c) ''refresh''" if "jwt_decode lib now (refresh_token pair) = Inr d" for d
    using assms(3) enc that unfolding codec_ok_def by blast
  then show ?thesis
    using m assms(1,4) by (auto simp: mint_and_persist_def persist_refresh_jti_from_pair_def insert_jti_def new_jti_row_def refresh_claims_def find_None_iff
        split: sum.splits prod.splits option.splits if_splits)
qed

end
