(* ===== verification/Auth_Stack.thy ===== *)
theory Auth_Stack
  imports Api_Token Session
begin

text \<open>
  The authentication service as the middleware sees it: access tokens and password login from
  Session, API tokens from Api_Token, and what the repository gate (Repo_Gate) then guarantees.
\<close>

section \<open>The service behind the gate\<close>

definition claims_of_jwt :: "jwt \<Rightarrow> claims" where
  "claims_of_jwt c = \<lparr>sub = j_sub c, cl_username = j_username c, cl_email = j_email c, cl_is_admin = j_is_admin c, cl_scopes = j_scopes c,
     cl_allowed_repo_ids = j_allowed_repo_ids c, effective_iat_ms = jwt_effective_iat_ms c\<rparr>"

definition service_env ::
  "jwt_lib \<Rightarrow> session_config \<Rightarrow> (string \<Rightarrow> string \<Rightarrow> bool app_result) \<Rightarrow> auth_prims \<Rightarrow> (string \<Rightarrow> string option) \<Rightarrow> nat \<Rightarrow> session_db \<Rightarrow> watermarks
    \<Rightarrow> auth_db \<Rightarrow> auth_mem \<Rightarrow> auth_env" where
  "service_env lib cfg verify prims b64 now sdb wm adb mem =
     \<lparr>validate_access_token = (\<lambda>t. result_bind (fst (validate_access_token_async lib now sdb wm t)) (\<lambda>c. Inr (claims_of_jwt c))),
      validate_api_token = (\<lambda>t. fst (validate_api_token_svc prims now adb mem t)),
      authenticate = (\<lambda>u p. result_bind (fst (login_user lib cfg verify now sdb u p 0 0)) (\<lambda>r. Inr (user.truncate (fst r)))),
      decode_base64 = b64\<rparr>"

definition admits :: "gate_response \<Rightarrow> bool" where
  "admits r = (case r of Proceed _ _ \<Rightarrow> True | PassThrough \<Rightarrow> True | _ \<Rightarrow> False)"

section \<open>Refused API tokens\<close>

lemma refused_api_key:
  assumes "\<exists>e. validate_api_token env t = Inl e"
  shows "try_resolve_auth_outcome env (ApiKey t) b = InvalidCredential \<or> try_resolve_auth_outcome env (ApiKey t) b = Overloaded"
  using assms by (auto simp: try_resolve_auth_outcome_def validate_api_token_with_scopes_def outcome_of_token_def split: token_auth_error.splits)

lemma refused_credential_closes_gate:
  assumes "extract_repo_key (path req) \<noteq> []" and "fst (ticket_fallback (int now) db req) = None"
    and "try_resolve_auth_outcome env (extract_visibility_token req) True = InvalidCredential \<or> try_resolve_auth_outcome env (extract_visibility_token req) True = Overloaded"
  shows "\<not> admits (fst (repo_visibility_middleware env now db st req))"
proof -
  let ?o = "try_resolve_auth_outcome env (extract_visibility_token req) True"
  obtain r st1 where l: "lookup_repo now db st (extract_repo_key (path req)) = (r, st1)" by fastforce
  show ?thesis
  proof (cases r)
    case None
    then show ?thesis using l assms(1,3) by (auto simp: repo_visibility_middleware_def admits_def Let_def)
  next
    case (Some repo)
    obtain auth via db1 where id: "gate_identity ?o now db req = (auth, via, db1)" by (metis prod_cases3)
    have "auth = None" using id assms(2,3) by (auto simp: gate_identity_def split: prod.splits)
    then show ?thesis using gate_with_repo[OF assms(1) l[unfolded Some] refl id] assms(3) by (auto simp: admits_def)
  qed
qed

section \<open>Live accounts\<close>

lemma access_token_live:
  assumes "fst (validate_access_token_async lib now sdb wm t) = Inr c"
  obtains a where "a \<in> set (accounts sdb)" "usr_id a = j_sub c" "usr_is_active a" "j_is_admin c = usr_is_admin a"
proof -
  obtain d where dec: "jwt_decode lib now t = Inr d" using assms by (cases "jwt_decode lib now t") (simp_all add: validate_access_token_async_def)
  obtain v m' where inv: "is_token_invalidated_replica_safe now sdb wm (j_sub d) (jwt_effective_iat_ms d) = (v, m')" by fastforce
  have "v = Inr False" using assms dec inv by (cases v rule: sum.exhaust) (auto simp: validate_access_token_async_def split: if_splits bool.splits)
  then obtain adm where adm: "fetch_live_is_admin sdb (j_sub d) = Inr adm" "(case adm of Some b \<Rightarrow> Inr (d\<lparr>j_is_admin := b\<rparr>) | None \<Rightarrow> Inl (Authentication ''Token subject is no longer an active user'')) = Inr c"
    using assms dec inv by (auto simp: validate_access_token_async_def split: if_splits)
  then obtain b where b: "adm = Some b" "c = d\<lparr>j_is_admin := b\<rparr>" by (cases adm) simp_all
  have "j_sub d = j_sub c" "b = j_is_admin c" using b(2) by simp_all
  then obtain a where "find_active sdb (j_sub c) = Some a" "usr_is_admin a = j_is_admin c" using adm(1) b(1) by (auto simp: fetch_live_is_admin_def)
  then show thesis using that[of a] by (auto simp: find_active_def find_Some_iff)
qed

lemma login_live:
  assumes "fst (login_user lib cfg verify now sdb u p j f) = Inr (x, pair)"
  obtains a where "a \<in> set (accounts sdb)" "usr_id a = usr_id x" "usr_is_active a" "usr_is_admin x = usr_is_admin a"
proof -
  obtain a where a: "find (\<lambda>a. usr_username a = u \<and> usr_is_active a) (accounts sdb) = Some a" "x = a \<or> x = a\<lparr>usr_must_change_password := True\<rparr>"
    using assms by (auto simp: login_user_def Let_def split: sum.splits option.splits if_splits bool.splits prod.splits)
  then have "a \<in> set (accounts sdb) \<and> usr_is_active a" by (auto simp: find_Some_iff)
  then show thesis using that[of a] a(2) by auto
qed

lemma gate_resolved:
  assumes "repo_visibility_middleware env now db st req = (Proceed (Some p) False, db', st')"
  shows "try_resolve_auth_outcome env (extract_visibility_token req) True = Resolved p"
proof -
  let ?o = "try_resolve_auth_outcome env (extract_visibility_token req) True"
  have key: "extract_repo_key (path req) \<noteq> []" using assms by (auto simp: repo_visibility_middleware_def Let_def)
  obtain r st1 where l: "lookup_repo now db st (extract_repo_key (path req)) = (r, st1)" by fastforce
  show ?thesis
  proof (cases r)
    case None
    then show ?thesis using l key assms by (auto simp: repo_visibility_middleware_def Let_def split: auth_outcome.splits)
  next
    case (Some repo)
    obtain auth via db1 where id: "gate_identity ?o now db req = (auth, via, db1)" by (metis prod_cases3)
    have "auth = Some p \<and> \<not> via"
      using assms gate_with_repo[OF key l[unfolded Some] refl id] repo_permission_denies[of now "perm_tables db1" "perms st1" _ repo req]
      by (auto split: if_splits option.splits prod.splits) (metis fst_conv)+
    then show ?thesis using gate_identity_facts(3)[OF id] by blast
  qed
qed

lemma truncated [simp]: "usr_id (user.truncate x) = usr_id x" "usr_is_admin (user.truncate x) = usr_is_admin x" "usr_is_active (user.truncate x) = usr_is_active x"
  by (simp_all add: user.defs)

definition live_principal :: "session_db \<Rightarrow> principal \<Rightarrow> bool" where
  "live_principal sdb p \<longleftrightarrow> (\<exists>a\<in>set (accounts sdb). usr_id a = user_id p \<and> usr_is_active a \<and> (is_admin p \<longrightarrow> usr_is_admin a))"

lemma live_claims:
  "validate_access_token (service_env lib cfg verify prims b64 now sdb wm adb mem) t = Inr c \<Longrightarrow> live_principal sdb (principal_from_claims c)"
  by (auto simp: service_env_def live_principal_def principal_from_claims_def with_scope_gated_admin_def claims_of_jwt_def elim!: access_token_live)

lemma live_login:
  "authenticate (service_env lib cfg verify prims b64 now sdb wm adb mem) u pw = Inr x \<Longrightarrow> live_principal sdb (principal_from_user x)"
  by (auto simp: service_env_def live_principal_def principal_from_user_def elim!: login_live)

lemma api_principal: "validate_api_token_with_scopes env t = Inr p \<Longrightarrow> is_api_token p"
  by (auto simp: validate_api_token_with_scopes_def with_scope_gated_admin_def split: sum.splits)

lemma resolved_live:
  assumes "try_resolve_auth_outcome (service_env lib cfg verify prims b64 now sdb wm adb mem) x b = Resolved p" "\<not> is_api_token p"
  shows "live_principal sdb p"
  using assms live_claims live_login api_principal
  by (cases x) (fastforce simp: try_resolve_auth_outcome_def outcome_of_token_def split: sum.splits token_auth_error.splits option.splits if_splits prod.splits)+

end
