(* ===== verification/Upload.thy ===== *)
theory Upload
  imports Json
begin

text \<open>
  Chunked uploads (services/upload_service.rs) with the error mapping and the chunk handler of
  api/handlers/upload.rs: the validators, the session and chunk tables, the temporary file, and the
  operations on them, each split at the points where the code commits or awaits. SHA-256 is a
  parameter. Sizes are integers with the casts of the code written out; times are milliseconds.
\<close>

section \<open>Errors\<close>

datatype upload_error =
    UpDatabase string
  | UpIo
  | UpNotFound
  | UpExpired
  | InvalidChunk string
  | ChunkInProgress int
  | ChecksumMismatch string string
  | IncompleteChunks int int
  | SizeMismatch int int
  | InvalidStatus string
  | RepositoryNotFound string
  | InvalidChunkSize
  | TooLarge int nat
  | PathTooLong nat nat

type_synonym 'a upload_result = "upload_error + 'a"

section \<open>Validation\<close>

definition MAX_ARTIFACT_PATH_LEN :: nat where "MAX_ARTIFACT_PATH_LEN = 2048"

definition validate_artifact_path :: "string \<Rightarrow> unit upload_result" where
  "validate_artifact_path path =
     (if path = [] then Inl (InvalidChunk ''artifact_path cannot be empty'')
      else if MAX_ARTIFACT_PATH_LEN < length path then Inl (PathTooLong (length path) MAX_ARTIFACT_PATH_LEN)
      else if CHR 0x00 \<in> set path then Inl (InvalidChunk ''artifact_path contains null bytes'')
      else if starts_with [CHR 0x2F] path \<or> starts_with [CHR 0x5C] path then Inl (InvalidChunk ''artifact_path must be relative'')
      else if list_ex (\<lambda>c. trim c = ''..'' \<or> trim c = ''.'' \<or> trim c = [] \<and> str_contains ''//'' path) (split_chars [CHR 0x2F] path)
        then Inl (InvalidChunk ''artifact_path contains path traversal'')
      else if str_contains ''%2e%2e'' (to_lowercase path) \<or> str_contains ''%2f'' (to_lowercase path) \<or> str_contains ''%5c'' (to_lowercase path)
        then Inl (InvalidChunk ''artifact_path contains encoded traversal characters'')
      else if CHR 0x5C \<in> set path then Inl (InvalidChunk ''artifact_path must use forward slashes'')
      else Inr ())"

definition enforce_max_total_size :: "int \<Rightarrow> nat \<Rightarrow> unit upload_result" where
  "enforce_max_total_size total_size mx = (if mx \<noteq> 0 \<and> mx < cast_u64 total_size then Inl (TooLarge total_size mx) else Inr ())"

definition normalize_optional_metadata :: "string option \<Rightarrow> string option" where
  "normalize_optional_metadata v = (case v of Some s \<Rightarrow> if s = [] then None else Some s | None \<Rightarrow> None)"

definition parse_content_range :: "string \<Rightarrow> string + int \<times> int \<times> int" where
  "parse_content_range hdr =
     (let h = trim hdr in
      case strip_prefix ''bytes '' h of
        None \<Rightarrow> Inl (''Content-Range must start with 'bytes ': '' @ h)
      | Some rest \<Rightarrow>
          (case split_once (CHR ''/'') rest of
             None \<Rightarrow> Inl (''Content-Range missing '/': '' @ h)
           | Some (range_part, total_str) \<Rightarrow>
               (case split_once (CHR ''-'') range_part of
                  None \<Rightarrow> Inl (''Content-Range missing '-': '' @ h)
                | Some (start_str, end_str) \<Rightarrow>
                    (case parse_i64 start_str of
                       None \<Rightarrow> Inl (''Invalid start byte: '' @ start_str)
                     | Some s \<Rightarrow>
                         (case parse_i64 end_str of
                            None \<Rightarrow> Inl (''Invalid end byte: '' @ end_str)
                          | Some e \<Rightarrow>
                              (case parse_i64 total_str of
                                 None \<Rightarrow> Inl (''Invalid total size: '' @ total_str)
                               | Some t \<Rightarrow>
                                   if e < s then Inl (''start ('' @ show_int s @ '') > end ('' @ show_int e @ '')'')
                                   else if t \<le> e then Inl (''end ('' @ show_int e @ '') >= total ('' @ show_int t @ '')'')
                                   else Inr (s, e, t)))))))"

section \<open>Tables and files\<close>

definition MIN_CHUNK_SIZE :: int where "MIN_CHUNK_SIZE = 1048576"
definition MAX_CHUNK_SIZE :: int where "MAX_CHUNK_SIZE = 268435456"
definition DEFAULT_CHUNK_SIZE :: int where "DEFAULT_CHUNK_SIZE = 8388608"
definition SHA256_BUF_SIZE :: nat where "SHA256_BUF_SIZE = 64 * 1024"
definition CHUNK_CLAIM_LEASE_SECS :: int where "CHUNK_CLAIM_LEASE_SECS = 300"

type_synonym bytes = "8 word list"

record upload_session =
  us_id :: nat
  us_user_id :: nat
  us_repository_id :: nat
  us_repository_key :: string
  us_artifact_path :: string
  us_artifact_name :: "string option"
  us_artifact_version :: "string option"
  us_artifact_metadata_format :: "string option"
  us_artifact_metadata :: "json option"
  us_artifact_metadata_properties :: "json option"
  us_package_description :: "string option"
  us_package_metadata :: "json option"
  us_is_replication :: bool
  us_content_type :: string
  us_total_size :: int
  us_chunk_size :: int
  us_total_chunks :: int
  us_completed_chunks :: int
  us_bytes_received :: int
  us_checksum_sha256 :: string
  us_temp_file_path :: string
  us_status :: string
  us_error_message :: "string option"
  us_created_at :: int
  us_updated_at :: int
  us_expires_at :: int

record chunk_row =
  uc_index :: int
  uc_byte_offset :: int
  uc_byte_length :: int
  uc_status :: string
  uc_checksum :: "string option"
  uc_claimed_at :: "int option"
  uc_completed_at :: "int option"

text \<open>Chunk rows are kept by session; \<open>up_max_file\<close> is the largest file the file system holds.\<close>

record upload_store =
  up_sessions :: "upload_session list"
  up_chunks :: "nat \<Rightarrow> chunk_row list"
  up_files :: "string \<rightharpoonup> bytes"
  up_outage :: "string option"
  up_max_file :: nat

record chunk_result =
  cr_chunk_index :: int
  cr_bytes_received :: int
  cr_chunks_completed :: int
  cr_chunks_remaining :: int

record create_params =
  cp_storage_path :: string
  cp_user_id :: nat
  cp_repo_id :: nat
  cp_repo_key :: string
  cp_artifact_path :: string
  cp_artifact_name :: "string option"
  cp_artifact_version :: "string option"
  cp_artifact_metadata_format :: "string option"
  cp_artifact_metadata :: "json option"
  cp_artifact_metadata_properties :: "json option"
  cp_package_description :: "string option"
  cp_package_metadata :: "json option"
  cp_is_replication :: bool
  cp_total_size :: int
  cp_max_upload_size :: nat
  cp_chunk_size :: "int option"
  cp_checksum_sha256 :: string
  cp_content_type :: "string option"

definition upload_query :: "upload_store \<Rightarrow> 'a \<Rightarrow> 'a upload_result" where
  "upload_query st x = (case up_outage st of Some e \<Rightarrow> Inl (UpDatabase e) | None \<Rightarrow> Inr x)"

lemma upload_query_Inr [simp]: "upload_query st x = Inr y \<longleftrightarrow> up_outage st = None \<and> x = y"
  by (auto simp: upload_query_def split: option.splits)

text \<open>\<open>seek\<close> and \<open>write_all\<close>: a gap before the offset reads as zeros.\<close>

definition write_at :: "bytes \<Rightarrow> nat \<Rightarrow> bytes \<Rightarrow> bytes" where
  "write_at f off d =
     (if d = [] then f else take off f @ replicate (off - length f) 0 @ d @ drop (off + length d) f)"

definition find_session :: "upload_store \<Rightarrow> nat \<Rightarrow> upload_session option" where
  "find_session st sid = find (\<lambda>s. us_id s = sid) (up_sessions st)"

definition update_session :: "nat \<Rightarrow> (upload_session \<Rightarrow> upload_session) \<Rightarrow> upload_store \<Rightarrow> upload_store" where
  "update_session sid f st = st\<lparr>up_sessions := map (\<lambda>s. if us_id s = sid then f s else s) (up_sessions st)\<rparr>"

definition update_chunk :: "nat \<Rightarrow> int \<Rightarrow> (chunk_row \<Rightarrow> chunk_row) \<Rightarrow> upload_store \<Rightarrow> upload_store" where
  "update_chunk sid i f st =
     st\<lparr>up_chunks := (up_chunks st)(sid := map (\<lambda>r. if uc_index r = i then f r else r) (up_chunks st sid))\<rparr>"

definition remove_file :: "string \<Rightarrow> upload_store \<Rightarrow> upload_store" where
  "remove_file p st = st\<lparr>up_files := (up_files st)(p := None)\<rparr>"

section \<open>Creation\<close>

definition path_join :: "string \<Rightarrow> string \<Rightarrow> string" where
  "path_join a b = (if a = [] then b else if last a = CHR ''/'' then a @ b else a @ CHR ''/'' # b)"

definition temp_path :: "string \<Rightarrow> nat \<Rightarrow> string" where
  "temp_path storage sid = path_join (path_join storage ''.uploads'') (show_nat sid)"

definition chunk_total :: "int \<Rightarrow> int \<Rightarrow> int" where
  "chunk_total total_size chunk_size = wrap_i32 (trunc_div (wrap_i64 (total_size + chunk_size - 1)) chunk_size)"

definition chunk_placeholder :: "int \<Rightarrow> int \<Rightarrow> int \<Rightarrow> int \<Rightarrow> chunk_row" where
  "chunk_placeholder total_size chunk_size total_chunks i =
     \<lparr>uc_index = i, uc_byte_offset = i * chunk_size,
      uc_byte_length = (if i = total_chunks - 1 then wrap_i32 (total_size - i * chunk_size) else chunk_size),
      uc_status = ''pending'', uc_checksum = None, uc_claimed_at = None, uc_completed_at = None\<rparr>"

definition new_upload_session :: "nat \<Rightarrow> nat \<Rightarrow> create_params \<Rightarrow> int \<Rightarrow> upload_session" where
  "new_upload_session now sid p chunk_size =
     \<lparr>us_id = sid, us_user_id = cp_user_id p, us_repository_id = cp_repo_id p, us_repository_key = cp_repo_key p, us_artifact_path = cp_artifact_path p,
      us_artifact_name = normalize_optional_metadata (cp_artifact_name p), us_artifact_version = normalize_optional_metadata (cp_artifact_version p),
      us_artifact_metadata_format = normalize_optional_metadata (cp_artifact_metadata_format p), us_artifact_metadata = cp_artifact_metadata p,
      us_artifact_metadata_properties = cp_artifact_metadata_properties p,
      us_package_description = normalize_optional_metadata (cp_package_description p), us_package_metadata = cp_package_metadata p,
      us_is_replication = cp_is_replication p, us_content_type = unwrap_or (cp_content_type p) ''application/octet-stream'',
      us_total_size = cp_total_size p, us_chunk_size = chunk_size, us_total_chunks = chunk_total (cp_total_size p) chunk_size,
      us_completed_chunks = 0, us_bytes_received = 0, us_checksum_sha256 = cp_checksum_sha256 p, us_temp_file_path = temp_path (cp_storage_path p) sid,
      us_status = ''pending'', us_error_message = None, us_created_at = int now, us_updated_at = int now, us_expires_at = int now + 86400000\<rparr>"

definition create_session :: "nat \<Rightarrow> upload_store \<Rightarrow> nat \<Rightarrow> create_params \<Rightarrow> upload_session upload_result \<times> upload_store" where
  "create_session now st sid p =
     (if cp_total_size p \<le> 0 then (Inl (InvalidChunk ''total_size must be a positive integer''), st)
      else (case enforce_max_total_size (cp_total_size p) (cp_max_upload_size p) of
              Inl e \<Rightarrow> (Inl e, st)
            | Inr _ \<Rightarrow>
                (let chunk_size = unwrap_or (cp_chunk_size p) DEFAULT_CHUNK_SIZE in
                 if chunk_size < MIN_CHUNK_SIZE \<or> MAX_CHUNK_SIZE < chunk_size then (Inl InvalidChunkSize, st)
                 else
                   (let s = new_upload_session now sid p chunk_size;
                        st1 = st\<lparr>up_files := (up_files st)(us_temp_file_path s \<mapsto> [])\<rparr>
                    in if up_max_file st < cast_u64 (cp_total_size p) then (Inl UpIo, st1)
                       else
                         (let st2 = st\<lparr>up_files := (up_files st)(us_temp_file_path s \<mapsto> replicate (cast_u64 (cp_total_size p)) 0)\<rparr>;
                              rows = map (chunk_placeholder (cp_total_size p) chunk_size (us_total_chunks s)) [0..us_total_chunks s - 1]
                          in (case upload_query st2 () of
                                Inl e \<Rightarrow> (Inl e, st2)
                              | Inr _ \<Rightarrow> (Inr s, st2\<lparr>up_sessions := up_sessions st2 @ [s], up_chunks := (up_chunks st2)(sid := rows)\<rparr>)))))))"

section \<open>Chunks\<close>

definition get_session :: "nat \<Rightarrow> upload_store \<Rightarrow> nat \<Rightarrow> nat option \<Rightarrow> upload_session upload_result" where
  "get_session now st sid expected_user_id =
     (case upload_query st (find_session st sid) of
        Inl e \<Rightarrow> Inl e
      | Inr None \<Rightarrow> Inl UpNotFound
      | Inr (Some s) \<Rightarrow>
          if (case expected_user_id of Some u \<Rightarrow> us_user_id s \<noteq> u | None \<Rightarrow> False) then Inl UpNotFound
          else if us_expires_at s < int now then Inl UpExpired
          else Inr s)"

datatype chunk_claim = AlreadyDone chunk_result | Claimed upload_session

text \<open>Up to the claim: the session, then the chunk row under its lock.\<close>

definition claim_chunk :: "nat \<Rightarrow> upload_store \<Rightarrow> nat \<Rightarrow> int \<Rightarrow> nat \<Rightarrow> chunk_claim upload_result" where
  "claim_chunk now st sid i user_id =
     result_bind (get_session now st sid (Some user_id)) (\<lambda>s.
       if us_status s = ''completed'' \<or> us_status s = ''cancelled'' then Inl (InvalidStatus (us_status s))
       else (case find (\<lambda>r. uc_index r = i) (up_chunks st sid) of
               None \<Rightarrow> Inl (InvalidChunk (''chunk_index '' @ show_int i @ '' out of range (0..'' @ show_int (us_total_chunks s) @ '')''))
             | Some r \<Rightarrow>
                 if uc_status r = ''completed'' then
                   Inr (AlreadyDone \<lparr>cr_chunk_index = i, cr_bytes_received = us_bytes_received s, cr_chunks_completed = us_completed_chunks s,
                     cr_chunks_remaining = us_total_chunks s - us_completed_chunks s\<rparr>)
                 else if uc_status r = ''uploading'' then
                   (if (case uc_claimed_at r of Some t \<Rightarrow> CHUNK_CLAIM_LEASE_SECS < trunc_div (int now - t) 1000 | None \<Rightarrow> True)
                    then Inr (Claimed s) else Inl (ChunkInProgress i))
                 else if uc_status r = ''pending'' \<or> uc_status r = ''failed'' then Inr (Claimed s)
                 else Inl (InvalidChunk (''chunk '' @ show_int i @ '' is in an unexpected state ('' @ uc_status r @ '')''))))"

definition write_chunk :: "upload_store \<Rightarrow> upload_session \<Rightarrow> int \<Rightarrow> bytes \<Rightarrow> unit upload_result \<times> upload_store" where
  "write_chunk st s off d =
     (case up_files st (us_temp_file_path s) of
        None \<Rightarrow> (Inl UpIo, st)
      | Some f \<Rightarrow>
          (if d \<noteq> [] \<and> up_max_file st < cast_u64 off + length d then (Inl UpIo, st)
           else (Inr (), st\<lparr>up_files := (up_files st)(us_temp_file_path s \<mapsto> write_at f (cast_u64 off) d)\<rparr>)))"

definition complete_row :: "nat \<Rightarrow> string \<Rightarrow> chunk_row \<Rightarrow> chunk_row" where
  "complete_row now digest r = r\<lparr>uc_status := ''completed'', uc_checksum := Some digest, uc_claimed_at := Some (int now), uc_completed_at := Some (int now)\<rparr>"

definition count_chunk :: "nat \<Rightarrow> int \<Rightarrow> upload_session \<Rightarrow> upload_session" where
  "count_chunk now n s =
     s\<lparr>us_completed_chunks := us_completed_chunks s + 1, us_bytes_received := us_bytes_received s + n,
       us_status := (if us_status s = ''pending'' then ''in_progress'' else us_status s), us_updated_at := int now\<rparr>"

text \<open>Both updates and the claim commit together; a session that was deleted meanwhile rolls them back.\<close>

definition commit_chunk :: "(bytes \<Rightarrow> string) \<Rightarrow> nat \<Rightarrow> upload_store \<Rightarrow> upload_session \<Rightarrow> int \<Rightarrow> bytes \<Rightarrow> chunk_result upload_result \<times> upload_store" where
  "commit_chunk sha now st s i d =
     (case upload_query st (find_session st (us_id s)) of
        Inl e \<Rightarrow> (Inl e, st)
      | Inr None \<Rightarrow> (Inl (UpDatabase ''RowNotFound''), st)
      | Inr (Some cur) \<Rightarrow>
          (let n = count_chunk now (int (length d)) cur in
           (Inr \<lparr>cr_chunk_index = i, cr_bytes_received = us_bytes_received n, cr_chunks_completed = us_completed_chunks n,
              cr_chunks_remaining = us_total_chunks s - us_completed_chunks n\<rparr>,
            update_session (us_id s) (count_chunk now (int (length d))) (update_chunk (us_id s) i (complete_row now (sha d)) st))))"

definition upload_chunk :: "(bytes \<Rightarrow> string) \<Rightarrow> nat \<Rightarrow> upload_store \<Rightarrow> nat \<Rightarrow> int \<Rightarrow> int \<Rightarrow> bytes \<Rightarrow> nat \<Rightarrow> chunk_result upload_result \<times> upload_store" where
  "upload_chunk sha now st sid i off d user_id =
     (case claim_chunk now st sid i user_id of
        Inl e \<Rightarrow> (Inl e, st)
      | Inr (AlreadyDone r) \<Rightarrow> (Inr r, st)
      | Inr (Claimed s) \<Rightarrow>
          (case write_chunk st s off d of
             (Inl e, st1) \<Rightarrow> (Inl e, st1)
           | (Inr _, st1) \<Rightarrow> commit_chunk sha now st1 s i d))"

section \<open>Completion, cancellation, expiry\<close>

text \<open>The checks on the tables, before the file is read.\<close>

definition check_complete :: "nat \<Rightarrow> upload_store \<Rightarrow> nat \<Rightarrow> nat \<Rightarrow> upload_session upload_result" where
  "check_complete now st sid user_id =
     result_bind (get_session now st sid (Some user_id)) (\<lambda>s.
       if us_status s = ''completed'' then Inl (InvalidStatus ''already completed'')
       else if us_status s = ''cancelled'' then Inl (InvalidStatus ''cancelled'')
       else if filter (\<lambda>r. uc_status r \<noteq> ''completed'') (up_chunks st sid) \<noteq> []
         then Inl (IncompleteChunks (us_completed_chunks s) (us_total_chunks s))
       else Inr s)"

text \<open>The file is read in blocks; the hash of the whole is the hash of their concatenation.\<close>

fun read_blocks :: "nat \<Rightarrow> bytes \<Rightarrow> bytes list" where
  "read_blocks n [] = []"
| "read_blocks n (b # bs) = (if n = 0 then [] else take n (b # bs) # read_blocks n (drop n (b # bs)))"

lemma concat_read_blocks: "0 < n \<Longrightarrow> concat (read_blocks n bs) = bs"
proof (induction n bs rule: read_blocks.induct)
  case (2 n b bs)
  then have "concat (read_blocks n (b # bs)) = take n (b # bs) @ drop n (b # bs)" by simp
  then show ?case by (simp only: append_take_drop_id)
qed simp

definition compute_file_sha256 :: "(bytes \<Rightarrow> string) \<Rightarrow> upload_store \<Rightarrow> string \<Rightarrow> string upload_result" where
  "compute_file_sha256 sha st p =
     (case up_files st p of None \<Rightarrow> Inl UpIo | Some f \<Rightarrow> Inr (sha (concat (read_blocks SHA256_BUF_SIZE f))))"

definition mark_failed :: "nat \<Rightarrow> string \<Rightarrow> upload_session \<Rightarrow> upload_session" where
  "mark_failed now msg s = s\<lparr>us_status := ''failed'', us_error_message := Some msg, us_updated_at := int now\<rparr>"

definition verify_file :: "(bytes \<Rightarrow> string) \<Rightarrow> nat \<Rightarrow> upload_store \<Rightarrow> upload_session \<Rightarrow> unit upload_result \<times> upload_store" where
  "verify_file sha now st s =
     (case up_files st (us_temp_file_path s) of
        None \<Rightarrow> (Inl UpIo, st)
      | Some f \<Rightarrow>
          (if length f \<noteq> cast_u64 (us_total_size s) then (Inl (SizeMismatch (us_total_size s) (wrap_i64 (int (length f)))), st)
           else (case compute_file_sha256 sha st (us_temp_file_path s) of
                   Inl e \<Rightarrow> (Inl e, st)
                 | Inr actual \<Rightarrow>
                     if actual \<noteq> us_checksum_sha256 s then
                       (Inl (ChecksumMismatch (us_checksum_sha256 s) actual),
                        (case upload_query st () of
                           Inl e \<Rightarrow> st
                         | Inr _ \<Rightarrow> update_session (us_id s) (mark_failed now (''checksum mismatch: expected '' @ us_checksum_sha256 s @ '', got '' @ actual)) st))
                     else (Inr (), st))))"

definition set_status :: "nat \<Rightarrow> string \<Rightarrow> upload_session \<Rightarrow> upload_session" where
  "set_status now x s = s\<lparr>us_status := x, us_updated_at := int now\<rparr>"

definition mark_completed :: "nat \<Rightarrow> upload_store \<Rightarrow> upload_session \<Rightarrow> upload_session upload_result \<times> upload_store" where
  "mark_completed now st s =
     (case upload_query st () of
        Inl e \<Rightarrow> (Inl e, st)
      | Inr _ \<Rightarrow> (Inr s, update_session (us_id s) (set_status now ''completed'') st))"

definition complete_session :: "(bytes \<Rightarrow> string) \<Rightarrow> nat \<Rightarrow> upload_store \<Rightarrow> nat \<Rightarrow> nat \<Rightarrow> upload_session upload_result \<times> upload_store" where
  "complete_session sha now st sid user_id =
     (case check_complete now st sid user_id of
        Inl e \<Rightarrow> (Inl e, st)
      | Inr s \<Rightarrow>
          (case verify_file sha now st s of
             (Inl e, st1) \<Rightarrow> (Inl e, st1)
           | (Inr _, st1) \<Rightarrow> mark_completed now st1 s))"

definition cancel_session :: "nat \<Rightarrow> upload_store \<Rightarrow> nat \<Rightarrow> nat \<Rightarrow> unit upload_result \<times> upload_store" where
  "cancel_session now st sid user_id =
     (case upload_query st (find_session st sid) of
        Inl e \<Rightarrow> (Inl e, st)
      | Inr None \<Rightarrow> (Inl UpNotFound, st)
      | Inr (Some s) \<Rightarrow>
          if us_user_id s \<noteq> user_id then (Inl UpNotFound, st)
          else (Inr (), update_session sid (set_status now ''cancelled'') (remove_file (us_temp_file_path s) st)))"

definition expire :: "nat \<Rightarrow> upload_session \<Rightarrow> upload_session" where
  "expire now s = s\<lparr>us_status := ''cancelled'', us_error_message := Some ''expired'', us_updated_at := int now\<rparr>"

definition expire_one :: "nat \<Rightarrow> upload_session \<Rightarrow> upload_store \<Rightarrow> upload_store" where
  "expire_one now s st = update_session (us_id s) (expire now) (remove_file (us_temp_file_path s) st)"

definition expired_sessions :: "nat \<Rightarrow> upload_store \<Rightarrow> upload_session list" where
  "expired_sessions now st = filter (\<lambda>s. us_expires_at s < int now \<and> us_status s \<noteq> ''completed'' \<and> us_status s \<noteq> ''cancelled'') (up_sessions st)"

definition cleanup_expired_uploads :: "nat \<Rightarrow> upload_store \<Rightarrow> nat upload_result \<times> upload_store" where
  "cleanup_expired_uploads now st =
     (case upload_query st (expired_sessions now st) of
        Inl e \<Rightarrow> (Inl e, st)
      | Inr ss \<Rightarrow> (Inr (length ss), fold (expire_one now) ss st))"

definition cleanup_completed_upload_session :: "upload_store \<Rightarrow> nat \<Rightarrow> upload_store" where
  "cleanup_completed_upload_session st sid =
     (case upload_query st () of
        Inl e \<Rightarrow> st
      | Inr _ \<Rightarrow> st\<lparr>up_sessions := filter (\<lambda>s. \<not> (us_id s = sid \<and> us_status s = ''completed'')) (up_sessions st),
                   up_chunks := (if list_ex (\<lambda>s. us_id s = sid \<and> us_status s = ''completed'') (up_sessions st) then (up_chunks st)(sid := []) else up_chunks st)\<rparr>)"

section \<open>The handler\<close>

text \<open>
  The chunk request after the token scope was checked: the range header, the session, the write
  permission on its repository (a parameter), the body and the call of the service.
\<close>

datatype chunk_refusal = BadRequest string | WriteDenied | Refused upload_error

definition chunk_request ::
  "(bytes \<Rightarrow> string) \<Rightarrow> (nat \<Rightarrow> bool) \<Rightarrow> nat \<Rightarrow> upload_store \<Rightarrow> nat \<Rightarrow> nat \<Rightarrow> string option \<Rightarrow> bytes \<Rightarrow> (chunk_refusal + chunk_result) \<times> upload_store" where
  "chunk_request sha may_write now st sid user_id range_header body =
     (case range_header of
        None \<Rightarrow> (Inl (BadRequest ''Missing Content-Range header''), st)
      | Some h \<Rightarrow>
          (case parse_content_range h of
             Inl e \<Rightarrow> (Inl (BadRequest (''Invalid Content-Range: '' @ e)), st)
           | Inr (start, e, _) \<Rightarrow>
               (case get_session now st sid (Some user_id) of
                  Inl err \<Rightarrow> (Inl (Refused err), st)
                | Inr s \<Rightarrow>
                    if \<not> may_write (us_repository_id s) then (Inl WriteDenied, st)
                    else
                      (let chunk_index = wrap_i32 (trunc_div start (us_chunk_size s)); expected_len = cast_u64 (wrap_i64 (e - start + 1)) in
                       if expected_len < length body then
                         (Inl (BadRequest (''Body exceeds declared Content-Range length of '' @ show_nat expected_len @ '' bytes'')), st)
                       else if length body \<noteq> expected_len then
                         (Inl (BadRequest (''Content-Range declares '' @ show_nat expected_len @ '' bytes but body contains '' @ show_nat (length body) @ '' bytes'')), st)
                       else (case upload_chunk sha now st sid chunk_index start body user_id of
                               (Inl err, st') \<Rightarrow> (Inl (Refused err), st')
                             | (Inr r, st') \<Rightarrow> (Inr r, st'))))))"

section \<open>Paths\<close>

text \<open>Lexical resolution below a directory: the components that remain, or \<open>None\<close> when it is left.\<close>

fun resolve_below :: "string list \<Rightarrow> string list \<Rightarrow> string list option" where
  "resolve_below stack [] = Some (rev stack)"
| "resolve_below stack (c # cs) =
     (if c = [] \<or> c = ''.'' then resolve_below stack cs
      else if c = ''..'' then (case stack of [] \<Rightarrow> None | _ # up \<Rightarrow> resolve_below up cs)
      else resolve_below (c # stack) cs)"

lemma resolve_below_plain: "''..'' \<notin> set cs \<Longrightarrow> resolve_below stack cs = Some (rev stack @ filter (\<lambda>c. c \<noteq> [] \<and> c \<noteq> ''.'') cs)"
  by (induction stack cs rule: resolve_below.induct) auto

lemma trim_dots [simp]: "trim ''..'' = ''..''" "trim ''.'' = ''.''" "trim [] = []"
  by (simp_all add: trim_def is_whitespace_def code_of_def)

text \<open>An accepted path stays in its repository. Resolved below any directory it never climbs out of it:
  the result is that directory followed by the non-empty components of the path, none of which is a dot or a
  double dot, and the path holds no backslash and no null byte and fits its column.\<close>

lemma artifact_path_stays_inside:
  assumes "validate_artifact_path p = Inr ()"
  shows "resolve_below (rev root) (split_chars [CHR 0x2F] p) = Some (root @ filter (\<lambda>c. c \<noteq> []) (split_chars [CHR 0x2F] p))
     \<and> ''..'' \<notin> set (split_chars [CHR 0x2F] p) \<and> CHR 0x5C \<notin> set p \<and> CHR 0x00 \<notin> set p \<and> length p \<le> 2048"
proof -
  have ok: "\<forall>c\<in>set (split_chars [CHR 0x2F] p). trim c \<noteq> ''..'' \<and> trim c \<noteq> ''.''" "CHR 0x5C \<notin> set p" "CHR 0x00 \<notin> set p" "length p \<le> 2048"
    using assms by (auto simp: validate_artifact_path_def MAX_ARTIFACT_PATH_LEN_def list_ex_iff split: if_splits)
  have "''..'' \<notin> set (split_chars [CHR 0x2F] p)" "''.'' \<notin> set (split_chars [CHR 0x2F] p)" using ok(1) trim_dots by metis+
  moreover from this have "filter (\<lambda>c. c \<noteq> [] \<and> c \<noteq> ''.'') (split_chars [CHR 0x2F] p) = filter (\<lambda>c. c \<noteq> []) (split_chars [CHR 0x2F] p)"
    by (intro filter_cong) auto
  ultimately show ?thesis using ok resolve_below_plain[of "split_chars [CHR 0x2F] p" "rev root"] by simp
qed

lemma artifact_path_stays_inside_witness:
  "resolve_below [''repo'', ''data''] (split_chars [CHR 0x2F] ''lib/x-1.jar'') = Some [''data'', ''repo'', ''lib'', ''x-1.jar'']"
proof -
  have "validate_artifact_path ''lib/x-1.jar'' = Inr ()" by code_simp
  moreover have "split_chars [CHR 0x2F] ''lib/x-1.jar'' = [''lib'', ''x-1.jar'']" by code_simp
  ultimately show ?thesis using artifact_path_stays_inside[of "''lib/x-1.jar''" "[''data'', ''repo'']"] by simp
qed

text \<open>A dot followed by an encoded dot is not one of the encoded patterns that are looked for.\<close>

lemma mixed_encoding_accepted: "validate_artifact_path ''a/.%2e/b'' = Inr ()"
  by code_simp

section \<open>Content ranges\<close>

lemma parse_i64_show_int: "0 \<le> n \<Longrightarrow> n < 2 ^ 63 \<Longrightarrow> parse_i64 (show_int n) = Some n"
proof -
  assume n: "0 \<le> n" "n < 2 ^ 63"
  obtain c r where s: "show_nat (nat n) = c # r" using show_nat_nonempty[of "nat n"] by (cases "show_nat (nat n)") auto
  have "is_ascii_digit c" using show_nat_digits[of "nat n"] s by simp
  then have "c \<noteq> CHR ''-''" by (auto simp: is_ascii_digit_def code_of_def)
  then show ?thesis using n s parse_uint_show_nat[of 9223372036854775807 "nat n"] by (simp add: parse_i64_def show_int_def)
qed

lemma digit_not_sep: "is_ascii_digit c \<Longrightarrow> c \<noteq> CHR ''-'' \<and> c \<noteq> CHR ''/'' \<and> \<not> is_whitespace c"
  by (auto simp: is_ascii_digit_def is_whitespace_def code_of_def)

lemma show_int_chars: "0 \<le> n \<Longrightarrow> list_all is_ascii_digit (show_int n) \<and> show_int n \<noteq> []"
  by (simp add: show_int_def show_nat_digits)

definition print_content_range :: "int \<times> int \<times> int \<Rightarrow> string" where
  "print_content_range r = (case r of (s, e, t) \<Rightarrow> ''bytes '' @ show_int s @ ''-'' @ show_int e @ ''/'' @ show_int t)"

lemma dropWhile_id: "s \<noteq> [] \<Longrightarrow> \<not> P (hd s) \<Longrightarrow> dropWhile P s = s"
  by (cases s) auto

lemma trim_id: "s \<noteq> [] \<Longrightarrow> \<not> is_whitespace (hd s) \<Longrightarrow> \<not> is_whitespace (last s) \<Longrightarrow> trim s = s"
  by (simp add: trim_def dropWhile_id hd_rev)

lemma trim_print:
  assumes "0 \<le> t"
  shows "trim (print_content_range (s, e, t)) = print_content_range (s, e, t)"
proof (rule trim_id)
  have "last (print_content_range (s, e, t)) = last (show_int t)" using show_int_chars[OF assms] by (simp add: print_content_range_def)
  moreover have "last (show_int t) \<in> set (show_int t)" using show_int_chars[OF assms] by simp
  ultimately show "\<not> is_whitespace (last (print_content_range (s, e, t)))" using show_int_chars[OF assms] digit_not_sep by (auto simp: list_all_iff)
qed (simp_all add: print_content_range_def is_whitespace_def code_of_def)

lemma parse_i64_nonneg: "CHR ''-'' \<notin> set s \<Longrightarrow> parse_i64 s = Some n \<Longrightarrow> 0 \<le> n \<and> n < 2 ^ 63"
  by (cases s) (auto simp: parse_i64_def dest!: parse_uint_le)

lemma parse_i64_lt: "parse_i64 s = Some n \<Longrightarrow> n < 2 ^ 63"
  by (cases s) (auto simp: parse_i64_def split: if_splits dest!: parse_uint_le)

lemma parse_print_content_range:
  assumes "0 \<le> s" "s \<le> e" "e < t" "t < 2 ^ 63"
  shows "parse_content_range (print_content_range (s, e, t)) = Inr (s, e, t)"
proof -
  have d: "CHR ''-'' \<notin> set (show_int s)" "CHR ''/'' \<notin> set (show_int s)" "CHR ''/'' \<notin> set (show_int e)"
    using show_int_chars[of s] show_int_chars[of e] assms digit_not_sep by (auto simp: list_all_iff)
  have p: "strip_prefix ''bytes '' (print_content_range (s, e, t)) = Some (show_int s @ CHR ''-'' # show_int e @ CHR ''/'' # show_int t)"
    by (simp add: strip_prefix_Some print_content_range_def)
  have q: "split_once (CHR ''/'') (show_int s @ CHR ''-'' # show_int e @ CHR ''/'' # show_int t) = Some (show_int s @ CHR ''-'' # show_int e, show_int t)"
    using d by (simp add: split_once_Some)
  have q': "split_once (CHR ''-'') (show_int s @ CHR ''-'' # show_int e) = Some (show_int s, show_int e)" using d by (simp add: split_once_Some)
  show ?thesis using assms trim_print[of t s e] parse_i64_show_int[of s] parse_i64_show_int[of e] parse_i64_show_int[of t]
    by (simp add: parse_content_range_def Let_def p q q')
qed

text \<open>C15: content ranges round-trip. The parser accepts the printed form of every range of non-negative 64-bit
  numbers with start at most end and end below total and returns it, and whatever it accepts is such a range.\<close>

theorem content_range_roundtrip:
  "(parse_content_range (print_content_range (s, e, t)) = Inr (s, e, t) \<longleftrightarrow> 0 \<le> s \<and> s \<le> e \<and> e < t \<and> t < 2 ^ 63)
   \<and> (parse_content_range h = Inr (s, e, t) \<longrightarrow> 0 \<le> s \<and> s \<le> e \<and> e < t \<and> t < 2 ^ 63)"
proof -
  have sound: "0 \<le> s \<and> s \<le> e \<and> e < t \<and> t < 2 ^ 63" if "parse_content_range h = Inr (s, e, t)" for h s e t
    using that parse_i64_nonneg[of _ s] parse_i64_lt[of _ t]
    by (fastforce simp: parse_content_range_def Let_def split_once_Some split: option.splits if_splits prod.splits)
  show ?thesis using sound parse_print_content_range by blast
qed

theorem content_range_roundtrip_witness:
  "parse_content_range (print_content_range (0, 7, 10)) = Inr (0, 7, 10)"
  using content_range_roundtrip[of 0 7 10 "[]"] by simp

section \<open>Chunk layout\<close>

lemma chunk_total_eq:
  assumes "0 < ts" "0 < cs" "ts + cs \<le> 2 ^ 63" "ts \<le> (2 ^ 31 - 1) * cs"
  shows "chunk_total ts cs = (ts + cs - 1) div cs"
proof -
  have "(ts + cs - 1) div cs < 2 ^ 31"
  proof -
    have "(ts + cs - 1) div cs * cs \<le> ts + cs - 1" using minus_mod_eq_div_mult[of "ts + cs - 1" cs] pos_mod_sign[OF assms(2), of "ts + cs - 1"] by linarith
    also have "\<dots> < 2 ^ 31 * cs" using assms(4) by (simp add: left_diff_distrib)
    finally show ?thesis using assms(2) by (simp only: mult_less_cancel_right_pos)
  qed
  moreover have "0 \<le> (ts + cs - 1) div cs" using assms by (simp add: pos_imp_zdiv_nonneg_iff)
  ultimately show ?thesis using assms by (simp add: chunk_total_def wrap_i64_id trunc_div_pos wrap_i32_id)
qed

text \<open>The count of chunks is the least one that covers the file.\<close>

lemma chunk_total_cover:
  assumes "0 < ts" "0 < (cs :: int)" "n = (ts + cs - 1) div cs"
  shows "0 < n" and "(n - 1) * cs < ts" and "ts \<le> n * cs"
proof -
  have "n * cs = ts + cs - 1 - (ts + cs - 1) mod cs" using assms(3) by (simp add: minus_mod_eq_div_mult)
  moreover have "0 \<le> (ts + cs - 1) mod cs" "(ts + cs - 1) mod cs < cs" using assms(2) by simp_all
  ultimately show c: "(n - 1) * cs < ts" "ts \<le> n * cs" by (simp_all add: left_diff_distrib)
  show "0 < n" using c(2) assms(1,2) by (smt (verit) mult_nonneg_nonpos2)
qed

lemma create_session_Inr:
  assumes "create_session now st sid p = (Inr s, st')"
  obtains cs where "s = new_upload_session now sid p cs" "0 < cp_total_size p" "MIN_CHUNK_SIZE \<le> cs" "cs \<le> MAX_CHUNK_SIZE"
    "cp_max_upload_size p \<noteq> 0 \<Longrightarrow> cast_u64 (cp_total_size p) \<le> cp_max_upload_size p" "up_outage st = None" "cast_u64 (cp_total_size p) \<le> up_max_file st"
    "st' = st\<lparr>up_sessions := up_sessions st @ [s], up_chunks := (up_chunks st)(sid := map (chunk_placeholder (cp_total_size p) cs (us_total_chunks s)) [0..us_total_chunks s - 1]),
       up_files := (up_files st)(us_temp_file_path s \<mapsto> replicate (cast_u64 (cp_total_size p)) 0)\<rparr>"
  using assms that[of "unwrap_or (cp_chunk_size p) DEFAULT_CHUNK_SIZE"]
  by (auto simp: create_session_def enforce_max_total_size_def Let_def upload_query_def not_less split: if_splits option.splits)

definition placeholders :: "int \<Rightarrow> int \<Rightarrow> int \<Rightarrow> chunk_row list" where
  "placeholders ts cs n = map (chunk_placeholder ts cs n) [0..n - 1]"

lemma placeholders_nth: "i < nat n \<Longrightarrow> placeholders ts cs n ! i = chunk_placeholder ts cs n (int i)"
  by (simp add: placeholders_def)

lemma placeholders_length [simp]: "length (placeholders ts cs n) = nat n"
  by (simp add: placeholders_def)

lemma placeholder_bytes:
  assumes "0 < ts" "0 < cs" "cs \<le> MAX_CHUNK_SIZE" "n = (ts + cs - 1) div cs" "0 \<le> i" "i < n"
  shows "uc_byte_length (chunk_placeholder ts cs n i) = min cs (ts - i * cs)" and "0 < min cs (ts - i * cs)"
proof -
  note cov = chunk_total_cover[OF assms(1,2,4)]
  have le: "i * cs \<le> (n - 1) * cs" using assms(2,6) by (simp add: mult_right_mono)
  have nx: "i \<noteq> n - 1 \<Longrightarrow> i * cs + cs \<le> (n - 1) * cs" using assms(2,6) mult_right_mono[of "i + 1" "n - 1" cs] by (simp add: distrib_right)
  have last: "n * cs = (n - 1) * cs + cs" by (simp add: left_diff_distrib)
  have "wrap_i32 (ts - (n - 1) * cs) = ts - (n - 1) * cs" by (rule wrap_i32_id) (use cov last assms(3) in \<open>simp_all add: MAX_CHUNK_SIZE_def\<close>)
  then show "uc_byte_length (chunk_placeholder ts cs n i) = min cs (ts - i * cs)"
    using nx cov last by (cases "i = n - 1") (simp_all add: chunk_placeholder_def min_def)
  show "0 < min cs (ts - i * cs)" using assms(2) order_le_less_trans[OF le cov(2)] by simp
qed

lemma placeholders_sum:
  assumes "0 < ts" "0 < cs" "cs \<le> MAX_CHUNK_SIZE" "n = (ts + cs - 1) div cs" "k \<le> nat n"
  shows "sum_list (map uc_byte_length (take k (placeholders ts cs n))) = min (int k * cs) ts"
  using assms(5)
proof (induction k)
  case (Suc k)
  note cov = chunk_total_cover[OF assms(1,2,4)]
  have k: "k < nat n" "int k < n" using Suc.prems by simp_all
  have "int k * cs < ts" using placeholder_bytes(2)[OF assms(1-4) _ k(2)] by simp
  moreover have "take (Suc k) (placeholders ts cs n) = take k (placeholders ts cs n) @ [chunk_placeholder ts cs n (int k)]"
    using k by (simp add: take_Suc_conv_app_nth placeholders_nth)
  ultimately show ?case using Suc placeholder_bytes(1)[OF assms(1-4) _ k(2)] by (simp add: min_def distrib_right)
qed (use assms in simp)

text \<open>The chunks of a new session tile the file. When the number of chunks fits 32 bits, the table gets one
  row per chunk, each of 1 to 256 million bytes at the offset where the previous ones end, their lengths add up to the
  declared size, and the temporary file has that size.\<close>

lemma chunk_layout_tiles:
  assumes "create_session now st sid p = (Inr s, st')" and "cp_total_size p < 2 ^ 62" and "cp_total_size p \<le> (2 ^ 31 - 1) * us_chunk_size s"
    and "rows = up_chunks st' sid"
  shows "int (length rows) = us_total_chunks s \<and> sum_list (map uc_byte_length rows) = cp_total_size p
     \<and> (\<forall>i<length rows. uc_index (rows ! i) = int i \<and> uc_byte_offset (rows ! i) = sum_list (map uc_byte_length (take i rows))
          \<and> 0 < uc_byte_length (rows ! i) \<and> uc_byte_length (rows ! i) \<le> us_chunk_size s \<and> us_chunk_size s \<le> 268435456)
     \<and> map_option length (up_files st' (us_temp_file_path s)) = Some (nat (cp_total_size p))"
proof -
  let ?ts = "cp_total_size p"
  from assms(1) obtain cs where c: "s = new_upload_session now sid p cs" "0 < ?ts" "MIN_CHUNK_SIZE \<le> cs" "cs \<le> MAX_CHUNK_SIZE"
    and st': "st' = st\<lparr>up_sessions := up_sessions st @ [s], up_chunks := (up_chunks st)(sid := map (chunk_placeholder ?ts cs (us_total_chunks s)) [0..us_total_chunks s - 1]),
       up_files := (up_files st)(us_temp_file_path s \<mapsto> replicate (cast_u64 ?ts) 0)\<rparr>"
    by (rule create_session_Inr)
  have cs: "0 < cs" "us_chunk_size s = cs" using c by (simp_all add: MIN_CHUNK_SIZE_def new_upload_session_def)
  have n: "us_total_chunks s = (?ts + cs - 1) div cs"
    using chunk_total_eq[OF c(2) cs(1)] assms(2,3) c cs by (simp add: new_upload_session_def MAX_CHUNK_SIZE_def)
  note cov = chunk_total_cover[OF c(2) cs(1) n] and len = placeholder_bytes[OF c(2) cs(1) c(4) n] and sum = placeholders_sum[OF c(2) cs(1) c(4) n]
  have rows: "rows = placeholders ?ts cs (us_total_chunks s)" using assms(4) st' by (simp add: placeholders_def)
  have total: "sum_list (map uc_byte_length rows) = ?ts"
    using sum[of "length rows"] cov by (simp add: rows)
  have each: "uc_index (rows ! i) = int i \<and> uc_byte_offset (rows ! i) = sum_list (map uc_byte_length (take i rows)) \<and> 0 < uc_byte_length (rows ! i)
      \<and> uc_byte_length (rows ! i) \<le> cs" if "i < length rows" for i
  proof -
    have i: "i < nat (us_total_chunks s)" "int i < us_total_chunks s" using that by (simp_all add: rows)
    show ?thesis using sum[of i] len[of "int i"] i by (simp add: rows placeholders_nth) (simp add: chunk_placeholder_def)
  qed
  show ?thesis using total each cov cs(2) c(2,4) assms(2) st' by (simp add: rows cast_u64_id MAX_CHUNK_SIZE_def)
qed

definition demo_create_params :: create_params where
  "demo_create_params = \<lparr>cp_storage_path = ''/data'', cp_user_id = 4, cp_repo_id = 9, cp_repo_key = ''libs'', cp_artifact_path = ''a.bin'', cp_artifact_name = None,
     cp_artifact_version = None, cp_artifact_metadata_format = None, cp_artifact_metadata = None, cp_artifact_metadata_properties = None,
     cp_package_description = None, cp_package_metadata = None, cp_is_replication = False, cp_total_size = 3, cp_max_upload_size = 0,
     cp_chunk_size = Some 1048576, cp_checksum_sha256 = ''sum'', cp_content_type = None\<rparr>"

definition demo_upload_store :: upload_store where
  "demo_upload_store = \<lparr>up_sessions = [], up_chunks = (\<lambda>_. []), up_files = Map.empty, up_outage = None, up_max_file = 2 ^ 60\<rparr>"

definition demo_upload_session :: upload_session where
  "demo_upload_session = new_upload_session 0 1 demo_create_params 1048576"

definition demo_created :: upload_store where
  "demo_created = demo_upload_store\<lparr>up_sessions := [demo_upload_session], up_chunks := (\<lambda>_. [])(1 := [chunk_placeholder 3 1048576 1 0]),
     up_files := [us_temp_file_path demo_upload_session \<mapsto> [0, 0, 0]]\<rparr>"

lemma demo_chunk_total: "chunk_total 3 1048576 = 1"
  by code_simp

lemma demo_create: "create_session 0 demo_upload_store 1 demo_create_params = (Inr demo_upload_session, demo_created)"
  by (simp add: create_session_def enforce_max_total_size_def Let_def upload_query_def demo_upload_store_def demo_create_params_def demo_upload_session_def
      demo_created_def new_upload_session_def demo_chunk_total MIN_CHUNK_SIZE_def MAX_CHUNK_SIZE_def cast_u64_id numeral_3_eq_3)

lemma chunk_layout_tiles_witness:
  "sum_list (map uc_byte_length (up_chunks demo_created 1)) = 3"
  using chunk_layout_tiles[OF demo_create] by (simp add: demo_create_params_def demo_upload_session_def new_upload_session_def)

section \<open>Uploading a file\<close>

text \<open>The part of a session that no operation changes.\<close>

definition frozen :: "upload_session \<Rightarrow> upload_session" where
  "frozen s = s\<lparr>us_completed_chunks := 0, us_bytes_received := 0, us_status := [], us_error_message := None, us_updated_at := 0\<rparr>"

lemma frozen_updates [simp]:
  "frozen (count_chunk now n s) = frozen s" "frozen (mark_failed now m s) = frozen s" "frozen (set_status now x s) = frozen s" "frozen (expire now s) = frozen s"
  by (simp_all add: frozen_def count_chunk_def mark_failed_def set_status_def expire_def)

lemma frozen_fields:
  assumes "frozen s = frozen s'"
  shows "us_id s = us_id s'" "us_user_id s = us_user_id s'" "us_total_size s = us_total_size s'" "us_chunk_size s = us_chunk_size s'"
    "us_total_chunks s = us_total_chunks s'" "us_checksum_sha256 s = us_checksum_sha256 s'" "us_temp_file_path s = us_temp_file_path s'"
    "us_expires_at s = us_expires_at s'"
  using arg_cong[OF assms, of us_id] arg_cong[OF assms, of us_user_id] arg_cong[OF assms, of us_total_size] arg_cong[OF assms, of us_chunk_size]
    arg_cong[OF assms, of us_total_chunks] arg_cong[OF assms, of us_checksum_sha256] arg_cong[OF assms, of us_temp_file_path] arg_cong[OF assms, of us_expires_at]
  by (simp_all add: frozen_def)

lemma find_append: "find P (xs @ ys) = (case find P xs of Some x \<Rightarrow> Some x | None \<Rightarrow> find P ys)"
  by (induction xs) auto

lemma find_update_session:
  assumes "\<And>s. us_id (f s) = us_id s"
  shows "find_session (update_session sid f st) k = map_option (\<lambda>s. if k = sid then f s else s) (find_session st k)"
proof -
  have "find (\<lambda>s. us_id s = k) (map (\<lambda>s. if us_id s = sid then f s else s) ss) = map_option (\<lambda>s. if k = sid then f s else s) (find (\<lambda>s. us_id s = k) ss)" for ss
    by (induction ss) (auto simp: assms)
  then show ?thesis by (simp add: find_session_def update_session_def)
qed

lemma update_session_frame [simp]:
  "up_chunks (update_session sid f st) = up_chunks st" "up_files (update_session sid f st) = up_files st" "up_outage (update_session sid f st) = up_outage st"
  "up_max_file (update_session sid f st) = up_max_file st"
  by (simp_all add: update_session_def)

lemma update_chunk_frame [simp]:
  "up_sessions (update_chunk sid i f st) = up_sessions st" "up_files (update_chunk sid i f st) = up_files st" "up_outage (update_chunk sid i f st) = up_outage st"
  "up_max_file (update_chunk sid i f st) = up_max_file st" "find_session (update_chunk sid i f st) = find_session st"
  by (auto simp: update_chunk_def find_session_def)

lemma complete_row_fields [simp]: "uc_index (complete_row now d r) = uc_index r" "uc_status (complete_row now d r) = ''completed''"
  by (simp_all add: complete_row_def)

lemma count_chunk_fields [simp]: "us_id (count_chunk now n s) = us_id s"
  by (simp add: count_chunk_def)

text \<open>The file with the chunks of \<open>S\<close> written and zeros elsewhere.\<close>

definition blend :: "bytes \<Rightarrow> nat \<Rightarrow> nat set \<Rightarrow> bytes" where
  "blend d cs S = map (\<lambda>j. if j div cs \<in> S then d ! j else 0) [0..<length d]"

definition slice :: "bytes \<Rightarrow> nat \<Rightarrow> nat \<Rightarrow> bytes" where
  "slice d cs i = take cs (drop (i * cs) d)"

lemma length_blend [simp]: "length (blend d cs S) = length d"
  by (simp add: blend_def)

lemma write_slice:
  assumes "0 < cs" "i * cs < length d"
  shows "write_at (blend d cs S) (i * cs) (slice d cs i) = blend d cs (insert i S)"
proof (rule nth_equalityI)
  have sl: "length (slice d cs i) = min cs (length d - i * cs)" "slice d cs i \<noteq> []" using assms by (auto simp: slice_def)
  show len: "length (write_at (blend d cs S) (i * cs) (slice d cs i)) = length (blend d cs (insert i S))"
    using assms(2) sl by (simp add: write_at_def min_def)
  fix j assume "j < length (write_at (blend d cs S) (i * cs) (slice d cs i))"
  then have j: "j < length d" using len by simp
  have "j div cs = i \<longleftrightarrow> i * cs \<le> j \<and> j < i * cs + cs"
    using assms(1) by (metis add.commute div_nat_eqI dividend_less_times_div mult.commute mult_Suc times_div_less_eq_dividend)
  then show "write_at (blend d cs S) (i * cs) (slice d cs i) ! j = blend d cs (insert i S) ! j"
    using j assms sl by (auto simp: write_at_def blend_def nth_append slice_def min_def)
qed

lemma blend_all: "0 < cs \<Longrightarrow> (\<And>j. j < length d \<Longrightarrow> j div cs \<in> S) \<Longrightarrow> blend d cs S = d"
  by (rule nth_equalityI) (simp_all add: blend_def)

definition uploading :: "upload_session \<Rightarrow> bytes \<Rightarrow> nat \<Rightarrow> nat set \<Rightarrow> upload_store \<Rightarrow> bool" where
  "uploading s d n S st \<longleftrightarrow>
     (\<exists>cur. find_session st (us_id s) = Some cur \<and> frozen cur = frozen s \<and> us_status cur \<noteq> ''completed'' \<and> us_status cur \<noteq> ''cancelled'')
     \<and> up_outage st = None \<and> length d \<le> up_max_file st
     \<and> map uc_index (up_chunks st (us_id s)) = map int [0..<n]
     \<and> (\<forall>r\<in>set (up_chunks st (us_id s)). uc_status r = (if nat (uc_index r) \<in> S then ''completed'' else ''pending''))
     \<and> up_files st (us_temp_file_path s) = Some (blend d (nat (us_chunk_size s)) S)"

fun upload_slices :: "(bytes \<Rightarrow> string) \<Rightarrow> nat \<Rightarrow> upload_session \<Rightarrow> bytes \<Rightarrow> nat list \<Rightarrow> upload_store \<Rightarrow> upload_store" where
  "upload_slices sha now s d [] st = st"
| "upload_slices sha now s d (i # is) st =
     upload_slices sha now s d is (snd (upload_chunk sha now st (us_id s) (int i) (int i * us_chunk_size s) (slice d (nat (us_chunk_size s)) i) (us_user_id s)))"

lemma find_row:
  assumes "map uc_index rows = map int [0..<n]" "i < n"
  obtains r where "find (\<lambda>r. uc_index r = int i) rows = Some r" "r \<in> set rows" "uc_index r = int i"
proof -
  have "int i \<in> set (map uc_index rows)" using assms by simp
  then obtain r where "find (\<lambda>r. uc_index r = int i) rows = Some r" by (cases "find (\<lambda>r. uc_index r = int i) rows") (auto simp: find_None_iff)
  moreover from this have "r \<in> set rows \<and> uc_index r = int i" by (auto simp: find_Some_iff)
  ultimately show thesis using that by blast
qed

lemma row_index:
  assumes "map uc_index rows = map int [0..<n]" "r \<in> set rows"
  shows "0 \<le> uc_index r \<and> nat (uc_index r) < n"
proof -
  have "uc_index r \<in> set (map uc_index rows)" using assms(2) by simp
  then show ?thesis unfolding assms(1) by auto
qed

lemma uploading_step:
  assumes "uploading s d n S st" "i < n" "i \<notin> S" "i * nat (us_chunk_size s) < length d" "0 < us_chunk_size s" "int now \<le> us_expires_at s" "length d < 2 ^ 63"
  shows "uploading s d n (insert i S) (snd (upload_chunk sha now st (us_id s) (int i) (int i * us_chunk_size s) (slice d (nat (us_chunk_size s)) i) (us_user_id s)))"
proof -
  let ?cs = "nat (us_chunk_size s)" and ?sid = "us_id s"
  let ?sl = "slice d ?cs i"
  obtain cur where cur: "find_session st ?sid = Some cur" "frozen cur = frozen s" "us_status cur \<noteq> ''completed''" "us_status cur \<noteq> ''cancelled''"
    using assms(1) by (auto simp: uploading_def)
  have u: "up_outage st = None" "length d \<le> up_max_file st" "map uc_index (up_chunks st ?sid) = map int [0..<n]"
    "\<forall>r\<in>set (up_chunks st ?sid). uc_status r = (if nat (uc_index r) \<in> S then ''completed'' else ''pending'')"
    "up_files st (us_temp_file_path s) = Some (blend d ?cs S)" using assms(1) by (auto simp: uploading_def)
  note fr = frozen_fields[OF cur(2)]
  obtain r where r: "find (\<lambda>r. uc_index r = int i) (up_chunks st ?sid) = Some r" "r \<in> set (up_chunks st ?sid)" "uc_index r = int i"
    by (rule find_row[OF u(3) assms(2)])
  have got: "get_session now st ?sid (Some (us_user_id s)) = Inr cur" using cur(1) u(1) fr assms(6) by (simp add: get_session_def upload_query_def)
  have claim: "claim_chunk now st ?sid (int i) (us_user_id s) = Inr (Claimed cur)"
    using got cur(3,4) u(4) r assms(3) by (simp add: claim_chunk_def)
  have off: "cast_u64 (int i * us_chunk_size s) = i * ?cs"
  proof -
    have "int i * us_chunk_size s = int (i * ?cs)" using assms(5) by simp
    then show ?thesis using assms(4,7) by (simp add: cast_u64_def del: of_nat_mult)
  qed
  have fit: "i * ?cs + length ?sl \<le> length d" using assms(4) by (simp add: slice_def)
  let ?st1 = "st\<lparr>up_files := (up_files st)(us_temp_file_path s \<mapsto> blend d ?cs (insert i S))\<rparr>"
  have written: "write_chunk st cur (int i * us_chunk_size s) ?sl = (Inr (), ?st1)"
    using u(2,5) off fit fr write_slice[of ?cs i d S] assms(4,5) by (simp add: write_chunk_def)
  have find1: "find_session ?st1 ?sid = Some cur" using cur(1) by (simp add: find_session_def)
  let ?st2 = "update_session ?sid (count_chunk now (int (length ?sl))) (update_chunk ?sid (int i) (complete_row now (sha ?sl)) ?st1)"
  have run: "snd (upload_chunk sha now st ?sid (int i) (int i * us_chunk_size s) ?sl (us_user_id s)) = ?st2"
    using claim written find1 u(1) fr by (simp add: upload_chunk_def commit_chunk_def upload_query_def Let_def)
  have rows: "up_chunks ?st2 ?sid = map (\<lambda>r. if uc_index r = int i then complete_row now (sha ?sl) r else r) (up_chunks st ?sid)"
    by (simp add: update_chunk_def)
  have idx: "map uc_index (up_chunks ?st2 ?sid) = map int [0..<n]"
  proof -
    have "map uc_index (up_chunks ?st2 ?sid) = map uc_index (up_chunks st ?sid)" unfolding rows by simp
    then show ?thesis using u(3) by simp
  qed
  have sts: "\<forall>x\<in>set (up_chunks ?st2 ?sid). uc_status x = (if nat (uc_index x) \<in> insert i S then ''completed'' else ''pending'')"
    unfolding rows using u(4) row_index[OF u(3)] by fastforce
  have "find_session ?st2 ?sid = Some (count_chunk now (int (length ?sl)) cur)" using find1 by (simp add: find_update_session)
  then show ?thesis
    unfolding run uploading_def using idx sts u(1,2) cur(2-4) by (simp add: count_chunk_def[of now _ cur] frozen_def)
qed

lemma uploading_slices:
  assumes "uploading s d n S st" "distinct is" "set is \<subseteq> {0..<n}" "set is \<inter> S = {}" "\<And>i. i < n \<Longrightarrow> i * nat (us_chunk_size s) < length d"
    "0 < us_chunk_size s" "int now \<le> us_expires_at s" "length d < 2 ^ 63"
  shows "uploading s d n (set is \<union> S) (upload_slices sha now s d is st)"
  using assms
proof (induction "is" arbitrary: S st)
  case (Cons i "is")
  have "uploading s d n (insert i S) (snd (upload_chunk sha now st (us_id s) (int i) (int i * us_chunk_size s) (slice d (nat (us_chunk_size s)) i) (us_user_id s)))"
    by (rule uploading_step[OF Cons.prems(1)]) (use Cons.prems in auto)
  then show ?case using Cons.IH[of "insert i S"] Cons.prems by auto
qed simp

lemma uploading_complete:
  assumes "uploading s d n {0..<n} st" "\<And>j. j < length d \<Longrightarrow> j div nat (us_chunk_size s) < n" "0 < us_chunk_size s" "int now \<le> us_expires_at s"
    "us_total_size s = int (length d)" "length d < 2 ^ 63" "sha d = us_checksum_sha256 s"
  obtains cur st' t where "complete_session sha now st (us_id s) (us_user_id s) = (Inr cur, st')" "up_files st' (us_temp_file_path s) = Some d"
    "find_session st' (us_id s) = Some t" "frozen t = frozen s" "us_status t = ''completed''"
proof -
  obtain cur where cur: "find_session st (us_id s) = Some cur" "frozen cur = frozen s" "us_status cur \<noteq> ''completed''" "us_status cur \<noteq> ''cancelled''"
    using assms(1) by (auto simp: uploading_def)
  have u: "up_outage st = None" "map uc_index (up_chunks st (us_id s)) = map int [0..<n]"
    "\<forall>r\<in>set (up_chunks st (us_id s)). uc_status r = (if nat (uc_index r) < n then ''completed'' else ''pending'')"
    "up_files st (us_temp_file_path s) = Some (blend d (nat (us_chunk_size s)) {0..<n})" using assms(1) by (auto simp: uploading_def)
  have content: "up_files st (us_temp_file_path s) = Some d" using u(4) blend_all[of "nat (us_chunk_size s)" d "{0..<n}"] assms(2,3) by simp
  have "filter (\<lambda>r. uc_status r \<noteq> ''completed'') (up_chunks st (us_id s)) = []" using u(3) row_index[OF u(2)] by (simp add: filter_empty_conv)
  note none = this and fr = frozen_fields[OF cur(2)]
  have got: "get_session now st (us_id s) (Some (us_user_id s)) = Inr cur" using cur(1) u(1) fr assms(4) by (simp add: get_session_def upload_query_def)
  have "check_complete now st (us_id s) (us_user_id s) = Inr cur" using got cur(3,4) none by (simp add: check_complete_def)
  moreover have "verify_file sha now st cur = (Inr (), st)"
    using content fr assms(5-7) by (simp add: verify_file_def compute_file_sha256_def concat_read_blocks SHA256_BUF_SIZE_def cast_u64_def)
  moreover have "mark_completed now st cur = (Inr cur, update_session (us_id s) (set_status now ''completed'') st)" using u(1) fr by (simp add: mark_completed_def upload_query_def)
  ultimately have run: "complete_session sha now st (us_id s) (us_user_id s) = (Inr cur, update_session (us_id s) (set_status now ''completed'') st)"
    by (simp add: complete_session_def)
  show thesis
    by (rule that[OF run, of "set_status now ''completed'' cur"]) (use content cur(1,2) in \<open>simp_all add: find_update_session set_status_def frozen_def\<close>)
qed

text \<open>C13: uploads arrive whole. Whatever order the chunks of a file are sent in, once each has been sent, completing
  the session succeeds when the declared size and checksum are those of the file, and the temporary file is then
  exactly the file.\<close>

theorem chunks_in_any_order:
  assumes "create_session now st sid p = (Inr s, st0)" and "sid \<notin> us_id ` set (up_sessions st)" and "cp_total_size p < 2 ^ 62"
    and "cp_total_size p \<le> (2 ^ 31 - 1) * us_chunk_size s" and "int (length d) = cp_total_size p" and "sha d = cp_checksum_sha256 p"
    and "distinct is" and "set is = {0..<nat (us_total_chunks s)}" and "int later \<le> int now + 86400000"
  shows "\<exists>r st'. complete_session sha later (upload_slices sha later s d is st0) sid (cp_user_id p) = (Inr r, st')
     \<and> up_files st' (us_temp_file_path s) = Some d \<and> map_option us_status (find_session st' sid) = Some ''completed''"
proof -
  let ?n = "nat (us_total_chunks s)"
  from assms(1) obtain cs where c: "s = new_upload_session now sid p cs" "0 < cp_total_size p" "MIN_CHUNK_SIZE \<le> cs" "cs \<le> MAX_CHUNK_SIZE"
    "up_outage st = None" "cast_u64 (cp_total_size p) \<le> up_max_file st"
    and st0: "st0 = st\<lparr>up_sessions := up_sessions st @ [s], up_chunks := (up_chunks st)(sid := map (chunk_placeholder (cp_total_size p) cs (us_total_chunks s)) [0..us_total_chunks s - 1]),
       up_files := (up_files st)(us_temp_file_path s \<mapsto> replicate (cast_u64 (cp_total_size p)) 0)\<rparr>"
    by (rule create_session_Inr)
  have s: "us_id s = sid" "us_chunk_size s = cs" "us_status s = ''pending''" "us_total_size s = int (length d)" "sha d = us_checksum_sha256 s" "us_user_id s = cp_user_id p"
    "us_expires_at s = int now + 86400000" "0 < cs" "cast_u64 (cp_total_size p) = length d" "length d < 2 ^ 63"
    using c assms(3,5,6) by (simp_all add: new_upload_session_def MIN_CHUNK_SIZE_def cast_u64_id)
  have n: "us_total_chunks s = (cp_total_size p + cs - 1) div cs"
    using chunk_total_eq[OF c(2) s(8)] assms(3,4) c by (simp add: new_upload_session_def MAX_CHUNK_SIZE_def)
  note cov = chunk_total_cover[OF c(2) s(8) n]
  have inside: "i * nat cs < length d" if "i < ?n" for i
  proof -
    have "int (i * nat cs) < int (length d)" using placeholder_bytes(2)[OF c(2) s(8) c(4) n, of "int i"] that assms(5) s(8) by simp
    then show ?thesis by (simp only: of_nat_less_iff)
  qed
  have covered: "j div nat cs < ?n" if "j < length d" for j
  proof (rule less_mult_imp_div_less)
    have "int j < int (?n * nat cs)" using that cov(1,3) assms(5) s(8) by simp
    then show "j < ?n * nat cs" by (simp only: of_nat_less_iff)
  qed
  have "find_session st sid = None" using assms(2) by (auto simp: find_session_def find_None_iff)
  then have "find_session st0 sid = Some s" by (simp add: st0 find_session_def find_append s(1))
  moreover have "map uc_index (up_chunks st0 sid) = map int [0..<?n]"
    by (rule nth_equalityI) (simp_all add: st0 chunk_placeholder_def)
  moreover have "blend d (nat cs) {} = replicate (length d) 0" by (rule nth_equalityI) (simp_all add: blend_def)
  ultimately have "uploading s d ?n {} st0"
    using s c(5,6) by (auto simp: uploading_def st0 chunk_placeholder_def)
  then have "uploading s d ?n (set is \<union> {}) (upload_slices sha later s d is st0)"
    by (rule uploading_slices) (use assms(7-9) s inside in auto)
  then have up: "uploading s d ?n {0..<?n} (upload_slices sha later s d is st0)" using assms(8) by simp
  show ?thesis
    by (rule uploading_complete[OF up, of later sha]) (use covered s assms(9) in \<open>auto simp: exI\<close>)
qed

definition demo_sha :: "bytes \<Rightarrow> string" where
  "demo_sha b = (if b = [1, 2, 3] then ''sum'' else ''other'')"

theorem chunks_in_any_order_witness:
  "is_ok (fst (complete_session demo_sha 5 (upload_slices demo_sha 5 demo_upload_session [1, 2, 3] [0] demo_created) 1 4))"
proof -
  have "us_chunk_size demo_upload_session = 1048576" "us_total_chunks demo_upload_session = 1"
    by (simp_all add: demo_upload_session_def new_upload_session_def demo_create_params_def demo_chunk_total)
  then show ?thesis
    using chunks_in_any_order[OF demo_create, of "[1, 2, 3]" demo_sha "[0]" 5] by (auto simp: demo_upload_store_def demo_create_params_def demo_sha_def)
qed

section \<open>Behaviour that differs from the documentation\<close>

text \<open>
  A request for part of a chunk marks the whole chunk completed: the range is compared with neither
  the chunk row nor the size of the session. The rest of the chunk, sent later, is acknowledged and dropped.
\<close>

definition demo_partial :: upload_store where
  "demo_partial = snd (chunk_request demo_sha (\<lambda>_. True) 5 demo_created 1 4 (Some ''bytes 0-0/1'') [1])"

lemma partial_chunk_completes:
  "map_option us_completed_chunks (find_session demo_partial 1) = Some 1"
  "chunk_request demo_sha (\<lambda>_. True) 6 demo_partial 1 4 (Some ''bytes 0-2/3'') [1, 2, 3]
     = (Inr \<lparr>cr_chunk_index = 0, cr_bytes_received = 1, cr_chunks_completed = 1, cr_chunks_remaining = 0\<rparr>, demo_partial)"
  "up_files demo_partial (us_temp_file_path demo_upload_session) = Some [1, 0, 0]"
proof -
  have r: "parse_content_range ''bytes 0-0/1'' = Inr (0, 0, 1)" "parse_content_range ''bytes 0-2/3'' = Inr (0, 2, 3)"
  proof -
    have "print_content_range (0, 0, 1) = ''bytes 0-0/1''" "print_content_range (0, 2, 3) = ''bytes 0-2/3''" by code_simp+
    then show "parse_content_range ''bytes 0-0/1'' = Inr (0, 0, 1)" "parse_content_range ''bytes 0-2/3'' = Inr (0, 2, 3)"
      using parse_print_content_range[of 0 0 1] parse_print_content_range[of 0 2 3] by simp_all
  qed
  have u: "cast_u64 0 = 0" "wrap_i32 0 = 0" "trunc_div 0 1048576 = 0" "cast_u64 (wrap_i64 1) = 1" "cast_u64 (wrap_i64 3) = 3" by code_simp+
  have g: "get_session 5 demo_created 1 (Some 4) = Inr demo_upload_session"
    by (simp add: get_session_def upload_query_def find_session_def demo_created_def demo_upload_session_def demo_create_params_def new_upload_session_def demo_upload_store_def)
  have fields: "us_chunk_size demo_upload_session = 1048576" "us_status demo_upload_session = ''pending''" "us_id demo_upload_session = 1"
    by (simp_all add: demo_upload_session_def new_upload_session_def)
  have c: "claim_chunk 5 demo_created 1 0 4 = Inr (Claimed demo_upload_session)"
    using g fields by (simp add: claim_chunk_def demo_created_def chunk_placeholder_def)
  let ?st1 = "demo_created\<lparr>up_files := [us_temp_file_path demo_upload_session \<mapsto> [1, 0, 0]]\<rparr>"
  have w: "write_chunk demo_created demo_upload_session 0 [1] = (Inr (), ?st1)"
    using u(1) by (simp add: write_chunk_def demo_created_def demo_upload_store_def write_at_def)
  have k: "snd (commit_chunk demo_sha 5 ?st1 demo_upload_session 0 [1]) = update_session 1 (count_chunk 5 1) (update_chunk 1 0 (complete_row 5 (demo_sha [1])) ?st1)"
    using fields(3) by (simp add: commit_chunk_def upload_query_def find_session_def demo_created_def demo_upload_store_def Let_def)
  have p: "demo_partial = update_session 1 (count_chunk 5 1) (update_chunk 1 0 (complete_row 5 (demo_sha [1])) ?st1)"
    unfolding k[symmetric] using r(1) u g c w fields(1) by (simp add: demo_partial_def chunk_request_def upload_chunk_def Let_def split: prod.splits sum.splits)
  have f: "find_session demo_partial 1 = Some (count_chunk 5 1 demo_upload_session)"
    unfolding p by (subst find_update_session) (simp_all add: demo_created_def find_session_def fields)
  show "map_option us_completed_chunks (find_session demo_partial 1) = Some 1"
    using f by (simp add: count_chunk_def demo_upload_session_def new_upload_session_def)
  show "up_files demo_partial (us_temp_file_path demo_upload_session) = Some [1, 0, 0]" by (simp add: p)
  have "up_chunks demo_partial 1 = [complete_row 5 (demo_sha [1]) (chunk_placeholder 3 1048576 1 0)]"
    by (simp add: p update_chunk_def demo_created_def chunk_placeholder_def)
  moreover have "up_outage demo_partial = None" by (simp add: p demo_created_def demo_upload_store_def)
  ultimately show "chunk_request demo_sha (\<lambda>_. True) 6 demo_partial 1 4 (Some ''bytes 0-2/3'') [1, 2, 3]
     = (Inr \<lparr>cr_chunk_index = 0, cr_bytes_received = 1, cr_chunks_completed = 1, cr_chunks_remaining = 0\<rparr>, demo_partial)"
    using r(2) u f fields by (simp add: chunk_request_def get_session_def claim_chunk_def upload_chunk_def upload_query_def count_chunk_def complete_row_def
        chunk_placeholder_def Let_def) (simp add: demo_upload_session_def demo_create_params_def new_upload_session_def demo_chunk_total)
qed

text \<open>The number of chunks is cut to 32 bits: with no size limit, a session of \<open>2\<^sup>51\<close> bytes in chunks of 1 MiB has none.\<close>

lemma huge_session_has_no_chunks:
  "chunk_total (2 ^ 51) 1048576 = - (2 ^ 31)" "placeholders (2 ^ 51) 1048576 (chunk_total (2 ^ 51) 1048576) = []"
proof -
  show t: "chunk_total (2 ^ 51) 1048576 = - (2 ^ 31)" by code_simp
  show "placeholders (2 ^ 51) 1048576 (chunk_total (2 ^ 51) 1048576) = []" unfolding t by (simp add: placeholders_def)
qed

end
