(* ===== verification/Upload_Run.thy ===== *)
theory Upload_Run
  imports Upload
begin

text \<open>
  Chunked uploads under interleaving (services/upload_service.rs): every request is split where the code
  awaits. A chunk writer holds the lock of its row from the claim to the commit, a completing request
  remembers the session it read, and writes to the temporary file may be partial.
\<close>

section \<open>Worlds\<close>

record upload_world =
  uw_now :: nat
  uw_store :: upload_store
  uw_used :: "nat set"
  uw_writers :: "(upload_session \<times> int) list"
  uw_checked :: "upload_session list"
  uw_verified :: "upload_session list"
  uw_expiring :: "upload_session list"

abbreviation writer_key :: "upload_session \<times> int \<Rightarrow> nat \<times> int" where
  "writer_key x \<equiv> (us_id (fst x), snd x)"

inductive upload_step :: "(bytes \<Rightarrow> string) \<Rightarrow> upload_world \<Rightarrow> upload_world \<Rightarrow> bool" for sha where
  tick: "uw_now w \<le> t \<Longrightarrow> upload_step sha w (w\<lparr>uw_now := t\<rparr>)"
| create: "create_session (uw_now w) (uw_store w) sid p = (r, st') \<Longrightarrow> sid \<notin> uw_used w
    \<Longrightarrow> upload_step sha w (w\<lparr>uw_store := st', uw_used := insert sid (uw_used w)\<rparr>)"
| claim: "claim_chunk (uw_now w) (uw_store w) sid i user = Inr (Claimed s) \<Longrightarrow> (sid, i) \<notin> writer_key ` set (uw_writers w)
    \<Longrightarrow> upload_step sha w (w\<lparr>uw_writers := (s, i) # uw_writers w\<rparr>)"
| write_part: "(s, i) \<in> set (uw_writers w) \<Longrightarrow> write_chunk (uw_store w) s off d = (r, st') \<Longrightarrow> upload_step sha w (w\<lparr>uw_store := st'\<rparr>)"
| commit: "(s, i) \<in> set (uw_writers w) \<Longrightarrow> commit_chunk sha (uw_now w) (uw_store w) s i d = (r, st')
    \<Longrightarrow> upload_step sha w (w\<lparr>uw_store := st', uw_writers := remove1 (s, i) (uw_writers w)\<rparr>)"
| abort: "(s, i) \<in> set (uw_writers w) \<Longrightarrow> upload_step sha w (w\<lparr>uw_writers := remove1 (s, i) (uw_writers w)\<rparr>)"
| check: "check_complete (uw_now w) (uw_store w) sid user = Inr s \<Longrightarrow> upload_step sha w (w\<lparr>uw_checked := s # uw_checked w\<rparr>)"
| verify: "s \<in> set (uw_checked w) \<Longrightarrow> verify_file sha (uw_now w) (uw_store w) s = (r, st')
    \<Longrightarrow> upload_step sha w (w\<lparr>uw_store := st', uw_checked := remove1 s (uw_checked w), uw_verified := (if is_ok r then s # uw_verified w else uw_verified w)\<rparr>)"
| mark: "s \<in> set (uw_verified w) \<Longrightarrow> mark_completed (uw_now w) (uw_store w) s = (r, st')
    \<Longrightarrow> upload_step sha w (w\<lparr>uw_store := st', uw_verified := remove1 s (uw_verified w)\<rparr>)"
| cancel: "cancel_session (uw_now w) (uw_store w) sid user = (r, st') \<Longrightarrow> upload_step sha w (w\<lparr>uw_store := st'\<rparr>)"
| select_expired: "upload_step sha w (w\<lparr>uw_expiring := expired_sessions (uw_now w) (uw_store w) @ uw_expiring w\<rparr>)"
| expire_row: "s \<in> set (uw_expiring w) \<Longrightarrow> upload_step sha w (w\<lparr>uw_store := expire_one (uw_now w) s (uw_store w)\<rparr>)"
| forget: "upload_step sha w (w\<lparr>uw_store := cleanup_completed_upload_session (uw_store w) sid\<rparr>)"

abbreviation upload_run :: "(bytes \<Rightarrow> string) \<Rightarrow> upload_world \<Rightarrow> upload_world \<Rightarrow> bool" where
  "upload_run sha \<equiv> (upload_step sha)\<^sup>*\<^sup>*"

definition empty_world :: "nat \<Rightarrow> nat \<Rightarrow> upload_world" where
  "empty_world now mx = \<lparr>uw_now = now, uw_store = \<lparr>up_sessions = [], up_chunks = (\<lambda>_. []), up_files = Map.empty, up_outage = None, up_max_file = mx\<rparr>,
     uw_used = {}, uw_writers = [], uw_checked = [], uw_verified = [], uw_expiring = []\<rparr>"

section \<open>The invariant\<close>

definition path_ok :: "upload_session \<Rightarrow> bool" where
  "path_ok s \<longleftrightarrow> (\<exists>storage. us_temp_file_path s = temp_path storage (us_id s))"

text \<open>A session as a request remembers it: what never changes agrees with the table.\<close>

definition snap :: "nat set \<Rightarrow> upload_session list \<Rightarrow> upload_session \<Rightarrow> bool" where
  "snap used ss s \<longleftrightarrow> us_id s \<in> used \<and> path_ok s \<and> (\<forall>t\<in>set ss. us_id t = us_id s \<longrightarrow> frozen t = frozen s)"

definition chunks_done :: "upload_store \<Rightarrow> nat \<Rightarrow> bool" where
  "chunks_done st sid \<longleftrightarrow> (\<forall>r\<in>set (up_chunks st sid). uc_status r = ''completed'')"

definition file_ok :: "(bytes \<Rightarrow> string) \<Rightarrow> upload_store \<Rightarrow> upload_session \<Rightarrow> bool" where
  "file_ok sha st s \<longleftrightarrow> (\<forall>f. up_files st (us_temp_file_path s) = Some f \<longrightarrow> length f = cast_u64 (us_total_size s) \<and> sha f = us_checksum_sha256 s)"

definition done_rows :: "upload_store \<Rightarrow> nat \<Rightarrow> nat" where
  "done_rows st sid = length (filter (\<lambda>r. uc_status r = ''completed'') (up_chunks st sid))"

definition counted :: "upload_store \<Rightarrow> upload_session \<Rightarrow> bool" where
  "counted st s \<longleftrightarrow> us_completed_chunks s = int (done_rows st (us_id s)) \<and> length (up_chunks st (us_id s)) = nat (us_total_chunks s)"

text \<open>The CHECK constraints and the column widths of migrations 072 and 089.\<close>

definition session_typed :: "upload_session \<Rightarrow> bool" where
  "session_typed s \<longleftrightarrow> us_status s \<in> {''pending'', ''in_progress'', ''completed'', ''failed'', ''cancelled''}
     \<and> - (2 ^ 31) \<le> us_total_chunks s \<and> us_total_chunks s < 2 ^ 31 \<and> MIN_CHUNK_SIZE \<le> us_chunk_size s \<and> us_chunk_size s \<le> MAX_CHUNK_SIZE \<and> 0 < us_total_size s"

definition row_typed :: "chunk_row \<Rightarrow> bool" where
  "row_typed r \<longleftrightarrow> uc_status r \<in> {''pending'', ''uploading'', ''completed'', ''failed''} \<and> 0 \<le> uc_index r \<and> uc_index r < 2 ^ 31
     \<and> - (2 ^ 31) \<le> uc_byte_length r \<and> uc_byte_length r < 2 ^ 31"

definition table_ok :: "(bytes \<Rightarrow> string) \<Rightarrow> nat set \<Rightarrow> upload_store \<Rightarrow> bool" where
  "table_ok sha used st \<longleftrightarrow> distinct (map us_id (up_sessions st))
     \<and> (\<forall>s\<in>set (up_sessions st). us_id s \<in> used \<and> path_ok s \<and> session_typed s \<and> counted st s
          \<and> (us_status s = ''completed'' \<longrightarrow> chunks_done st (us_id s) \<and> file_ok sha st s))
     \<and> (\<forall>sid. distinct (map uc_index (up_chunks st sid)) \<and> (\<forall>r\<in>set (up_chunks st sid). row_typed r))"

definition open_row :: "upload_store \<Rightarrow> nat \<Rightarrow> int \<Rightarrow> bool" where
  "open_row st sid i \<longleftrightarrow> (\<exists>r\<in>set (up_chunks st sid). uc_index r = i \<and> uc_status r \<noteq> ''completed'')"

definition world_ok :: "(bytes \<Rightarrow> string) \<Rightarrow> upload_world \<Rightarrow> bool" where
  "world_ok sha w \<longleftrightarrow> table_ok sha (uw_used w) (uw_store w)
     \<and> distinct (map writer_key (uw_writers w))
     \<and> (\<forall>x\<in>set (uw_writers w). snap (uw_used w) (up_sessions (uw_store w)) (fst x) \<and> open_row (uw_store w) (us_id (fst x)) (snd x))
     \<and> (\<forall>s\<in>set (uw_checked w). snap (uw_used w) (up_sessions (uw_store w)) s \<and> chunks_done (uw_store w) (us_id s))
     \<and> (\<forall>s\<in>set (uw_verified w). snap (uw_used w) (up_sessions (uw_store w)) s \<and> chunks_done (uw_store w) (us_id s) \<and> file_ok sha (uw_store w) s)
     \<and> (\<forall>s\<in>set (uw_expiring w). snap (uw_used w) (up_sessions (uw_store w)) s)"

section \<open>Frame lemmas\<close>

lemma show_nat_inj: "show_nat i = show_nat j \<Longrightarrow> i = j"
  by (metis digits_value_show_nat)

lemma no_slash: "CHR ''/'' \<notin> set (show_nat n)"
  using show_nat_digits[of n] by (auto simp: list_all_iff is_ascii_digit_def code_of_def)

lemma temp_path_split: "\<exists>pre. temp_path storage i = pre @ CHR ''/'' # show_nat i"
proof -
  have "path_join storage ''.uploads'' \<noteq> [] \<and> last (path_join storage ''.uploads'') \<noteq> CHR ''/''" by (simp add: path_join_def)
  then have "temp_path storage i = path_join storage ''.uploads'' @ CHR ''/'' # show_nat i" by (simp add: temp_path_def path_join_def)
  then show ?thesis by blast
qed

lemma temp_path_inj:
  assumes "temp_path a i = temp_path b j"
  shows "i = j"
proof -
  obtain p q where "temp_path a i = p @ CHR ''/'' # show_nat i" "temp_path b j = q @ CHR ''/'' # show_nat j" using temp_path_split by blast
  then have "p @ CHR ''/'' # show_nat i = q @ CHR ''/'' # show_nat j" using assms by simp
  then have "rsplit_once (CHR ''/'') (p @ CHR ''/'' # show_nat i) = rsplit_once (CHR ''/'') (q @ CHR ''/'' # show_nat j)" by simp
  moreover have "rsplit_once (CHR ''/'') (r @ CHR ''/'' # show_nat n) = Some (r, show_nat n)" for r n
    by (simp add: rsplit_once_Some no_slash)
  ultimately have "show_nat i = show_nat j" by simp
  then show ?thesis by (rule show_nat_inj)
qed

lemma path_ok_inj: "path_ok s \<Longrightarrow> path_ok t \<Longrightarrow> us_temp_file_path s = us_temp_file_path t \<Longrightarrow> us_id s = us_id t"
  using temp_path_inj unfolding path_ok_def by metis

text \<open>An update of a session row that keeps what never changes.\<close>

definition keeps :: "(upload_session \<Rightarrow> upload_session) \<Rightarrow> bool" where
  "keeps f \<longleftrightarrow> (\<forall>s. frozen (f s) = frozen s)"

lemma keeps_simps [simp]: "keeps (count_chunk now n)" "keeps (mark_failed now m)" "keeps (set_status now x)" "keeps (expire now)"
  by (simp_all add: keeps_def)

lemma keeps_id: "keeps f \<Longrightarrow> us_id (f s) = us_id s"
  using frozen_fields(1) unfolding keeps_def by blast

lemma keeps_frozen: "keeps f \<Longrightarrow> frozen (f s) = frozen s"
  unfolding keeps_def by blast

lemma update_session_map:
  assumes "keeps f"
  obtains g where "up_sessions (update_session sid f st) = map g (up_sessions st)" "\<And>t. us_id (g t) = us_id t" "\<And>t. frozen (g t) = frozen t"
    "\<And>t. us_id t = sid \<Longrightarrow> g t = f t" "\<And>t. us_id t \<noteq> sid \<Longrightarrow> g t = t"
  by (rule that[of "\<lambda>t. if us_id t = sid then f t else t"]) (simp_all add: update_session_def keeps_id[OF assms] keeps_frozen[OF assms])

lemma snap_update:
  assumes "keeps f"
  shows "snap used (up_sessions (update_session sid f st)) s = snap used (up_sessions st) s"
  by (rule update_session_map[OF assms, of sid st]) (simp add: snap_def)

lemma file_ok_frozen: "frozen s = frozen t \<Longrightarrow> file_ok sha st s = file_ok sha st t"
  by (simp add: file_ok_def frozen_fields[of s t])

lemma path_ok_frozen: "frozen s = frozen t \<Longrightarrow> path_ok s = path_ok t"
  by (simp add: path_ok_def frozen_fields[of s t])

text \<open>How a step changes the store, seen from a remembered session.\<close>

definition store_evolves :: "(bytes \<Rightarrow> string) \<Rightarrow> nat set \<Rightarrow> nat set \<Rightarrow> upload_store \<Rightarrow> upload_store \<Rightarrow> bool" where
  "store_evolves sha used used' st st' \<longleftrightarrow>
     (\<forall>s. snap used (up_sessions st) s \<longrightarrow> snap used' (up_sessions st') s)
     \<and> (\<forall>sid\<in>used. chunks_done st sid \<longrightarrow> chunks_done st' sid)
     \<and> (\<forall>s. us_id s \<in> used \<longrightarrow> path_ok s \<longrightarrow> chunks_done st (us_id s) \<longrightarrow> file_ok sha st s \<longrightarrow> file_ok sha st' s)"

lemma store_evolves_refl: "store_evolves sha used used st st"
  by (simp add: store_evolves_def)

lemma store_evolves_trans: "store_evolves sha used used st st1 \<Longrightarrow> store_evolves sha used used st1 st2 \<Longrightarrow> store_evolves sha used used st st2"
  unfolding store_evolves_def by blast

lemma store_evolves_update: "keeps f \<Longrightarrow> store_evolves sha used used st (update_session sid f st)"
  by (simp add: store_evolves_def snap_update chunks_done_def file_ok_def)

lemma store_evolves_remove: "store_evolves sha used used st (remove_file p st)"
  by (simp add: store_evolves_def remove_file_def chunks_done_def file_ok_def)

lemma world_ok_step:
  assumes "world_ok sha w" "store_evolves sha (uw_used w) used' (uw_store w) st'" "table_ok sha used' st'"
    and "set ws \<subseteq> set (uw_writers w)" "distinct (map writer_key ws)" "\<And>x. x \<in> set ws \<Longrightarrow> open_row st' (us_id (fst x)) (snd x)"
    and "set cs \<subseteq> set (uw_checked w)" "set vs \<subseteq> set (uw_verified w)"
  shows "world_ok sha (w\<lparr>uw_store := st', uw_used := used', uw_writers := ws, uw_checked := cs, uw_verified := vs\<rparr>)"
proof -
  let ?st = "uw_store w"
  have ev: "\<And>s. snap (uw_used w) (up_sessions ?st) s \<Longrightarrow> snap used' (up_sessions st') s"
    "\<And>sid. sid \<in> uw_used w \<Longrightarrow> chunks_done ?st sid \<Longrightarrow> chunks_done st' sid"
    "\<And>s. us_id s \<in> uw_used w \<Longrightarrow> path_ok s \<Longrightarrow> chunks_done ?st (us_id s) \<Longrightarrow> file_ok sha ?st s \<Longrightarrow> file_ok sha st' s"
    using assms(2) by (auto simp: store_evolves_def)
  have sn: "us_id s \<in> uw_used w" "path_ok s" if "snap (uw_used w) (up_sessions ?st) s" for s using that by (auto simp: snap_def)
  have w: "\<forall>x\<in>set (uw_writers w). snap (uw_used w) (up_sessions ?st) (fst x)" "\<forall>s\<in>set (uw_checked w). snap (uw_used w) (up_sessions ?st) s \<and> chunks_done ?st (us_id s)"
    "\<forall>s\<in>set (uw_verified w). snap (uw_used w) (up_sessions ?st) s \<and> chunks_done ?st (us_id s) \<and> file_ok sha ?st s"
    "\<forall>s\<in>set (uw_expiring w). snap (uw_used w) (up_sessions ?st) s" using assms(1) unfolding world_ok_def by blast+
  have "\<forall>x\<in>set ws. snap used' (up_sessions st') (fst x)" "\<forall>s\<in>set (uw_expiring w). snap used' (up_sessions st') s" using w(1,4) assms(4) ev(1) by blast+
  moreover have "\<forall>s\<in>set cs. snap used' (up_sessions st') s \<and> chunks_done st' (us_id s)" using w(2) assms(7) ev(1,2) sn by blast
  moreover have "\<forall>s\<in>set vs. snap used' (up_sessions st') s \<and> chunks_done st' (us_id s) \<and> file_ok sha st' s" using w(3) assms(8) ev sn by blast
  ultimately show ?thesis using assms(3,5,6) by (simp add: world_ok_def)
qed

section \<open>The tables stay well formed\<close>

lemma table_ok_update:
  assumes "table_ok sha used st" "keeps f"
    and "\<And>s. s \<in> set (up_sessions st) \<Longrightarrow> us_id s = sid \<Longrightarrow> session_typed (f s) \<and> us_completed_chunks (f s) = us_completed_chunks s
         \<and> (us_status (f s) = ''completed'' \<longrightarrow> chunks_done st sid \<and> file_ok sha st s)"
  shows "table_ok sha used (update_session sid f st)"
proof -
  obtain g where g: "up_sessions (update_session sid f st) = map g (up_sessions st)" "\<And>t. us_id (g t) = us_id t" "\<And>t. frozen (g t) = frozen t"
    "\<And>t. us_id t = sid \<Longrightarrow> g t = f t" "\<And>t. us_id t \<noteq> sid \<Longrightarrow> g t = t" by (rule update_session_map[OF assms(2), of sid st]) blast
  have each: "us_id (g t) \<in> used \<and> path_ok (g t) \<and> session_typed (g t) \<and> counted st (g t) \<and> (us_status (g t) = ''completed'' \<longrightarrow> chunks_done st (us_id (g t)) \<and> file_ok sha st (g t))"
    if t: "t \<in> set (up_sessions st)" for t
  proof -
    have old: "us_id t \<in> used" "path_ok t" "session_typed t" "counted st t" "us_status t = ''completed'' \<Longrightarrow> chunks_done st (us_id t) \<and> file_ok sha st t"
      using assms(1) t by (auto simp: table_ok_def)
    have fr: "path_ok (g t) = path_ok t" "file_ok sha st (g t) = file_ok sha st t" "us_total_chunks (g t) = us_total_chunks t"
      using path_ok_frozen[OF g(3)] file_ok_frozen[OF g(3)] frozen_fields(5)[OF g(3)] by blast+
    show ?thesis
    proof (cases "us_id t = sid")
      case True
      then show ?thesis using assms(3)[OF t True] old(1,2,4) fr g(2)[of t] g(4)[of t] by (simp add: counted_def)
    next
      case False
      then show ?thesis using old g(5)[of t] by simp
    qed
  qed
  have "distinct (map us_id (map g (up_sessions st)))" using assms(1) g(2) by (simp add: table_ok_def comp_def)
  moreover have "\<forall>sid. distinct (map uc_index (up_chunks st sid)) \<and> (\<forall>r\<in>set (up_chunks st sid). row_typed r)" using assms(1) by (simp add: table_ok_def)
  ultimately show ?thesis using each unfolding table_ok_def g(1) by (simp add: counted_def done_rows_def chunks_done_def file_ok_def)
qed

lemma table_ok_files:
  assumes "table_ok sha used st" and "\<And>s. s \<in> set (up_sessions st) \<Longrightarrow> path_ok s \<Longrightarrow> chunks_done st (us_id s) \<Longrightarrow> file_ok sha st s \<Longrightarrow> file_ok sha (st\<lparr>up_files := fs\<rparr>) s"
  shows "table_ok sha used (st\<lparr>up_files := fs\<rparr>)"
  using assms unfolding table_ok_def by (simp add: counted_def done_rows_def chunks_done_def)

lemma table_ok_remove: "table_ok sha used st \<Longrightarrow> table_ok sha used (remove_file p st)"
  unfolding remove_file_def by (rule table_ok_files) (simp_all add: file_ok_def)

lemma find_session_in: "find_session st sid = Some s \<Longrightarrow> s \<in> set (up_sessions st) \<and> us_id s = sid"
  by (auto simp: find_session_def find_Some_iff)

lemma get_session_in: "get_session now st sid u = Inr s \<Longrightarrow> s \<in> set (up_sessions st) \<and> us_id s = sid"
  by (auto simp: get_session_def dest!: find_session_in split: sum.splits option.splits if_splits)

lemma table_snap:
  assumes "table_ok sha used st" "s \<in> set (up_sessions st)"
  shows "snap used (up_sessions st) s"
proof -
  have "t = s" if "t \<in> set (up_sessions st)" "us_id t = us_id s" for t
    using assms that by (auto simp: table_ok_def distinct_map inj_on_def)
  then show ?thesis using assms by (auto simp: snap_def table_ok_def)
qed

lemma open_not_done: "open_row st sid i \<Longrightarrow> \<not> chunks_done st sid"
  by (auto simp: open_row_def chunks_done_def)

section \<open>Every step keeps the invariant\<close>

lemma world_parts:
  assumes "world_ok sha w"
  shows "table_ok sha (uw_used w) (uw_store w)" "distinct (map writer_key (uw_writers w))"
    "\<And>x. x \<in> set (uw_writers w) \<Longrightarrow> snap (uw_used w) (up_sessions (uw_store w)) (fst x) \<and> open_row (uw_store w) (us_id (fst x)) (snd x)"
    "\<And>s. s \<in> set (uw_checked w) \<Longrightarrow> snap (uw_used w) (up_sessions (uw_store w)) s \<and> chunks_done (uw_store w) (us_id s)"
    "\<And>s. s \<in> set (uw_verified w) \<Longrightarrow> snap (uw_used w) (up_sessions (uw_store w)) s \<and> chunks_done (uw_store w) (us_id s) \<and> file_ok sha (uw_store w) s"
    "\<And>s. s \<in> set (uw_expiring w) \<Longrightarrow> snap (uw_used w) (up_sessions (uw_store w)) s"
  using assms unfolding world_ok_def by blast+

text \<open>A step that changes only the store and leaves the chunk rows alone.\<close>

lemma world_ok_store:
  assumes "world_ok sha w" "store_evolves sha (uw_used w) (uw_used w) (uw_store w) st'" "table_ok sha (uw_used w) st'" "up_chunks st' = up_chunks (uw_store w)"
  shows "world_ok sha (w\<lparr>uw_store := st'\<rparr>)"
proof -
  have "world_ok sha (w\<lparr>uw_store := st', uw_used := uw_used w, uw_writers := uw_writers w, uw_checked := uw_checked w, uw_verified := uw_verified w\<rparr>)"
    by (rule world_ok_step[OF assms(1-3)]) (use world_parts[OF assms(1)] assms(4) in \<open>auto simp: open_row_def\<close>)
  then show ?thesis by simp
qed

lemma step_create:
  assumes "world_ok sha w" "create_session (uw_now w) (uw_store w) sid p = (r, st')" "sid \<notin> uw_used w"
  shows "world_ok sha (w\<lparr>uw_store := st', uw_used := insert sid (uw_used w)\<rparr>)"
proof -
  let ?st = "uw_store w" and ?U = "insert sid (uw_used w)"
  let ?path = "temp_path (cp_storage_path p) sid"
  note parts = world_parts[OF assms(1)]
  have other: "us_temp_file_path s \<noteq> ?path" if "us_id s \<in> uw_used w" "path_ok s" for s
    using that assms(3) temp_path_inj unfolding path_ok_def by metis
  have files: "file_ok sha (st\<lparr>up_files := (up_files ?st)(?path \<mapsto> c)\<rparr>) s = file_ok sha ?st s" if "us_id s \<in> uw_used w" "path_ok s" for s st c
    using other[OF that] by (simp add: file_ok_def)
  show ?thesis
  proof (cases r)
    case (Inl e)
    then have st': "st' = ?st \<or> (\<exists>c. st' = ?st\<lparr>up_files := (up_files ?st)(?path \<mapsto> c)\<rparr>)"
      using assms(2) by (auto simp: create_session_def Let_def new_upload_session_def split: if_splits sum.splits)
    have mono: "table_ok sha (uw_used w) st \<Longrightarrow> table_ok sha ?U st" "snap (uw_used w) ss s \<Longrightarrow> snap ?U ss s" for st ss s
      by (auto simp: table_ok_def snap_def)
    have "us_id s \<in> uw_used w" if "s \<in> set (up_sessions ?st)" for s using parts(1) that by (auto simp: table_ok_def)
    then have "table_ok sha (uw_used w) (?st\<lparr>up_files := (up_files ?st)(?path \<mapsto> c)\<rparr>)" for c
      by (intro table_ok_files[OF parts(1)]) (simp add: files)
    then have t: "table_ok sha (uw_used w) st'" using st' parts(1) by blast
    have e: "store_evolves sha (uw_used w) ?U ?st st'" using st' mono(2) by (auto simp: store_evolves_def files chunks_done_def)
    have rows: "up_chunks st' = up_chunks ?st" using st' by auto
    have "world_ok sha (w\<lparr>uw_store := st', uw_used := ?U, uw_writers := uw_writers w, uw_checked := uw_checked w, uw_verified := uw_verified w\<rparr>)"
      by (rule world_ok_step[OF assms(1) e mono(1)[OF t]]) (use parts rows in \<open>auto simp: open_row_def\<close>)
    then show ?thesis by simp
  next
    case (Inr s)
    from assms(2)[unfolded Inr] obtain cs where c: "s = new_upload_session (uw_now w) sid p cs" "0 < cp_total_size p" "MIN_CHUNK_SIZE \<le> cs" "cs \<le> MAX_CHUNK_SIZE"
      and st': "st' = ?st\<lparr>up_sessions := up_sessions ?st @ [s], up_chunks := (up_chunks ?st)(sid := map (chunk_placeholder (cp_total_size p) cs (us_total_chunks s)) [0..us_total_chunks s - 1]),
         up_files := (up_files ?st)(us_temp_file_path s \<mapsto> replicate (cast_u64 (cp_total_size p)) 0)\<rparr>"
      by (rule create_session_Inr)
    have s: "us_id s = sid" "us_temp_file_path s = ?path" "us_status s = ''pending''" "us_completed_chunks s = 0" "us_total_size s = cp_total_size p" "us_chunk_size s = cs"
      "us_total_chunks s = chunk_total (cp_total_size p) cs" by (simp_all add: c(1) new_upload_session_def)
    have new: "path_ok s" "session_typed s"
      using s c wrap_i32_range by (auto simp: path_ok_def session_typed_def chunk_total_def)
    have rows: "distinct (map uc_index (up_chunks st' sid))" "\<forall>x\<in>set (up_chunks st' sid). row_typed x \<and> uc_status x = ''pending''"
    proof -
      have "map uc_index (up_chunks st' sid) = [0..us_total_chunks s - 1]" by (simp add: st' chunk_placeholder_def comp_def)
      then show "distinct (map uc_index (up_chunks st' sid))" by simp
      have "us_total_chunks s < 2 ^ 31" using s(7) wrap_i32_range by (simp add: chunk_total_def)
      then show "\<forall>x\<in>set (up_chunks st' sid). row_typed x \<and> uc_status x = ''pending''"
        using wrap_i32_range c(3,4) by (auto simp: st' chunk_placeholder_def row_typed_def MIN_CHUNK_SIZE_def MAX_CHUNK_SIZE_def)
    qed
    have same: "up_chunks st' k = up_chunks ?st k" if "k \<noteq> sid" for k using that by (simp add: st')
    have count: "counted st' s" using rows(2) by (auto simp: counted_def done_rows_def s filter_empty_conv) (simp add: st' s)
    have old: "us_id x \<noteq> sid \<and> us_id x \<in> uw_used w \<and> path_ok x \<and> session_typed x \<and> counted ?st x
        \<and> (us_status x = ''completed'' \<longrightarrow> chunks_done ?st (us_id x) \<and> file_ok sha ?st x)" if "x \<in> set (up_sessions ?st)" for x
      using parts(1) that assms(3) by (auto simp: table_ok_def)
    have f': "file_ok sha st' x = file_ok sha ?st x" if "us_id x \<in> uw_used w" "path_ok x" for x using other[OF that] by (simp add: st' file_ok_def s(2))
    have d': "chunks_done st' k = chunks_done ?st k" if "k \<noteq> sid" for k using same[OF that] by (simp add: chunks_done_def)
    have ct': "counted st' x = counted ?st x" if "us_id x \<noteq> sid" for x using same[OF that] by (simp add: counted_def done_rows_def)
    have ss: "up_sessions st' = up_sessions ?st @ [s]" by (simp add: st')
    have "distinct (map us_id (up_sessions st'))" using parts(1) old by (auto simp: ss table_ok_def s(1))
    moreover have "\<forall>k. distinct (map uc_index (up_chunks st' k)) \<and> (\<forall>x\<in>set (up_chunks st' k). row_typed x)"
    proof
      fix k show "distinct (map uc_index (up_chunks st' k)) \<and> (\<forall>x\<in>set (up_chunks st' k). row_typed x)"
        using rows same[of k] parts(1) by (cases "k = sid") (auto simp: table_ok_def)
    qed
    ultimately have t: "table_ok sha ?U st'"
      using old new count s(1,3) f' d' ct' unfolding table_ok_def ss by auto
    have "chunks_done st' k = chunks_done ?st k" if "k \<in> uw_used w" for k using d' that assms(3) by metis
    then have e: "store_evolves sha (uw_used w) ?U ?st st'"
      using assms(3) f' s(1) unfolding store_evolves_def snap_def ss by auto
    have "world_ok sha (w\<lparr>uw_store := st', uw_used := ?U, uw_writers := uw_writers w, uw_checked := uw_checked w, uw_verified := uw_verified w\<rparr>)"
    proof (rule world_ok_step[OF assms(1) e t])
      fix x assume x: "x \<in> set (uw_writers w)"
      have "us_id (fst x) \<noteq> sid \<and> open_row ?st (us_id (fst x)) (snd x)" using parts(3)[OF x] assms(3) by (auto simp: snap_def)
      then show "open_row st' (us_id (fst x)) (snd x)" using same by (simp add: open_row_def)
    qed (use parts(2) in simp_all)
    then show ?thesis by simp
  qed
qed

lemma step_claim:
  assumes "world_ok sha w" "claim_chunk (uw_now w) (uw_store w) sid i user = Inr (Claimed s)" "(sid, i) \<notin> writer_key ` set (uw_writers w)"
  shows "world_ok sha (w\<lparr>uw_writers := (s, i) # uw_writers w\<rparr>)"
proof -
  let ?st = "uw_store w"
  note parts = world_parts[OF assms(1)]
  have got: "get_session (uw_now w) ?st sid (Some user) = Inr s"
    using assms(2) by (auto simp: claim_chunk_def split: if_splits option.splits)
  have s: "s \<in> set (up_sessions ?st)" "us_id s = sid" using get_session_in[OF got] by simp_all
  obtain r where r: "find (\<lambda>r. uc_index r = i) (up_chunks ?st sid) = Some r" "uc_status r \<noteq> ''completed''"
    using assms(2) got by (auto simp: claim_chunk_def split: if_splits option.splits)
  have "open_row ?st sid i" using r by (auto simp: open_row_def find_Some_iff)
  then show ?thesis using assms(1,3) table_snap[OF parts(1) s(1)] s(2) unfolding world_ok_def by auto
qed

lemma step_write:
  assumes "world_ok sha w" "(s, i) \<in> set (uw_writers w)" "write_chunk (uw_store w) s off d = (r, st')"
  shows "world_ok sha (w\<lparr>uw_store := st'\<rparr>)"
proof -
  let ?st = "uw_store w"
  note parts = world_parts[OF assms(1)]
  have sn: "path_ok s" "\<not> chunks_done ?st (us_id s)" using parts(3)[OF assms(2)] open_not_done by (auto simp: snap_def)
  have "st' = ?st \<or> (\<exists>c. st' = ?st\<lparr>up_files := (up_files ?st)(us_temp_file_path s \<mapsto> c)\<rparr>)"
    using assms(3) by (auto simp: write_chunk_def split: option.splits if_splits)
  then consider "st' = ?st" | c where "st' = ?st\<lparr>up_files := (up_files ?st)(us_temp_file_path s \<mapsto> c)\<rparr>" by blast
  then show ?thesis
  proof cases
    case 1
    then show ?thesis using assms(1) by simp
  next
    case (2 c)
    have f: "file_ok sha st' t" if "path_ok t" "chunks_done ?st (us_id t)" "file_ok sha ?st t" for t
    proof -
      have "us_temp_file_path t \<noteq> us_temp_file_path s" using path_ok_inj[OF that(1) sn(1)] that(2) sn(2) by auto
      then show ?thesis using that(3) 2 by (simp add: file_ok_def)
    qed
    have t: "table_ok sha (uw_used w) st'" unfolding 2 by (rule table_ok_files[OF parts(1)]) (use f 2 in blast)
    have "store_evolves sha (uw_used w) (uw_used w) ?st st'" using f by (auto simp: store_evolves_def 2 chunks_done_def)
    then show ?thesis by (rule world_ok_store[OF assms(1) _ t]) (simp add: 2)
  qed
qed

lemma distinct_remove1_keys: "distinct (map k xs) \<Longrightarrow> distinct (map k (remove1 x xs))"
  by (induction xs) (auto dest: notin_set_remove1 simp: image_iff)

lemma key_other: "distinct (map k xs) \<Longrightarrow> x \<in> set xs \<Longrightarrow> y \<in> set (remove1 x xs) \<Longrightarrow> k y \<noteq> k x"
  by (induction xs) (auto split: if_splits dest: notin_set_remove1 simp: image_iff)

lemma done_rows_complete:
  assumes "distinct (map uc_index rows)" "r \<in> set rows" "uc_index r = i" "uc_status r \<noteq> ''completed''"
  shows "length (filter (\<lambda>r. uc_status r = ''completed'') (map (\<lambda>r. if uc_index r = i then complete_row now d r else r) rows))
     = Suc (length (filter (\<lambda>r. uc_status r = ''completed'') rows))"
  using assms
proof (induction rows)
  case (Cons x xs)
  show ?case
  proof (cases "uc_index x = i")
    case True
    then have x: "r = x" using Cons.prems by (auto simp: image_iff)
    have "map (\<lambda>r. if uc_index r = i then complete_row now d r else r) xs = xs"
      using Cons.prems(1) True by (intro map_idI) (auto simp: image_iff)
    then show ?thesis using True x Cons.prems(4) by simp
  next
    case False
    then show ?thesis using Cons by auto
  qed
qed simp

lemma count_chunk_typed: "session_typed s \<Longrightarrow> session_typed (count_chunk now n s)"
  by (auto simp: session_typed_def count_chunk_def)

lemma step_commit:
  assumes "world_ok sha w" "(s, i) \<in> set (uw_writers w)" "commit_chunk sha (uw_now w) (uw_store w) s i d = (r, st')"
  shows "world_ok sha (w\<lparr>uw_store := st', uw_writers := remove1 (s, i) (uw_writers w)\<rparr>)"
proof -
  let ?st = "uw_store w" and ?sid = "us_id s" and ?ws = "remove1 (s, i) (uw_writers w)"
  note parts = world_parts[OF assms(1)]
  have ws: "set ?ws \<subseteq> set (uw_writers w)" "distinct (map writer_key ?ws)" by (rule set_remove1_subset, rule distinct_remove1_keys[OF parts(2)])
  let ?f = "count_chunk (uw_now w) (int (length d))" and ?c = "complete_row (uw_now w) (sha d)"
  consider "st' = ?st" | "st' = update_session ?sid ?f (update_chunk ?sid i ?c ?st)"
    using assms(3) by (auto simp: commit_chunk_def Let_def split: sum.splits option.splits)
  then show ?thesis
  proof cases
    case 1
    have "world_ok sha (w\<lparr>uw_store := ?st, uw_used := uw_used w, uw_writers := ?ws, uw_checked := uw_checked w, uw_verified := uw_verified w\<rparr>)"
      by (rule world_ok_step[OF assms(1) store_evolves_refl parts(1) ws]) (use parts(3) ws(1) in blast)+
    then show ?thesis by (simp add: 1)
  next
    case 2
    obtain x where x: "x \<in> set (up_chunks ?st ?sid)" "uc_index x = i" "uc_status x \<noteq> ''completed''"
      using parts(3)[OF assms(2)] by (auto simp: open_row_def)
    have dist: "distinct (map uc_index (up_chunks ?st k))" "\<forall>r\<in>set (up_chunks ?st k). row_typed r" for k using parts(1) by (auto simp: table_ok_def)
    have rows: "up_chunks st' k = (if k = ?sid then map (\<lambda>r. if uc_index r = i then ?c r else r) (up_chunks ?st ?sid) else up_chunks ?st k)" for k
      by (simp add: 2 update_chunk_def)
    have count: "done_rows st' k = (if k = ?sid then Suc (done_rows ?st k) else done_rows ?st k)" for k
      using done_rows_complete[OF dist(1) x] by (simp add: done_rows_def rows)
    have len: "length (up_chunks st' k) = length (up_chunks ?st k)" for k by (simp add: rows)
    have done': "chunks_done ?st k \<Longrightarrow> chunks_done st' k" for k by (auto simp: chunks_done_def rows)
    have undone: "\<not> chunks_done ?st ?sid" using x by (auto simp: chunks_done_def)
    have files: "file_ok sha st' t = file_ok sha ?st t" for t by (simp add: 2 file_ok_def)
    have typed: "distinct (map uc_index (up_chunks st' k)) \<and> (\<forall>r\<in>set (up_chunks st' k). row_typed r)" for k
    proof -
      have "map uc_index (up_chunks st' k) = map uc_index (up_chunks ?st k)" by (simp add: rows)
      moreover have "\<forall>r\<in>set (up_chunks st' k). row_typed r" using dist(2)[of k] by (auto simp: rows row_typed_def complete_row_def)
      ultimately show ?thesis using dist(1) by simp
    qed
    have ss: "up_sessions st' = up_sessions (update_session ?sid ?f ?st)" by (simp add: 2 update_session_def)
    obtain g where g: "up_sessions st' = map g (up_sessions ?st)" "\<And>t. us_id (g t) = us_id t" "\<And>t. frozen (g t) = frozen t"
      "\<And>t. us_id t = ?sid \<Longrightarrow> g t = ?f t" "\<And>t. us_id t \<noteq> ?sid \<Longrightarrow> g t = t"
      unfolding ss by (rule update_session_map[of ?f ?sid ?st]) (simp, blast)
    have each: "us_id (g t) \<in> uw_used w \<and> path_ok (g t) \<and> session_typed (g t) \<and> counted st' (g t)
        \<and> (us_status (g t) = ''completed'' \<longrightarrow> chunks_done st' (us_id (g t)) \<and> file_ok sha st' (g t))" if t: "t \<in> set (up_sessions ?st)" for t
    proof -
      have old: "us_id t \<in> uw_used w" "path_ok t" "session_typed t" "counted ?st t" "us_status t = ''completed'' \<Longrightarrow> chunks_done ?st (us_id t) \<and> file_ok sha ?st t"
        using parts(1) t by (auto simp: table_ok_def)
      show ?thesis
      proof (cases "us_id t = ?sid")
        case True
        have "us_status (?f t) = ''completed'' \<longleftrightarrow> us_status t = ''completed''" by (simp add: count_chunk_def)
        then have "us_status (?f t) \<noteq> ''completed''" using old(5) undone True by auto
        moreover have "counted st' (?f t)" using old(4) count len True by (simp add: counted_def count_chunk_def)
        ultimately show ?thesis using old(1-3) g(4)[OF True] path_ok_frozen[OF g(3)[of t]] count_chunk_typed by simp
      next
        case False
        then show ?thesis using old g(5)[OF False] done' files count len by (simp add: counted_def)
      qed
    qed
    have "distinct (map us_id (map g (up_sessions ?st)))" using parts(1) g(2) by (simp add: table_ok_def comp_def)
    then have t: "table_ok sha (uw_used w) st'" using each typed unfolding table_ok_def g(1) by simp
    have "snap (uw_used w) (up_sessions st') u = snap (uw_used w) (up_sessions ?st) u" for u unfolding ss by (rule snap_update) simp
    then have e: "store_evolves sha (uw_used w) (uw_used w) ?st st'" using done' files by (simp add: store_evolves_def)
    have "world_ok sha (w\<lparr>uw_store := st', uw_used := uw_used w, uw_writers := ?ws, uw_checked := uw_checked w, uw_verified := uw_verified w\<rparr>)"
    proof (rule world_ok_step[OF assms(1) e t ws])
      fix y assume y: "y \<in> set ?ws"
      have "open_row ?st (us_id (fst y)) (snd y)" using parts(3) y ws(1) by blast
      moreover have "writer_key y \<noteq> (?sid, i)" using key_other[OF parts(2) assms(2) y] by simp
      ultimately show "open_row st' (us_id (fst y)) (snd y)" by (auto simp: open_row_def rows)
    qed simp_all
    then show ?thesis by simp
  qed
qed

lemma step_abort:
  assumes "world_ok sha w"
  shows "world_ok sha (w\<lparr>uw_writers := remove1 x (uw_writers w)\<rparr>)"
proof -
  have "set (remove1 x (uw_writers w)) \<subseteq> set (uw_writers w)" by (rule set_remove1_subset)
  then show ?thesis using assms distinct_remove1_keys[of writer_key "uw_writers w" x] unfolding world_ok_def by auto
qed

lemma step_check:
  assumes "world_ok sha w" "check_complete (uw_now w) (uw_store w) sid user = Inr s"
  shows "world_ok sha (w\<lparr>uw_checked := s # uw_checked w\<rparr>)"
proof -
  note parts = world_parts[OF assms(1)]
  have got: "get_session (uw_now w) (uw_store w) sid (Some user) = Inr s" "chunks_done (uw_store w) sid"
    using assms(2) by (auto simp: check_complete_def chunks_done_def filter_empty_conv split: if_splits)
  then show ?thesis using assms(1) table_snap[OF parts(1)] get_session_in[OF got(1)] unfolding world_ok_def by auto
qed

lemma typed_status:
  "session_typed s \<Longrightarrow> x \<in> {''completed'', ''cancelled''} \<Longrightarrow> session_typed (set_status now x s)"
  "session_typed s \<Longrightarrow> session_typed (mark_failed now m s)" "session_typed s \<Longrightarrow> session_typed (expire now s)"
  by (auto simp: session_typed_def set_status_def mark_failed_def expire_def)

lemma table_typed: "table_ok sha used st \<Longrightarrow> s \<in> set (up_sessions st) \<Longrightarrow> session_typed s"
  by (simp add: table_ok_def)

lemma step_verify:
  assumes "world_ok sha w" "s \<in> set (uw_checked w)" "verify_file sha (uw_now w) (uw_store w) s = (r, st')"
  shows "world_ok sha (w\<lparr>uw_store := st', uw_checked := remove1 s (uw_checked w), uw_verified := (if is_ok r then s # uw_verified w else uw_verified w)\<rparr>)"
proof -
  let ?st = "uw_store w"
  note parts = world_parts[OF assms(1)]
  have sub: "set (remove1 s (uw_checked w)) \<subseteq> set (uw_checked w)" by (rule set_remove1_subset)
  show ?thesis
  proof (cases r)
    case (Inr u)
    then have st': "st' = ?st" "file_ok sha ?st s"
      using assms(3) by (auto simp: verify_file_def compute_file_sha256_def concat_read_blocks SHA256_BUF_SIZE_def file_ok_def split: option.splits if_splits)
    have "snap (uw_used w) (up_sessions ?st) s \<and> chunks_done ?st (us_id s)" by (rule parts(4)[OF assms(2)])
    then show ?thesis using assms(1) sub st' Inr unfolding world_ok_def by auto
  next
    case (Inl e)
    have "st' = ?st \<or> (\<exists>m. st' = update_session (us_id s) (mark_failed (uw_now w) m) ?st)"
      using assms(3) Inl by (auto simp: verify_file_def split: option.splits if_splits sum.splits)
    moreover have "table_ok sha (uw_used w) (update_session (us_id s) (mark_failed (uw_now w) m) ?st)" for m
      by (rule table_ok_update[OF parts(1)]) (auto simp: mark_failed_def[of _ _ "_ :: upload_session"] dest: table_typed[OF parts(1)] intro: typed_status(2)[unfolded mark_failed_def])
    ultimately have st': "store_evolves sha (uw_used w) (uw_used w) ?st st'" "table_ok sha (uw_used w) st'" "up_chunks st' = up_chunks ?st"
      using store_evolves_refl store_evolves_update[of "mark_failed (uw_now w) _"] parts(1) by auto
    have "world_ok sha (w\<lparr>uw_store := st', uw_used := uw_used w, uw_writers := uw_writers w, uw_checked := remove1 s (uw_checked w), uw_verified := uw_verified w\<rparr>)"
      by (rule world_ok_step[OF assms(1) st'(1,2) _ _ _ sub]) (use parts st'(3) in \<open>auto simp: open_row_def\<close>)
    then show ?thesis using Inl by simp
  qed
qed

lemma step_mark:
  assumes "world_ok sha w" "s \<in> set (uw_verified w)" "mark_completed (uw_now w) (uw_store w) s = (r, st')"
  shows "world_ok sha (w\<lparr>uw_store := st', uw_verified := remove1 s (uw_verified w)\<rparr>)"
proof -
  let ?st = "uw_store w" and ?f = "set_status (uw_now w) ''completed''"
  note parts = world_parts[OF assms(1)]
  have s: "snap (uw_used w) (up_sessions ?st) s" "chunks_done ?st (us_id s)" "file_ok sha ?st s" using parts(5)[OF assms(2)] by blast+
  have "session_typed (?f t) \<and> us_completed_chunks (?f t) = us_completed_chunks t \<and> (us_status (?f t) = ''completed'' \<longrightarrow> chunks_done ?st (us_id s) \<and> file_ok sha ?st t)"
    if "t \<in> set (up_sessions ?st)" "us_id t = us_id s" for t
  proof -
    have "frozen t = frozen s" using s(1) that by (simp add: snap_def)
    then have "file_ok sha ?st t" using s(3) file_ok_frozen by blast
    then show ?thesis using s(2) typed_status(1)[OF table_typed[OF parts(1) that(1)]] by (simp add: set_status_def)
  qed
  then have "table_ok sha (uw_used w) (update_session (us_id s) ?f ?st)" by (intro table_ok_update[OF parts(1)]) simp_all
  moreover have "st' = ?st \<or> st' = update_session (us_id s) ?f ?st" using assms(3) by (auto simp: mark_completed_def split: sum.splits)
  ultimately have st': "store_evolves sha (uw_used w) (uw_used w) ?st st'" "table_ok sha (uw_used w) st'" "up_chunks st' = up_chunks ?st"
    using store_evolves_refl store_evolves_update[of ?f] parts(1) by auto
  have "world_ok sha (w\<lparr>uw_store := st', uw_used := uw_used w, uw_writers := uw_writers w, uw_checked := uw_checked w, uw_verified := remove1 s (uw_verified w)\<rparr>)"
    by (rule world_ok_step[OF assms(1) st'(1,2) _ _ _ _ set_remove1_subset]) (use parts st'(3) in \<open>auto simp: open_row_def\<close>)
  then show ?thesis by simp
qed

text \<open>Removing a temporary file and cancelling its session.\<close>

lemma step_discard:
  assumes "world_ok sha w" "keeps f" "\<And>s. session_typed s \<Longrightarrow> session_typed (f s)" "\<And>s. us_completed_chunks (f s) = us_completed_chunks s" "\<And>s. us_status (f s) \<noteq> ''completed''"
  shows "world_ok sha (w\<lparr>uw_store := update_session sid f (remove_file p (uw_store w))\<rparr>)"
proof (rule world_ok_store[OF assms(1)])
  let ?st = "uw_store w"
  note parts = world_parts[OF assms(1)]
  show "store_evolves sha (uw_used w) (uw_used w) ?st (update_session sid f (remove_file p ?st))"
    by (rule store_evolves_trans[OF store_evolves_remove store_evolves_update[OF assms(2)]])
  show "table_ok sha (uw_used w) (update_session sid f (remove_file p ?st))"
    by (rule table_ok_update[OF table_ok_remove[OF parts(1)] assms(2)]) (use assms(3-5) table_typed[OF parts(1)] in \<open>auto simp: remove_file_def\<close>)
qed (simp add: remove_file_def)

lemma step_forget:
  assumes "world_ok sha w"
  shows "world_ok sha (w\<lparr>uw_store := cleanup_completed_upload_session (uw_store w) sid\<rparr>)"
proof -
  let ?st = "uw_store w"
  note parts = world_parts[OF assms]
  let ?P = "\<lambda>s. us_id s = sid \<and> us_status s = ''completed''"
  show ?thesis
  proof (cases "up_outage ?st = None \<and> list_ex ?P (up_sessions ?st)")
    case False
    then have "cleanup_completed_upload_session ?st sid = ?st"
      by (auto simp: cleanup_completed_upload_session_def upload_query_def list_ex_iff filter_id_conv split: option.splits)
    then show ?thesis using assms by simp
  next
    case True
    then obtain c where c: "c \<in> set (up_sessions ?st)" "us_id c = sid" "us_status c = ''completed''" by (auto simp: list_ex_iff)
    define st' where "st' = cleanup_completed_upload_session ?st sid"
    have st': "up_sessions st' = filter (\<lambda>s. \<not> ?P s) (up_sessions ?st)" "up_chunks st' = (up_chunks ?st)(sid := [])" "up_files st' = up_files ?st"
      using True by (simp_all add: st'_def cleanup_completed_upload_session_def upload_query_def)
    have gone: "us_id t \<noteq> sid" if "t \<in> set (up_sessions st')" for t
      using that c parts(1) unfolding st'(1) by (auto simp: table_ok_def distinct_map inj_on_def)
    have "chunks_done ?st sid" using parts(1) c by (auto simp: table_ok_def)
    then have open': "open_row ?st k i \<Longrightarrow> open_row st' k i" for k i using open_not_done[of ?st sid i] by (auto simp: open_row_def st'(2))
    have "distinct (map us_id (up_sessions st'))" using parts(1) unfolding st'(1) by (simp add: table_ok_def distinct_map_filter)
    moreover have "us_id t \<in> uw_used w \<and> path_ok t \<and> session_typed t \<and> counted st' t \<and> (us_status t = ''completed'' \<longrightarrow> chunks_done st' (us_id t) \<and> file_ok sha st' t)"
      if t: "t \<in> set (up_sessions st')" for t
    proof -
      have "t \<in> set (up_sessions ?st)" using t by (simp add: st'(1))
      then have "us_id t \<in> uw_used w \<and> path_ok t \<and> session_typed t \<and> counted ?st t \<and> (us_status t = ''completed'' \<longrightarrow> chunks_done ?st (us_id t) \<and> file_ok sha ?st t)"
        using parts(1) unfolding table_ok_def by blast
      then show ?thesis using gone[OF t] by (simp add: counted_def done_rows_def chunks_done_def file_ok_def st'(2,3))
    qed
    moreover have "\<forall>k. distinct (map uc_index (up_chunks st' k)) \<and> (\<forall>r\<in>set (up_chunks st' k). row_typed r)"
      using parts(1) by (simp add: table_ok_def st'(2))
    ultimately have t: "table_ok sha (uw_used w) st'" unfolding table_ok_def by blast
    have e: "store_evolves sha (uw_used w) (uw_used w) ?st st'" by (auto simp: store_evolves_def snap_def chunks_done_def file_ok_def st')
    have "world_ok sha (w\<lparr>uw_store := st', uw_used := uw_used w, uw_writers := uw_writers w, uw_checked := uw_checked w, uw_verified := uw_verified w\<rparr>)"
      by (rule world_ok_step[OF assms e t]) (use parts open' in auto)
    then show ?thesis by (simp add: st'_def)
  qed
qed

lemma world_ok_preserved:
  assumes "upload_step sha w w'" "world_ok sha w"
  shows "world_ok sha w'"
  using assms(1)
proof cases
  case (tick t)
  then show ?thesis using assms(2) by (simp add: world_ok_def)
next
  case (create sid p r st')
  then show ?thesis using step_create[OF assms(2)] by simp
next
  case (claim sid i user s)
  then show ?thesis using step_claim[OF assms(2)] by simp
next
  case (write_part s i off d r st')
  then show ?thesis using step_write[OF assms(2)] by simp
next
  case (commit s i d r st')
  then show ?thesis using step_commit[OF assms(2)] by simp
next
  case (abort s i)
  then show ?thesis using step_abort[OF assms(2)] by simp
next
  case (check sid user s)
  then show ?thesis using step_check[OF assms(2)] by simp
next
  case (verify s r st')
  then show ?thesis using step_verify[OF assms(2)] by simp
next
  case (mark s r st')
  then show ?thesis using step_mark[OF assms(2)] by simp
next
  case (cancel sid user r st')
  then have "st' = uw_store w \<or> (\<exists>p. st' = update_session sid (set_status (uw_now w) ''cancelled'') (remove_file p (uw_store w)))"
    by (auto simp: cancel_session_def split: sum.splits option.splits if_splits)
  moreover have "world_ok sha (w\<lparr>uw_store := update_session sid (set_status (uw_now w) ''cancelled'') (remove_file p (uw_store w))\<rparr>)" for p
    by (rule step_discard[OF assms(2)]) (simp_all add: typed_status(1), simp_all add: set_status_def)
  ultimately show ?thesis using assms(2) cancel(1) by auto
next
  case select_expired
  have "\<forall>s\<in>set (expired_sessions (uw_now w) (uw_store w)). snap (uw_used w) (up_sessions (uw_store w)) s"
    using table_snap[OF world_parts(1)[OF assms(2)]] by (auto simp: expired_sessions_def)
  then show ?thesis using assms(2) select_expired by (auto simp: world_ok_def)
next
  case (expire_row s)
  have "world_ok sha (w\<lparr>uw_store := update_session (us_id s) (expire (uw_now w)) (remove_file p (uw_store w))\<rparr>)" for p
    by (rule step_discard[OF assms(2)]) (simp_all add: typed_status(3), simp_all add: expire_def)
  then show ?thesis using expire_row by (simp add: expire_one_def)
next
  case (forget sid)
  then show ?thesis using step_forget[OF assms(2)] by simp
qed

lemma world_ok_empty: "world_ok sha (empty_world now mx)"
  by (simp add: world_ok_def table_ok_def empty_world_def)

interpretation uploads: stable "upload_step sha" "world_ok sha" for sha
  by unfold_locales (rule world_ok_preserved)

lemma world_ok_run: "upload_run sha (empty_world now mx) w \<Longrightarrow> world_ok sha w"
  by (rule uploads.good_run[OF _ world_ok_empty])

section \<open>The operations are runs\<close>

lemma run_step: "upload_run sha w w1 \<Longrightarrow> upload_step sha w1 w2 \<Longrightarrow> upload_run sha w w2"
  by (rule rtranclp.rtrancl_into_rtrancl)

lemma run_upload_chunk:
  assumes "(sid, i) \<notin> writer_key ` set (uw_writers w)"
  shows "upload_run sha w (w\<lparr>uw_store := snd (upload_chunk sha (uw_now w) (uw_store w) sid i off d user)\<rparr>)"
proof (cases "claim_chunk (uw_now w) (uw_store w) sid i user")
  case (Inr c)
  show ?thesis
  proof (cases c)
    case (Claimed s)
    obtain r st1 where wr: "write_chunk (uw_store w) s off d = (r, st1)" by fastforce
    let ?w1 = "w\<lparr>uw_writers := (s, i) # uw_writers w\<rparr>"
    let ?w2 = "?w1\<lparr>uw_store := st1\<rparr>"
    have 1: "upload_step sha w ?w1" by (rule upload_step.claim[OF Inr[unfolded Claimed] assms])
    have 2: "upload_step sha ?w1 ?w2" by (rule upload_step.write_part[of s i]) (use wr in simp_all)
    show ?thesis
    proof (cases r)
      case (Inl e)
      have "upload_step sha ?w2 (?w2\<lparr>uw_writers := remove1 (s, i) (uw_writers ?w2)\<rparr>)" by (rule upload_step.abort) simp
      then show ?thesis using run_step[OF run_step[OF r_into_rtranclp[of "upload_step sha", OF 1] 2]] Inr Claimed wr Inl by (simp add: upload_chunk_def)
    next
      case ok: (Inr u)
      obtain r' st2 where cm: "commit_chunk sha (uw_now w) st1 s i d = (r', st2)" by fastforce
      have "upload_step sha ?w2 (?w2\<lparr>uw_store := st2, uw_writers := remove1 (s, i) (uw_writers ?w2)\<rparr>)"
        by (rule upload_step.commit[of s i]) (use cm in simp_all)
      then show ?thesis using run_step[OF run_step[OF r_into_rtranclp[of "upload_step sha", OF 1] 2]] Inr Claimed wr ok cm by (simp add: upload_chunk_def)
    qed
  qed (simp add: Inr upload_chunk_def)
qed (simp add: upload_chunk_def)

lemma run_complete_session:
  "upload_run sha w (w\<lparr>uw_store := snd (complete_session sha (uw_now w) (uw_store w) sid user)\<rparr>)"
proof (cases "check_complete (uw_now w) (uw_store w) sid user")
  case (Inr s)
  obtain r st1 where vf: "verify_file sha (uw_now w) (uw_store w) s = (r, st1)" by fastforce
  let ?w1 = "w\<lparr>uw_checked := s # uw_checked w\<rparr>"
  let ?w2 = "w\<lparr>uw_store := st1, uw_verified := (if is_ok r then s # uw_verified w else uw_verified w)\<rparr>"
  have 1: "upload_step sha w ?w1" by (rule upload_step.check[OF Inr])
  have 2: "upload_step sha ?w1 ?w2" using upload_step.verify[of s ?w1 sha r st1] vf by (cases "is_ok r") simp_all
  show ?thesis
  proof (cases r)
    case (Inl e)
    then show ?thesis using run_step[OF r_into_rtranclp[of "upload_step sha", OF 1] 2] Inr vf by (simp add: complete_session_def)
  next
    case ok: (Inr u)
    obtain r' st2 where mk: "mark_completed (uw_now w) st1 s = (r', st2)" by fastforce
    have "upload_step sha ?w2 (?w2\<lparr>uw_store := st2, uw_verified := remove1 s (uw_verified ?w2)\<rparr>)"
      by (rule upload_step.mark[of s]) (use mk ok in simp_all)
    then show ?thesis using run_step[OF run_step[OF r_into_rtranclp[of "upload_step sha", OF 1] 2]] Inr vf ok mk by (simp add: complete_session_def)
  qed
qed (simp add: complete_session_def)

text \<open>A session of three bytes, uploaded and completed.\<close>

lemma demo_upload_run:
  obtains w s where "upload_run demo_sha (empty_world 0 (2 ^ 60)) w" "s \<in> set (up_sessions (uw_store w))" "us_status s = ''completed''"
    "up_files (uw_store w) (us_temp_file_path s) = Some [1, 2, 3]"
proof -
  let ?w1 = "(empty_world 0 (2 ^ 60))\<lparr>uw_store := demo_created, uw_used := {1}\<rparr>"
  let ?s = demo_upload_session
  have f: "us_id ?s = 1" "us_user_id ?s = 4" "us_chunk_size ?s = 1048576" "us_expires_at ?s = 86400000" "us_total_size ?s = 3" "us_checksum_sha256 ?s = ''sum''" "us_status ?s = ''pending''"
    by (simp_all add: demo_upload_session_def new_upload_session_def demo_create_params_def)
  have "upload_step demo_sha (empty_world 0 (2 ^ 60)) ?w1"
    using upload_step.create[of "empty_world 0 (2 ^ 60)" 1 demo_create_params _ _ demo_sha] demo_create by (simp add: empty_world_def demo_upload_store_def)
  moreover have "uploading ?s [1, 2, 3] 1 {} demo_created"
    by (simp add: uploading_def f demo_created_def find_session_def demo_upload_store_def chunk_placeholder_def blend_def upt_rec)
  then have up: "uploading ?s [1, 2, 3] 1 {0..<1} (snd (upload_chunk demo_sha 0 demo_created 1 0 0 [1, 2, 3] 4))"
    using uploading_step[of ?s "[1, 2, 3]" 1 "{}" demo_created 0 0 demo_sha] f by (simp add: slice_def)
  moreover have "upload_run demo_sha ?w1 (?w1\<lparr>uw_store := snd (upload_chunk demo_sha 0 demo_created 1 0 0 [1, 2, 3] 4)\<rparr>)" (is "upload_run _ _ ?w2")
    using run_upload_chunk[of 1 0 ?w1 demo_sha 0 "[1, 2, 3]" 4] by (simp add: empty_world_def)
  moreover obtain cur st' t where c: "complete_session demo_sha 0 (uw_store ?w2) 1 4 = (Inr cur, st')" "up_files st' (us_temp_file_path ?s) = Some [1, 2, 3]"
    "find_session st' 1 = Some t" "frozen t = frozen ?s" "us_status t = ''completed''"
    by (rule uploading_complete[OF up, of 0 demo_sha]) (use f in \<open>auto simp: demo_sha_def\<close>)
  moreover have "upload_run demo_sha ?w2 (?w2\<lparr>uw_store := st'\<rparr>)"
    using run_complete_session[of demo_sha ?w2 1 4] c(1) by (simp add: empty_world_def)
  ultimately have run: "upload_run demo_sha (empty_world 0 (2 ^ 60)) (?w2\<lparr>uw_store := st'\<rparr>)"
    by (meson converse_rtranclp_into_rtranclp rtranclp_trans)
  show thesis
    by (rule that[OF run, of t]) (use c(2,5) find_session_in[OF c(3)] frozen_fields(7)[OF c(4)] in simp_all)
qed

section \<open>Properties\<close>

text \<open>C12: a completed upload is what was declared. However requests interleave, when a session is marked completed
  every chunk was committed and the temporary file, as long as it has not been removed, has the declared size and
  checksum.\<close>

theorem completed_upload_verified:
  assumes "upload_run sha (empty_world now mx) w" and "s \<in> set (up_sessions (uw_store w))" and "us_status s = ''completed''"
  shows "(\<forall>r\<in>set (up_chunks (uw_store w) (us_id s)). uc_status r = ''completed'')
     \<and> (\<forall>f. up_files (uw_store w) (us_temp_file_path s) = Some f \<longrightarrow> length f = cast_u64 (us_total_size s) \<and> sha f = us_checksum_sha256 s)"
  using world_parts(1)[OF world_ok_run[OF assms(1)]] assms(2,3) by (auto simp: table_ok_def chunks_done_def file_ok_def)

theorem completed_upload_verified_witness:
  "\<exists>w s. upload_run demo_sha (empty_world 0 (2 ^ 60)) w \<and> s \<in> set (up_sessions (uw_store w)) \<and> us_status s = ''completed''
     \<and> up_files (uw_store w) (us_temp_file_path s) = Some [1, 2, 3] \<and> cast_u64 (us_total_size s) = 3 \<and> us_checksum_sha256 s = ''sum''"
proof -
  obtain w s where w: "upload_run demo_sha (empty_world 0 (2 ^ 60)) w" "s \<in> set (up_sessions (uw_store w))" "us_status s = ''completed''"
    "up_files (uw_store w) (us_temp_file_path s) = Some [1, 2, 3]" by (rule demo_upload_run)
  have "length [1, 2, 3 :: 8 word] = cast_u64 (us_total_size s) \<and> demo_sha [1, 2, 3] = us_checksum_sha256 s" using completed_upload_verified[OF w(1-3)] w(4) by blast
  then have "cast_u64 (us_total_size s) = 3 \<and> us_checksum_sha256 s = ''sum''" by (simp add: demo_sha_def)
  then show ?thesis using w by blast
qed

text \<open>Progress is counted exactly. In every reachable state the counter of a session is the number of its committed
  chunk rows, of which there is one per chunk, and two requests never write the same chunk at the same time.\<close>

lemma upload_progress_exact:
  assumes "upload_run sha (empty_world now mx) w" and "s \<in> set (up_sessions (uw_store w))"
  shows "us_completed_chunks s = int (length (filter (\<lambda>r. uc_status r = ''completed'') (up_chunks (uw_store w) (us_id s))))
     \<and> length (up_chunks (uw_store w) (us_id s)) = nat (us_total_chunks s) \<and> distinct (map uc_index (up_chunks (uw_store w) (us_id s)))
     \<and> distinct (map writer_key (uw_writers w))"
  using world_parts(1,2)[OF world_ok_run[OF assms(1)]] assms(2) by (auto simp: table_ok_def counted_def done_rows_def)

lemma upload_progress_exact_witness:
  "\<exists>w s. upload_run demo_sha (empty_world 0 (2 ^ 60)) w \<and> s \<in> set (up_sessions (uw_store w)) \<and> distinct (map uc_index (up_chunks (uw_store w) (us_id s)))"
proof -
  obtain w s where w: "upload_run demo_sha (empty_world 0 (2 ^ 60)) w" "s \<in> set (up_sessions (uw_store w))" by (rule demo_upload_run)
  show ?thesis using upload_progress_exact[OF w] w by auto
qed



end
