(* ===== verification/Lifecycle.thy ===== *)
theory Lifecycle
  imports Json App_Error
begin

text \<open>
  Retention policies (\<open>services/lifecycle_service.rs\<close>): the policy rows and their validation, the six
  executors that soft-delete artifacts, the sweep over the image tags that follows a run, and the
  scheduled entry points. The tables are lists in the order a query returns rows with equal sort
  keys; times are milliseconds and \<open>NOW()\<close> is an argument; every database statement may fail, and a
  failure rolls its transaction back. The regular expression engines and the cron parser are
  arguments.
\<close>

section \<open>The tables\<close>

record stored_artifact =
  af_id :: nat
  af_repository_id :: nat
  af_name :: string
  af_path :: string
  af_version :: "string option"
  af_storage_key :: string
  af_size_bytes :: int
  af_created_at :: int
  af_is_deleted :: bool

record oci_tag =
  ot_id :: nat
  ot_repository_id :: nat
  ot_name :: string
  ot_tag :: string
  ot_manifest_digest :: string

record lifecycle_policy =
  lp_id :: nat
  lp_repository_id :: "nat option"
  lp_name :: string
  lp_description :: "string option"
  lp_enabled :: bool
  lp_policy_type :: string
  lp_config :: json
  lp_priority :: int
  lp_last_run_at :: "int option"
  lp_last_run_items_removed :: "int option"
  lp_cron_schedule :: "string option"
  lp_created_at :: int
  lp_updated_at :: int

text \<open>The tables that the retention and the storage reclaiming services share.\<close>

record oci_blob =
  ob_repository_id :: nat
  ob_digest :: string
  ob_size_bytes :: int
  ob_storage_key :: string
  ob_created_at :: int
  ob_pending_delete_at :: "int option"

record manifest_ref =
  omr_repository_id :: nat
  omr_parent_digest :: string
  omr_child_digest :: string

record blob_ref =
  mbr_repository_id :: nat
  mbr_manifest_digest :: string
  mbr_blob_digest :: string

record repository_row =
  rr_id :: nat
  rr_storage_backend :: string
  rr_storage_path :: string

record artifact_db =
  db_artifacts :: "stored_artifact list"
  db_tags :: "oci_tag list"
  db_downloads :: "(nat \<times> int) list"
  db_policies :: "lifecycle_policy list"
  db_repositories :: "repository_row list"
  db_blobs :: "oci_blob list"
  db_manifest_refs :: "manifest_ref list"
  db_blob_refs :: "blob_ref list"
  db_approvals :: "nat list"

record create_lifecycle_request =
  clr_repository_id :: "nat option"
  clr_name :: string
  clr_description :: "string option"
  clr_policy_type :: string
  clr_config :: json
  clr_priority :: "int option"
  clr_cron_schedule :: "string option"

record update_lifecycle_request =
  ulr_name :: "string option"
  ulr_description :: "string option"
  ulr_enabled :: "bool option"
  ulr_config :: "json option"
  ulr_priority :: "int option"
  ulr_cron_schedule :: "string option"

record execution_result =
  er_policy_id :: nat
  er_policy_name :: string
  er_dry_run :: bool
  er_artifacts_matched :: int
  er_artifacts_removed :: int
  er_bytes_freed :: int
  er_errors :: "string list"

section \<open>What the service relies on\<close>

text \<open>
  \<open>Regex::new\<close> accepts a pattern or says why not; the database compiles a pattern to a matcher or
  raises an error; \<open>Schedule::from_str\<close> yields, for an expression it accepts, the first occurrence
  after a given time, if there is one.
\<close>

record engines =
  regex_new :: "string \<Rightarrow> string + unit"
  pg_regex :: "string \<Rightarrow> string + (string \<Rightarrow> bool)"
  cron_after :: "string \<Rightarrow> (int \<Rightarrow> int option) option"

text \<open>The statements of the service; a fault plan says which of them fail, and with which message.\<close>

datatype statement =
    SelectPolicy | InsertPolicy | UpdatePolicy | DeletePolicy | LoadPolicies
  | Acquire | BeginSweep | SelectMatched | SelectCandidates | MarkDeleted | CommitSweep
  | BeginCascade | DeleteTags | CommitCascade | Bookkeeping

type_synonym faults = "statement \<Rightarrow> string option"

definition run_stmt :: "faults \<Rightarrow> statement \<Rightarrow> 'a \<Rightarrow> 'a app_result" where
  "run_stmt io s x = (case io s of None \<Rightarrow> Ok x | Some e \<Rightarrow> Err (Database e))"

lemma run_stmt_Ok [simp]: "run_stmt io s x = Ok y \<longleftrightarrow> io s = None \<and> x = y"
  by (auto simp: run_stmt_def split: option.splits)

section \<open>Storage keys\<close>

definition OCI_MANIFEST_STORAGE_PREFIX :: string where
  "OCI_MANIFEST_STORAGE_PREFIX = ''oci-manifests/''"

text \<open>The compile-time comparison of the prefix with the literal that a query embeds.\<close>

partial_function (option) prefix_loop :: "string \<Rightarrow> string \<Rightarrow> nat \<Rightarrow> bool option" where
  "prefix_loop a b i =
     (if i < length a then (if a ! i \<noteq> b ! i then Some False else prefix_loop a b (i + 1)) else Some True)"

definition prefix_matches :: "string \<Rightarrow> bool option" where
  "prefix_matches literal =
     (if length OCI_MANIFEST_STORAGE_PREFIX \<noteq> length literal then Some False
      else prefix_loop OCI_MANIFEST_STORAGE_PREFIX literal 0)"

section \<open>Scopes and policy types\<close>

datatype cascade_scope = Global | PerRepo nat

fun repo_filter :: "cascade_scope \<Rightarrow> nat option" where
  "repo_filter Global = None"
| "repo_filter (PerRepo i) = Some i"

definition is_global :: "cascade_scope \<Rightarrow> bool" where
  "is_global s \<longleftrightarrow> s = Global"

fun cascade_scope_from :: "nat option \<Rightarrow> cascade_scope" where
  "cascade_scope_from None = Global"
| "cascade_scope_from (Some i) = PerRepo i"

text \<open>\<open>$1::UUID IS NULL OR repository_id = $1\<close>\<close>

definition in_filter :: "nat option \<Rightarrow> nat \<Rightarrow> bool" where
  "in_filter f repo = (case f of None \<Rightarrow> True | Some i \<Rightarrow> repo = i)"

definition policy_type_requires_repository_id :: "string \<Rightarrow> bool" where
  "policy_type_requires_repository_id t \<longleftrightarrow> t = ''max_versions'' \<or> t = ''size_quota_bytes''"

datatype policy_type =
  MaxAgeDays | MaxVersions | NoDownloadsDays | TagPatternKeep | TagPatternDelete | SizeQuotaBytes

definition parse_policy_type :: "string \<Rightarrow> policy_type app_result" where
  "parse_policy_type s =
     (if s = ''max_age_days'' then Ok MaxAgeDays
      else if s = ''max_versions'' then Ok MaxVersions
      else if s = ''no_downloads_days'' then Ok NoDownloadsDays
      else if s = ''tag_pattern_keep'' then Ok TagPatternKeep
      else if s = ''tag_pattern_delete'' then Ok TagPatternDelete
      else if s = ''size_quota_bytes'' then Ok SizeQuotaBytes
      else Err (Internal (''Unsupported policy type: '' @ s)))"

fun as_wire_str :: "policy_type \<Rightarrow> string" where
  "as_wire_str MaxAgeDays = ''max_age_days''"
| "as_wire_str MaxVersions = ''max_versions''"
| "as_wire_str NoDownloadsDays = ''no_downloads_days''"
| "as_wire_str TagPatternKeep = ''tag_pattern_keep''"
| "as_wire_str TagPatternDelete = ''tag_pattern_delete''"
| "as_wire_str SizeQuotaBytes = ''size_quota_bytes''"

section \<open>Reading the configuration\<close>

text \<open>The canonical key first, then the policy type itself as the key.\<close>

definition read_i64 :: "json \<Rightarrow> string \<Rightarrow> string \<Rightarrow> int option" where
  "read_i64 config label key =
     (case get_i64 config key of Some n \<Rightarrow> Some n | None \<Rightarrow> get_i64 config label)"

definition parse_i64_field :: "json \<Rightarrow> string \<Rightarrow> string \<Rightarrow> int app_result" where
  "parse_i64_field config label key =
     (case read_i64 config label key of
        Some n \<Rightarrow> Ok n
      | None \<Rightarrow> Err (Validation (label @ '' requires '' @ [CHR 0x27] @ key @ [CHR 0x27] @ '' in config'')))"

definition parse_pattern_field :: "json \<Rightarrow> string \<Rightarrow> string app_result" where
  "parse_pattern_field config label =
     (case get_str config ''pattern'' of
        Some p \<Rightarrow> Ok p
      | None \<Rightarrow> Err (Validation (label @ '' requires '' @ [CHR 0x27] @ ''pattern'' @ [CHR 0x27] @ '' in config'')))"

definition read_positive_i64 :: "json \<Rightarrow> string \<Rightarrow> string \<Rightarrow> int option" where
  "read_positive_i64 config policy_type canonical =
     (case read_i64 config policy_type canonical of Some n \<Rightarrow> if n > 0 then Some n else None | None \<Rightarrow> None)"

definition positive_field :: "json \<Rightarrow> string \<Rightarrow> string \<Rightarrow> unit app_result" where
  "positive_field config policy_type canonical =
     (case read_positive_i64 config policy_type canonical of
        Some _ \<Rightarrow> Ok ()
      | None \<Rightarrow> Err (Validation (policy_type @ '' requires '' @ [CHR 0x27] @ canonical @ [CHR 0x27]
                               @ '' (positive integer) in config'')))"

definition validate_policy_config :: "engines \<Rightarrow> string \<Rightarrow> json \<Rightarrow> unit app_result" where
  "validate_policy_config en t config =
     (if t = ''max_age_days'' then positive_field config t ''days''
      else if t = ''max_versions'' then positive_field config t ''keep''
      else if t = ''no_downloads_days'' then positive_field config t ''days''
      else if t = ''tag_pattern_keep'' \<or> t = ''tag_pattern_delete'' then
        (case get_str config ''pattern'' of
           None \<Rightarrow> Err (Validation (t @ '' requires '' @ [CHR 0x27] @ ''pattern'' @ [CHR 0x27] @ '' (string) in config''))
         | Some p \<Rightarrow>
             (case regex_new en p of
                Inl e \<Rightarrow> Err (Validation (''Invalid regex pattern: '' @ e))
              | Inr _ \<Rightarrow> Ok ()))
      else if t = ''size_quota_bytes'' then positive_field config t ''quota_bytes''
      else Ok ())"

text \<open>\<open>normalize_cron_expression\<close> of the scheduler: five fields get a field for the seconds.\<close>

fun count_fields :: "bool \<Rightarrow> string \<Rightarrow> nat" where
  "count_fields inside [] = 0"
| "count_fields inside (c # s) =
     (if is_whitespace c then count_fields False s
      else if inside then count_fields True s
      else Suc (count_fields True s))"

definition normalize_cron_expression :: "string \<Rightarrow> string" where
  "normalize_cron_expression e = (if count_fields False e = 5 then ''0 '' @ e else e)"

definition validate_cron :: "engines \<Rightarrow> string option \<Rightarrow> unit app_result" where
  "validate_cron en cron =
     (case cron of
        None \<Rightarrow> Ok ()
      | Some e \<Rightarrow>
          (case cron_after en (normalize_cron_expression e) of
             None \<Rightarrow> Err (Validation (''Invalid cron expression: '' @ [CHR 0x27] @ e @ [CHR 0x27]))
           | Some _ \<Rightarrow> Ok ()))"

section \<open>Managing policies\<close>

definition valid_types :: "string list" where
  "valid_types = [''max_age_days'', ''max_versions'', ''no_downloads_days'', ''tag_pattern_keep'',
                  ''tag_pattern_delete'', ''size_quota_bytes'']"

definition in_quotes :: "string \<Rightarrow> string" where
  "in_quotes s = [CHR 0x27] @ s @ [CHR 0x27]"

definition check_create :: "engines \<Rightarrow> create_lifecycle_request \<Rightarrow> unit app_result" where
  "check_create en req =
     (if clr_policy_type req \<notin> set valid_types then
        Err (Validation (''Invalid policy_type '' @ in_quotes (clr_policy_type req) @ ''. Must be one of: ''
                         @ join_str '', '' valid_types))
      else if clr_repository_id req = None \<and> policy_type_requires_repository_id (clr_policy_type req) then
        Err (Validation (''policy_type '' @ in_quotes (clr_policy_type req)
                         @ '' is repository-scoped and requires a '' @ in_quotes ''repository_id''
                         @ ''; it cannot be created as a global policy''))
      else result_bind (validate_policy_config en (clr_policy_type req) (clr_config req)) (\<lambda>_.
           validate_cron en (clr_cron_schedule req)))"

definition new_policy :: "nat \<Rightarrow> int \<Rightarrow> create_lifecycle_request \<Rightarrow> lifecycle_policy" where
  "new_policy new_id now req =
     \<lparr>lp_id = new_id, lp_repository_id = clr_repository_id req, lp_name = clr_name req,
      lp_description = clr_description req, lp_enabled = True, lp_policy_type = clr_policy_type req,
      lp_config = clr_config req, lp_priority = unwrap_or (clr_priority req) 0, lp_last_run_at = None,
      lp_last_run_items_removed = Some 0, lp_cron_schedule = clr_cron_schedule req,
      lp_created_at = now, lp_updated_at = now\<rparr>"

definition create_lifecycle_policy ::
  "engines \<Rightarrow> faults \<Rightarrow> nat \<Rightarrow> int \<Rightarrow> create_lifecycle_request \<Rightarrow> artifact_db \<Rightarrow> lifecycle_policy app_result \<times> artifact_db" where
  "create_lifecycle_policy en io new_id now req db =
     (case result_bind (check_create en req) (\<lambda>_. run_stmt io InsertPolicy (new_policy new_id now req)) of
        Inl e \<Rightarrow> (Err e, db)
      | Inr p \<Rightarrow> (Ok p, db\<lparr>db_policies := db_policies db @ [p]\<rparr>))"

text \<open>\<open>ORDER BY priority DESC, created_at ASC\<close>\<close>

definition by_priority_age :: "lifecycle_policy \<Rightarrow> lifecycle_policy \<Rightarrow> ordering" where
  "by_priority_age a b =
     (case cmp (lp_priority b) (lp_priority a) of
        Equal \<Rightarrow> cmp (lp_created_at a) (lp_created_at b)
      | c \<Rightarrow> c)"

definition list_lifecycle_policies :: "faults \<Rightarrow> nat option \<Rightarrow> artifact_db \<Rightarrow> lifecycle_policy list app_result" where
  "list_lifecycle_policies io repo db =
     run_stmt io LoadPolicies
       (sort_by by_priority_age
         (filter (\<lambda>p. repo = None \<or> lp_repository_id p = repo \<or> lp_repository_id p = None) (db_policies db)))"

definition get_lifecycle_policy :: "faults \<Rightarrow> nat \<Rightarrow> artifact_db \<Rightarrow> lifecycle_policy app_result" where
  "get_lifecycle_policy io i db =
     result_bind (run_stmt io SelectPolicy (List.find (\<lambda>p. lp_id p = i) (db_policies db))) (\<lambda>found.
       case found of None \<Rightarrow> Err (NotFound ''Lifecycle policy not found'') | Some p \<Rightarrow> Ok p)"

definition option_or :: "'a option \<Rightarrow> 'a option \<Rightarrow> 'a option" where
  "option_or a b = (case a of Some x \<Rightarrow> Some x | None \<Rightarrow> b)"

definition merge_update :: "int \<Rightarrow> update_lifecycle_request \<Rightarrow> lifecycle_policy \<Rightarrow> lifecycle_policy" where
  "merge_update now req p =
     p\<lparr>lp_name := unwrap_or (ulr_name req) (lp_name p),
       lp_description := option_or (ulr_description req) (lp_description p),
       lp_enabled := unwrap_or (ulr_enabled req) (lp_enabled p),
       lp_config := unwrap_or (ulr_config req) (lp_config p),
       lp_priority := unwrap_or (ulr_priority req) (lp_priority p),
       lp_cron_schedule := option_or (ulr_cron_schedule req) (lp_cron_schedule p),
       lp_updated_at := now\<rparr>"

definition check_update :: "engines \<Rightarrow> lifecycle_policy \<Rightarrow> unit app_result" where
  "check_update en p =
     (if lp_repository_id p = None \<and> policy_type_requires_repository_id (lp_policy_type p) then
        Err (Validation (''policy_type '' @ in_quotes (lp_policy_type p)
                         @ '' is repository-scoped and requires a '' @ in_quotes ''repository_id''
                         @ ''; it cannot exist as a global policy''))
      else result_bind (validate_policy_config en (lp_policy_type p) (lp_config p)) (\<lambda>_.
           validate_cron en (lp_cron_schedule p)))"

definition replace_policy :: "lifecycle_policy \<Rightarrow> artifact_db \<Rightarrow> artifact_db" where
  "replace_policy p db = db\<lparr>db_policies := map (\<lambda>q. if lp_id q = lp_id p then p else q) (db_policies db)\<rparr>"

definition update_lifecycle_policy ::
  "engines \<Rightarrow> faults \<Rightarrow> int \<Rightarrow> nat \<Rightarrow> update_lifecycle_request \<Rightarrow> artifact_db \<Rightarrow> lifecycle_policy app_result \<times> artifact_db" where
  "update_lifecycle_policy en io now i req db =
     (case result_bind (get_lifecycle_policy io i db) (\<lambda>existing.
           let p = merge_update now req existing
           in result_bind (check_update en p) (\<lambda>_. run_stmt io UpdatePolicy p)) of
        Inl e \<Rightarrow> (Err e, db)
      | Inr p \<Rightarrow> (Ok p, replace_policy p db))"

definition delete_lifecycle_policy :: "faults \<Rightarrow> nat \<Rightarrow> artifact_db \<Rightarrow> unit app_result \<times> artifact_db" where
  "delete_lifecycle_policy io i db =
     (case io DeletePolicy of
        Some e \<Rightarrow> (Err (Database e), db)
      | None \<Rightarrow>
          if i \<notin> lp_id ` set (db_policies db) then (Err (NotFound ''Lifecycle policy not found''), db)
          else (Ok (), db\<lparr>db_policies := filter (\<lambda>p. lp_id p \<noteq> i) (db_policies db)\<rparr>))"

section \<open>Soft deletion\<close>

definition build_execution_result :: "lifecycle_policy \<Rightarrow> bool \<Rightarrow> int \<Rightarrow> int \<Rightarrow> int \<Rightarrow> execution_result" where
  "build_execution_result p dry matched removed bytes =
     \<lparr>er_policy_id = lp_id p, er_policy_name = lp_name p, er_dry_run = dry, er_artifacts_matched = matched,
      er_artifacts_removed = (if dry then 0 else removed), er_bytes_freed = (if dry then 0 else bytes),
      er_errors = []\<rparr>"

definition bytes_of :: "stored_artifact list \<Rightarrow> int" where
  "bytes_of rows = sum_list (map af_size_bytes rows)"

text \<open>The cast of a sum to \<open>BIGINT\<close> raises an error out of range.\<close>

definition to_bigint :: "int \<Rightarrow> int app_result" where
  "to_bigint n = (if - (2 ^ 63) \<le> n \<and> n < 2 ^ 63 then Ok n else Err (Database ''bigint out of range''))"

definition soft_delete :: "(stored_artifact \<Rightarrow> bool) \<Rightarrow> stored_artifact \<Rightarrow> stored_artifact" where
  "soft_delete sel a = (if sel a then a\<lparr>af_is_deleted := True\<rparr> else a)"

definition mark_deleted :: "(stored_artifact \<Rightarrow> bool) \<Rightarrow> artifact_db \<Rightarrow> artifact_db" where
  "mark_deleted sel db = db\<lparr>db_artifacts := map (soft_delete sel) (db_artifacts db)\<rparr>"

text \<open>
  The shape of five executors: count the live rows that match, and mark them deleted unless the run
  is a preview or nothing matched. A failure leaves the transaction to be rolled back.
\<close>

definition matching :: "(stored_artifact \<Rightarrow> bool) \<Rightarrow> artifact_db \<Rightarrow> stored_artifact list" where
  "matching sel db = filter (\<lambda>a. \<not> af_is_deleted a \<and> sel a) (db_artifacts db)"

definition execute_matched ::
  "faults \<Rightarrow> lifecycle_policy \<Rightarrow> bool \<Rightarrow> (stored_artifact \<Rightarrow> bool) \<Rightarrow> artifact_db \<Rightarrow> (execution_result \<times> artifact_db) app_result" where
  "execute_matched io p dry sel db =
     (let rows = matching sel db
      in result_bind (result_bind (run_stmt io SelectMatched (bytes_of rows)) to_bigint) (\<lambda>bytes.
         if \<not> dry \<and> rows \<noteq> [] then
           run_stmt io MarkDeleted
             (build_execution_result p dry (int (length rows)) (int (length rows)) bytes,
              mark_deleted (\<lambda>a. \<not> af_is_deleted a \<and> sel a) db)
         else Ok (build_execution_result p dry (int (length rows)) 0 bytes, db)))"

text \<open>
  \<open>NOW() - make_interval(days => $n::INT)\<close>: the number of days is cast to 32 bits by the service, and
  the database refuses a time outside its range (from 4714 BC to 294276 AD).
\<close>

definition DAY_MS :: int where "DAY_MS = 86400000"

definition cutoff :: "int \<Rightarrow> int \<Rightarrow> int app_result" where
  "cutoff now days =
     (let t = now - wrap_i32 days * DAY_MS
      in if - 210866803200000 \<le> t \<and> t < 9224318016000000 then Ok t else Err (Database ''timestamp out of range''))"

definition execute_max_age ::
  "faults \<Rightarrow> int \<Rightarrow> lifecycle_policy \<Rightarrow> bool \<Rightarrow> artifact_db \<Rightarrow> (execution_result \<times> artifact_db) app_result" where
  "execute_max_age io now p dry db =
     result_bind (parse_i64_field (lp_config p) (as_wire_str MaxAgeDays) ''days'') (\<lambda>days.
     result_bind (cutoff now days) (\<lambda>limit.
       execute_matched io p dry (\<lambda>a. in_filter (lp_repository_id p) (af_repository_id a) \<and> af_created_at a < limit) db))"

text \<open>The identifiers of the latest \<open>keep\<close> live rows of a name; the rows' own order breaks ties.\<close>

definition versions_of :: "nat \<Rightarrow> string \<Rightarrow> artifact_db \<Rightarrow> stored_artifact list" where
  "versions_of repo nm db =
     sort_by (by_column_desc af_created_at)
       (filter (\<lambda>a. af_repository_id a = repo \<and> af_name a = nm \<and> \<not> af_is_deleted a) (db_artifacts db))"

definition kept_versions :: "int \<Rightarrow> nat \<Rightarrow> string \<Rightarrow> artifact_db \<Rightarrow> nat list" where
  "kept_versions keep repo nm db = map af_id (take (nat keep) (versions_of repo nm db))"

definition execute_max_versions ::
  "faults \<Rightarrow> lifecycle_policy \<Rightarrow> bool \<Rightarrow> artifact_db \<Rightarrow> (execution_result \<times> artifact_db) app_result" where
  "execute_max_versions io p dry db =
     result_bind (parse_i64_field (lp_config p) (as_wire_str MaxVersions) ''keep'') (\<lambda>keep.
       case lp_repository_id p of
         None \<Rightarrow> Err (Validation ''max_versions requires a repository_id'')
       | Some repo \<Rightarrow>
           if keep < 0 \<and> matching (\<lambda>a. af_repository_id a = repo) db \<noteq> [] then
             Err (Database ''LIMIT must not be negative'')
           else execute_matched io p dry
                  (\<lambda>a. af_repository_id a = repo \<and> af_id a \<notin> set (kept_versions keep repo (af_name a) db)) db)"

definition downloaded_after :: "artifact_db \<Rightarrow> int \<Rightarrow> nat \<Rightarrow> bool" where
  "downloaded_after db t i \<longleftrightarrow> list_ex (\<lambda>(j, at). j = i \<and> at > t) (db_downloads db)"

definition execute_no_downloads ::
  "faults \<Rightarrow> int \<Rightarrow> lifecycle_policy \<Rightarrow> bool \<Rightarrow> artifact_db \<Rightarrow> (execution_result \<times> artifact_db) app_result" where
  "execute_no_downloads io now p dry db =
     result_bind (parse_i64_field (lp_config p) (as_wire_str NoDownloadsDays) ''days'') (\<lambda>days.
     result_bind (cutoff now days) (\<lambda>limit.
       execute_matched io p dry
         (\<lambda>a. in_filter (lp_repository_id p) (af_repository_id a) \<and> \<not> downloaded_after db limit (af_id a)
              \<and> af_created_at a < limit) db))"

text \<open>\<open>op\<close> is \<open>~\<close> for a match and \<open>!~\<close> for its negation.\<close>

datatype regex_op = Matches | MatchesNot

fun regex_test :: "regex_op \<Rightarrow> bool \<Rightarrow> bool" where
  "regex_test Matches b = b"
| "regex_test MatchesNot b = (\<not> b)"

definition execute_tag_pattern ::
  "engines \<Rightarrow> faults \<Rightarrow> lifecycle_policy \<Rightarrow> bool \<Rightarrow> string \<Rightarrow> regex_op \<Rightarrow> artifact_db \<Rightarrow> (execution_result \<times> artifact_db) app_result" where
  "execute_tag_pattern en io p dry pattern op db =
     (case pg_regex en pattern of
        Inl e \<Rightarrow> Err (Database e)
      | Inr matcher \<Rightarrow>
          execute_matched io p dry
            (\<lambda>a. in_filter (lp_repository_id p) (af_repository_id a) \<and> regex_test op (matcher (af_name a))) db)"

definition execute_tag_pattern_keep ::
  "engines \<Rightarrow> faults \<Rightarrow> lifecycle_policy \<Rightarrow> bool \<Rightarrow> artifact_db \<Rightarrow> (execution_result \<times> artifact_db) app_result" where
  "execute_tag_pattern_keep en io p dry db =
     result_bind (parse_pattern_field (lp_config p) (as_wire_str TagPatternKeep)) (\<lambda>pattern.
       execute_tag_pattern en io p dry pattern MatchesNot db)"

definition execute_tag_pattern_delete ::
  "engines \<Rightarrow> faults \<Rightarrow> lifecycle_policy \<Rightarrow> bool \<Rightarrow> artifact_db \<Rightarrow> (execution_result \<times> artifact_db) app_result" where
  "execute_tag_pattern_delete en io p dry db =
     result_bind (parse_pattern_field (lp_config p) (as_wire_str TagPatternDelete)) (\<lambda>pattern.
       execute_tag_pattern en io p dry pattern Matches db)"

section \<open>Size quotas\<close>

fun evict_loop :: "(nat \<times> int) list \<Rightarrow> int \<Rightarrow> nat list \<Rightarrow> int \<Rightarrow> nat list \<times> int" where
  "evict_loop [] excess to_remove accumulated = (to_remove, accumulated)"
| "evict_loop ((i, sz) # rest) excess to_remove accumulated =
     (if accumulated \<ge> excess then (to_remove, accumulated)
      else evict_loop rest excess (to_remove @ [i]) (saturate_i64 (accumulated + sz)))"

definition select_size_quota_evictions :: "(nat \<times> int) list \<Rightarrow> int \<Rightarrow> nat list \<times> int" where
  "select_size_quota_evictions candidates excess = evict_loop candidates excess [] 0"

text \<open>\<open>ORDER BY last_downloaded_at ASC NULLS FIRST, created_at ASC\<close>\<close>

definition last_downloaded_at :: "artifact_db \<Rightarrow> nat \<Rightarrow> int option" where
  "last_downloaded_at db i =
     (case map snd (filter (\<lambda>(j, _). j = i) (db_downloads db)) of [] \<Rightarrow> None | t # ts \<Rightarrow> Some (fold max ts t))"

fun cmp_nulls_first :: "int option \<Rightarrow> int option \<Rightarrow> ordering" where
  "cmp_nulls_first None None = Equal"
| "cmp_nulls_first None (Some _) = Less"
| "cmp_nulls_first (Some _) None = Greater"
| "cmp_nulls_first (Some a) (Some b) = cmp a b"

definition by_last_use :: "artifact_db \<Rightarrow> stored_artifact \<Rightarrow> stored_artifact \<Rightarrow> ordering" where
  "by_last_use db a b =
     (case cmp_nulls_first (last_downloaded_at db (af_id a)) (last_downloaded_at db (af_id b)) of
        Equal \<Rightarrow> cmp (af_created_at a) (af_created_at b)
      | c \<Rightarrow> c)"

definition live_in :: "nat \<Rightarrow> artifact_db \<Rightarrow> stored_artifact list" where
  "live_in repo db = matching (\<lambda>a. af_repository_id a = repo) db"

definition quota_candidates :: "nat \<Rightarrow> artifact_db \<Rightarrow> stored_artifact list" where
  "quota_candidates repo db = sort_by (by_last_use db) (live_in repo db)"

definition execute_size_quota ::
  "faults \<Rightarrow> lifecycle_policy \<Rightarrow> bool \<Rightarrow> artifact_db \<Rightarrow> (execution_result \<times> artifact_db) app_result" where
  "execute_size_quota io p dry db =
     result_bind (parse_i64_field (lp_config p) (as_wire_str SizeQuotaBytes) ''quota_bytes'') (\<lambda>quota.
       case lp_repository_id p of
         None \<Rightarrow> Err (Validation ''size_quota_bytes requires a repository_id'')
       | Some repo \<Rightarrow>
           result_bind (result_bind (run_stmt io SelectMatched (bytes_of (live_in repo db))) to_bigint) (\<lambda>used.
           if used \<le> quota then Ok (build_execution_result p dry 0 0 0, db)
           else
             result_bind (run_stmt io SelectCandidates (quota_candidates repo db)) (\<lambda>candidates.
             let (to_remove, accumulated) =
                   select_size_quota_evictions (map (\<lambda>a. (af_id a, af_size_bytes a)) candidates) (wrap_i64 (used - quota));
                 matched = int (length to_remove)
             in if \<not> dry \<and> to_remove \<noteq> [] then
                  run_stmt io MarkDeleted
                    (build_execution_result p dry matched
                       (int (length (filter (\<lambda>a. af_id a \<in> set to_remove) (db_artifacts db)))) accumulated,
                     mark_deleted (\<lambda>a. af_id a \<in> set to_remove) db)
                else Ok (build_execution_result p dry matched 0 accumulated, db))))"

section \<open>Executing a policy\<close>

definition dispatch_execute ::
  "engines \<Rightarrow> faults \<Rightarrow> int \<Rightarrow> lifecycle_policy \<Rightarrow> bool \<Rightarrow> artifact_db \<Rightarrow> (execution_result \<times> artifact_db) app_result" where
  "dispatch_execute en io now p dry db =
     result_bind (parse_policy_type (lp_policy_type p)) (\<lambda>t.
       case t of
         MaxAgeDays \<Rightarrow> execute_max_age io now p dry db
       | MaxVersions \<Rightarrow> execute_max_versions io p dry db
       | NoDownloadsDays \<Rightarrow> execute_no_downloads io now p dry db
       | TagPatternKeep \<Rightarrow> execute_tag_pattern_keep en io p dry db
       | TagPatternDelete \<Rightarrow> execute_tag_pattern_delete en io p dry db
       | SizeQuotaBytes \<Rightarrow> execute_size_quota io p dry db)"

text \<open>The sweep over the tags: a soft-deleted manifest joins a tag by repository, key, path and version.\<close>

definition backs_tag :: "stored_artifact \<Rightarrow> oci_tag \<Rightarrow> bool" where
  "backs_tag a t \<longleftrightarrow>
     af_repository_id a = ot_repository_id t \<and>
     af_storage_key a = OCI_MANIFEST_STORAGE_PREFIX @ ot_manifest_digest t \<and>
     af_path a = ''v2/'' @ ot_name t @ ''/manifests/'' @ ot_tag t \<and>
     af_version a = Some (ot_tag t)"

definition doomed :: "artifact_db \<Rightarrow> oci_tag \<Rightarrow> bool" where
  "doomed db t \<longleftrightarrow> list_ex (\<lambda>a. af_is_deleted a \<and> backs_tag a t) (db_artifacts db)"

definition same_image :: "oci_tag \<Rightarrow> oci_tag \<Rightarrow> bool" where
  "same_image t u \<longleftrightarrow> ot_repository_id t = ot_repository_id u \<and> ot_manifest_digest t = ot_manifest_digest u"

definition pruned :: "nat option \<Rightarrow> artifact_db \<Rightarrow> oci_tag \<Rightarrow> bool" where
  "pruned f db t \<longleftrightarrow>
     list_ex (\<lambda>a. af_is_deleted a \<and> backs_tag a t \<and> in_filter f (af_repository_id a)) (db_artifacts db) \<and>
     list_ex (\<lambda>k. same_image k t \<and> ot_id k \<noteq> ot_id t \<and> \<not> doomed db k) (db_tags db)"

definition cascade_oci_tags :: "nat option \<Rightarrow> artifact_db \<Rightarrow> artifact_db" where
  "cascade_oci_tags f db = db\<lparr>db_tags := filter (\<lambda>t. \<not> pruned f db t) (db_tags db)\<rparr>"

definition cascade_oci_tags_cleanup_tx :: "faults \<Rightarrow> cascade_scope \<Rightarrow> artifact_db \<Rightarrow> (nat \<times> artifact_db) app_result" where
  "cascade_oci_tags_cleanup_tx io scope db =
     run_stmt io DeleteTags
       (length (filter (pruned (repo_filter scope) db) (db_tags db)), cascade_oci_tags (repo_filter scope) db)"

definition note_run :: "int \<Rightarrow> nat \<Rightarrow> int \<Rightarrow> artifact_db \<Rightarrow> artifact_db" where
  "note_run now i removed db =
     db\<lparr>db_policies := map (\<lambda>q. if lp_id q = i then q\<lparr>lp_last_run_at := Some now,
                                   lp_last_run_items_removed := Some removed\<rparr> else q) (db_policies db)\<rparr>"

text \<open>
  Three steps, each durable before the next begins: the soft deletion, the sweep over the tags, the
  bookkeeping. An error leaves what the steps before it committed.
\<close>

definition commit_sweep ::
  "engines \<Rightarrow> faults \<Rightarrow> int \<Rightarrow> lifecycle_policy \<Rightarrow> artifact_db \<Rightarrow> (execution_result \<times> artifact_db) app_result" where
  "commit_sweep en io now p db =
     result_bind (run_stmt io BeginSweep ()) (\<lambda>_.
     result_bind (dispatch_execute en io now p False db) (\<lambda>done'.
     run_stmt io CommitSweep done'))"

definition commit_cascade :: "faults \<Rightarrow> lifecycle_policy \<Rightarrow> artifact_db \<Rightarrow> artifact_db app_result" where
  "commit_cascade io p db =
     result_bind (run_stmt io BeginCascade ()) (\<lambda>_.
     result_bind (cascade_oci_tags_cleanup_tx io (cascade_scope_from (lp_repository_id p)) db) (\<lambda>(_, db').
     run_stmt io CommitCascade db'))"

definition execute_policy ::
  "engines \<Rightarrow> faults \<Rightarrow> int \<Rightarrow> nat \<Rightarrow> bool \<Rightarrow> artifact_db \<Rightarrow> execution_result app_result \<times> artifact_db" where
  "execute_policy en io now i dry db =
     (case get_lifecycle_policy io i db of
        Inl e \<Rightarrow> (Err e, db)
      | Inr p \<Rightarrow>
          if \<not> lp_enabled p \<and> \<not> dry then (Err (Validation ''Cannot execute a disabled policy''), db)
          else if dry then
            (result_bind (run_stmt io Acquire ()) (\<lambda>_.
             result_bind (dispatch_execute en io now p True db) (\<lambda>(r, _). Ok r)), db)
          else
            case commit_sweep en io now p db of
              Inl e \<Rightarrow> (Err e, db)
            | Inr (r, db1) \<Rightarrow>
                case commit_cascade io p db1 of
                  Inl e \<Rightarrow> (Err e, db1)
                | Inr db2 \<Rightarrow>
                    case run_stmt io Bookkeeping () of
                      Inl e \<Rightarrow> (Err e, db2)
                    | Inr _ \<Rightarrow> (Ok r, note_run now i (er_artifacts_removed r) db2))"

section \<open>Scheduled runs\<close>

definition load_enabled_policies :: "faults \<Rightarrow> artifact_db \<Rightarrow> lifecycle_policy list app_result" where
  "load_enabled_policies io db =
     run_stmt io LoadPolicies (sort_by (by_column_desc lp_priority) (filter lp_enabled (db_policies db)))"

definition failed_result :: "lifecycle_policy \<Rightarrow> app_error \<Rightarrow> execution_result" where
  "failed_result p e =
     \<lparr>er_policy_id = lp_id p, er_policy_name = lp_name p, er_dry_run = False, er_artifacts_matched = 0,
      er_artifacts_removed = 0, er_bytes_freed = 0, er_errors = [error_text e]\<rparr>"

definition run_policy_into ::
  "engines \<Rightarrow> faults \<Rightarrow> int \<Rightarrow> lifecycle_policy \<Rightarrow> execution_result list \<times> artifact_db \<Rightarrow> execution_result list \<times> artifact_db" where
  "run_policy_into en io now p acc =
     (case execute_policy en io now (lp_id p) False (snd acc) of
        (Inr r, db') \<Rightarrow> (fst acc @ [r], db')
      | (Inl e, db') \<Rightarrow> (fst acc @ [failed_result p e], db'))"

text \<open>One fault plan per policy of the batch, by its position.\<close>

fun run_batch ::
  "engines \<Rightarrow> (nat \<Rightarrow> faults) \<Rightarrow> int \<Rightarrow> nat \<Rightarrow> lifecycle_policy list \<Rightarrow> execution_result list \<times> artifact_db \<Rightarrow> execution_result list \<times> artifact_db" where
  "run_batch en ios now n [] acc = acc"
| "run_batch en ios now n (p # ps) acc = run_batch en ios now (n + 1) ps (run_policy_into en (ios n) now p acc)"

definition execute_all_enabled ::
  "engines \<Rightarrow> faults \<Rightarrow> (nat \<Rightarrow> faults) \<Rightarrow> int \<Rightarrow> artifact_db \<Rightarrow> execution_result list app_result \<times> artifact_db" where
  "execute_all_enabled en io ios now db =
     (case load_enabled_policies io db of
        Inl e \<Rightarrow> (Err e, db)
      | Inr ps \<Rightarrow> (case run_batch en ios now 0 ps ([], db) of (rs, db') \<Rightarrow> (Ok rs, db')))"

definition is_due_by_default_cadence :: "int option \<Rightarrow> int \<Rightarrow> int \<Rightarrow> bool" where
  "is_due_by_default_cadence last_run now cadence = (case last_run of None \<Rightarrow> True | Some l \<Rightarrow> now - l \<ge> cadence)"

definition is_policy_due :: "engines \<Rightarrow> string option \<Rightarrow> int option \<Rightarrow> int \<Rightarrow> int \<Rightarrow> bool" where
  "is_policy_due en cron last_run now cadence =
     (case cron of
        None \<Rightarrow> is_due_by_default_cadence last_run now cadence
      | Some e \<Rightarrow>
          (case cron_after en (normalize_cron_expression e) of
             None \<Rightarrow> is_due_by_default_cadence last_run now cadence
           | Some after \<Rightarrow>
               (case last_run of
                  None \<Rightarrow> True
                | Some l \<Rightarrow> (case after l of None \<Rightarrow> False | Some t \<Rightarrow> t \<le> now))))"

definition DEFAULT_CADENCE_MS :: int where "DEFAULT_CADENCE_MS = 6 * 3600000"

definition execute_due_policies ::
  "engines \<Rightarrow> faults \<Rightarrow> (nat \<Rightarrow> faults) \<Rightarrow> int \<Rightarrow> artifact_db \<Rightarrow> execution_result list app_result \<times> artifact_db" where
  "execute_due_policies en io ios now db =
     (case load_enabled_policies io db of
        Inl e \<Rightarrow> (Err e, db)
      | Inr ps \<Rightarrow>
          (case run_batch en ios now 0
                  (filter (\<lambda>p. is_policy_due en (lp_cron_schedule p) (lp_last_run_at p) now DEFAULT_CADENCE_MS) ps)
                  ([], db) of
             (rs, db') \<Rightarrow> (Ok rs, db')))"

section \<open>The comparison of the key prefix\<close>

lemma prefix_loop_eq:
  assumes "length a = length b" and "i \<le> length a"
  shows "prefix_loop a b i = Some (drop i a = drop i b)"
  using assms(2)
proof (induction "length a - i" arbitrary: i)
  case 0
  then have "\<not> i < length a" by simp
  then show ?case using assms(1) by (simp add: prefix_loop.simps[of a b i])
next
  case (Suc k)
  then have i: "i < length a" "i < length b" using assms(1) by simp_all
  have "drop i a = a ! i # drop (Suc i) a" "drop i b = b ! i # drop (Suc i) b"
    using i by (simp_all add: Cons_nth_drop_Suc)
  moreover have "prefix_loop a b (Suc i) = Some (drop (Suc i) a = drop (Suc i) b)"
    using Suc i by simp
  ultimately show ?case using i by (simp add: prefix_loop.simps[of a b i])
qed

text \<open>C28: The compile-time comparison of a query literal with the manifest key prefix always returns, and it returns true exactly for the prefix itself.\<close>

theorem prefix_matches_exact: "prefix_matches literal = Some (literal = OCI_MANIFEST_STORAGE_PREFIX)"
  using prefix_loop_eq[of OCI_MANIFEST_STORAGE_PREFIX literal 0] by (auto simp: prefix_matches_def)

section \<open>What a run may change\<close>

lemma parse_wire [simp]: "parse_policy_type (as_wire_str t) = Ok t"
  by (cases t) (simp_all add: parse_policy_type_def)

lemma parse_policy_type_Ok: "parse_policy_type s = Ok t \<Longrightarrow> s = as_wire_str t"
  by (auto simp: parse_policy_type_def split: if_splits)

lemma soft_delete_simps [simp]:
  "af_id (soft_delete sel a) = af_id a" "af_repository_id (soft_delete sel a) = af_repository_id a"
  "af_name (soft_delete sel a) = af_name a" "af_created_at (soft_delete sel a) = af_created_at a"
  "af_size_bytes (soft_delete sel a) = af_size_bytes a" "af_storage_key (soft_delete sel a) = af_storage_key a"
  "af_is_deleted (soft_delete sel a) = (af_is_deleted a \<or> sel a)"
  "backs_tag (soft_delete sel a) t = backs_tag a t"
  by (simp_all add: soft_delete_def backs_tag_def)

lemma soft_delete_none [simp]: "soft_delete (\<lambda>_. False) = id"
  by (simp add: soft_delete_def fun_eq_iff)

lemma mark_deleted_simps [simp]:
  "db_tags (mark_deleted sel db) = db_tags db" "db_policies (mark_deleted sel db) = db_policies db"
  "db_downloads (mark_deleted sel db) = db_downloads db" "db_blobs (mark_deleted sel db) = db_blobs db"
  "db_repositories (mark_deleted sel db) = db_repositories db"
  "db_manifest_refs (mark_deleted sel db) = db_manifest_refs db"
  "db_blob_refs (mark_deleted sel db) = db_blob_refs db" "db_approvals (mark_deleted sel db) = db_approvals db"
  "db_artifacts (mark_deleted sel db) = map (soft_delete sel) (db_artifacts db)"
  by (simp_all add: mark_deleted_def)

lemma matching_in: "a \<in> set (matching sel db) \<longleftrightarrow> a \<in> set (db_artifacts db) \<and> \<not> af_is_deleted a \<and> sel a"
  by (auto simp: matching_def)

lemma matching_empty: "matching sel db = [] \<Longrightarrow> mark_deleted (\<lambda>a. \<not> af_is_deleted a \<and> sel a) db = db"
proof -
  assume "matching sel db = []"
  then have "\<forall>a\<in>set (db_artifacts db). soft_delete (\<lambda>a. \<not> af_is_deleted a \<and> sel a) a = a"
    by (auto simp: matching_def filter_empty_conv soft_delete_def)
  then show ?thesis by (simp add: mark_deleted_def map_idI)
qed

text \<open>A run that counts and marks rows reports exactly the rows it marks.\<close>

lemma execute_matched_cases:
  assumes "execute_matched io p dry sel db = Ok (r, db')"
  shows "db' = (if dry then db else mark_deleted (\<lambda>a. \<not> af_is_deleted a \<and> sel a) db)"
    and "r = build_execution_result p dry (int (length (matching sel db))) (int (length (matching sel db)))
               (bytes_of (matching sel db))"
  using assms matching_empty[of sel db]
  by (auto simp: execute_matched_def Let_def to_bigint_def build_execution_result_def split: if_splits)

text \<open>The rows a policy selects, by type.\<close>

definition selects :: "engines \<Rightarrow> int \<Rightarrow> lifecycle_policy \<Rightarrow> artifact_db \<Rightarrow> stored_artifact \<Rightarrow> bool" where
  "selects en now p db a \<longleftrightarrow>
     in_filter (lp_repository_id p) (af_repository_id a) \<and>
     (case parse_policy_type (lp_policy_type p) of
        Inl _ \<Rightarrow> False
      | Inr t \<Rightarrow>
          (case t of
             MaxAgeDays \<Rightarrow>
               \<exists>d l. parse_i64_field (lp_config p) ''max_age_days'' ''days'' = Ok d \<and> cutoff now d = Ok l \<and> af_created_at a < l
           | MaxVersions \<Rightarrow>
               \<exists>k. parse_i64_field (lp_config p) ''max_versions'' ''keep'' = Ok k \<and>
                   af_id a \<notin> set (kept_versions k (af_repository_id a) (af_name a) db)
           | NoDownloadsDays \<Rightarrow>
               \<exists>d l. parse_i64_field (lp_config p) ''no_downloads_days'' ''days'' = Ok d \<and> cutoff now d = Ok l \<and>
                     af_created_at a < l \<and> \<not> downloaded_after db l (af_id a)
           | TagPatternKeep \<Rightarrow>
               \<exists>s m. parse_pattern_field (lp_config p) ''tag_pattern_keep'' = Ok s \<and> pg_regex en s = Inr m \<and> \<not> m (af_name a)
           | TagPatternDelete \<Rightarrow>
               \<exists>s m. parse_pattern_field (lp_config p) ''tag_pattern_delete'' = Ok s \<and> pg_regex en s = Inr m \<and> m (af_name a)
           | SizeQuotaBytes \<Rightarrow>
               \<exists>q. parse_i64_field (lp_config p) ''size_quota_bytes'' ''quota_bytes'' = Ok q \<and>
                   q < bytes_of (live_in (af_repository_id a) db) \<and>
                   af_id a \<in> set (fst (select_size_quota_evictions
                     (map (\<lambda>a. (af_id a, af_size_bytes a)) (quota_candidates (af_repository_id a) db))
                     (wrap_i64 (bytes_of (live_in (af_repository_id a) db) - q))))))"

lemma evict_loop_prefix:
  "\<exists>k \<le> length cs. fst (evict_loop cs excess acc n) = acc @ map fst (take k cs)"
proof (induction cs excess acc n rule: evict_loop.induct)
  case (2 i sz rest excess acc n)
  show ?case
  proof (cases "n \<ge> excess")
    case True
    then show ?thesis by (auto intro: exI[of _ 0])
  next
    case False
    obtain k where "k \<le> length rest" "fst (evict_loop rest excess (acc @ [i]) (saturate_i64 (n + sz))) = (acc @ [i]) @ map fst (take k rest)"
      using "2.IH"[OF False] by blast
    then show ?thesis using False by (intro exI[of _ "Suc k"]) simp
  qed
qed simp

definition artifact_ids_unique :: "artifact_db \<Rightarrow> bool" where
  "artifact_ids_unique db \<longleftrightarrow> distinct (map af_id (db_artifacts db))"

lemma same_id_same_row:
  assumes "artifact_ids_unique db" "a \<in> set (db_artifacts db)" "b \<in> set (db_artifacts db)" "af_id a = af_id b"
  shows "a = b"
  using assms by (auto simp: artifact_ids_unique_def distinct_map dest: inj_onD)

lemma mark_deleted_cong:
  "(\<And>a. a \<in> set (db_artifacts db) \<Longrightarrow> f a = g a) \<Longrightarrow> mark_deleted f db = mark_deleted g db"
  by (simp add: mark_deleted_def soft_delete_def cong: map_cong)

lemma matching_cong:
  "(\<And>a. a \<in> set (db_artifacts db) \<Longrightarrow> \<not> af_is_deleted a \<Longrightarrow> f a = g a) \<Longrightarrow> matching f db = matching g db"
  unfolding matching_def by (rule filter_cong) auto

definition sweep_result :: "bool \<Rightarrow> (stored_artifact \<Rightarrow> bool) \<Rightarrow> artifact_db \<Rightarrow> execution_result \<Rightarrow> artifact_db \<Rightarrow> bool" where
  "sweep_result dry sel db r db' \<longleftrightarrow>
     db' = (if dry then db else mark_deleted (\<lambda>a. \<not> af_is_deleted a \<and> sel a) db) \<and>
     er_artifacts_matched r = int (length (matching sel db)) \<and>
     er_artifacts_removed r = (if dry then 0 else int (length (matching sel db)))"

lemma sweep_result_cong:
  assumes "sweep_result dry f db r db'" and "\<And>a. a \<in> set (db_artifacts db) \<Longrightarrow> \<not> af_is_deleted a \<Longrightarrow> f a = g a"
  shows "sweep_result dry g db r db'"
proof -
  have "mark_deleted (\<lambda>a. \<not> af_is_deleted a \<and> f a) db = mark_deleted (\<lambda>a. \<not> af_is_deleted a \<and> g a) db"
    by (rule mark_deleted_cong) (use assms(2) in auto)
  moreover have "matching f db = matching g db" by (rule matching_cong) (use assms(2) in auto)
  ultimately show ?thesis using assms(1) by (simp add: sweep_result_def)
qed

lemma execute_matched_sweeps:
  "execute_matched io p dry sel db = Ok (r, db') \<Longrightarrow> sweep_result dry sel db r db'"
  using execute_matched_cases[of io p dry sel db r db'] by (simp add: sweep_result_def build_execution_result_def)

lemma set_quota_candidates: "set (quota_candidates repo db) = set (live_in repo db)"
  by (simp add: quota_candidates_def)

lemma live_in_iff: "a \<in> set (live_in repo db) \<longleftrightarrow> a \<in> set (db_artifacts db) \<and> \<not> af_is_deleted a \<and> af_repository_id a = repo"
  by (simp add: live_in_def matching_in)

lemma distinct_candidates:
  assumes "artifact_ids_unique db"
  shows "distinct (map af_id (quota_candidates repo db))"
proof -
  have "mset (map af_id (quota_candidates repo db)) = mset (map af_id (live_in repo db))"
    by (simp add: quota_candidates_def)
  moreover have "distinct (map af_id (live_in repo db))"
    using assms by (simp add: artifact_ids_unique_def live_in_def matching_def distinct_map_filter)
  ultimately show ?thesis by (metis mset_eq_imp_distinct_iff)
qed

text \<open>The identifiers to remove are those of the first candidates.\<close>

definition evictions :: "nat \<Rightarrow> int \<Rightarrow> artifact_db \<Rightarrow> nat list \<times> int" where
  "evictions repo q db =
     select_size_quota_evictions (map (\<lambda>a. (af_id a, af_size_bytes a)) (quota_candidates repo db))
       (wrap_i64 (bytes_of (live_in repo db) - q))"

lemma evictions_prefix:
  "\<exists>k \<le> length (quota_candidates repo db). fst (evictions repo q db) = map af_id (take k (quota_candidates repo db))"
proof -
  let ?cs = "map (\<lambda>a. (af_id a, af_size_bytes a)) (quota_candidates repo db)"
  obtain k where "k \<le> length ?cs" "fst (evictions repo q db) = map fst (take k ?cs)"
    using evict_loop_prefix[of ?cs _ "[]" 0] unfolding evictions_def select_size_quota_evictions_def by auto
  then show ?thesis by (intro exI[of _ k]) (simp add: take_map comp_def)
qed

lemma length_by_ids:
  assumes "distinct (map f xs)" "distinct is" "set is \<subseteq> f ` set xs"
  shows "length (filter (\<lambda>x. f x \<in> set is) xs) = length is"
proof -
  have "f ` set (filter (\<lambda>x. f x \<in> set is) xs) = set is" using assms(3) by auto
  moreover have "distinct (map f (filter (\<lambda>x. f x \<in> set is) xs))"
    using assms(1) by (simp add: distinct_map_filter)
  ultimately show ?thesis using assms(2) by (metis distinct_card length_map set_map)
qed

lemma eviction_facts:
  assumes "artifact_ids_unique db"
  shows "distinct (fst (evictions repo q db))"
    and "i \<in> set (fst (evictions repo q db)) \<Longrightarrow> \<exists>a\<in>set (live_in repo db). af_id a = i"
proof -
  obtain k where "fst (evictions repo q db) = map af_id (take k (quota_candidates repo db))"
    using evictions_prefix by blast
  then show "distinct (fst (evictions repo q db))"
    "i \<in> set (fst (evictions repo q db)) \<Longrightarrow> \<exists>a\<in>set (live_in repo db). af_id a = i"
    using distinct_candidates[OF assms, of repo] set_quota_candidates[of repo db]
    by (auto simp: distinct_map dest!: in_set_takeD intro: inj_on_subset distinct_take set_take_subset)
qed

lemma size_quota_sweeps:
  assumes "artifact_ids_unique db" and "execute_size_quota io p dry db = Ok (r, db')"
  obtains repo q where "lp_repository_id p = Some repo"
    "parse_i64_field (lp_config p) ''size_quota_bytes'' ''quota_bytes'' = Ok q"
    "sweep_result dry (\<lambda>a. af_repository_id a = repo \<and> q < bytes_of (live_in repo db) \<and>
       af_id a \<in> set (fst (evictions repo q db))) db r db'"
proof -
  obtain q where q: "parse_i64_field (lp_config p) ''size_quota_bytes'' ''quota_bytes'' = Ok q"
    using assms(2) by (auto simp: execute_size_quota_def)
  obtain repo where repo: "lp_repository_id p = Some repo"
    using assms(2) q by (auto simp: execute_size_quota_def split: option.splits)
  let ?sel = "\<lambda>a. af_repository_id a = repo \<and> q < bytes_of (live_in repo db) \<and> af_id a \<in> set (fst (evictions repo q db))"
  have "sweep_result dry ?sel db r db'"
  proof (cases "bytes_of (live_in repo db) \<le> q")
    case True
    then have "matching ?sel db = []" by (simp add: matching_def)
    then show ?thesis using assms(2) q repo True matching_empty[of ?sel db]
      by (auto simp: execute_size_quota_def sweep_result_def build_execution_result_def to_bigint_def split: if_splits)
  next
    case False
    let ?ids = "fst (evictions repo q db)"
    note facts = eviction_facts[OF assms(1), where repo = repo and q = q]
    have sel: "?sel a \<and> \<not> af_is_deleted a \<longleftrightarrow> af_id a \<in> set ?ids" if "a \<in> set (db_artifacts db)" for a
    proof -
      have "a \<in> set (live_in repo db)" if i: "af_id a \<in> set ?ids"
      proof -
        obtain b where "b \<in> set (live_in repo db)" "af_id b = af_id a" using facts(2)[OF i] by blast
        moreover from this have "b = a" using same_id_same_row[OF assms(1)] \<open>a \<in> set (db_artifacts db)\<close> by (simp add: live_in_iff)
        ultimately show ?thesis by simp
      qed
      then show ?thesis using False by (auto simp: live_in_iff)
    qed
    have mk: "mark_deleted (\<lambda>a. af_id a \<in> set ?ids) db = mark_deleted (\<lambda>a. \<not> af_is_deleted a \<and> ?sel a) db"
      by (rule mark_deleted_cong) (use sel in blast)
    have rows: "matching ?sel db = filter (\<lambda>a. af_id a \<in> set ?ids) (db_artifacts db)"
      unfolding matching_def by (rule filter_cong) (use sel in auto)
    have sub: "set ?ids \<subseteq> af_id ` set (db_artifacts db)"
      using facts(2) live_in_iff[of _ repo db] by (metis image_eqI subsetI)
    have "length (filter (\<lambda>a. af_id a \<in> set ?ids) (db_artifacts db)) = length ?ids"
      by (rule length_by_ids[OF _ facts(1) sub]) (use assms(1) in \<open>simp add: artifact_ids_unique_def\<close>)
    then have len: "length (matching ?sel db) = length ?ids" using rows by simp
    then have empty: "?ids = [] \<Longrightarrow> mark_deleted (\<lambda>a. \<not> af_is_deleted a \<and> ?sel a) db = db"
      using matching_empty[of ?sel db] by simp
    show ?thesis using assms(2) q repo False len rows mk empty
      by (auto simp: execute_size_quota_def sweep_result_def build_execution_result_def to_bigint_def Let_def
          evictions_def[symmetric] split: if_splits prod.splits)
  qed
  then show thesis using that repo q by blast
qed

lemma in_filter_simps [simp]: "in_filter None repo" "in_filter (Some i) repo \<longleftrightarrow> repo = i"
  by (simp_all add: in_filter_def)

lemma tag_pattern_sweeps:
  assumes "execute_tag_pattern en io p dry pattern op db = Ok (r, db')"
  obtains m where "pg_regex en pattern = Inr m"
    "sweep_result dry (\<lambda>a. in_filter (lp_repository_id p) (af_repository_id a) \<and> regex_test op (m (af_name a))) db r db'"
  using assms execute_matched_sweeps by (cases "pg_regex en pattern") (auto simp: execute_tag_pattern_def)

lemma max_versions_sweeps:
  assumes "execute_max_versions io p dry db = Ok (r, db')"
  obtains repo k where "lp_repository_id p = Some repo"
    "parse_i64_field (lp_config p) ''max_versions'' ''keep'' = Ok k"
    "sweep_result dry (\<lambda>a. af_repository_id a = repo \<and> af_id a \<notin> set (kept_versions k repo (af_name a) db)) db r db'"
  using assms execute_matched_sweeps
  by (cases "lp_repository_id p") (auto simp: execute_max_versions_def split: if_splits)

lemma dispatch_sweeps:
  assumes "artifact_ids_unique db" and "dispatch_execute en io now p dry db = Ok (r, db')"
  shows "sweep_result dry (selects en now p db) db r db'"
proof -
  obtain t where t: "parse_policy_type (lp_policy_type p) = Ok t"
    using assms(2) by (auto simp: dispatch_execute_def)
  show ?thesis
  proof (cases t)
    case SizeQuotaBytes
    then have "execute_size_quota io p dry db = Ok (r, db')" using assms(2) t by (simp add: dispatch_execute_def)
    then obtain repo q where repo: "lp_repository_id p = Some repo"
      and q: "parse_i64_field (lp_config p) ''size_quota_bytes'' ''quota_bytes'' = Ok q"
      and sw: "sweep_result dry (\<lambda>a. af_repository_id a = repo \<and> q < bytes_of (live_in repo db) \<and>
       af_id a \<in> set (fst (evictions repo q db))) db r db'"
      by (rule size_quota_sweeps[OF assms(1)])
    show ?thesis
      by (rule sweep_result_cong[OF sw]) (use t SizeQuotaBytes repo q in \<open>auto simp: selects_def in_filter_def evictions_def\<close>)
  next
    case MaxVersions
    then have "execute_max_versions io p dry db = Ok (r, db')" using assms(2) t by (simp add: dispatch_execute_def)
    then obtain repo k where repo: "lp_repository_id p = Some repo"
      and k: "parse_i64_field (lp_config p) ''max_versions'' ''keep'' = Ok k"
      and sw: "sweep_result dry (\<lambda>a. af_repository_id a = repo \<and> af_id a \<notin> set (kept_versions k repo (af_name a) db)) db r db'"
      by (rule max_versions_sweeps)
    show ?thesis
      by (rule sweep_result_cong[OF sw]) (use t MaxVersions repo k in \<open>auto simp: selects_def\<close>)
  next
    case TagPatternKeep
    then obtain s where s: "parse_pattern_field (lp_config p) ''tag_pattern_keep'' = Ok s"
      and ex: "execute_tag_pattern en io p dry s MatchesNot db = Ok (r, db')"
      using assms(2) t by (auto simp: dispatch_execute_def execute_tag_pattern_keep_def)
    obtain m where "pg_regex en s = Inr m"
      "sweep_result dry (\<lambda>a. in_filter (lp_repository_id p) (af_repository_id a) \<and> regex_test MatchesNot (m (af_name a))) db r db'"
      by (rule tag_pattern_sweeps[OF ex])
    then show ?thesis using t TagPatternKeep s by (auto simp: selects_def elim!: sweep_result_cong)
  next
    case TagPatternDelete
    then obtain s where s: "parse_pattern_field (lp_config p) ''tag_pattern_delete'' = Ok s"
      and ex: "execute_tag_pattern en io p dry s Matches db = Ok (r, db')"
      using assms(2) t by (auto simp: dispatch_execute_def execute_tag_pattern_delete_def)
    obtain m where "pg_regex en s = Inr m"
      "sweep_result dry (\<lambda>a. in_filter (lp_repository_id p) (af_repository_id a) \<and> regex_test Matches (m (af_name a))) db r db'"
      by (rule tag_pattern_sweeps[OF ex])
    then show ?thesis using t TagPatternDelete s by (auto simp: selects_def elim!: sweep_result_cong)
  qed (use assms(2) t in \<open>auto simp: dispatch_execute_def selects_def execute_max_age_def
        execute_no_downloads_def dest!: execute_matched_sweeps elim!: sweep_result_cong\<close>)
qed

section \<open>Previews\<close>

definition as_preview :: "execution_result \<Rightarrow> execution_result" where
  "as_preview r = r\<lparr>er_dry_run := True, er_artifacts_removed := 0, er_bytes_freed := 0\<rparr>"

lemmas preview_defs = as_preview_def build_execution_result_def

lemma execute_matched_preview:
  "execute_matched io p False sel db = Ok (r, db') \<Longrightarrow> execute_matched io p True sel db = Ok (as_preview r, db)"
  by (auto simp: execute_matched_def preview_defs Let_def split: if_splits)

lemma size_quota_preview:
  "execute_size_quota io p False db = Ok (r, db') \<Longrightarrow> execute_size_quota io p True db = Ok (as_preview r, db)"
  by (cases "lp_repository_id p") (auto simp: execute_size_quota_def preview_defs Let_def split: if_splits prod.splits)

lemma tag_pattern_preview:
  "execute_tag_pattern en io p False s op db = Ok (r, db') \<Longrightarrow> execute_tag_pattern en io p True s op db = Ok (as_preview r, db)"
  by (cases "pg_regex en s") (auto simp: execute_tag_pattern_def execute_matched_preview)

lemma dispatch_preview:
  assumes "dispatch_execute en io now p False db = Ok (r, db')"
  shows "dispatch_execute en io now p True db = Ok (as_preview r, db)"
proof -
  obtain t where "parse_policy_type (lp_policy_type p) = Ok t" using assms by (auto simp: dispatch_execute_def)
  then show ?thesis using assms
    by (cases t; cases "lp_repository_id p")
      (auto simp: dispatch_execute_def execute_max_age_def execute_max_versions_def execute_no_downloads_def
        execute_tag_pattern_keep_def execute_tag_pattern_delete_def execute_matched_preview size_quota_preview
        tag_pattern_preview split: if_splits)
qed

text \<open>What a successful run is made of.\<close>

lemma execute_policy_Ok:
  assumes "execute_policy en io now i False db = (Ok r, db')"
  obtains p db1 db2 where "get_lifecycle_policy io i db = Ok p" "lp_enabled p"
    "dispatch_execute en io now p False db = Ok (r, db1)" "db2 = cascade_oci_tags (lp_repository_id p) db1"
    "db' = note_run now i (er_artifacts_removed r) db2"
proof -
  have scope: "repo_filter (cascade_scope_from f) = f" for f by (cases f) simp_all
  show thesis using assms that
    by (auto simp: execute_policy_def commit_sweep_def commit_cascade_def cascade_oci_tags_cleanup_tx_def scope
        split: sum.splits if_splits)
qed

lemma live_after_marking:
  "length (filter af_is_deleted (map (soft_delete (\<lambda>a. \<not> af_is_deleted a \<and> sel a)) rows)) =
   length (filter af_is_deleted rows) + length (filter (\<lambda>a. \<not> af_is_deleted a \<and> sel a) rows)"
  by (induction rows) (auto simp: soft_delete_def)

end
