(* ===== verification/Lifecycle_Run.thy ===== *)
theory Lifecycle_Run
  imports Lifecycle
begin

text \<open>
  Runs of the retention service: every sequence of its operations as a step relation, with the
  invariants that hold along it (images stay reachable, deletions are final, policies stay
  acceptable), and what a run of a size quota and of a version limit leaves behind.
\<close>

section \<open>Previews\<close>

text \<open>C27: A preview changes nothing and tells exactly what a run would do: when a run of a policy succeeds, the preview of that policy in the same state returns the same report, with the counters of what was removed at zero; and the number of matched rows it shows is the number of artifacts that the run soft-deletes.\<close>

theorem dry_run_predicts_run:
  assumes "execute_policy en io now i False db = (Ok r, db')" and "io Acquire = None" and "artifact_ids_unique db"
  shows "execute_policy en io now i True db = (Ok (as_preview r), db) \<and>
         int (length (filter af_is_deleted (db_artifacts db'))) =
         int (length (filter af_is_deleted (db_artifacts db))) + er_artifacts_matched r"
proof (intro conjI)
  obtain p db1 db2 where p: "get_lifecycle_policy io i db = Ok p" "lp_enabled p"
      and d: "dispatch_execute en io now p False db = Ok (r, db1)"
      and db2: "db2 = cascade_oci_tags (lp_repository_id p) db1" and db': "db' = note_run now i (er_artifacts_removed r) db2"
    by (rule execute_policy_Ok[OF assms(1)])
  show "execute_policy en io now i True db = (Ok (as_preview r), db)"
    using p assms(2) dispatch_preview[OF d] by (simp add: execute_policy_def run_stmt_def)
  have "db_artifacts db' = db_artifacts db1" by (simp add: db' db2 note_run_def cascade_oci_tags_def)
  then show "int (length (filter af_is_deleted (db_artifacts db'))) =
      int (length (filter af_is_deleted (db_artifacts db))) + er_artifacts_matched r"
    using dispatch_sweeps[OF assms(3) d] live_after_marking[of "selects en now p db" "db_artifacts db"]
    by (simp add: sweep_result_def matching_def)
qed

section \<open>Sequences of operations\<close>

text \<open>Every operation of the service, with any faults, at any time.\<close>

inductive lifecycle_step :: "engines \<Rightarrow> artifact_db \<Rightarrow> artifact_db \<Rightarrow> bool" for en where
  create: "i \<notin> lp_id ` set (db_policies db) \<Longrightarrow> create_lifecycle_policy en io i now req db = (res, db') \<Longrightarrow> lifecycle_step en db db'"
| update: "update_lifecycle_policy en io now i ureq db = (res, db') \<Longrightarrow> lifecycle_step en db db'"
| delete: "delete_lifecycle_policy io i db = (res', db') \<Longrightarrow> lifecycle_step en db db'"
| execute: "execute_policy en io now i dry db = (eres, db') \<Longrightarrow> lifecycle_step en db db'"
| all_enabled: "execute_all_enabled en io ios now db = (bres, db') \<Longrightarrow> lifecycle_step en db db'"
| due: "execute_due_policies en io ios now db = (bres, db') \<Longrightarrow> lifecycle_step en db db'"

text \<open>
  What one operation may do to the tables, whatever its outcome: flip deletion marks on, prune tags as
  the sweep does, and change policies.
\<close>

inductive table_change :: "artifact_db \<Rightarrow> artifact_db \<Rightarrow> bool" where
  policies: "table_change db (db\<lparr>db_policies := ps\<rparr>)"
| mark: "table_change db (mark_deleted sel db)"
| prune: "table_change db (cascade_oci_tags f db)"

lemma mark_nothing: "mark_deleted (\<lambda>_. False) db = db"
  using soft_delete_none by (simp add: mark_deleted_def)

lemma execute_matched_marks:
  "execute_matched io p dry sel db = Ok (r, db') \<Longrightarrow> \<exists>f. db' = mark_deleted f db"
  using execute_matched_cases(1)[of io p dry sel db r db'] mark_nothing[of db] by (cases dry) metis+

lemma dispatch_marks:
  assumes "dispatch_execute en io now p dry db = Ok (r, db')"
  shows "\<exists>sel. db' = mark_deleted sel db"
proof -
  obtain t where t: "parse_policy_type (lp_policy_type p) = Ok t" using assms by (auto simp: dispatch_execute_def)
  have none: "\<exists>sel. db = mark_deleted sel db" using mark_nothing[of db] by metis
  have quota: "execute_size_quota io p dry db = Ok (r, db') \<Longrightarrow> \<exists>sel. db' = mark_deleted sel db"
    using none by (cases "lp_repository_id p") (auto simp: execute_size_quota_def Let_def split: if_splits prod.splits)
  have tags: "execute_tag_pattern en io p dry s op db = Ok (r, db') \<Longrightarrow> \<exists>sel. db' = mark_deleted sel db" for s op
    using execute_matched_marks by (cases "pg_regex en s") (auto simp: execute_tag_pattern_def)
  show ?thesis using assms t quota
    by (cases t; cases "lp_repository_id p")
      (auto simp: dispatch_execute_def execute_max_age_def execute_max_versions_def execute_no_downloads_def
        execute_tag_pattern_keep_def execute_tag_pattern_delete_def dest: execute_matched_marks tags split: if_splits)
qed

lemma commit_sweep_marks: "commit_sweep en io now p db = Ok (r, db') \<Longrightarrow> \<exists>sel. db' = mark_deleted sel db"
  by (auto simp: commit_sweep_def dest: dispatch_marks)

lemma commit_cascade_prunes: "commit_cascade io p db = Ok db' \<Longrightarrow> \<exists>f. db' = cascade_oci_tags f db"
  by (auto simp: commit_cascade_def cascade_oci_tags_cleanup_tx_def)

lemma execute_policy_changes:
  assumes "execute_policy en io now i dry db = (res, db')"
  shows "table_change\<^sup>*\<^sup>* db db'"
proof -
  have note_run: "table_change db (note_run now i n db)" for n db
    unfolding note_run_def by (rule table_change.policies)
  have sweep: "table_change db db1" if "commit_sweep en io now p db = Ok (r, db1)" for p r db1
    using commit_sweep_marks[OF that] table_change.mark by auto
  have cascade: "table_change db1 db2" if "commit_cascade io p db1 = Ok db2" for p db1 db2
    using commit_cascade_prunes[OF that] table_change.prune by auto
  show ?thesis using assms
    by (auto simp: execute_policy_def split: sum.splits if_splits
        dest!: sweep cascade) (meson note_run r_into_rtranclp rtranclp.rtrancl_into_rtrancl)+
qed

lemma run_batch_changes: "table_change\<^sup>*\<^sup>* (snd acc) (snd (run_batch en ios now n ps acc))"
proof (induction ps arbitrary: n acc)
  case (Cons p ps)
  have "table_change\<^sup>*\<^sup>* (snd acc) (snd (run_policy_into en (ios n) now p acc))"
    by (auto simp: run_policy_into_def split: prod.splits sum.splits dest: execute_policy_changes)
  then show ?case using Cons.IH[of "run_policy_into en (ios n) now p acc" "n + 1"] by simp
qed simp

lemma lifecycle_step_changes: "lifecycle_step en db db' \<Longrightarrow> table_change\<^sup>*\<^sup>* db db'"
proof (induction rule: lifecycle_step.induct)
  case (all_enabled io ios now db bres db')
  then show ?case using run_batch_changes[of "([], db)" en ios now 0]
    by (auto simp: execute_all_enabled_def split: sum.splits prod.splits) (metis snd_conv)
next
  case (due io ios now db bres db')
  then show ?case using run_batch_changes[of "([], db)" en ios now 0]
    by (auto simp: execute_due_policies_def split: sum.splits prod.splits) (metis snd_conv)
qed (auto simp: create_lifecycle_policy_def update_lifecycle_policy_def delete_lifecycle_policy_def replace_policy_def
      split: sum.splits option.splits if_splits intro: table_change.policies execute_policy_changes)

text \<open>A property that the three kinds of change keep is kept by every operation.\<close>

lemma stable_lifecycle: "stable table_change good \<Longrightarrow> stable (lifecycle_step en) good"
  unfolding stable_def using stable.good_run[unfolded stable_def, of table_change good] lifecycle_step_changes by blast

section \<open>Images stay reachable\<close>

definition tagged :: "nat \<Rightarrow> string \<Rightarrow> artifact_db \<Rightarrow> bool" where
  "tagged repo digest db \<longleftrightarrow> list_ex (\<lambda>t. ot_repository_id t = repo \<and> ot_manifest_digest t = digest) (db_tags db)"

lemma pruned_doomed: "pruned f db t \<Longrightarrow> doomed db t"
  by (auto simp: pruned_def doomed_def list_ex_iff)

lemma cascade_keeps_image:
  assumes "tagged repo digest db"
  shows "tagged repo digest (cascade_oci_tags f db)"
proof -
  obtain t where t: "t \<in> set (db_tags db)" "ot_repository_id t = repo" "ot_manifest_digest t = digest"
    using assms by (auto simp: tagged_def list_ex_iff)
  show ?thesis
  proof (cases "pruned f db t")
    case True
    then obtain k where "k \<in> set (db_tags db)" "same_image k t" "\<not> doomed db k"
      by (auto simp: pruned_def list_ex_iff)
    then show ?thesis using t pruned_doomed by (auto simp: tagged_def list_ex_iff cascade_oci_tags_def same_image_def)
  qed (use t in \<open>auto simp: tagged_def list_ex_iff cascade_oci_tags_def\<close>)
qed

lemma tagged_simps [simp]:
  "tagged repo digest (db\<lparr>db_policies := ps\<rparr>) = tagged repo digest db"
  "tagged repo digest (mark_deleted sel db) = tagged repo digest db"
  by (simp_all add: tagged_def)

interpretation tagged_change: stable table_change "tagged repo digest"
  by unfold_locales (auto elim!: table_change.cases simp: cascade_keeps_image)

interpretation tagged_images: stable "lifecycle_step en" "tagged repo digest"
  by (rule stable_lifecycle) unfold_locales

text \<open>No deletion mark is taken back.\<close>

definition deletion_noted :: "nat \<Rightarrow> artifact_db \<Rightarrow> bool" where
  "deletion_noted i db \<longleftrightarrow> list_ex (\<lambda>a. af_id a = i \<and> af_is_deleted a) (db_artifacts db)"

interpretation noted: stable table_change "deletion_noted i"
  by unfold_locales (auto elim!: table_change.cases simp: deletion_noted_def list_ex_iff cascade_oci_tags_def)

interpretation final_deletions: stable "lifecycle_step en" "deletion_noted i"
  by (rule stable_lifecycle) unfold_locales

text \<open>C24: Retention never orphans an image: whatever operations of the service run, in any order, at any time and with any database failures between their transactions, an image of a repository that has a tag keeps one.\<close>

theorem retention_never_orphans_image:
  assumes "(lifecycle_step en)\<^sup>*\<^sup>* db db'" and "tagged repo digest db"
  shows "tagged repo digest db'"
  using assms by (rule tagged_images.good_run)

section \<open>What a run leaves behind\<close>

lemma execute_policy_artifacts:
  assumes "artifact_ids_unique db" and "get_lifecycle_policy io i db = Ok p" and "execute_policy en io now i dry db = (res, db')"
  shows "db_artifacts db' = db_artifacts db \<or>
         db_artifacts db' = map (soft_delete (\<lambda>a. \<not> af_is_deleted a \<and> selects en now p db a)) (db_artifacts db)"
proof -
  let ?marked = "mark_deleted (\<lambda>a. \<not> af_is_deleted a \<and> selects en now p db a) db"
  have sweep: "db1 = ?marked" if "commit_sweep en io now p db = Ok (r, db1)" for r db1
    using that by (auto simp: commit_sweep_def sweep_result_def dest!: dispatch_sweeps[OF assms(1)])
  have cascade: "db_artifacts db2 = db_artifacts db1" if "commit_cascade io p db1 = Ok db2" for db1 db2
    using commit_cascade_prunes[OF that] by (auto simp: cascade_oci_tags_def)
  show ?thesis using assms(2,3)
    by (auto simp: execute_policy_def note_run_def split: sum.splits if_splits dest!: sweep cascade)
qed

lemma execute_policy_tags:
  assumes "get_lifecycle_policy io i db = Ok p" and "execute_policy en io now i dry db = (res, db')"
  shows "db_tags db' = db_tags db \<or>
         (\<exists>db1. db_tags db' = filter (\<lambda>t. \<not> pruned (lp_repository_id p) db1 t) (db_tags db))"
proof -
  have scope: "repo_filter (cascade_scope_from f) = f" for f by (cases f) simp_all
  have sweep: "db_tags db1 = db_tags db" if "commit_sweep en io now p db = Ok (r, db1)" for r db1
    using commit_sweep_marks[OF that] by auto
  have cascade: "db_tags db2 = filter (\<lambda>t. \<not> pruned (lp_repository_id p) db1 t) (db_tags db1)"
    if "commit_cascade io p db1 = Ok db2" for db1 db2
    using that by (auto simp: commit_cascade_def cascade_oci_tags_cleanup_tx_def cascade_oci_tags_def scope)
  show ?thesis using assms
    by (auto simp: execute_policy_def note_run_def split: sum.splits if_splits dest!: sweep cascade) blast+
qed

text \<open>A policy of a repository acts on that repository only: whatever the outcome of a run, the artifacts and the tags of every other repository are the rows they were, and no artifact changes but for its deletion mark, which is only ever set.\<close>

lemma run_confined_to_repository:
  assumes "artifact_ids_unique db" and "get_lifecycle_policy io i db = Ok p" and "lp_repository_id p = Some repo"
    and "execute_policy en io now i dry db = (res, db')"
  shows "filter (\<lambda>a. af_repository_id a \<noteq> repo) (db_artifacts db') = filter (\<lambda>a. af_repository_id a \<noteq> repo) (db_artifacts db) \<and>
         filter (\<lambda>t. ot_repository_id t \<noteq> repo) (db_tags db') = filter (\<lambda>t. ot_repository_id t \<noteq> repo) (db_tags db) \<and>
         (\<exists>sel. db_artifacts db' = map (soft_delete sel) (db_artifacts db))"
proof (intro conjI)
  have outside: "filter (\<lambda>a. af_repository_id a \<noteq> repo) (map (soft_delete sel) rows) = filter (\<lambda>a. af_repository_id a \<noteq> repo) rows"
    if "\<And>a. sel a \<Longrightarrow> af_repository_id a = repo" for sel rows
    using that by (induction rows) (auto simp: soft_delete_def)
  show "filter (\<lambda>a. af_repository_id a \<noteq> repo) (db_artifacts db') = filter (\<lambda>a. af_repository_id a \<noteq> repo) (db_artifacts db)"
    using execute_policy_artifacts[OF assms(1,2,4)] assms(3) by (auto simp: selects_def intro!: outside)
  show "\<exists>sel. db_artifacts db' = map (soft_delete sel) (db_artifacts db)"
    using execute_policy_artifacts[OF assms(1,2,4)] soft_delete_none by (metis list.map_id)
  have inside: "pruned (Some repo) db1 t \<Longrightarrow> ot_repository_id t = repo" for db1 t
    by (auto simp: pruned_def list_ex_iff backs_tag_def)
  have "filter (\<lambda>t. ot_repository_id t \<noteq> repo) (filter (\<lambda>t. \<not> pruned (Some repo) db1 t) ts) =
        filter (\<lambda>t. ot_repository_id t \<noteq> repo) ts" for db1 ts
    unfolding filter_filter by (rule filter_cong) (use inside in auto)
  then show "filter (\<lambda>t. ot_repository_id t \<noteq> repo) (db_tags db') = filter (\<lambda>t. ot_repository_id t \<noteq> repo) (db_tags db)"
    using execute_policy_tags[OF assms(2,4)] assms(3) by auto
qed

section \<open>Size quotas\<close>

lemma saturate_i64_id: "- (2 ^ 63) \<le> n \<Longrightarrow> n < 2 ^ 63 \<Longrightarrow> saturate_i64 n = n"
  by (simp add: saturate_i64_def)

lemma sum_nonneg: "list_all (\<lambda>c. 0 \<le> snd c) cs \<Longrightarrow> 0 \<le> sum_list (map snd cs)" for cs :: "(nat \<times> int) list"
  by (induction cs) auto

lemma evict_loop_least:
  assumes "list_all (\<lambda>c. 0 \<le> snd c) cs" and "0 \<le> n" and "n + sum_list (map snd cs) < 2 ^ 63"
    and "excess \<le> n + sum_list (map snd cs)"
  shows "\<exists>k \<le> length cs. fst (evict_loop cs excess acc n) = acc @ map fst (take k cs) \<and>
           excess \<le> n + sum_list (map snd (take k cs)) \<and> (\<forall>j<k. n + sum_list (map snd (take j cs)) < excess)"
  using assms
proof (induction cs excess acc n rule: evict_loop.induct)
  case (2 i sz rest excess acc n)
  show ?case
  proof (cases "n \<ge> excess")
    case True
    then show ?thesis by (intro exI[of _ 0]) simp
  next
    case False
    have nn: "0 \<le> sz" "0 \<le> sum_list (map snd rest)" using "2.prems"(1) sum_nonneg[of rest] by auto
    then have sat: "saturate_i64 (n + sz) = n + sz" using "2.prems" by (intro saturate_i64_id) auto
    have "list_all (\<lambda>c. 0 \<le> snd c) rest" "0 \<le> saturate_i64 (n + sz)"
      "saturate_i64 (n + sz) + sum_list (map snd rest) < 2 ^ 63" "excess \<le> saturate_i64 (n + sz) + sum_list (map snd rest)"
      using "2.prems" nn unfolding sat by auto
    from "2.IH"[OF False this] obtain k where k: "k \<le> length rest"
        "fst (evict_loop rest excess (acc @ [i]) (n + sz)) = (acc @ [i]) @ map fst (take k rest)"
        "excess \<le> n + sz + sum_list (map snd (take k rest))" "\<forall>j<k. n + sz + sum_list (map snd (take j rest)) < excess"
      unfolding sat by blast
    have "n + sum_list (map snd (take j ((i, sz) # rest))) < excess" if "j < Suc k" for j
      using that k(4) False by (cases j) (auto simp: add.assoc)
    then show ?thesis using k(1-3) False sat by (intro exI[of _ "Suc k"]) (simp add: add.assoc)
  qed
qed simp

lemma live_in_mark: "live_in repo (mark_deleted sel db) = filter (\<lambda>a. \<not> sel a) (live_in repo db)"
proof -
  have "filter (\<lambda>a. \<not> af_is_deleted a \<and> af_repository_id a = repo) (map (soft_delete sel) rows) =
        filter (\<lambda>a. \<not> sel a) (filter (\<lambda>a. \<not> af_is_deleted a \<and> af_repository_id a = repo) rows)" for rows
    by (induction rows) (auto simp: soft_delete_def)
  then show ?thesis by (simp add: live_in_def matching_def)
qed

lemma filter_not_taken:
  assumes "distinct (map f xs)"
  shows "filter (\<lambda>x. f x \<notin> f ` set (take k xs)) xs = drop k xs"
proof -
  have "f x \<notin> f ` set (take k xs)" if "x \<in> set (drop k xs)" for x
    using assms that by (metis IntI append_take_drop_id distinct_append empty_iff image_eqI map_append set_map)
  then have "filter (\<lambda>x. f x \<notin> f ` set (take k xs)) (drop k xs) = drop k xs" by (simp add: filter_id_conv)
  moreover have "filter (\<lambda>x. f x \<notin> f ` set (take k xs)) (take k xs) = []" by (simp add: filter_empty_conv)
  ultimately show ?thesis by (metis (no_types, lifting) append_Nil append_take_drop_id filter_append)
qed

lemma bytes_of_append: "bytes_of (xs @ ys) = bytes_of xs + bytes_of ys"
  by (simp add: bytes_of_def)

lemma bytes_of_perm: "mset xs = mset ys \<Longrightarrow> bytes_of xs = bytes_of ys"
  by (metis bytes_of_def mset_map sum_mset_sum_list)

lemma evictions_least:
  assumes "bytes_of (live_in repo db) < 2 ^ 63" and "0 \<le> q" and "q < bytes_of (live_in repo db)"
    and "list_all (\<lambda>a. 0 \<le> af_size_bytes a) (live_in repo db)"
  obtains k where "fst (evictions repo q db) = map af_id (take k (quota_candidates repo db))"
    "bytes_of (drop k (quota_candidates repo db)) \<le> q" "\<And>j. j < k \<Longrightarrow> q < bytes_of (drop j (quota_candidates repo db))"
proof -
  let ?used = "bytes_of (live_in repo db)" and ?cands = "quota_candidates repo db"
  let ?cs = "map (\<lambda>a. (af_id a, af_size_bytes a)) ?cands"
  have used: "sum_list (map snd ?cs) = ?used"
    using bytes_of_perm[of ?cands "live_in repo db"] by (simp add: quota_candidates_def bytes_of_def comp_def)
  have split: "bytes_of (drop j ?cands) = ?used - sum_list (map snd (take j ?cs))" for j
  proof -
    have "bytes_of ?cands = bytes_of (take j ?cands) + bytes_of (drop j ?cands)"
      using bytes_of_append[of "take j ?cands" "drop j ?cands"] by simp
    moreover have "bytes_of ?cands = ?used" by (rule bytes_of_perm) (simp add: quota_candidates_def)
    moreover have "sum_list (map snd (take j ?cs)) = bytes_of (take j ?cands)"
      by (simp add: take_map comp_def bytes_of_def)
    ultimately show ?thesis by simp
  qed
  have ex: "wrap_i64 (?used - q) = ?used - q" using assms(1-3) by (intro wrap_i64_id) auto
  have "list_all (\<lambda>c. 0 \<le> snd c) ?cs"
    using assms(4) set_quota_candidates[of repo db] by (auto simp: list_all_iff)
  moreover have "0 + sum_list (map snd ?cs) < 2 ^ 63" "?used - q \<le> 0 + sum_list (map snd ?cs)"
    using assms(1,2) used by auto
  ultimately obtain k where k: "fst (evict_loop ?cs (?used - q) [] 0) = [] @ map fst (take k ?cs)"
      "?used - q \<le> 0 + sum_list (map snd (take k ?cs))" "\<forall>j<k. 0 + sum_list (map snd (take j ?cs)) < ?used - q"
    using evict_loop_least[of ?cs 0 "?used - q" "[]"] by blast
  show thesis
  proof (rule that[of k])
    show "fst (evictions repo q db) = map af_id (take k ?cands)"
      using k(1) by (simp add: evictions_def select_size_quota_evictions_def ex take_map comp_def)
    show "bytes_of (drop k ?cands) \<le> q" using k(2) unfolding split by simp
    show "q < bytes_of (drop j ?cands)" if "j < k" for j using k(3) that unfolding split by fastforce
  qed
qed

lemma survivors_of_eviction:
  assumes "artifact_ids_unique db" and "ids = map af_id (take k (quota_candidates repo db))"
  shows "mset (filter (\<lambda>a. af_id a \<notin> set ids) (live_in repo db)) = mset (drop k (quota_candidates repo db))"
proof -
  have "mset (filter (\<lambda>a. af_id a \<notin> set ids) (live_in repo db)) =
        mset (filter (\<lambda>a. af_id a \<notin> set ids) (quota_candidates repo db))"
    by (simp add: quota_candidates_def)
  then show ?thesis
    using filter_not_taken[OF distinct_candidates[OF assms(1)], of k repo] assms(2) by simp
qed

lemma execute_policy_live:
  assumes "execute_policy en io now i False db = (Ok r, db')" and "get_lifecycle_policy io i db = Ok p"
  obtains db1 where "dispatch_execute en io now p False db = Ok (r, db1)" "db_artifacts db' = db_artifacts db1"
  using assms(2) by (rule_tac execute_policy_Ok[OF assms(1)]) (auto simp: note_run_def cascade_oci_tags_def)

lemma live_in_cong: "db_artifacts db = db_artifacts db' \<Longrightarrow> live_in repo db = live_in repo db'"
  by (simp add: live_in_def matching_def)

text \<open>C25: A run of a size quota brings the repository within its quota by removing as little as possible from the least recently used end: in the order of last download (never downloaded first, then by age), the artifacts that survive are all but the first k, where k is the least number that leaves no more bytes than the quota.\<close>

theorem size_quota_least_eviction:
  assumes "execute_policy en io now i False db = (Ok r, db')" and "get_lifecycle_policy io i db = Ok p"
    and "lp_policy_type p = ''size_quota_bytes''" and "lp_repository_id p = Some repo"
    and "parse_i64_field (lp_config p) ''size_quota_bytes'' ''quota_bytes'' = Ok q" and "0 \<le> q"
    and "artifact_ids_unique db" and "list_all (\<lambda>a. 0 \<le> af_size_bytes a) (live_in repo db)"
  shows "\<exists>k. mset (live_in repo db') = mset (drop k (quota_candidates repo db)) \<and> bytes_of (live_in repo db') \<le> q \<and>
             (\<forall>j<k. q < bytes_of (drop j (quota_candidates repo db)))"
proof -
  obtain db1 where d: "dispatch_execute en io now p False db = Ok (r, db1)" and arts: "db_artifacts db' = db_artifacts db1"
    by (rule execute_policy_live[OF assms(1,2)])
  have ex: "execute_size_quota io p False db = Ok (r, db1)"
    using d assms(3) by (simp add: dispatch_execute_def parse_policy_type_def)
  have big: "bytes_of (live_in repo db) < 2 ^ 63"
    using ex assms(4,5) by (auto simp: execute_size_quota_def to_bigint_def split: if_splits)
  have sw: "sweep_result False (\<lambda>a. af_repository_id a = repo \<and> q < bytes_of (live_in repo db) \<and>
      af_id a \<in> set (fst (evictions repo q db))) db r db1"
    using size_quota_sweeps[OF assms(7) ex] assms(4,5) by (metis Inr_inject option.inject)
  have live: "live_in repo db' = filter (\<lambda>a. \<not> (q < bytes_of (live_in repo db) \<and> af_id a \<in> set (fst (evictions repo q db)))) (live_in repo db)"
    unfolding live_in_cong[OF arts] using sw
    by (auto simp: sweep_result_def live_in_mark live_in_iff intro!: filter_cong)
  show ?thesis
  proof (cases "q < bytes_of (live_in repo db)")
    case False
    then have "live_in repo db' = live_in repo db" using live by simp
    then show ?thesis using False by (intro exI[of _ 0]) (simp add: quota_candidates_def)
  next
    case True
    obtain k where k: "fst (evictions repo q db) = map af_id (take k (quota_candidates repo db))"
        "bytes_of (drop k (quota_candidates repo db)) \<le> q" "\<And>j. j < k \<Longrightarrow> q < bytes_of (drop j (quota_candidates repo db))"
      using evictions_least[OF big assms(6) True assms(8)] by blast
    have "mset (live_in repo db') = mset (drop k (quota_candidates repo db))"
      using live True survivors_of_eviction[OF assms(7) k(1)] by simp
    then show ?thesis using k(2,3) bytes_of_perm by metis
  qed
qed

section \<open>Version limits\<close>

lemma versions_after_marking:
  "versions_of repo nm (mark_deleted sel db) = filter (\<lambda>a. \<not> sel a) (versions_of repo nm db)"
proof -
  have "filter (\<lambda>a. af_repository_id a = repo \<and> af_name a = nm \<and> \<not> af_is_deleted a) (map (soft_delete sel) rows) =
        filter (\<lambda>a. \<not> sel a) (filter (\<lambda>a. af_repository_id a = repo \<and> af_name a = nm \<and> \<not> af_is_deleted a) rows)" for rows
    by (induction rows) (auto simp: soft_delete_def)
  then show ?thesis by (simp add: versions_of_def desc.filter_sort_by)
qed

lemma versions_of_in:
  "a \<in> set (versions_of repo nm db) \<longleftrightarrow>
   a \<in> set (db_artifacts db) \<and> af_repository_id a = repo \<and> af_name a = nm \<and> \<not> af_is_deleted a"
  by (auto simp: versions_of_def)

lemma distinct_versions:
  assumes "artifact_ids_unique db"
  shows "distinct (map af_id (versions_of repo nm db))"
proof -
  let ?rows = "filter (\<lambda>a. af_repository_id a = repo \<and> af_name a = nm \<and> \<not> af_is_deleted a) (db_artifacts db)"
  have "mset (map af_id (versions_of repo nm db)) = mset (map af_id ?rows)" by (simp add: versions_of_def)
  moreover have "distinct (map af_id ?rows)" using assms by (simp add: artifact_ids_unique_def distinct_map_filter)
  ultimately show ?thesis by (metis mset_eq_imp_distinct_iff)
qed

lemma filter_taken:
  assumes "distinct (map f xs)"
  shows "filter (\<lambda>x. f x \<in> f ` set (take k xs)) xs = take k xs"
proof -
  have "f x \<notin> f ` set (take k xs)" if "x \<in> set (drop k xs)" for x
    using assms that by (metis IntI append_take_drop_id distinct_append empty_iff image_eqI map_append set_map)
  then have "filter (\<lambda>x. f x \<in> f ` set (take k xs)) (drop k xs) = []" by (simp add: filter_empty_conv)
  moreover have "filter (\<lambda>x. f x \<in> f ` set (take k xs)) (take k xs) = take k xs" by (simp add: filter_id_conv)
  ultimately show ?thesis by (metis (no_types, lifting) append_Nil2 append_take_drop_id filter_append)
qed


section \<open>Accepted policies can run\<close>

definition policy_accepted :: "engines \<Rightarrow> lifecycle_policy \<Rightarrow> bool" where
  "policy_accepted en p \<longleftrightarrow>
     lp_policy_type p \<in> set valid_types \<and>
     \<not> (lp_repository_id p = None \<and> policy_type_requires_repository_id (lp_policy_type p)) \<and>
     validate_policy_config en (lp_policy_type p) (lp_config p) = Ok ()"

definition policies_accepted :: "engines \<Rightarrow> artifact_db \<Rightarrow> bool" where
  "policies_accepted en db \<longleftrightarrow> list_all (policy_accepted en) (db_policies db)"

lemma create_accepted: "check_create en req = Ok () \<Longrightarrow> policy_accepted en (new_policy i now req)"
  by (auto simp: check_create_def policy_accepted_def new_policy_def split: if_splits)

lemma update_accepted:
  "policy_accepted en q \<Longrightarrow> check_update en (merge_update now req q) = Ok () \<Longrightarrow> policy_accepted en (merge_update now req q)"
  by (auto simp: check_update_def policy_accepted_def merge_update_def split: if_splits)

lemma get_policy_in: "get_lifecycle_policy io i db = Ok p \<Longrightarrow> p \<in> set (db_policies db)"
  by (auto simp: get_lifecycle_policy_def find_Some_iff split: option.splits)

lemma policies_accepted_simps [simp]:
  "policies_accepted en (mark_deleted sel db) = policies_accepted en db"
  "policies_accepted en (cascade_oci_tags f db) = policies_accepted en db"
  by (simp_all add: policies_accepted_def cascade_oci_tags_def)

lemma policy_accepted_run [simp]:
  "policy_accepted en (q\<lparr>lp_last_run_at := l, lp_last_run_items_removed := n\<rparr>) = policy_accepted en q"
  by (simp add: policy_accepted_def)

lemma policies_accepted_note_run [simp]: "policies_accepted en (note_run now i n db) = policies_accepted en db"
  by (simp add: policies_accepted_def note_run_def list.pred_map comp_def if_distrib[of "policy_accepted en"])

lemma execute_policy_accepted:
  "execute_policy en io now i dry db = (res, db') \<Longrightarrow> policies_accepted en' db' = policies_accepted en' db"
  by (auto simp: execute_policy_def split: sum.splits if_splits dest!: commit_sweep_marks commit_cascade_prunes)

lemma run_batch_accepted:
  "policies_accepted en' (snd (run_batch en ios now n ps acc)) = policies_accepted en' (snd acc)"
proof (induction ps arbitrary: n acc)
  case (Cons p ps)
  have "policies_accepted en' (snd (run_policy_into en (ios n) now p acc)) = policies_accepted en' (snd acc)"
    by (auto simp: run_policy_into_def split: prod.splits sum.splits dest: execute_policy_accepted)
  then show ?case using Cons.IH[of "n + 1" "run_policy_into en (ios n) now p acc"] by simp
qed simp

lemma lifecycle_step_accepted: "lifecycle_step en db db' \<Longrightarrow> policies_accepted en db \<Longrightarrow> policies_accepted en db'"
proof (induction rule: lifecycle_step.induct)
  case (create i db io now req res db')
  then show ?case using create_accepted
    by (auto simp: create_lifecycle_policy_def policies_accepted_def split: sum.splits)
next
  case (update io now i ureq db res db')
  have "policy_accepted en (merge_update now ureq q)"
    if "get_lifecycle_policy io i db = Ok q" "check_update en (merge_update now ureq q) = Ok ()" for q
    using get_policy_in[OF that(1)] update.prems that(2) update_accepted by (auto simp: policies_accepted_def list_all_iff)
  then show ?case using update
    by (auto simp: update_lifecycle_policy_def replace_policy_def policies_accepted_def list_all_iff Let_def split: sum.splits)
next
  case (delete io i db res' db')
  then show ?case
    by (auto simp: delete_lifecycle_policy_def policies_accepted_def list_all_iff split: option.splits if_splits)
next
  case (execute io now i dry db eres db')
  then show ?case using execute_policy_accepted by blast
next
  case (all_enabled io ios now db bres db')
  then show ?case using run_batch_accepted[of en en ios now 0 _ "([], db)"]
    by (auto simp: execute_all_enabled_def split: sum.splits prod.splits) (metis snd_conv)
next
  case (due io ios now db bres db')
  then show ?case using run_batch_accepted[of en en ios now 0 _ "([], db)"]
    by (auto simp: execute_due_policies_def split: sum.splits prod.splits) (metis snd_conv)
qed

interpretation accepted: stable "lifecycle_step en" "policies_accepted en"
  by unfold_locales (rule lifecycle_step_accepted)

text \<open>Every failure of an executor on an accepted policy is a failure of the database.\<close>

definition db_failure :: "app_error \<Rightarrow> bool" where
  "db_failure e = (case e of Database _ \<Rightarrow> True | _ \<Rightarrow> False)"

lemma run_stmt_Err: "run_stmt io s x = Err e \<Longrightarrow> db_failure e"
  by (auto simp: run_stmt_def db_failure_def split: option.splits)

lemma to_bigint_Err: "to_bigint n = Err e \<Longrightarrow> db_failure e"
  by (auto simp: to_bigint_def db_failure_def split: if_splits)

lemma cutoff_Err: "cutoff now d = Err e \<Longrightarrow> db_failure e"
  by (auto simp: cutoff_def db_failure_def Let_def split: if_splits)

lemma result_bind_Err: "result_bind r f = Err e \<longleftrightarrow> r = Err e \<or> (\<exists>x. r = Ok x \<and> f x = Err e)"
  by (cases r) auto

lemmas failures = run_stmt_Err to_bigint_Err cutoff_Err

lemma execute_matched_Err: "execute_matched io p dry sel db = Err e \<Longrightarrow> db_failure e"
  by (auto simp: execute_matched_def Let_def result_bind_Err dest: failures split: if_splits)

lemma positive_field_reads: "positive_field c t k = Ok () \<Longrightarrow> \<exists>n. parse_i64_field c t k = Ok n \<and> 0 < n"
  by (auto simp: positive_field_def read_positive_i64_def parse_i64_field_def split: option.splits if_splits)

lemma size_quota_Err:
  assumes "parse_i64_field (lp_config p) ''size_quota_bytes'' ''quota_bytes'' = Ok n" and "lp_repository_id p \<noteq> None"
    and "execute_size_quota io p dry db = Err e"
  shows "db_failure e"
  using assms by (auto simp: execute_size_quota_def Let_def result_bind_Err dest: failures split: if_splits prod.splits)

lemma valid_type_wire:
  assumes "s \<in> set valid_types"
  obtains t where "s = as_wire_str t"
proof -
  have "set valid_types = as_wire_str ` {MaxAgeDays, MaxVersions, NoDownloadsDays, TagPatternKeep, TagPatternDelete, SizeQuotaBytes}"
    by (simp add: valid_types_def)
  then show thesis using assms that by blast
qed

lemma dispatch_Err:
  assumes "policy_accepted en p" and "dispatch_execute en io now p dry db = Err e"
  shows "db_failure e"
proof -
  obtain t where t: "lp_policy_type p = as_wire_str t"
    using assms(1) valid_type_wire by (auto simp: policy_accepted_def)
  have valid: "validate_policy_config en (as_wire_str t) (lp_config p) = Ok ()"
    and repo: "policy_type_requires_repository_id (as_wire_str t) \<Longrightarrow> lp_repository_id p \<noteq> None"
    using assms(1) t by (auto simp: policy_accepted_def)
  have ex: "(case t of MaxAgeDays \<Rightarrow> execute_max_age io now p dry db | MaxVersions \<Rightarrow> execute_max_versions io p dry db
       | NoDownloadsDays \<Rightarrow> execute_no_downloads io now p dry db | TagPatternKeep \<Rightarrow> execute_tag_pattern_keep en io p dry db
       | TagPatternDelete \<Rightarrow> execute_tag_pattern_delete en io p dry db | SizeQuotaBytes \<Rightarrow> execute_size_quota io p dry db) = Err e"
    using assms(2) t by (simp add: dispatch_execute_def)
  have tag: "db_failure e" if "execute_tag_pattern en io p dry s op db = Err e" for s op
    using that execute_matched_Err by (cases "pg_regex en s") (auto simp: execute_tag_pattern_def db_failure_def)
  show ?thesis
  proof (cases t)
    case SizeQuotaBytes
    then show ?thesis using valid repo ex
      by (auto simp: validate_policy_config_def policy_type_requires_repository_id_def dest!: positive_field_reads intro: size_quota_Err)
  next
    case MaxVersions
    then show ?thesis using valid repo ex
      by (auto simp: validate_policy_config_def policy_type_requires_repository_id_def execute_max_versions_def db_failure_def
          dest!: positive_field_reads execute_matched_Err split: if_splits)
  qed (use valid ex in \<open>auto simp: validate_policy_config_def execute_max_age_def execute_no_downloads_def
        execute_tag_pattern_keep_def execute_tag_pattern_delete_def parse_pattern_field_def result_bind_Err
        dest!: positive_field_reads dest: execute_matched_Err failures tag split: option.splits\<close>)
qed

text \<open>Every policy that the service accepted can run: after any sequence of operations from a state whose policies passed validation, an execution (or its preview) fails only because the policy is not there, because it is disabled, or because the database failed; a malformed configuration or a missing repository is never met at run time.\<close>

lemma accepted_policy_runs:
  assumes "(lifecycle_step en)\<^sup>*\<^sup>* db db1" and "policies_accepted en db" and "execute_policy en io now i dry db1 = (Err e, db')"
  shows "e = NotFound ''Lifecycle policy not found'' \<or> e = Validation ''Cannot execute a disabled policy'' \<or> (\<exists>m. e = Database m)"
proof -
  have acc: "policies_accepted en db1" using assms(1,2) by (rule accepted.good_run)
  have get: "e' = NotFound ''Lifecycle policy not found'' \<or> db_failure e'" if "get_lifecycle_policy io i db1 = Err e'" for e'
    using that by (auto simp: get_lifecycle_policy_def result_bind_Err dest: failures split: option.splits)
  have casc: "db_failure e'" if "commit_cascade io p d = Err e'" for p d e'
    using that by (auto simp: commit_cascade_def cascade_oci_tags_cleanup_tx_def result_bind_Err dest: failures split: prod.splits)
  have "e = NotFound ''Lifecycle policy not found'' \<or> e = Validation ''Cannot execute a disabled policy'' \<or> db_failure e"
  proof (cases "get_lifecycle_policy io i db1")
    case (Inr p)
    have "policy_accepted en p" using get_policy_in[OF Inr] acc by (simp add: policies_accepted_def list_all_iff)
    note disp_p = dispatch_Err[OF this]
    show ?thesis using assms(3) Inr
      by (auto simp: execute_policy_def commit_sweep_def result_bind_Err
          split: sum.splits if_splits dest: disp_p casc failures)
  qed (use assms(3) get in \<open>auto simp: execute_policy_def\<close>)
  then show ?thesis by (cases e) (auto simp: db_failure_def)
qed

section \<open>Limits that do not limit\<close>

text \<open>
  The number of days is validated as a 64-bit integer and cast to 32 bits when the policy runs: a
  policy for 4294967296 days is accepted, and its cutoff is the present.
\<close>

lemma max_age_days_wrap:
  "validate_policy_config en ''max_age_days'' (JObject [(''days'', JPosInt 4294967296)]) = Ok () \<and>
   parse_i64_field (JObject [(''days'', JPosInt 4294967296)]) ''max_age_days'' ''days'' = Ok 4294967296 \<and>
   (- 210866803200000 \<le> now \<longrightarrow> now < 9224318016000000 \<longrightarrow> cutoff now 4294967296 = Ok now)"
  by (simp add: validate_policy_config_def positive_field_def read_positive_i64_def read_i64_def get_i64_def
      parse_i64_field_def cutoff_def wrap_i32_def DAY_MS_def)

text \<open>A limit of zero is not a run without effect: it selects every live artifact of the repository.\<close>

lemma keep_zero_selects_all:
  assumes "lp_policy_type p = ''max_versions''" and "parse_i64_field (lp_config p) ''max_versions'' ''keep'' = Ok 0"
  shows "selects en now p db a \<longleftrightarrow> in_filter (lp_repository_id p) (af_repository_id a)"
  using assms by (simp add: selects_def parse_policy_type_def kept_versions_def)

section \<open>A small registry\<close>

definition no_faults :: faults where "no_faults = (\<lambda>_. None)"

definition demo_engines :: engines where
  "demo_engines = \<lparr>regex_new = (\<lambda>_. Inr ()), pg_regex = (\<lambda>pat. Inr (\<lambda>nm. nm = pat)), cron_after = (\<lambda>_. None)\<rparr>"

definition demo_manifest :: "nat \<Rightarrow> string \<Rightarrow> string \<Rightarrow> int \<Rightarrow> stored_artifact" where
  "demo_manifest i tg digest created =
     \<lparr>af_id = i, af_repository_id = 1, af_name = ''img'', af_path = ''v2/img/manifests/'' @ tg, af_version = Some tg,
      af_storage_key = ''oci-manifests/'' @ digest, af_size_bytes = 60, af_created_at = created, af_is_deleted = False\<rparr>"

definition demo_tag :: "nat \<Rightarrow> string \<Rightarrow> string \<Rightarrow> oci_tag" where
  "demo_tag i tg digest =
     \<lparr>ot_id = i, ot_repository_id = 1, ot_name = ''img'', ot_tag = tg, ot_manifest_digest = digest\<rparr>"

definition demo_retention :: "nat \<Rightarrow> string \<Rightarrow> string \<Rightarrow> 64 word \<Rightarrow> lifecycle_policy" where
  "demo_retention i t k n =
     \<lparr>lp_id = i, lp_repository_id = Some 1, lp_name = t, lp_description = None, lp_enabled = True, lp_policy_type = t,
      lp_config = JObject [(k, JPosInt n)], lp_priority = 0, lp_last_run_at = None, lp_last_run_items_removed = Some 0,
      lp_cron_schedule = None, lp_created_at = 0, lp_updated_at = 0\<rparr>"

definition demo_registry :: artifact_db where
  "demo_registry =
     \<lparr>db_artifacts = [demo_manifest 1 ''v1'' ''d1'' 10, demo_manifest 2 ''v2'' ''d1'' 20, demo_manifest 3 ''v3'' ''d2'' 30],
      db_tags = [demo_tag 1 ''v1'' ''d1'', demo_tag 2 ''v2'' ''d1'', demo_tag 3 ''v3'' ''d2''],
      db_downloads = [(1, 50)], db_policies = [demo_retention 1 ''max_versions'' ''keep'' 1, demo_retention 2 ''size_quota_bytes'' ''quota_bytes'' 100],
      db_repositories = [\<lparr>rr_id = 1, rr_storage_backend = ''s3'', rr_storage_path = ''/data''\<rparr>],
      db_blobs = [], db_manifest_refs = [], db_blob_refs = [], db_approvals = []\<rparr>"

definition demo_run :: "nat \<Rightarrow> execution_result app_result \<times> artifact_db" where
  "demo_run i = execute_policy demo_engines no_faults 1000 i False demo_registry"

lemma demo_run_ok: "is_ok (fst (demo_run 1))" "is_ok (fst (demo_run 2))"
  by code_simp+

lemma is_ok_projr: "is_ok r \<Longrightarrow> r = Ok (projr r)"
  by (cases r) simp_all

lemma demo_executes:
  "execute_policy demo_engines no_faults 1000 1 False demo_registry = (Ok (projr (fst (demo_run 1))), snd (demo_run 1))"
  "execute_policy demo_engines no_faults 1000 2 False demo_registry = (Ok (projr (fst (demo_run 2))), snd (demo_run 2))"
  using demo_run_ok[THEN is_ok_projr] unfolding demo_run_def by (metis prod.collapse)+

lemma demo_facts:
  "artifact_ids_unique demo_registry" "policies_accepted demo_engines demo_registry"
  "get_lifecycle_policy no_faults 1 demo_registry = Ok (demo_retention 1 ''max_versions'' ''keep'' 1)"
  "get_lifecycle_policy no_faults 2 demo_registry = Ok (demo_retention 2 ''size_quota_bytes'' ''quota_bytes'' 100)"
  "parse_i64_field (lp_config (demo_retention 1 ''max_versions'' ''keep'' 1)) ''max_versions'' ''keep'' = Ok 1"
  "parse_i64_field (lp_config (demo_retention 2 ''size_quota_bytes'' ''quota_bytes'' 100)) ''size_quota_bytes'' ''quota_bytes'' = Ok 100"
  "list_all (\<lambda>a. 0 \<le> af_size_bytes a) (live_in 1 demo_registry)"
  by code_simp+

theorem dry_run_predicts_run_witness:
  "execute_policy demo_engines no_faults 1000 1 True demo_registry = (Ok (as_preview (projr (fst (demo_run 1)))), demo_registry)"
  using dry_run_predicts_run[OF demo_executes(1)] demo_facts(1) by (simp add: no_faults_def)

theorem retention_never_orphans_image_witness: "tagged 1 ''d1'' (snd (demo_run 1))"
proof -
  have "lifecycle_step demo_engines demo_registry (snd (demo_run 1))"
    by (rule lifecycle_step.execute[OF demo_executes(1)])
  moreover have "tagged 1 ''d1'' demo_registry" by code_simp
  ultimately show ?thesis using retention_never_orphans_image by blast
qed

lemma run_confined_to_repository_witness:
  "filter (\<lambda>a. af_repository_id a \<noteq> 1) (db_artifacts (snd (demo_run 1))) = filter (\<lambda>a. af_repository_id a \<noteq> 1) (db_artifacts demo_registry)"
  using run_confined_to_repository[OF demo_facts(1,3) _ demo_executes(1), of 1] by (simp add: demo_retention_def)

theorem size_quota_least_eviction_witness: "bytes_of (live_in 1 (snd (demo_run 2))) \<le> 100"
  using size_quota_least_eviction[OF demo_executes(2) demo_facts(4) _ _ demo_facts(6) _ demo_facts(1,7)]
  by (auto simp: demo_retention_def)


lemma accepted_policy_runs_witness:
  "\<exists>e. execute_policy demo_engines no_faults 1000 7 False demo_registry = (Err e, demo_registry) \<and>
       (e = NotFound ''Lifecycle policy not found'' \<or> e = Validation ''Cannot execute a disabled policy'' \<or> (\<exists>m. e = Database m))"
proof -
  have run: "execute_policy demo_engines no_faults 1000 7 False demo_registry = (Err (NotFound ''Lifecycle policy not found''), demo_registry)"
    by code_simp
  show ?thesis using accepted_policy_runs[OF rtranclp.rtrancl_refl demo_facts(2) run] run by blast
qed

end
