(* ===== verification/Storage_Gc.thy ===== *)
theory Storage_Gc
  imports Lifecycle_Run
begin

text \<open>
  Reclaiming of storage (\<open>services/storage_gc_service.rs\<close>): the predicate that makes a storage key an
  orphan, the sweep over orphaned keys with its locked re-check, the deletion of the row-less Maven
  checksum files that goes with a key, and the two-phase collection of image layers. The state is the
  database and the set of stored objects; deleting an object is not part of a transaction, so a failure
  after it leaves the object gone and the rows as they were. Any statement and any deletion may fail.
\<close>

section \<open>State\<close>

text \<open>
  A cloud backend is one bucket for all its repositories; a filesystem repository has its own root.
\<close>

type_synonym store = "string \<times> string"

record gc_world =
  gw_db :: artifact_db
  gw_objects :: "(store \<times> string) list"
  gw_owners :: "(string \<times> string) list"

record gc_result =
  gr_dry_run :: bool
  gr_storage_keys_deleted :: int
  gr_artifacts_removed :: int
  gr_bytes_freed :: int
  gr_errors :: "string list"

text \<open>
  The registered cloud backends, and how the database driver reads a \<open>NUMERIC\<close> column as a 64-bit
  integer (it may refuse).
\<close>

record gc_env =
  ge_backends :: "string list"
  ge_numeric :: "int \<Rightarrow> int option"

datatype gc_statement =
    GcScan | GcBegin | GcRecheck | GcApprovals | GcHardDelete | GcSidecarQuery | GcOwners | GcCommit
  | GcPrune | GcMark | GcDeleteBlob

text \<open>The faults of one key: a failing statement with its message, and the error of a deletion by key.\<close>

record gc_faults =
  gf_statement :: "gc_statement \<Rightarrow> string option"
  gf_delete :: "string \<Rightarrow> app_error option"

definition backend_for :: "gc_env \<Rightarrow> string \<Rightarrow> string \<Rightarrow> store app_result" where
  "backend_for env backend path =
     (if backend = ''filesystem'' then Ok (backend, path)
      else if backend \<in> set (ge_backends env) then Ok (backend, [])
      else Err (Storage (''storage backend '' @ in_quotes backend @ '' is not registered'')))"

definition backend_is_repo_isolated :: "string \<Rightarrow> bool" where
  "backend_is_repo_isolated backend \<longleftrightarrow> backend = ''filesystem''"

definition store_of :: "repository_row \<Rightarrow> store" where
  "store_of r = (rr_storage_backend r, if backend_is_repo_isolated (rr_storage_backend r) then rr_storage_path r else [])"

definition empty_gc_result :: "bool \<Rightarrow> gc_result" where
  "empty_gc_result dry =
     \<lparr>gr_dry_run = dry, gr_storage_keys_deleted = 0, gr_artifacts_removed = 0, gr_bytes_freed = 0, gr_errors = []\<rparr>"

definition accumulate_dry_run :: "gc_result \<Rightarrow> int \<Rightarrow> int \<Rightarrow> gc_result" where
  "accumulate_dry_run r bytes cnt =
     r\<lparr>gr_storage_keys_deleted := wrap_i64 (gr_storage_keys_deleted r + 1),
       gr_artifacts_removed := wrap_i64 (gr_artifacts_removed r + cnt),
       gr_bytes_freed := wrap_i64 (gr_bytes_freed r + bytes)\<rparr>"

definition record_gc_success :: "gc_result \<Rightarrow> int \<Rightarrow> int \<Rightarrow> gc_result" where
  "record_gc_success r bytes cnt =
     r\<lparr>gr_storage_keys_deleted := wrap_i64 (gr_storage_keys_deleted r + 1),
       gr_artifacts_removed := wrap_i64 (gr_artifacts_removed r + cnt),
       gr_bytes_freed := wrap_i64 (gr_bytes_freed r + bytes)\<rparr>"

definition format_gc_error :: "string \<Rightarrow> string \<Rightarrow> string \<Rightarrow> string" where
  "format_gc_error operation key e = ''Failed to '' @ operation @ '' for key '' @ key @ '': '' @ e"

definition push_error :: "string \<Rightarrow> gc_result \<Rightarrow> gc_result" where
  "push_error m r = r\<lparr>gr_errors := gr_errors r @ [m]\<rparr>"

section \<open>The orphan predicate\<close>

text \<open>Scope of a reference: same backend, and on a filesystem the same root.\<close>

definition same_store :: "repository_row \<Rightarrow> repository_row \<Rightarrow> bool" where
  "same_store x r \<longleftrightarrow>
     rr_storage_backend x = rr_storage_backend r \<and>
     (rr_storage_backend r \<noteq> ''filesystem'' \<or> rr_storage_path x = rr_storage_path r)"

text \<open>A row of a repository in the scope of \<open>r\<close>, as the joins with \<open>repositories\<close> have it.\<close>

definition in_scope :: "artifact_db \<Rightarrow> repository_row \<Rightarrow> nat \<Rightarrow> bool" where
  "in_scope db r repo \<longleftrightarrow> list_ex (\<lambda>x. rr_id x = repo \<and> same_store x r) (db_repositories db)"

definition manifest_key :: "string \<Rightarrow> string" where
  "manifest_key digest = OCI_MANIFEST_STORAGE_PREFIX @ digest"

definition blob_key :: "string \<Rightarrow> string" where
  "blob_key digest = ''oci-blobs/'' @ digest"

definition orphan :: "artifact_db \<Rightarrow> repository_row \<Rightarrow> stored_artifact \<Rightarrow> bool" where
  "orphan db r a \<longleftrightarrow>
     af_is_deleted a \<and>
     \<not> list_ex (\<lambda>a2. af_storage_key a2 = af_storage_key a \<and> \<not> af_is_deleted a2) (db_artifacts db) \<and>
     \<not> list_ex (\<lambda>t. af_storage_key a = manifest_key (ot_manifest_digest t) \<and> in_scope db r (ot_repository_id t)) (db_tags db) \<and>
     \<not> list_ex (\<lambda>b. af_storage_key a = blob_key (ob_digest b) \<and> in_scope db r (ob_repository_id b)) (db_blobs db) \<and>
     \<not> list_ex (\<lambda>m. af_storage_key a = manifest_key (omr_child_digest m) \<and> in_scope db r (omr_repository_id m) \<and>
          list_ex (\<lambda>t. ot_repository_id t = omr_repository_id m \<and> ot_manifest_digest t = omr_parent_digest m) (db_tags db))
        (db_manifest_refs db)"

text \<open>The artifacts with their repositories.\<close>

definition joined :: "artifact_db \<Rightarrow> (stored_artifact \<times> repository_row) list" where
  "joined db = [(a, r). a \<leftarrow> db_artifacts db, r \<leftarrow> db_repositories db, rr_id r = af_repository_id a]"

record orphan_group =
  og_key :: string
  og_backend :: string
  og_path :: string
  og_bytes :: int
  og_count :: int

definition group_key :: "stored_artifact \<times> repository_row \<Rightarrow> string \<times> string \<times> string" where
  "group_key x = (af_storage_key (fst x), rr_storage_backend (snd x), rr_storage_path (snd x))"

text \<open>\<open>SUM\<close> of a \<open>BIGINT\<close> column is a \<open>NUMERIC\<close>; a total that does not decode counts as zero.\<close>

definition select_orphans :: "gc_env \<Rightarrow> artifact_db \<Rightarrow> orphan_group list" where
  "select_orphans env db =
     (let rows = filter (\<lambda>(a, r). orphan db r a) (joined db)
      in map (\<lambda>(k, b, p).
               let grp = filter (\<lambda>x. group_key x = (k, b, p)) rows
               in \<lparr>og_key = k, og_backend = b, og_path = p,
                   og_bytes = unwrap_or (ge_numeric env (bytes_of (map fst grp))) 0,
                   og_count = int (length grp)\<rparr>)
           (remdups (map group_key rows)))"

text \<open>The re-check: all rows of the key in the scope of the location, and there is one.\<close>

definition located :: "artifact_db \<Rightarrow> string \<Rightarrow> string \<Rightarrow> string \<Rightarrow> (stored_artifact \<times> repository_row) list" where
  "located db key backend path =
     filter (\<lambda>(a, r). af_storage_key a = key \<and> rr_storage_backend r = backend \<and>
                      (rr_storage_backend r \<noteq> ''filesystem'' \<or> rr_storage_path r = path)) (joined db)"

definition is_still_orphan :: "artifact_db \<Rightarrow> string \<Rightarrow> string \<Rightarrow> string \<Rightarrow> bool" where
  "is_still_orphan db key backend path \<longleftrightarrow>
     located db key backend path \<noteq> [] \<and> list_all (\<lambda>(a, r). orphan db r a) (located db key backend path)"

section \<open>Deleting objects and rows\<close>

text \<open>An absent object counts as deleted.\<close>

definition storage_delete :: "gc_faults \<Rightarrow> store \<Rightarrow> string \<Rightarrow> gc_world \<Rightarrow> unit app_result \<times> gc_world" where
  "storage_delete io st key w =
     (case gf_delete io key of
        Some e \<Rightarrow> (Err e, w)
      | None \<Rightarrow> if (st, key) \<in> set (gw_objects w)
                then (Ok (), w\<lparr>gw_objects := filter (\<lambda>x. x \<noteq> (st, key)) (gw_objects w)\<rparr>)
                else (Err (NotFound key), w))"

definition delete_tolerant :: "gc_faults \<Rightarrow> store \<Rightarrow> string \<Rightarrow> gc_world \<Rightarrow> unit app_result \<times> gc_world" where
  "delete_tolerant io st key w =
     (case storage_delete io st key w of
        (Inl (NotFound _), w') \<Rightarrow> (Ok (), w')
      | (res, w') \<Rightarrow> (res, w'))"

definition delete_approvals :: "string \<Rightarrow> artifact_db \<Rightarrow> artifact_db" where
  "delete_approvals key db =
     db\<lparr>db_approvals := filter (\<lambda>i. \<not> list_ex (\<lambda>a. af_id a = i \<and> af_storage_key a = key \<and> af_is_deleted a) (db_artifacts db))
                         (db_approvals db)\<rparr>"

definition hard_delete :: "string \<Rightarrow> artifact_db \<Rightarrow> artifact_db" where
  "hard_delete key db =
     db\<lparr>db_artifacts := filter (\<lambda>a. \<not> (af_storage_key a = key \<and> af_is_deleted a)) (db_artifacts db)\<rparr>"

definition MAVEN_FLAT_KEY_PREFIX :: string where "MAVEN_FLAT_KEY_PREFIX = ''maven/''"

definition MAVEN_SIDECAR_SUFFIXES :: "string list" where
  "MAVEN_SIDECAR_SUFFIXES = [''.md5'', ''.sha1'', ''.sha256'', ''.sha512'']"

definition row_backed :: "artifact_db \<Rightarrow> string \<Rightarrow> string \<Rightarrow> bool" where
  "row_backed db key backend \<longleftrightarrow>
     list_ex (\<lambda>(a, r). af_storage_key a = key \<and> rr_storage_backend r = backend) (joined db)"

text \<open>The transaction's view of the database is an argument; objects go at once.\<close>

fun sidecar_loop ::
  "gc_faults \<Rightarrow> artifact_db \<Rightarrow> store \<Rightarrow> string \<Rightarrow> string \<Rightarrow> string list \<Rightarrow> string list \<Rightarrow> gc_world \<Rightarrow> string list app_result \<times> gc_world" where
  "sidecar_loop io db st backend key [] keys w = (Ok keys, w)"
| "sidecar_loop io db st backend key (ext # rest) keys w =
     (case gf_statement io GcSidecarQuery of
        Some e \<Rightarrow> (Err (Database e), w)
      | None \<Rightarrow>
          if row_backed db (key @ ext) backend then sidecar_loop io db st backend key rest keys w
          else case delete_tolerant io st (key @ ext) w of
                 (Inl e, w') \<Rightarrow> (Err e, w')
               | (Inr _, w') \<Rightarrow> sidecar_loop io db st backend key rest (keys @ [key @ ext]) w')"

definition reclaim_maven_sidecars ::
  "gc_faults \<Rightarrow> artifact_db \<Rightarrow> store \<Rightarrow> string \<Rightarrow> string \<Rightarrow> gc_world \<Rightarrow> string list app_result \<times> gc_world" where
  "reclaim_maven_sidecars io db st key backend w =
     (if \<not> starts_with MAVEN_FLAT_KEY_PREFIX key then (Ok [], w)
      else case sidecar_loop io db st backend key MAVEN_SIDECAR_SUFFIXES [key] w of
             (Inl e, w') \<Rightarrow> (Err e, w')
           | (Inr keys, w') \<Rightarrow>
               (case gf_statement io GcOwners of
                  Some e \<Rightarrow> (Err (Database e), w')
                | None \<Rightarrow> (Ok keys, w')))"

definition drop_owners :: "string \<Rightarrow> string list \<Rightarrow> (string \<times> string) list \<Rightarrow> (string \<times> string) list" where
  "drop_owners backend keys owners = filter (\<lambda>(b, k). \<not> (b = backend \<and> k \<in> set keys)) owners"

section \<open>The sweep over orphaned keys\<close>

text \<open>
  One key: resolve the store, open a transaction, re-check, delete the object, delete the rows, delete
  the checksum files, commit. A failure rolls the rows back and is reported; the objects that were
  deleted stay deleted.
\<close>

definition gc_commit :: "gc_faults \<Rightarrow> artifact_db \<Rightarrow> orphan_group \<Rightarrow> string list \<Rightarrow> gc_world \<Rightarrow> string option \<times> gc_world" where
  "gc_commit io db' g keys w =
     (case gf_statement io GcCommit of
        Some e \<Rightarrow> (Some (format_gc_error ''commit gc tx'' (og_key g) e), w)
      | None \<Rightarrow> (None, w\<lparr>gw_db := db', gw_owners := drop_owners (og_backend g) keys (gw_owners w)\<rparr>))"

definition gc_rows :: "gc_faults \<Rightarrow> store \<Rightarrow> orphan_group \<Rightarrow> gc_world \<Rightarrow> string option \<times> gc_world" where
  "gc_rows io st g w =
     (case gf_statement io GcApprovals of
        Some e \<Rightarrow> (Some (format_gc_error ''delete promotion_approvals'' (og_key g) e), w)
      | None \<Rightarrow>
          (case gf_statement io GcHardDelete of
             Some e \<Rightarrow> (Some (format_gc_error ''hard-delete artifacts'' (og_key g) e), w)
           | None \<Rightarrow>
               let db' = hard_delete (og_key g) (delete_approvals (og_key g) (gw_db w))
               in case reclaim_maven_sidecars io db' st (og_key g) (og_backend g) w of
                    (Inl e, w') \<Rightarrow> (Some (format_gc_error ''delete maven sidecars'' (og_key g) (error_text e)), w')
                  | (Inr keys, w') \<Rightarrow> gc_commit io db' g keys w'))"

datatype gc_outcome = Skipped | Reported string | Reclaimed

definition outcome_of :: "string option \<Rightarrow> gc_outcome" where
  "outcome_of r = (case r of None \<Rightarrow> Reclaimed | Some m \<Rightarrow> Reported m)"

definition gc_key :: "gc_env \<Rightarrow> gc_faults \<Rightarrow> orphan_group \<Rightarrow> gc_world \<Rightarrow> gc_outcome \<times> gc_world" where
  "gc_key env io g w =
     (case backend_for env (og_backend g) (og_path g) of
        Inl e \<Rightarrow> (Reported (format_gc_error ''resolve storage'' (og_key g) (error_text e)), w)
      | Inr st \<Rightarrow>
          (case gf_statement io GcBegin of
             Some e \<Rightarrow> (Reported (format_gc_error ''begin gc tx'' (og_key g) e), w)
           | None \<Rightarrow>
               (case gf_statement io GcRecheck of
                  Some e \<Rightarrow> (Reported (format_gc_error ''re-check orphan'' (og_key g) e), w)
                | None \<Rightarrow>
                    if \<not> is_still_orphan (gw_db w) (og_key g) (og_backend g) (og_path g) then (Skipped, w)
                    else case delete_tolerant io st (og_key g) w of
                           (Inl e, w') \<Rightarrow> (Reported (format_gc_error ''delete storage key'' (og_key g) (error_text e)), w')
                         | (Inr _, w') \<Rightarrow> (case gc_rows io st g w' of (r, w'') \<Rightarrow> (outcome_of r, w'')))))"

definition tally :: "gc_outcome \<Rightarrow> int \<Rightarrow> int \<Rightarrow> gc_result \<Rightarrow> gc_result" where
  "tally o' bytes cnt r =
     (case o' of Skipped \<Rightarrow> r | Reported m \<Rightarrow> push_error m r | Reclaimed \<Rightarrow> record_gc_success r bytes cnt)"

fun gc_loop :: "gc_env \<Rightarrow> (nat \<Rightarrow> gc_faults) \<Rightarrow> nat \<Rightarrow> orphan_group list \<Rightarrow> gc_result \<times> gc_world \<Rightarrow> gc_result \<times> gc_world" where
  "gc_loop env ios n [] acc = acc"
| "gc_loop env ios n (g # gs) acc =
     (case gc_key env (ios n) g (snd acc) of
        (o', w') \<Rightarrow> gc_loop env ios (n + 1) gs (tally o' (og_bytes g) (og_count g) (fst acc), w'))"

text \<open>The first part of \<open>run_gc\<close>: the sweep over the orphaned keys of the artifact table.\<close>

definition run_gc_orphans :: "gc_env \<Rightarrow> gc_faults \<Rightarrow> (nat \<Rightarrow> gc_faults) \<Rightarrow> bool \<Rightarrow> gc_world \<Rightarrow> gc_result app_result \<times> gc_world" where
  "run_gc_orphans env io ios dry w =
     (case gf_statement io GcScan of
        Some e \<Rightarrow> (Err (Database e), w)
      | None \<Rightarrow>
          let orphans = select_orphans env (gw_db w)
          in if dry then (Ok (fold (\<lambda>g r. accumulate_dry_run r (og_bytes g) (og_count g)) orphans (empty_gc_result dry)), w)
             else case gc_loop env ios 0 orphans (empty_gc_result dry, w) of (r, w') \<Rightarrow> (Ok r, w'))"

section \<open>Image layers\<close>

definition MIN_BLOB_AGE_SECS :: int where "MIN_BLOB_AGE_SECS = 24 * 60 * 60"

definition blob_protected :: "artifact_db \<Rightarrow> repository_row \<Rightarrow> oci_blob \<Rightarrow> bool" where
  "blob_protected db r b \<longleftrightarrow>
     list_ex (\<lambda>m. mbr_blob_digest m = ob_digest b \<and> in_scope db r (mbr_repository_id m)) (db_blob_refs db)"

definition joined_blobs :: "artifact_db \<Rightarrow> (oci_blob \<times> repository_row) list" where
  "joined_blobs db = [(b, r). b \<leftarrow> db_blobs db, r \<leftarrow> db_repositories db, rr_id r = ob_repository_id b]"

definition select_orphan_blobs :: "int \<Rightarrow> artifact_db \<Rightarrow> (oci_blob \<times> repository_row) list" where
  "select_orphan_blobs now db =
     filter (\<lambda>(b, r). ob_created_at b < now - MIN_BLOB_AGE_SECS * 1000 \<and> \<not> blob_protected db r b) (joined_blobs db)"

definition select_pending_delete_blobs :: "int \<Rightarrow> int \<Rightarrow> artifact_db \<Rightarrow> (oci_blob \<times> repository_row) list" where
  "select_pending_delete_blobs now grace db =
     filter (\<lambda>(b, r). (case ob_pending_delete_at b of None \<Rightarrow> False | Some t \<Rightarrow> t < now - grace * 1000) \<and>
                      \<not> blob_protected db r b) (joined_blobs db)"

definition is_blob_still_orphan :: "artifact_db \<Rightarrow> nat \<Rightarrow> string \<Rightarrow> bool \<Rightarrow> bool" where
  "is_blob_still_orphan db repo digest require_mark \<longleftrightarrow>
     (let rows = filter (\<lambda>(b, r). ob_repository_id b = repo \<and> ob_digest b = digest \<and>
                                  (\<not> require_mark \<or> ob_pending_delete_at b \<noteq> None)) (joined_blobs db)
      in rows \<noteq> [] \<and> list_all (\<lambda>(b, r). \<not> blob_protected db r b) rows)"

text \<open>References of manifests that are neither tagged nor a part of a tagged index.\<close>

definition manifest_live :: "artifact_db \<Rightarrow> nat \<Rightarrow> string \<Rightarrow> bool" where
  "manifest_live db repo digest \<longleftrightarrow>
     list_ex (\<lambda>t. ot_repository_id t = repo \<and> ot_manifest_digest t = digest) (db_tags db) \<or>
     list_ex (\<lambda>m. omr_repository_id m = repo \<and> omr_child_digest m = digest \<and>
                  list_ex (\<lambda>t. ot_repository_id t = repo \<and> ot_manifest_digest t = omr_parent_digest m) (db_tags db))
       (db_manifest_refs db)"

definition prune_orphan_blob_refs :: "artifact_db \<Rightarrow> artifact_db" where
  "prune_orphan_blob_refs db =
     db\<lparr>db_blob_refs := filter (\<lambda>m. manifest_live db (mbr_repository_id m) (mbr_manifest_digest m)) (db_blob_refs db)\<rparr>"

definition stamp_blob :: "int \<Rightarrow> nat \<Rightarrow> string \<Rightarrow> artifact_db \<Rightarrow> artifact_db" where
  "stamp_blob now repo digest db =
     db\<lparr>db_blobs := map (\<lambda>b. if ob_repository_id b = repo \<and> ob_digest b = digest \<and> ob_pending_delete_at b = None
                            then b\<lparr>ob_pending_delete_at := Some now\<rparr> else b) (db_blobs db)\<rparr>"

definition unmarked :: "nat \<Rightarrow> string \<Rightarrow> artifact_db \<Rightarrow> bool" where
  "unmarked repo digest db \<longleftrightarrow>
     list_ex (\<lambda>b. ob_repository_id b = repo \<and> ob_digest b = digest \<and> ob_pending_delete_at b = None) (db_blobs db)"

text \<open>Phase A for one candidate; a blob that was marked before is committed but not counted.\<close>

definition mark_blob :: "gc_faults \<Rightarrow> int \<Rightarrow> oci_blob \<Rightarrow> gc_world \<Rightarrow> gc_outcome \<times> gc_world" where
  "mark_blob io now b w =
     (let key = ob_storage_key b; repo = ob_repository_id b; digest = ob_digest b; db = gw_db w
      in case gf_statement io GcBegin of
           Some e \<Rightarrow> (Reported (format_gc_error ''begin blob gc mark tx'' key e), w)
         | None \<Rightarrow>
             (case gf_statement io GcRecheck of
                Some e \<Rightarrow> (Reported (format_gc_error ''re-check blob orphan'' key e), w)
              | None \<Rightarrow>
                  if \<not> is_blob_still_orphan db repo digest False then (Skipped, w)
                  else case gf_statement io GcMark of
                         Some e \<Rightarrow> (Reported (format_gc_error ''mark blob pending delete'' key e), w)
                       | None \<Rightarrow>
                           (case gf_statement io GcCommit of
                              Some e \<Rightarrow> (Reported (format_gc_error ''commit blob gc mark tx'' key e), w)
                            | None \<Rightarrow> (if unmarked repo digest db then Reclaimed else Skipped,
                                       w\<lparr>gw_db := stamp_blob now repo digest db\<rparr>))))"

definition remove_blob_row :: "nat \<Rightarrow> string \<Rightarrow> artifact_db \<Rightarrow> artifact_db" where
  "remove_blob_row repo digest db =
     db\<lparr>db_blobs := filter (\<lambda>b. \<not> (ob_repository_id b = repo \<and> ob_digest b = digest \<and> ob_pending_delete_at b \<noteq> None)) (db_blobs db)\<rparr>"

text \<open>Phase B for one candidate: the object first, then the row, under the same lock.\<close>

definition sweep_blob :: "gc_env \<Rightarrow> gc_faults \<Rightarrow> oci_blob \<times> repository_row \<Rightarrow> gc_world \<Rightarrow> gc_outcome \<times> gc_world" where
  "sweep_blob env io c w =
     (let b = fst c; key = ob_storage_key b; repo = ob_repository_id b; digest = ob_digest b
      in case backend_for env (rr_storage_backend (snd c)) (rr_storage_path (snd c)) of
           Inl e \<Rightarrow> (Reported (format_gc_error ''resolve storage'' key (error_text e)), w)
         | Inr st \<Rightarrow>
             (case gf_statement io GcBegin of
                Some e \<Rightarrow> (Reported (format_gc_error ''begin blob gc sweep tx'' key e), w)
              | None \<Rightarrow>
                  (case gf_statement io GcRecheck of
                     Some e \<Rightarrow> (Reported (format_gc_error ''re-check blob sweep'' key e), w)
                   | None \<Rightarrow>
                       if \<not> is_blob_still_orphan (gw_db w) repo digest True then (Skipped, w)
                       else case delete_tolerant io st key w of
                              (Inl e, w') \<Rightarrow> (Reported (format_gc_error ''delete blob storage'' key (error_text e)), w')
                            | (Inr _, w') \<Rightarrow>
                                (case gf_statement io GcDeleteBlob of
                                   Some e \<Rightarrow> (Reported (format_gc_error ''delete oci_blobs row'' key e), w')
                                 | None \<Rightarrow>
                                     (case gf_statement io GcCommit of
                                        Some e \<Rightarrow> (Reported (format_gc_error ''commit blob gc sweep tx'' key e), w')
                                      | None \<Rightarrow> (Reclaimed, w'\<lparr>gw_db := remove_blob_row repo digest (gw_db w')\<rparr>))))))"

fun blob_loop ::
  "(gc_faults \<Rightarrow> 'c \<Rightarrow> gc_world \<Rightarrow> gc_outcome \<times> gc_world) \<Rightarrow> ('c \<Rightarrow> oci_blob) \<Rightarrow> (nat \<Rightarrow> gc_faults) \<Rightarrow> nat \<Rightarrow> 'c list
     \<Rightarrow> gc_result \<times> gc_world \<Rightarrow> gc_result \<times> gc_world" where
  "blob_loop act blob ios n [] acc = acc"
| "blob_loop act blob ios n (c # cs) acc =
     (case act (ios n) c (snd acc) of
        (o', w') \<Rightarrow> blob_loop act blob ios (n + 1) cs (tally o' (ob_size_bytes (blob c)) 1 (fst acc), w'))"

definition preview_blobs :: "(oci_blob \<times> repository_row) list \<Rightarrow> gc_result" where
  "preview_blobs cs = fold (\<lambda>c r. accumulate_dry_run r (ob_size_bytes (fst c)) 1) cs (empty_gc_result True)"

definition run_blob_gc_mark ::
  "gc_faults \<Rightarrow> (nat \<Rightarrow> gc_faults) \<Rightarrow> int \<Rightarrow> bool \<Rightarrow> gc_world \<Rightarrow> gc_result app_result \<times> gc_world" where
  "run_blob_gc_mark io ios now dry w =
     (let w1 = if dry \<or> gf_statement io GcPrune \<noteq> None then w
               else w\<lparr>gw_db := prune_orphan_blob_refs (gw_db w)\<rparr>
      in case gf_statement io GcScan of
           Some e \<Rightarrow> (Err (Database e), w1)
         | None \<Rightarrow>
             let orphans = select_orphan_blobs now (gw_db w1)
             in if dry then (Ok (preview_blobs orphans), w1)
                else case blob_loop (\<lambda>f b. mark_blob f now b) (\<lambda>b. b) ios 0 (map fst orphans) (empty_gc_result dry, w1) of
                       (r, w') \<Rightarrow> (Ok r, w'))"

definition run_blob_gc_sweep ::
  "gc_env \<Rightarrow> gc_faults \<Rightarrow> (nat \<Rightarrow> gc_faults) \<Rightarrow> int \<Rightarrow> bool \<Rightarrow> int \<Rightarrow> gc_world \<Rightarrow> gc_result app_result \<times> gc_world" where
  "run_blob_gc_sweep env io ios now dry grace w =
     (case gf_statement io GcScan of
        Some e \<Rightarrow> (Err (Database e), w)
      | None \<Rightarrow>
          let pending = select_pending_delete_blobs now grace (gw_db w)
          in if dry then (Ok (preview_blobs pending), w)
             else case blob_loop (sweep_blob env) fst ios 0 pending (empty_gc_result dry, w) of (r, w') \<Rightarrow> (Ok r, w'))"

text \<open>Both phases; the second runs later, so its clock is an argument of its own.\<close>

definition run_blob_gc ::
  "gc_env \<Rightarrow> gc_faults \<Rightarrow> (nat \<Rightarrow> gc_faults) \<Rightarrow> gc_faults \<Rightarrow> (nat \<Rightarrow> gc_faults) \<Rightarrow> int \<Rightarrow> int \<Rightarrow> bool \<Rightarrow> gc_world
     \<Rightarrow> gc_result app_result \<times> gc_world" where
  "run_blob_gc env io1 ios1 io2 ios2 now1 now2 dry w =
     (if dry then run_blob_gc_mark io1 ios1 now1 True w
      else case run_blob_gc_mark io1 ios1 now1 False w of
             (Inl e, w1) \<Rightarrow> (Err e, w1)
           | (Inr mk, w1) \<Rightarrow>
               (case run_blob_gc_sweep env io2 ios2 now2 False 0 w1 of
                  (Inl e, w2) \<Rightarrow> (Err e, w2)
                | (Inr r, w2) \<Rightarrow> (Ok (r\<lparr>gr_errors := gr_errors r @ gr_errors mk\<rparr>), w2)))"

end
