(* ===== verification/Gc_Run.thy ===== *)
theory Gc_Run
  imports Storage_Gc
begin

text \<open>
  Retention and reclaiming together: the step relation of both services with publications in between,
  and the invariant that every object of a tagged image stays stored. The contract that a collector
  must meet to be safe is a locale; the sweep over keys, the marking and the sweep over layers are its
  instances.
\<close>

section \<open>What an image needs\<close>

definition stored :: "store \<Rightarrow> string \<Rightarrow> gc_world \<Rightarrow> bool" where
  "stored st key w \<longleftrightarrow> (st, key) \<in> set (gw_objects w)"

definition member_of :: "artifact_db \<Rightarrow> nat \<Rightarrow> string \<Rightarrow> string \<Rightarrow> bool" where
  "member_of db repo digest m \<longleftrightarrow>
     m = digest \<or> list_ex (\<lambda>x. omr_repository_id x = repo \<and> omr_parent_digest x = digest \<and> omr_child_digest x = m) (db_manifest_refs db)"

definition layer_of :: "artifact_db \<Rightarrow> nat \<Rightarrow> string \<Rightarrow> string \<Rightarrow> bool" where
  "layer_of db repo m d \<longleftrightarrow>
     list_ex (\<lambda>x. mbr_repository_id x = repo \<and> mbr_manifest_digest x = m \<and> mbr_blob_digest x = d) (db_blob_refs db) \<and>
     list_ex (\<lambda>b. ob_repository_id b = repo \<and> ob_digest b = d) (db_blobs db)"

text \<open>The objects of an image: its manifest, the manifests of its parts, and the layers of all of them.\<close>

definition image_object :: "artifact_db \<Rightarrow> nat \<Rightarrow> string \<Rightarrow> string \<Rightarrow> bool" where
  "image_object db repo digest key \<longleftrightarrow>
     (\<exists>m. member_of db repo digest m \<and> (key = manifest_key m \<or> (\<exists>d. layer_of db repo m d \<and> key = blob_key d)))"

definition repositories_ok :: "artifact_db \<Rightarrow> bool" where
  "repositories_ok db \<longleftrightarrow> distinct (map rr_id (db_repositories db)) \<and>
     list_all (\<lambda>b. ob_storage_key b = blob_key (ob_digest b)) (db_blobs db)"

definition intact :: "repository_row \<Rightarrow> string \<Rightarrow> string \<Rightarrow> gc_world \<Rightarrow> bool" where
  "intact r digest key w \<longleftrightarrow>
     repositories_ok (gw_db w) \<and> r \<in> set (db_repositories (gw_db w)) \<and> tagged (rr_id r) digest (gw_db w) \<and>
     image_object (gw_db w) (rr_id r) digest key \<and> stored (store_of r) key w"

section \<open>Keys and scopes\<close>

lemma manifest_not_blob [simp]: "manifest_key m \<noteq> blob_key d" "blob_key d \<noteq> manifest_key m"
  by (simp_all add: manifest_key_def blob_key_def OCI_MANIFEST_STORAGE_PREFIX_def)

lemma key_inject [simp]: "manifest_key m = manifest_key m' \<longleftrightarrow> m = m'" "blob_key d = blob_key d' \<longleftrightarrow> d = d'"
  by (simp_all add: manifest_key_def blob_key_def)

lemma image_key_not_maven: "image_object db repo digest key \<Longrightarrow> \<not> starts_with MAVEN_FLAT_KEY_PREFIX key"
  by (auto simp: image_object_def manifest_key_def blob_key_def OCI_MANIFEST_STORAGE_PREFIX_def starts_with_def MAVEN_FLAT_KEY_PREFIX_def)

lemma same_store_iff: "same_store x r \<longleftrightarrow> store_of x = store_of r"
  by (auto simp: same_store_def store_of_def backend_is_repo_isolated_def)

lemma backend_for_store: "backend_for env (rr_storage_backend r) (rr_storage_path r) = Ok st \<Longrightarrow> st = store_of r"
  by (auto simp: backend_for_def store_of_def backend_is_repo_isolated_def split: if_splits)

lemma in_scope_self: "x \<in> set (db_repositories db) \<Longrightarrow> store_of x = store_of r \<Longrightarrow> in_scope db r (rr_id x)"
  by (auto simp: in_scope_def list_ex_iff same_store_iff)

lemma located_store:
  assumes "(a, r') \<in> set (located db key backend path)" and "backend_for env backend path = Ok st"
  shows "af_storage_key a = key \<and> store_of r' = st \<and> r' \<in> set (db_repositories db)"
  using assms by (auto simp: located_def joined_def backend_for_def store_of_def backend_is_repo_isolated_def split: if_splits)

text \<open>An orphaned key is no object of an image that is tagged in a repository with the same store.\<close>

lemma image_object_not_orphan:
  assumes "orphan db r' a" and "r \<in> set (db_repositories db)" and "store_of r = store_of r'"
    and "tagged (rr_id r) digest db" and "image_object db (rr_id r) digest key"
  shows "af_storage_key a \<noteq> key"
proof
  assume key: "af_storage_key a = key"
  have scope: "in_scope db r' (rr_id r)" by (rule in_scope_self) (use assms in auto)
  obtain t where t: "t \<in> set (db_tags db)" "ot_repository_id t = rr_id r" "ot_manifest_digest t = digest"
    using assms(4) by (auto simp: tagged_def list_ex_iff)
  obtain m where m: "member_of db (rr_id r) digest m" "key = manifest_key m \<or> (\<exists>d. layer_of db (rr_id r) m d \<and> key = blob_key d)"
    using assms(5) by (auto simp: image_object_def)
  show False using m(2)
  proof
    assume "key = manifest_key m"
    then show False using m(1) assms(1) key scope t unfolding member_of_def orphan_def list_ex_iff by metis
  next
    assume "\<exists>d. layer_of db (rr_id r) m d \<and> key = blob_key d"
    then show False using assms(1) key scope unfolding layer_of_def orphan_def list_ex_iff by metis
  qed
qed

section \<open>Deletions\<close>

lemma delete_tolerant_world:
  "delete_tolerant io st k w = (res, w') \<Longrightarrow> gw_db w' = gw_db w \<and> (stored st' key w' \<longleftrightarrow> stored st' key w \<and> (w' = w \<or> (st', key) \<noteq> (st, k)))"
  by (auto simp: delete_tolerant_def storage_delete_def stored_def split: option.splits if_splits sum.splits app_error.splits)

lemma delete_keeps:
  assumes "delete_tolerant io st k w = (res, w')" and "stored st' key w" and "(st', key) \<noteq> (st, k)"
  shows "stored st' key w'" and "gw_db w' = gw_db w"
  using delete_tolerant_world[OF assms(1)] assms(2,3) by auto

lemma sidecar_loop_keeps:
  "sidecar_loop io db st backend k exts keys w = (res, w') \<Longrightarrow> stored st' key w \<Longrightarrow>
   (\<And>e. key \<noteq> k @ e) \<Longrightarrow> stored st' key w' \<and> gw_db w' = gw_db w"
proof (induction exts arbitrary: keys w)
  case (Cons ext rest)
  obtain r1 w1 where d: "delete_tolerant io st (k @ ext) w = (r1, w1)" by fastforce
  have w1: "stored st' key w1" "gw_db w1 = gw_db w" using delete_keeps[OF d Cons.prems(2)] Cons.prems(3)[of ext] by auto
  consider (query) e where "gf_statement io GcSidecarQuery = Some e"
    | (backed) "gf_statement io GcSidecarQuery = None" "row_backed db (k @ ext) backend"
    | (failed) e where "gf_statement io GcSidecarQuery = None" "\<not> row_backed db (k @ ext) backend" "r1 = Inl e"
    | (gone) u where "gf_statement io GcSidecarQuery = None" "\<not> row_backed db (k @ ext) backend" "r1 = Inr u"
    by (cases "gf_statement io GcSidecarQuery"; cases "row_backed db (k @ ext) backend"; cases r1) auto
  then show ?case
  proof cases
    case backed
    then show ?thesis using Cons.IH[OF _ Cons.prems(2,3)] Cons.prems(1) by simp
  next
    case gone
    then show ?thesis using Cons.IH[OF _ w1(1) Cons.prems(3)] Cons.prems(1) d w1(2) by simp
  qed (use Cons.prems d w1 in auto)
qed simp

lemma starts_with_append: "starts_with p s \<Longrightarrow> starts_with p (s @ t)"
  unfolding starts_with_def by (induction p s rule: strip_prefix.induct) (auto split: if_splits)

lemma gc_rows_keeps:
  assumes "gc_rows io st g w = (res, w')" and "stored st' key w" and "\<not> starts_with MAVEN_FLAT_KEY_PREFIX key"
  shows "stored st' key w' \<and> (gw_db w' = gw_db w \<or> gw_db w' = hard_delete (og_key g) (delete_approvals (og_key g) (gw_db w)))"
proof -
  let ?db = "hard_delete (og_key g) (delete_approvals (og_key g) (gw_db w))"
  have side: "stored st' key w1 \<and> gw_db w1 = gw_db w"
    if r: "reclaim_maven_sidecars io ?db st (og_key g) (og_backend g) w = (r1, w1)" for r1 w1
  proof (cases "starts_with MAVEN_FLAT_KEY_PREFIX (og_key g)")
    case True
    have ne: "key \<noteq> og_key g @ e" for e using assms(3) starts_with_append[OF True] by auto
    obtain l w2 where l: "sidecar_loop io ?db st (og_backend g) (og_key g) MAVEN_SIDECAR_SUFFIXES [og_key g] w = (l, w2)" by fastforce
    have "w1 = w2" using r True l by (auto simp: reclaim_maven_sidecars_def split: sum.splits option.splits)
    then show ?thesis using sidecar_loop_keeps[OF l assms(2) ne] by simp
  qed (use r assms(2) in \<open>auto simp: reclaim_maven_sidecars_def\<close>)
  show ?thesis using assms(1,2)
    by (auto simp: gc_rows_def gc_commit_def Let_def stored_def split: option.splits prod.splits sum.splits dest!: side)
qed

section \<open>The contract of a collector\<close>

text \<open>
  What an action of either service promises: it keeps tags of tagged images, repositories, the parts
  of an index and the layers of a live manifest, and it keeps the objects of intact images.
\<close>

locale collector =
  fixes collects :: "gc_world \<Rightarrow> gc_world \<Rightarrow> bool"
  assumes keeps_repositories: "collects w w' \<Longrightarrow> db_repositories (gw_db w') = db_repositories (gw_db w)"
    and keeps_ok: "collects w w' \<Longrightarrow> repositories_ok (gw_db w) \<Longrightarrow> repositories_ok (gw_db w')"
    and keeps_tagged: "collects w w' \<Longrightarrow> tagged repo digest (gw_db w) \<Longrightarrow> tagged repo digest (gw_db w')"
    and keeps_members: "collects w w' \<Longrightarrow> member_of (gw_db w) repo digest m \<Longrightarrow> member_of (gw_db w') repo digest m"
    and keeps_layers: "collects w w' \<Longrightarrow> repositories_ok (gw_db w) \<Longrightarrow> r \<in> set (db_repositories (gw_db w)) \<Longrightarrow>
      tagged (rr_id r) digest (gw_db w) \<Longrightarrow> member_of (gw_db w) (rr_id r) digest m \<Longrightarrow>
      layer_of (gw_db w) (rr_id r) m d \<Longrightarrow> layer_of (gw_db w') (rr_id r) m d"
    and keeps_objects: "collects w w' \<Longrightarrow> intact r digest key w \<Longrightarrow> stored (store_of r) key w'"
begin

lemma keeps_intact:
  assumes "collects w w'" and "intact r digest key w"
  shows "intact r digest key w'"
proof -
  have i: "repositories_ok (gw_db w)" "r \<in> set (db_repositories (gw_db w))" "tagged (rr_id r) digest (gw_db w)"
    "image_object (gw_db w) (rr_id r) digest key"
    using assms(2) by (simp_all add: intact_def)
  obtain m where m: "member_of (gw_db w) (rr_id r) digest m"
      "key = manifest_key m \<or> (\<exists>d. layer_of (gw_db w) (rr_id r) m d \<and> key = blob_key d)"
    using i(4) by (auto simp: image_object_def)
  have "image_object (gw_db w') (rr_id r) digest key"
    using m keeps_members[OF assms(1) m(1)] keeps_layers[OF assms(1) i(1-3) m(1)] unfolding image_object_def by blast
  then show ?thesis
    using i keeps_repositories[OF assms(1)] keeps_ok[OF assms(1)] keeps_tagged[OF assms(1)] keeps_objects[OF assms]
    by (simp add: intact_def)
qed

end

sublocale collector \<subseteq> intact_images: stable collects "intact r digest key" for r digest key
  by unfold_locales (rule keeps_intact)

section \<open>The actions\<close>

definition key_action :: "gc_env \<Rightarrow> gc_world \<Rightarrow> gc_world \<Rightarrow> bool" where
  "key_action env w w' \<longleftrightarrow> (\<exists>io g out. gc_key env io g w = (out, w'))"

definition mark_action :: "gc_world \<Rightarrow> gc_world \<Rightarrow> bool" where
  "mark_action w w' \<longleftrightarrow> (\<exists>io now b out. mark_blob io now b w = (out, w'))"

definition prune_action :: "gc_world \<Rightarrow> gc_world \<Rightarrow> bool" where
  "prune_action w w' \<longleftrightarrow> w' = w\<lparr>gw_db := prune_orphan_blob_refs (gw_db w)\<rparr>"

text \<open>A candidate that was read from the tables at any earlier time.\<close>

definition candidate :: "oci_blob \<times> repository_row \<Rightarrow> gc_world \<Rightarrow> bool" where
  "candidate c w \<longleftrightarrow> snd c \<in> set (db_repositories (gw_db w)) \<and> rr_id (snd c) = ob_repository_id (fst c) \<and>
     ob_storage_key (fst c) = blob_key (ob_digest (fst c))"

definition sweep_action :: "gc_env \<Rightarrow> gc_world \<Rightarrow> gc_world \<Rightarrow> bool" where
  "sweep_action env w w' \<longleftrightarrow> (\<exists>io c out. candidate c w \<and> sweep_blob env io c w = (out, w'))"

definition retention_action :: "gc_world \<Rightarrow> gc_world \<Rightarrow> bool" where
  "retention_action w w' \<longleftrightarrow> (\<exists>db'. table_change (gw_db w) db' \<and> w' = w\<lparr>gw_db := db'\<rparr>)"

text \<open>A publication adds rows and objects.\<close>

definition publish_action :: "gc_world \<Rightarrow> gc_world \<Rightarrow> bool" where
  "publish_action w w' \<longleftrightarrow>
     (\<exists>as ts ms bs rs os. list_all (\<lambda>b. ob_storage_key b = blob_key (ob_digest b)) bs \<and>
        w' = w\<lparr>gw_db := (gw_db w)\<lparr>db_artifacts := db_artifacts (gw_db w) @ as, db_tags := db_tags (gw_db w) @ ts,
                 db_manifest_refs := db_manifest_refs (gw_db w) @ ms, db_blobs := db_blobs (gw_db w) @ bs,
                 db_blob_refs := db_blob_refs (gw_db w) @ rs\<rparr>,
               gw_objects := gw_objects w @ os\<rparr>)"

lemma gc_key_effect:
  assumes "gc_key env io g w = (out, w')" and "intact r digest key w"
  shows "stored (store_of r) key w'"
proof (cases "backend_for env (og_backend g) (og_path g)")
  case (Inr st)
  have nm: "\<not> starts_with MAVEN_FLAT_KEY_PREFIX key" and st0: "stored (store_of r) key w"
    using assms(2) image_key_not_maven by (auto simp: intact_def)
  show ?thesis
  proof (cases "is_still_orphan (gw_db w) (og_key g) (og_backend g) (og_path g)")
    case True
    then obtain a r' where ar: "(a, r') \<in> set (located (gw_db w) (og_key g) (og_backend g) (og_path g))" "orphan (gw_db w) r' a"
      by (auto simp: is_still_orphan_def list_all_iff neq_Nil_conv) blast
    have "(store_of r, key) \<noteq> (st, og_key g)"
      using located_store[OF ar(1) Inr] image_object_not_orphan[OF ar(2)] assms(2) by (auto simp: intact_def)
    moreover obtain d w1 where d: "delete_tolerant io st (og_key g) w = (d, w1)" by fastforce
    ultimately have "stored (store_of r) key w1" using delete_keeps(1)[OF d st0] by blast
    then show ?thesis using assms(1) Inr d gc_rows_keeps[OF _ _ nm] st0
      by (auto simp: gc_key_def split: option.splits if_splits sum.splits prod.splits)
  qed (use assms(1) st0 Inr in \<open>auto simp: gc_key_def split: option.splits\<close>)
qed (use assms in \<open>auto simp: gc_key_def intact_def\<close>)

lemma gc_key_db:
  assumes "gc_key env io g w = (out, w')"
  shows "gw_db w' = gw_db w \<or> gw_db w' = hard_delete (og_key g) (delete_approvals (og_key g) (gw_db w))"
proof -
  have side: "gw_db w2 = gw_db w1" if "sidecar_loop io db st b k exts keys w1 = (l, w2)" for db st b k exts keys w1 l w2
    using that
  proof (induction exts arbitrary: keys w1)
    case (Cons ext rest)
    obtain r1 w3 where d: "delete_tolerant io st (k @ ext) w1 = (r1, w3)" by fastforce
    show ?case using Cons d delete_tolerant_world[OF d, where key = "[]" and st' = st]
      by (auto split: option.splits if_splits sum.splits)
  qed simp
  have del: "gw_db w2 = gw_db w1" if "delete_tolerant io st k w1 = (l, w2)" for st k w1 l w2
    using delete_tolerant_world[OF that, where key = "[]" and st' = st] by simp
  show ?thesis using assms
    by (auto simp: gc_key_def gc_rows_def gc_commit_def reclaim_maven_sidecars_def Let_def
        split: option.splits if_splits sum.splits prod.splits dest!: side del)
qed

lemma hard_delete_frame [simp]:
  "db_repositories (hard_delete k db) = db_repositories db" "db_tags (hard_delete k db) = db_tags db"
  "db_manifest_refs (hard_delete k db) = db_manifest_refs db" "db_blobs (hard_delete k db) = db_blobs db"
  "db_blob_refs (hard_delete k db) = db_blob_refs db"
  "db_repositories (delete_approvals k db) = db_repositories db" "db_tags (delete_approvals k db) = db_tags db"
  "db_manifest_refs (delete_approvals k db) = db_manifest_refs db" "db_blobs (delete_approvals k db) = db_blobs db"
  "db_blob_refs (delete_approvals k db) = db_blob_refs db"
  by (simp_all add: hard_delete_def delete_approvals_def)

text \<open>The tables that decide what an image is.\<close>

definition image_tables :: "artifact_db \<Rightarrow> repository_row list \<times> oci_tag list \<times> manifest_ref list \<times> oci_blob list \<times> blob_ref list" where
  "image_tables db = (db_repositories db, db_tags db, db_manifest_refs db, db_blobs db, db_blob_refs db)"

lemma image_tables_decide:
  assumes "image_tables db = image_tables db'"
  shows "db_repositories db = db_repositories db'" "repositories_ok db = repositories_ok db'"
    "tagged repo digest db = tagged repo digest db'" "member_of db repo digest m = member_of db' repo digest m"
    "layer_of db repo m d = layer_of db' repo m d"
  using assms by (simp_all add: image_tables_def repositories_ok_def tagged_def member_of_def layer_of_def)

lemma key_action_tables: "key_action env w w' \<Longrightarrow> image_tables (gw_db w') = image_tables (gw_db w)"
  by (auto simp: key_action_def image_tables_def dest!: gc_key_db)

interpretation key_sweep: collector "key_action env" for env
proof
  show "stored (store_of r) key w'" if "key_action env w w'" "intact r digest key w" for w w' r digest key
    using that gc_key_effect by (auto simp: key_action_def)
qed (metis key_action_tables image_tables_decide)+

text \<open>Marking changes the marker only.\<close>

definition unmark :: "oci_blob \<Rightarrow> oci_blob" where
  "unmark b = b\<lparr>ob_pending_delete_at := None\<rparr>"

lemma unmark_simps [simp]:
  "ob_repository_id (unmark b) = ob_repository_id b" "ob_digest (unmark b) = ob_digest b" "ob_storage_key (unmark b) = ob_storage_key b"
  by (simp_all add: unmark_def)

lemma unmarked_decide:
  assumes "map unmark bs' = map unmark bs"
  shows "list_all (\<lambda>b. ob_storage_key b = blob_key (ob_digest b)) bs' = list_all (\<lambda>b. ob_storage_key b = blob_key (ob_digest b)) bs"
    "list_ex (\<lambda>b. ob_repository_id b = repo \<and> ob_digest b = d) bs' = list_ex (\<lambda>b. ob_repository_id b = repo \<and> ob_digest b = d) bs"
proof -
  have "list_all P (map unmark bs') = list_all P (map unmark bs)" "list_ex Q (map unmark bs') = list_ex Q (map unmark bs)" for P Q
    using assms by simp_all
  from this(1)[of "\<lambda>b. ob_storage_key b = blob_key (ob_digest b)"] this(2)[of "\<lambda>b. ob_repository_id b = repo \<and> ob_digest b = d"]
  show "list_all (\<lambda>b. ob_storage_key b = blob_key (ob_digest b)) bs' = list_all (\<lambda>b. ob_storage_key b = blob_key (ob_digest b)) bs"
    "list_ex (\<lambda>b. ob_repository_id b = repo \<and> ob_digest b = d) bs' = list_ex (\<lambda>b. ob_repository_id b = repo \<and> ob_digest b = d) bs"
    by (simp_all add: list.pred_map comp_def list_ex_iff)
qed

lemma stamp_unmarks: "map unmark (db_blobs (stamp_blob now repo digest db)) = map unmark (db_blobs db)"
  by (simp add: stamp_blob_def unmark_def)

lemma mark_blob_effect:
  assumes "mark_blob io now b w = (out, w')"
  shows "gw_objects w' = gw_objects w \<and>
         (gw_db w' = gw_db w \<or> gw_db w' = stamp_blob now (ob_repository_id b) (ob_digest b) (gw_db w))"
  using assms by (auto simp: mark_blob_def Let_def split: option.splits if_splits)

lemma stamp_frame [simp]:
  "db_repositories (stamp_blob now repo digest db) = db_repositories db" "db_tags (stamp_blob now repo digest db) = db_tags db"
  "db_manifest_refs (stamp_blob now repo digest db) = db_manifest_refs db" "db_blob_refs (stamp_blob now repo digest db) = db_blob_refs db"
  by (simp_all add: stamp_blob_def)

lemma stamp_decide [simp]:
  "repositories_ok (stamp_blob now repo digest db) = repositories_ok db"
  "tagged re di (stamp_blob now repo digest db) = tagged re di db"
  "member_of (stamp_blob now repo digest db) re di m = member_of db re di m"
  "layer_of (stamp_blob now repo digest db) re m d = layer_of db re m d"
  using unmarked_decide[OF stamp_unmarks[of now repo digest db]]
  by (simp_all add: repositories_ok_def tagged_def member_of_def layer_of_def)

interpretation layer_mark: collector mark_action
proof
  show "stored (store_of r) key w'" if "mark_action w w'" "intact r digest key w" for w w' r digest key
    using that mark_blob_effect by (fastforce simp: mark_action_def intact_def stored_def)
qed (auto simp: mark_action_def dest!: mark_blob_effect)

text \<open>Pruning drops references of manifests that are no part of a tagged image.\<close>

lemma member_live: "tagged repo digest db \<Longrightarrow> member_of db repo digest m \<Longrightarrow> manifest_live db repo m"
  unfolding tagged_def member_of_def manifest_live_def list_ex_iff by blast

lemma prune_keeps_layer:
  assumes "tagged repo digest db" and "member_of db repo digest m" and "layer_of db repo m d"
  shows "layer_of (prune_orphan_blob_refs db) repo m d"
  using assms(3) member_live[OF assms(1,2)] by (auto simp: layer_of_def prune_orphan_blob_refs_def list_ex_iff)

lemma prune_frame [simp]:
  "db_repositories (prune_orphan_blob_refs db) = db_repositories db" "repositories_ok (prune_orphan_blob_refs db) = repositories_ok db"
  "tagged repo digest (prune_orphan_blob_refs db) = tagged repo digest db"
  "member_of (prune_orphan_blob_refs db) repo digest m = member_of db repo digest m"
  by (simp_all add: prune_orphan_blob_refs_def repositories_ok_def tagged_def member_of_def)

interpretation layer_prune: collector prune_action
  by unfold_locales (auto simp: prune_action_def prune_keeps_layer intact_def stored_def)

section \<open>The sweep over layers\<close>

lemma still_orphan_unprotected:
  assumes "is_blob_still_orphan db repo digest True" and "repositories_ok db"
    and "r' \<in> set (db_repositories db)" and "rr_id r' = repo"
    and "r \<in> set (db_repositories db)" and "store_of r = store_of r'" and "layer_of db (rr_id r) m d"
  shows "d \<noteq> digest"
proof
  assume d: "d = digest"
  obtain b r2 where b: "(b, r2) \<in> set (joined_blobs db)" "ob_repository_id b = repo" "ob_digest b = digest" "\<not> blob_protected db r2 b"
    using assms(1) by (auto simp: is_blob_still_orphan_def Let_def list_all_iff filter_empty_conv)
  have "r2 \<in> set (db_repositories db)" "rr_id r2 = repo" using b(1,2) by (auto simp: joined_blobs_def)
  then have "r2 = r'" using assms(2-4) by (auto simp: repositories_ok_def distinct_map dest: inj_onD)
  then have "in_scope db r2 (rr_id r)" using in_scope_self[OF assms(5)] assms(6) by simp
  then have "blob_protected db r2 b"
    using assms(7) b(3) d unfolding blob_protected_def layer_of_def list_ex_iff by metis
  then show False using b(4) by simp
qed

lemma sweep_blob_effect:
  assumes "sweep_blob env io c w = (out, w')" and "candidate c w"
  shows "w' = w \<or>
    (is_blob_still_orphan (gw_db w) (ob_repository_id (fst c)) (ob_digest (fst c)) True \<and>
     (\<forall>st key. stored st key w \<longrightarrow> (st, key) \<noteq> (store_of (snd c), blob_key (ob_digest (fst c))) \<longrightarrow> stored st key w') \<and>
     (gw_db w' = gw_db w \<or> gw_db w' = remove_blob_row (ob_repository_id (fst c)) (ob_digest (fst c)) (gw_db w)))"
proof (cases "backend_for env (rr_storage_backend (snd c)) (rr_storage_path (snd c))")
  case (Inr st)
  have st: "st = store_of (snd c)" by (rule backend_for_store[OF Inr])
  have key: "ob_storage_key (fst c) = blob_key (ob_digest (fst c))" using assms(2) by (simp add: candidate_def)
  obtain d w1 where d: "delete_tolerant io st (ob_storage_key (fst c)) w = (d, w1)" by fastforce
  have w1: "gw_db w1 = gw_db w"
    "\<And>st' k. stored st' k w \<Longrightarrow> (st', k) \<noteq> (store_of (snd c), blob_key (ob_digest (fst c))) \<Longrightarrow> stored st' k w1"
    using delete_tolerant_world[OF d] st key by auto
  have same: "stored st' k (w1\<lparr>gw_db := x\<rparr>) = stored st' k w1" for st' k x by (simp add: stored_def)
  show ?thesis using assms(1) Inr d w1
    by (auto simp: sweep_blob_def Let_def same split: option.splits if_splits sum.splits)
qed (use assms(1) in \<open>simp add: sweep_blob_def Let_def\<close>)

lemma remove_blob_frame [simp]:
  "db_repositories (remove_blob_row repo digest db) = db_repositories db" "tagged re di (remove_blob_row repo digest db) = tagged re di db"
  "member_of (remove_blob_row repo digest db) re di m = member_of db re di m"
  "repositories_ok db \<Longrightarrow> repositories_ok (remove_blob_row repo digest db)"
  by (auto simp: remove_blob_row_def repositories_ok_def tagged_def member_of_def list_all_iff)

lemma remove_blob_keeps_layer:
  "layer_of db re m d \<Longrightarrow> (re, d) \<noteq> (repo, digest) \<Longrightarrow> layer_of (remove_blob_row repo digest db) re m d"
  by (auto simp: layer_of_def remove_blob_row_def list_ex_iff)

interpretation layer_sweep: collector "sweep_action env" for env
proof
  fix w w' r digest m d
  assume a: "sweep_action env w w'" "repositories_ok (gw_db w)" "r \<in> set (db_repositories (gw_db w))"
    "tagged (rr_id r) digest (gw_db w)" "member_of (gw_db w) (rr_id r) digest m" "layer_of (gw_db w) (rr_id r) m d"
  obtain io c out where c: "candidate c w" "sweep_blob env io c w = (out, w')" using a(1) by (auto simp: sweep_action_def)
  show "layer_of (gw_db w') (rr_id r) m d"
  proof (cases "gw_db w' = gw_db w")
    case False
    then have orphan: "is_blob_still_orphan (gw_db w) (ob_repository_id (fst c)) (ob_digest (fst c)) True"
      and db: "gw_db w' = remove_blob_row (ob_repository_id (fst c)) (ob_digest (fst c)) (gw_db w)"
      using sweep_blob_effect[OF c(2,1)] by auto
    have "(rr_id r, d) \<noteq> (ob_repository_id (fst c), ob_digest (fst c))"
      using still_orphan_unprotected[OF orphan a(2) a(3) _ a(3) refl a(6)] by auto
    then show ?thesis using remove_blob_keeps_layer[OF a(6)] db by simp
  qed (use a(6) in simp)
next
  fix w w' r digest key
  assume a: "sweep_action env w w'" "intact r digest key w"
  obtain io c out where c: "candidate c w" "sweep_blob env io c w = (out, w')" using a(1) by (auto simp: sweep_action_def)
  have i: "repositories_ok (gw_db w)" "r \<in> set (db_repositories (gw_db w))" "image_object (gw_db w) (rr_id r) digest key"
    "stored (store_of r) key w" using a(2) by (simp_all add: intact_def)
  have cand: "snd c \<in> set (db_repositories (gw_db w))" "rr_id (snd c) = ob_repository_id (fst c)"
    using c(1) by (simp_all add: candidate_def)
  show "stored (store_of r) key w'"
  proof (cases "w' = w")
    case False
    then have orphan: "is_blob_still_orphan (gw_db w) (ob_repository_id (fst c)) (ob_digest (fst c)) True"
      using sweep_blob_effect[OF c(2,1)] by blast
    have "(store_of r, key) \<noteq> (store_of (snd c), blob_key (ob_digest (fst c)))"
      using i(3) still_orphan_unprotected[OF orphan i(1) cand i(2)] by (auto simp: image_object_def) blast
    then show ?thesis using sweep_blob_effect[OF c(2,1)] False i(4) by blast
  qed (use i(4) in simp)
qed (auto simp: sweep_action_def dest!: sweep_blob_effect)

section \<open>Retention and publications\<close>

lemma cascade_frame [simp]:
  "db_repositories (cascade_oci_tags f db) = db_repositories db" "repositories_ok (cascade_oci_tags f db) = repositories_ok db"
  "member_of (cascade_oci_tags f db) repo digest m = member_of db repo digest m"
  "layer_of (cascade_oci_tags f db) repo m d = layer_of db repo m d"
  by (simp_all add: cascade_oci_tags_def repositories_ok_def member_of_def layer_of_def)

lemma mark_frame [simp]:
  "repositories_ok (mark_deleted sel db) = repositories_ok db" "member_of (mark_deleted sel db) repo digest m = member_of db repo digest m"
  "layer_of (mark_deleted sel db) repo m d = layer_of db repo m d"
  "repositories_ok (db\<lparr>db_policies := ps\<rparr>) = repositories_ok db" "member_of (db\<lparr>db_policies := ps\<rparr>) repo digest m = member_of db repo digest m"
  "layer_of (db\<lparr>db_policies := ps\<rparr>) repo m d = layer_of db repo m d"
  by (simp_all add: repositories_ok_def member_of_def layer_of_def)

interpretation retention: collector retention_action
  by unfold_locales
    (auto simp: retention_action_def cascade_keeps_image intact_def stored_def elim!: table_change.cases)

interpretation publications: collector publish_action
  by unfold_locales
    (auto simp: publish_action_def repositories_ok_def tagged_def member_of_def layer_of_def intact_def stored_def)

section \<open>Runs\<close>

inductive storage_step :: "gc_env \<Rightarrow> gc_world \<Rightarrow> gc_world \<Rightarrow> bool" for env where
  key: "key_action env w w' \<Longrightarrow> storage_step env w w'"
| prune: "prune_action w w' \<Longrightarrow> storage_step env w w'"
| mark: "mark_action w w' \<Longrightarrow> storage_step env w w'"
| sweep: "sweep_action env w w' \<Longrightarrow> storage_step env w w'"
| retention: "retention_action w w' \<Longrightarrow> storage_step env w w'"
| publish: "publish_action w w' \<Longrightarrow> storage_step env w w'"

inductive_cases storage_stepE: "storage_step env w w'"

interpretation images: stable "storage_step env" "intact r digest key" for env r digest key
proof
  show "intact r digest key w'" if "storage_step env w w'" "intact r digest key w" for w w'
    using that(1,2) by (cases rule: storage_stepE)
      (blast intro: key_sweep.keeps_intact layer_prune.keeps_intact layer_mark.keeps_intact
        layer_sweep.keeps_intact retention.keeps_intact publications.keeps_intact)+
qed

text \<open>The entry points of both services, besides the single actions that may interleave with them.\<close>

inductive service_step :: "gc_env \<Rightarrow> engines \<Rightarrow> gc_world \<Rightarrow> gc_world \<Rightarrow> bool" for env en where
  action: "storage_step env w w' \<Longrightarrow> service_step env en w w'"
| lifecycle: "lifecycle_step en (gw_db w) db' \<Longrightarrow> service_step env en w (w\<lparr>gw_db := db'\<rparr>)"
| gc: "run_gc_orphans env io ios dry w = (res, w') \<Longrightarrow> service_step env en w w'"
| blob_mark: "run_blob_gc_mark io ios now dry w = (res, w') \<Longrightarrow> service_step env en w w'"
| blob_sweep: "run_blob_gc_sweep env io ios now dry grace w = (res, w') \<Longrightarrow> service_step env en w w'"
| blob_gc: "run_blob_gc env io1 ios1 io2 ios2 now1 now2 dry w = (res, w') \<Longrightarrow> service_step env en w w'"

inductive_cases service_stepE: "service_step env en w w'"

lemma lifecycle_intact:
  assumes "lifecycle_step en (gw_db w) db'" and "intact r digest key w"
  shows "intact r digest key (w\<lparr>gw_db := db'\<rparr>)"
  using lifecycle_step_changes[OF assms(1)]
proof (induction rule: rtranclp_induct)
  case base
  then show ?case using assms(2) by simp
next
  case (step y z)
  then have "retention_action (w\<lparr>gw_db := y\<rparr>) (w\<lparr>gw_db := z\<rparr>)" by (auto simp: retention_action_def)
  then show ?case using retention.keeps_intact step.IH by blast
qed

lemma gc_loop_intact: "intact r digest key (snd acc) \<Longrightarrow> intact r digest key (snd (gc_loop env ios n gs acc))"
proof (induction gs arbitrary: n acc)
  case (Cons g gs)
  obtain out w1 where g: "gc_key env (ios n) g (snd acc) = (out, w1)" by fastforce
  then have "key_action env (snd acc) w1" unfolding key_action_def by blast
  then have "intact r digest key w1" using key_sweep.keeps_intact Cons.prems by blast
  then show ?case using Cons.IH g by simp
qed simp

lemma run_gc_intact: "run_gc_orphans env io ios dry w = (res, w') \<Longrightarrow> intact r digest key w \<Longrightarrow> intact r digest key w'"
  using gc_loop_intact[of r digest key "(empty_gc_result dry, w)" env ios 0 "select_orphans env (gw_db w)"]
  by (auto simp: run_gc_orphans_def Let_def split: option.splits if_splits prod.splits)

lemma mark_loop_intact:
  "intact r digest key (snd acc) \<Longrightarrow> intact r digest key (snd (blob_loop (\<lambda>f b. mark_blob f now b) (\<lambda>b. b) ios n bs acc))"
proof (induction bs arbitrary: n acc)
  case (Cons b bs)
  obtain out w1 where b: "mark_blob (ios n) now b (snd acc) = (out, w1)" by fastforce
  then have "mark_action (snd acc) w1" unfolding mark_action_def by blast
  then have "intact r digest key w1" using layer_mark.keeps_intact Cons.prems by blast
  then show ?case using Cons.IH b by simp
qed simp

lemma run_mark_intact: "run_blob_gc_mark io ios now dry w = (res, w') \<Longrightarrow> intact r digest key w \<Longrightarrow> intact r digest key w'"
proof -
  assume run: "run_blob_gc_mark io ios now dry w = (res, w')" and i: "intact r digest key w"
  have pruned: "intact r digest key (w\<lparr>gw_db := prune_orphan_blob_refs (gw_db w)\<rparr>)"
    using layer_prune.keeps_intact[OF _ i] by (simp add: prune_action_def)
  show ?thesis using run i pruned
      mark_loop_intact[of r digest key "(empty_gc_result dry, w)" now ios 0]
      mark_loop_intact[of r digest key "(empty_gc_result dry, w\<lparr>gw_db := prune_orphan_blob_refs (gw_db w)\<rparr>)" now ios 0]
    by (auto simp: run_blob_gc_mark_def Let_def split: option.splits if_splits prod.splits) (metis snd_conv)+
qed

lemma sweep_loop_intact:
  "intact r digest key (snd acc) \<Longrightarrow> list_all (\<lambda>c. candidate c (snd acc)) cs \<Longrightarrow>
   intact r digest key (snd (blob_loop (sweep_blob env) fst ios n cs acc))"
proof (induction cs arbitrary: n acc)
  case (Cons c cs)
  obtain out w1 where c: "sweep_blob env (ios n) c (snd acc) = (out, w1)" by fastforce
  moreover have "candidate c (snd acc)" using Cons.prems(2) by simp
  ultimately have act: "sweep_action env (snd acc) w1" unfolding sweep_action_def by blast
  have "intact r digest key w1" using layer_sweep.keeps_intact[OF act] Cons.prems(1) by blast
  moreover have "list_all (\<lambda>c. candidate c w1) cs"
    using Cons.prems(2) layer_sweep.keeps_repositories[OF act] by (simp add: candidate_def list_all_iff)
  ultimately show ?case using Cons.IH c by simp
qed simp

lemma pending_candidates:
  "repositories_ok (gw_db w) \<Longrightarrow> list_all (\<lambda>c. candidate c w) (select_pending_delete_blobs now grace (gw_db w))"
  by (auto simp: select_pending_delete_blobs_def joined_blobs_def candidate_def repositories_ok_def list_all_iff)

lemma run_sweep_intact:
  "run_blob_gc_sweep env io ios now dry grace w = (res, w') \<Longrightarrow> intact r digest key w \<Longrightarrow> intact r digest key w'"
  using sweep_loop_intact[of r digest key "(empty_gc_result dry, w)" "select_pending_delete_blobs now grace (gw_db w)" env ios 0]
    pending_candidates[of w now grace]
  by (auto simp: run_blob_gc_sweep_def Let_def intact_def split: option.splits if_splits prod.splits)

lemma run_blob_gc_intact:
  "run_blob_gc env io1 ios1 io2 ios2 now1 now2 dry w = (res, w') \<Longrightarrow> intact r digest key w \<Longrightarrow> intact r digest key w'"
  by (auto simp: run_blob_gc_def split: if_splits prod.splits sum.splits dest: run_mark_intact run_sweep_intact)

interpretation services: stable "service_step env en" "intact r digest key" for env en r digest key
proof
  show "intact r digest key w'" if "service_step env en w w'" "intact r digest key w" for w w'
    using that(1,2) by (cases rule: service_stepE)
      (blast intro: images.good_step lifecycle_intact run_gc_intact run_mark_intact run_sweep_intact run_blob_gc_intact)+
qed


section \<open>Reclaiming happens\<close>

definition no_gc_faults :: gc_faults where
  "no_gc_faults = \<lparr>gf_statement = (\<lambda>_. None), gf_delete = (\<lambda>_. None)\<rparr>"

lemma delete_tolerant_ok:
  "\<exists>w'. delete_tolerant no_gc_faults st k w = (Ok (), w') \<and> gw_db w' = gw_db w \<and>
        gw_objects w' = filter (\<lambda>x. x \<noteq> (st, k)) (gw_objects w)"
  by (auto simp: delete_tolerant_def storage_delete_def no_gc_faults_def intro!: filter_True[symmetric] dest: sym)

lemma sidecar_loop_ok:
  "\<exists>keys' w'. sidecar_loop no_gc_faults db st b k exts keys w = (Ok keys', w') \<and> gw_db w' = gw_db w \<and>
     set (gw_objects w') = set (gw_objects w) - {(st, k @ e) | e. e \<in> set exts \<and> \<not> row_backed db (k @ e) b}"
proof (induction exts arbitrary: keys w)
  case (Cons ext rest)
  obtain w1 where w1: "delete_tolerant no_gc_faults st (k @ ext) w = (Ok (), w1)" "gw_db w1 = gw_db w"
      "gw_objects w1 = filter (\<lambda>x. x \<noteq> (st, k @ ext)) (gw_objects w)"
    using delete_tolerant_ok[of st "k @ ext" w] by blast
  have none: "gf_statement no_gc_faults GcSidecarQuery = None" by (simp add: no_gc_faults_def)
  show ?case
  proof (cases "row_backed db (k @ ext) b")
    case True
    then show ?thesis using Cons.IH[of keys w] none by fastforce
  next
    case False
    then show ?thesis using Cons.IH[of "keys @ [k @ ext]" w1] w1 none by fastforce
  qed
qed simp

text \<open>C17: What is garbage is reclaimed: when a key is an orphan at its location, its backend is registered and nothing fails, processing it deletes the object, its rows and, for a Maven key, every checksum file beside it that has no row of its own; and the key is not a candidate again.\<close>

theorem orphan_key_reclaimed:
  assumes "is_still_orphan (gw_db w) (og_key g) (og_backend g) (og_path g)" and "backend_for env (og_backend g) (og_path g) = Ok st"
    and "gc_key env no_gc_faults g w = (out, w')"
  shows "out = Reclaimed \<and> \<not> stored st (og_key g) w' \<and> og_key g \<notin> af_storage_key ` set (db_artifacts (gw_db w')) \<and>
         \<not> is_still_orphan (gw_db w') (og_key g) (og_backend g) (og_path g) \<and>
         (starts_with MAVEN_FLAT_KEY_PREFIX (og_key g) \<longrightarrow>
          (\<forall>e\<in>set MAVEN_SIDECAR_SUFFIXES. row_backed (gw_db w') (og_key g @ e) (og_backend g) \<or> \<not> stored st (og_key g @ e) w'))"
proof -
  let ?k = "og_key g" and ?b = "og_backend g"
  let ?db = "hard_delete ?k (delete_approvals ?k (gw_db w))"
  have none: "gf_statement no_gc_faults s = None" for s by (simp add: no_gc_faults_def)
  obtain w1 where w1: "delete_tolerant no_gc_faults st ?k w = (Ok (), w1)" "gw_db w1 = gw_db w"
      "gw_objects w1 = filter (\<lambda>x. x \<noteq> (st, ?k)) (gw_objects w)"
    using delete_tolerant_ok[of st ?k w] by blast
  obtain keys w2 where w2: "sidecar_loop no_gc_faults ?db st ?b ?k MAVEN_SIDECAR_SUFFIXES [?k] w1 = (Ok keys, w2)" "gw_db w2 = gw_db w1"
      "set (gw_objects w2) = set (gw_objects w1) - {(st, ?k @ e) | e. e \<in> set MAVEN_SIDECAR_SUFFIXES \<and> \<not> row_backed ?db (?k @ e) ?b}"
    using sidecar_loop_ok[of ?db st ?b ?k MAVEN_SIDECAR_SUFFIXES "[?k]" w1] by blast
  have run: "out = Reclaimed \<and> gw_db w' = ?db \<and> gw_objects w' = (if starts_with MAVEN_FLAT_KEY_PREFIX ?k then gw_objects w2 else gw_objects w1)"
    using assms w1 w2 none
    by (auto simp: gc_key_def gc_rows_def gc_commit_def reclaim_maven_sidecars_def Let_def outcome_of_def)
  have dead: "af_is_deleted a" if "a \<in> set (db_artifacts (gw_db w))" "af_storage_key a = ?k" for a
  proof -
    obtain a' r' where "orphan (gw_db w) r' a'" "af_storage_key a' = ?k"
      using assms(1) by (auto simp: is_still_orphan_def located_def neq_Nil_conv filter_eq_Cons_iff)
    then show ?thesis using that by (auto simp: orphan_def list_ex_iff)
  qed
  then have rows: "?k \<notin> af_storage_key ` set (db_artifacts ?db)" by (auto simp: hard_delete_def delete_approvals_def)
  have "(a, r) \<in> set (joined ?db) \<Longrightarrow> af_storage_key a \<noteq> ?k" for a r using rows by (auto simp: joined_def image_iff)
  then have "located ?db ?k ?b (og_path g) = []" unfolding located_def filter_empty_conv by fastforce
  then have "\<not> is_still_orphan ?db ?k ?b (og_path g)" by (simp add: is_still_orphan_def)
  then show ?thesis using run rows w1(3) w2(3) by (auto simp: stored_def)
qed

section \<open>Totals and roots\<close>

text \<open>The driver does not read a \<open>NUMERIC\<close> as a 64-bit integer, so the total of every group reads as zero.\<close>

lemma numeric_totals_read_zero: "ge_numeric env = (\<lambda>_. None) \<Longrightarrow> g \<in> set (select_orphans env db) \<Longrightarrow> og_bytes g = 0"
  by (auto simp: select_orphans_def Let_def)

definition demo_repo :: "nat \<Rightarrow> string \<Rightarrow> string \<Rightarrow> repository_row" where
  "demo_repo i backend path = \<lparr>rr_id = i, rr_storage_backend = backend, rr_storage_path = path\<rparr>"

definition demo_gc_env :: gc_env where
  "demo_gc_env = \<lparr>ge_backends = [''s3''], ge_numeric = (\<lambda>_. None)\<rparr>"

definition demo_jar :: "nat \<Rightarrow> nat \<Rightarrow> stored_artifact" where
  "demo_jar i repo =
     \<lparr>af_id = i, af_repository_id = repo, af_name = ''lib'', af_path = ''lib.jar'', af_version = Some ''1'',
      af_storage_key = ''maven/lib.jar'', af_size_bytes = 9, af_created_at = 0, af_is_deleted = True\<rparr>"

text \<open>Two filesystem repositories at different roots hold the same key, deleted in both.\<close>

definition demo_two_roots :: gc_world where
  "demo_two_roots =
     \<lparr>gw_db = demo_registry\<lparr>db_artifacts := [demo_jar 1 1, demo_jar 2 2], db_tags := [],
                           db_repositories := [demo_repo 1 ''filesystem'' ''/a'', demo_repo 2 ''filesystem'' ''/b'']\<rparr>,
      gw_objects = [((''filesystem'', ''/a''), ''maven/lib.jar''), ((''filesystem'', ''/b''), ''maven/lib.jar'')], gw_owners = []\<rparr>"

text \<open>
  The rows of both go with the object of the first; the object of the second stays, with no row left
  that would make it a candidate.
\<close>

lemma second_root_leaks:
  "let w' = snd (run_gc_orphans demo_gc_env no_gc_faults (\<lambda>_. no_gc_faults) False demo_two_roots)
   in gw_objects w' = [((''filesystem'', ''/b''), ''maven/lib.jar'')] \<and> db_artifacts (gw_db w') = []"
  by code_simp

definition demo_group :: orphan_group where
  "demo_group = \<lparr>og_key = ''maven/lib.jar'', og_backend = ''filesystem'', og_path = ''/a'', og_bytes = 0, og_count = 1\<rparr>"

theorem orphan_key_reclaimed_witness:
  "fst (gc_key demo_gc_env no_gc_faults demo_group demo_two_roots) = Reclaimed \<and>
   \<not> stored (''filesystem'', ''/a'') ''maven/lib.jar'' (snd (gc_key demo_gc_env no_gc_faults demo_group demo_two_roots))"
proof -
  have "is_still_orphan (gw_db demo_two_roots) (og_key demo_group) (og_backend demo_group) (og_path demo_group)" by code_simp
  moreover have "backend_for demo_gc_env (og_backend demo_group) (og_path demo_group) = Ok (''filesystem'', ''/a'')" by code_simp
  moreover have "og_key demo_group = ''maven/lib.jar''" by (simp add: demo_group_def)
  ultimately show ?thesis
    using orphan_key_reclaimed[of demo_two_roots demo_group demo_gc_env "(''filesystem'', ''/a'')"
        "fst (gc_key demo_gc_env no_gc_faults demo_group demo_two_roots)" "snd (gc_key demo_gc_env no_gc_faults demo_group demo_two_roots)"]
    by simp
qed

definition demo_image_world :: gc_world where
  "demo_image_world =
     \<lparr>gw_db = demo_registry\<lparr>db_blobs := [\<lparr>ob_repository_id = 1, ob_digest = ''l1'', ob_size_bytes = 5, ob_storage_key = ''oci-blobs/l1'',
                                        ob_created_at = 0, ob_pending_delete_at = None\<rparr>],
                           db_blob_refs := [\<lparr>mbr_repository_id = 1, mbr_manifest_digest = ''d1'', mbr_blob_digest = ''l1''\<rparr>]\<rparr>,
      gw_objects = [((''s3'', []), ''oci-manifests/d1''), ((''s3'', []), ''oci-blobs/l1'')], gw_owners = []\<rparr>"


end
