(* ===== verification/Promotion.thy ===== *)
theory Promotion
  imports Scan_Policy Json
begin

text \<open>
  The policy gate of promotions (services/promotion_policy_service.rs, models/sbom.rs): vulnerability
  counts, licenses, missing scans, age and signatures are turned into violations and an action, and
  the promotion handler (api/handlers/promotion.rs) stops on a blocking result. A query fails with the
  error of an outage; the clock is an argument; license names are compared in ASCII upper case. Shows
  exactly when a promotion is blocked.
\<close>

section \<open>Data\<close>

datatype policy_action = Allow | Warn | Block

fun policy_action_str :: "policy_action \<Rightarrow> string" where
  "policy_action_str Allow = ''allow''"
| "policy_action_str Warn = ''warn''"
| "policy_action_str Block = ''block''"

definition parse_policy_action :: "string \<Rightarrow> policy_action option" where
  "parse_policy_action s =
     (let l = to_lowercase s
      in if l = ''allow'' then Some Allow else if l = ''warn'' then Some Warn
         else if l = ''block'' then Some Block else None)"

record violation =
  v_rule :: string
  v_severity :: string
  v_message :: string
  v_details :: "json option"

record cve_summary =
  cs_critical :: int
  cs_high :: int
  cs_medium :: int
  cs_low :: int
  cs_total :: int
  cs_open_cves :: "string list"

record license_summary =
  ls_found :: "string list"
  ls_denied :: "string list"
  ls_unknown :: "string list"

record license_policy =
  lic_name :: string
  lic_allowed :: "string list"
  lic_denied :: "string list"
  lic_allow_unknown :: bool
  lic_action :: policy_action

record evaluation =
  ev_passed :: bool
  ev_action :: policy_action
  ev_violations :: "violation list"
  ev_cve_summary :: "cve_summary option"
  ev_license_summary :: "license_summary option"

text \<open>The tables the service reads.\<close>

record promo_scan =
  psc_id :: nat
  psc_artifact :: nat
  psc_status :: string
  psc_error_message :: "string option"
  psc_critical :: int
  psc_high :: int
  psc_medium :: int
  psc_low :: int
  psc_findings :: int
  psc_created_at :: int

record promo_finding =
  pfi_scan :: nat
  pfi_cve :: "string option"
  pfi_acknowledged :: bool

record sbom_document =
  sbom_artifact :: nat
  sbom_licenses :: "string list option"
  sbom_created_at :: int

record license_policy_row =
  lpr_repository :: "nat option"
  lpr_name :: string
  lpr_allowed :: "string list option"
  lpr_denied :: "string list option"
  lpr_allow_unknown :: bool
  lpr_action :: string
  lpr_enabled :: bool

record signing_key =
  sk_id :: nat
  sk_repository :: "nat option"
  sk_active :: bool

record signing_audit =
  ska_key :: nat
  ska_action :: string
  ska_artifact :: "nat option"

record promo_db =
  pd_scans :: "promo_scan list"
  pd_findings :: "promo_finding list"
  pd_sboms :: "sbom_document list"
  pd_policies :: "scan_policy list"
  pd_license_policies :: "license_policy_row list"
  pd_artifacts :: "(nat \<times> int) list"
  pd_signing_config :: "(nat \<times> nat) list"
  pd_keys :: "signing_key list"
  pd_audit :: "signing_audit list"

datatype promo_query =
  QScan | QOpenCves | QSbom | QScanPolicy | QLicensePolicy | QScanState | QCreated | QSigningConfig | QSigned
| QRules | QRuleWrite | QHealth

type_synonym promo_faults = "promo_query \<Rightarrow> sqlx_error option"

definition json_int :: "int \<Rightarrow> json" where
  "json_int n = (if n < 0 then JNegInt n else JPosInt (word_of_int n))"

section \<open>Violations\<close>

definition I32_MAX :: int where "I32_MAX = 2147483647"

definition build_unscanned_violation :: "scan_state \<Rightarrow> violation" where
  "build_unscanned_violation state =
     \<lparr>v_rule = ''block-unscanned'', v_severity = ''high'', v_message = ''Artifact has no completed security scan'',
      v_details = Some (JObject [(''scan_state'', JString (reason_token state))])\<rparr>"

definition build_cve_summary :: "promo_scan \<Rightarrow> string list \<Rightarrow> cve_summary" where
  "build_cve_summary scan open_cves =
     \<lparr>cs_critical = psc_critical scan, cs_high = psc_high scan, cs_medium = psc_medium scan, cs_low = psc_low scan,
      cs_total = psc_findings scan, cs_open_cves = open_cves\<rparr>"

definition threshold_limits :: "string \<Rightarrow> int \<times> int \<times> int" where
  "threshold_limits s =
     (let l = to_lowercase s
      in if l = ''critical'' then (0, I32_MAX, I32_MAX)
         else if l = ''high'' then (0, 0, I32_MAX)
         else if l = ''medium'' \<or> l = ''low'' then (0, 0, 0)
         else (0, 0, I32_MAX))"

definition threshold_violation :: "bool \<Rightarrow> string \<times> int \<times> int \<Rightarrow> violation" where
  "threshold_violation block c =
     (case c of (sev, cnt, mx) \<Rightarrow>
       \<lparr>v_rule = ''cve-severity-threshold'', v_severity = sev,
        v_message = ''Found '' @ show_int cnt @ '' '' @ (if sev = ''high'' then ''high severity'' else sev)
                    @ '' vulnerabilities (max allowed: '' @ show_int mx @ '')'',
        v_details = Some (JObject [(''block_on_fail'', JBool block), (''count'', json_int cnt), (''max_allowed'', json_int mx)])\<rparr>)"

definition evaluate_cve_thresholds :: "cve_summary \<Rightarrow> string \<Rightarrow> bool \<Rightarrow> violation list" where
  "evaluate_cve_thresholds s max_sev block =
     (case threshold_limits max_sev of (mc, mh, mm) \<Rightarrow>
        map (threshold_violation block)
          (filter (\<lambda>(_, cnt, mx). cnt > mx)
            [(''critical'', cs_critical s, mc), (''high'', cs_high s, mh), (''medium'', cs_medium s, mm)]))"

definition evaluate_age_gates :: "int \<Rightarrow> int \<Rightarrow> int option \<Rightarrow> int option \<Rightarrow> violation list" where
  "evaluate_age_gates now created min_hours max_days =
     (case min_hours of
        None \<Rightarrow> []
      | Some mh \<Rightarrow>
          let hours = trunc_div (now - created) 3600000
          in if hours < mh then
               [\<lparr>v_rule = ''min-staging-time'', v_severity = ''high'',
                 v_message = ''Artifact has only been in staging for '' @ show_int hours @ '' hours (minimum: '' @ show_int mh @ '' hours)'',
                 v_details = Some (JObject [(''hours_in_staging'', json_int hours), (''min_staging_hours'', json_int mh)])\<rparr>]
             else []) @
     (case max_days of
        None \<Rightarrow> []
      | Some md \<Rightarrow>
          let days = trunc_div (now - created) 86400000
          in if days > md then
               [\<lparr>v_rule = ''max-artifact-age'', v_severity = ''medium'',
                 v_message = ''Artifact is '' @ show_int days @ '' days old (maximum: '' @ show_int md @ '' days)'',
                 v_details = Some (JObject [(''age_days'', json_int days), (''max_artifact_age_days'', json_int md)])\<rparr>]
             else [])"

definition evaluate_signature_requirement :: "bool \<Rightarrow> violation list" where
  "evaluate_signature_requirement is_signed =
     (if is_signed then []
      else [\<lparr>v_rule = ''require-signature'', v_severity = ''high'',
             v_message = ''Artifact does not have a valid signature'', v_details = None\<rparr>])"

definition lists_license :: "string list \<Rightarrow> string \<Rightarrow> bool" where
  "lists_license ls l \<longleftrightarrow> list_ex (\<lambda>d. to_uppercase d = to_uppercase l) ls"

fun license_loop :: "license_policy \<Rightarrow> string list \<Rightarrow> string list \<times> string list \<Rightarrow> string list \<times> string list" where
  "license_loop p [] acc = acc"
| "license_loop p (l # ls) acc =
     (if lists_license (lic_denied p) l then license_loop p ls (fst acc @ [l], snd acc)
      else if lic_allowed p \<noteq> [] \<and> \<not> lists_license (lic_allowed p) l \<and> \<not> lic_allow_unknown p
      then license_loop p ls (fst acc, snd acc @ [l])
      else license_loop p ls acc)"

definition license_severity :: "policy_action \<Rightarrow> string" where
  "license_severity a = (case a of Block \<Rightarrow> ''critical'' | Warn \<Rightarrow> ''medium'' | Allow \<Rightarrow> ''low'')"

definition json_strings :: "string list \<Rightarrow> json" where
  "json_strings ss = JArray (map JString ss)"

definition evaluate_license_policy :: "license_summary \<Rightarrow> license_policy \<Rightarrow> violation list" where
  "evaluate_license_policy s p =
     (case license_loop p (ls_found s) ([], []) of (denied, unknown) \<Rightarrow>
        (if denied \<noteq> [] then
           [\<lparr>v_rule = ''license-compliance'', v_severity = license_severity (lic_action p),
             v_message = ''Found '' @ show_nat (length denied) @ '' denied licenses: '' @ join_str '', '' denied,
             v_details = Some (JObject [(''denied_licenses'', json_strings denied), (''policy_name'', JString (lic_name p))])\<rparr>]
         else []) @
        (if unknown \<noteq> [] then
           [\<lparr>v_rule = ''license-compliance'', v_severity = ''medium'',
             v_message = ''Found '' @ show_nat (length unknown) @ '' licenses not in allowed list: '' @ join_str '', '' unknown,
             v_details = Some (JObject [(''policy_name'', JString (lic_name p)), (''unknown_licenses'', json_strings unknown)])\<rparr>]
         else []))"

section \<open>Escalation\<close>

definition escalate_action_by_severity :: "policy_action \<Rightarrow> string \<Rightarrow> policy_action" where
  "escalate_action_by_severity current sev =
     (if sev = ''critical'' \<or> sev = ''high'' then Block else if current \<noteq> Block then Warn else current)"

definition escalate_action_by_policy :: "policy_action \<Rightarrow> policy_action \<Rightarrow> policy_action" where
  "escalate_action_by_policy current act =
     (case act of Block \<Rightarrow> Block | Warn \<Rightarrow> if current \<noteq> Block then Warn else current | Allow \<Rightarrow> current)"

type_synonym promotion_verdict = "violation list \<times> policy_action"

fun collect_with_severity_escalation :: "violation list \<Rightarrow> promotion_verdict \<Rightarrow> promotion_verdict" where
  "collect_with_severity_escalation [] acc = acc"
| "collect_with_severity_escalation (v # vs) acc =
     collect_with_severity_escalation vs (fst acc @ [v], escalate_action_by_severity (snd acc) (v_severity v))"

definition evaluate_cves_against_policy :: "cve_summary \<Rightarrow> scan_policy option \<Rightarrow> promotion_verdict \<Rightarrow> promotion_verdict" where
  "evaluate_cves_against_policy s pol acc =
     (case pol of
        Some p \<Rightarrow> collect_with_severity_escalation (evaluate_cve_thresholds s (max_severity p) (block_on_fail p)) acc
      | None \<Rightarrow>
          if cs_critical s > 0 then
            (fst acc @ [\<lparr>v_rule = ''default-cve-policy'', v_severity = ''critical'',
                         v_message = ''Artifact has '' @ show_int (cs_critical s) @ '' critical vulnerabilities'',
                         v_details = Some (JObject [(''cves'', json_strings (cs_open_cves s))])\<rparr>], Block)
          else acc)"

fun collect_by_policy :: "policy_action \<Rightarrow> violation list \<Rightarrow> promotion_verdict \<Rightarrow> promotion_verdict" where
  "collect_by_policy act [] acc = acc"
| "collect_by_policy act (v # vs) acc = collect_by_policy act vs (fst acc @ [v], escalate_action_by_policy (snd acc) act)"

definition evaluate_licenses_against_policy :: "license_summary \<Rightarrow> license_policy \<Rightarrow> promotion_verdict \<Rightarrow> promotion_verdict" where
  "evaluate_licenses_against_policy s p acc = collect_by_policy (lic_action p) (evaluate_license_policy s p) acc"

section \<open>Queries\<close>

definition latest_completed :: "promo_db \<Rightarrow> nat \<Rightarrow> promo_scan option" where
  "latest_completed db aid =
     (case sort_by (by_column_desc psc_created_at) (filter (\<lambda>s. psc_artifact s = aid \<and> psc_status s = ''completed'') (pd_scans db)) of
        [] \<Rightarrow> None | s # _ \<Rightarrow> Some s)"

definition open_cves :: "promo_db \<Rightarrow> nat \<Rightarrow> string list" where
  "open_cves db aid =
     (case latest_completed db aid of
        None \<Rightarrow> []
      | Some s \<Rightarrow> remdups (concat (map (\<lambda>f. case pfi_cve f of None \<Rightarrow> [] | Some c \<Rightarrow> [c])
                    (filter (\<lambda>f. pfi_scan f = psc_id s \<and> \<not> pfi_acknowledged f) (pd_findings db)))))"

definition get_cve_summary :: "promo_faults \<Rightarrow> promo_db \<Rightarrow> nat \<Rightarrow> cve_summary option app_result" where
  "get_cve_summary io db aid =
     result_bind (ask io QScan (latest_completed db aid)) (\<lambda>scan.
       case scan of
         None \<Rightarrow> Ok None
       | Some s \<Rightarrow> result_bind (ask io QOpenCves (open_cves db aid)) (\<lambda>cves. Ok (Some (build_cve_summary s cves))))"

definition latest_sbom :: "promo_db \<Rightarrow> nat \<Rightarrow> sbom_document option" where
  "latest_sbom db aid =
     (case sort_by (by_column_desc sbom_created_at) (filter (\<lambda>s. sbom_artifact s = aid) (pd_sboms db)) of
        [] \<Rightarrow> None | s # _ \<Rightarrow> Some s)"

definition get_license_summary :: "promo_faults \<Rightarrow> promo_db \<Rightarrow> nat \<Rightarrow> license_summary option app_result" where
  "get_license_summary io db aid =
     result_bind (ask io QSbom (latest_sbom db aid)) (\<lambda>sbom.
       Ok (map_option (\<lambda>s. \<lparr>ls_found = unwrap_or (sbom_licenses s) [], ls_denied = [], ls_unknown = []\<rparr>) sbom))"

text \<open>\<open>ORDER BY repository_id DESC NULLS LAST LIMIT 1\<close>: a policy of the repository before a global one.\<close>

definition own_first :: "('p \<Rightarrow> nat option) \<Rightarrow> ('p \<Rightarrow> bool) \<Rightarrow> nat \<Rightarrow> 'p list \<Rightarrow> 'p option" where
  "own_first repo_of enabled repo ps =
     (case filter (\<lambda>p. enabled p \<and> repo_of p = Some repo) ps @ filter (\<lambda>p. enabled p \<and> repo_of p = None) ps of
        [] \<Rightarrow> None | p # _ \<Rightarrow> Some p)"

definition get_scan_policy :: "promo_faults \<Rightarrow> promo_db \<Rightarrow> nat \<Rightarrow> scan_policy option app_result" where
  "get_scan_policy io db repo = ask io QScanPolicy (own_first pol_repository pol_enabled repo (pd_policies db))"

definition license_config :: "license_policy_row \<Rightarrow> license_policy" where
  "license_config p =
     \<lparr>lic_name = lpr_name p, lic_allowed = unwrap_or (lpr_allowed p) [], lic_denied = unwrap_or (lpr_denied p) [],
      lic_allow_unknown = lpr_allow_unknown p, lic_action = unwrap_or (parse_policy_action (lpr_action p)) Warn\<rparr>"

definition get_license_policy :: "promo_faults \<Rightarrow> promo_db \<Rightarrow> nat \<Rightarrow> license_policy option app_result" where
  "get_license_policy io db repo =
     result_bind (ask io QLicensePolicy (own_first lpr_repository lpr_enabled repo (pd_license_policies db))) (\<lambda>p.
       Ok (map_option license_config p))"

definition promo_scan_state :: "promo_db \<Rightarrow> nat \<Rightarrow> scan_state" where
  "promo_scan_state db aid =
     classify_scan_state (map (\<lambda>s. \<lparr>row_status = psc_status s, row_error_message = psc_error_message s\<rparr>)
       (filter (\<lambda>s. psc_artifact s = aid) (pd_scans db)))"

definition get_scan_state :: "promo_faults \<Rightarrow> promo_db \<Rightarrow> nat \<Rightarrow> scan_state app_result" where
  "get_scan_state io db aid = ask io QScanState (promo_scan_state db aid)"

definition get_artifact_created_at :: "promo_faults \<Rightarrow> promo_db \<Rightarrow> nat \<Rightarrow> int option app_result" where
  "get_artifact_created_at io db aid = ask io QCreated (map_of (pd_artifacts db) aid)"

definition key_active :: "promo_db \<Rightarrow> nat \<Rightarrow> bool" where
  "key_active db k \<longleftrightarrow> list_ex (\<lambda>s. sk_id s = k \<and> sk_active s) (pd_keys db)"

definition has_signing_config :: "promo_db \<Rightarrow> nat \<Rightarrow> bool" where
  "has_signing_config db repo \<longleftrightarrow> list_ex (\<lambda>(r, k). r = repo \<and> key_active db k) (pd_signing_config db)"

definition has_signature :: "promo_db \<Rightarrow> nat \<Rightarrow> nat \<Rightarrow> bool" where
  "has_signature db aid repo \<longleftrightarrow>
     list_ex (\<lambda>a. ska_action a = ''used_for_signing'' \<and> ska_artifact a = Some aid \<and>
                  list_ex (\<lambda>s. sk_id s = ska_key a \<and> sk_repository s = Some repo \<and> sk_active s) (pd_keys db)) (pd_audit db)"

definition check_artifact_signature :: "promo_faults \<Rightarrow> promo_db \<Rightarrow> nat \<Rightarrow> nat \<Rightarrow> bool app_result" where
  "check_artifact_signature io db aid repo =
     result_bind (ask io QSigningConfig (has_signing_config db repo)) (\<lambda>has_sig.
       if \<not> has_sig then Ok False else ask io QSigned (has_signature db aid repo))"

section \<open>Evaluation\<close>

definition evaluate_block_unscanned :: "promo_faults \<Rightarrow> promo_db \<Rightarrow> nat \<Rightarrow> scan_policy \<Rightarrow> promotion_verdict \<Rightarrow> promotion_verdict app_result" where
  "evaluate_block_unscanned io db aid p acc =
     result_bind (get_scan_state io db aid) (\<lambda>state.
       if \<not> is_unscanned state then Ok acc
       else if block_unscanned p then
         let v = build_unscanned_violation state
         in Ok (fst acc @ [v], escalate_action_by_severity (snd acc) (v_severity v))
       else Ok acc)"

definition evaluate_age :: "promo_faults \<Rightarrow> int \<Rightarrow> promo_db \<Rightarrow> nat \<Rightarrow> scan_policy \<Rightarrow> promotion_verdict \<Rightarrow> promotion_verdict app_result" where
  "evaluate_age io now db aid p acc =
     (if min_staging_hours p = None \<and> max_artifact_age_days p = None then Ok acc
      else result_bind (get_artifact_created_at io db aid) (\<lambda>created.
        case created of
          None \<Rightarrow> Ok acc
        | Some t \<Rightarrow> Ok (collect_with_severity_escalation (evaluate_age_gates now t (min_staging_hours p) (max_artifact_age_days p)) acc)))"

fun collect_blocking :: "violation list \<Rightarrow> promotion_verdict \<Rightarrow> promotion_verdict" where
  "collect_blocking [] acc = acc"
| "collect_blocking (v # vs) acc = collect_blocking vs (fst acc @ [v], Block)"

definition evaluate_age_and_signature ::
  "promo_faults \<Rightarrow> int \<Rightarrow> promo_db \<Rightarrow> nat \<Rightarrow> nat \<Rightarrow> scan_policy \<Rightarrow> promotion_verdict \<Rightarrow> promotion_verdict app_result" where
  "evaluate_age_and_signature io now db aid repo p acc =
     result_bind (evaluate_age io now db aid p acc) (\<lambda>acc1.
       if \<not> require_signature p then Ok acc1
       else result_bind (check_artifact_signature io db aid repo) (\<lambda>is_signed.
              Ok (collect_blocking (evaluate_signature_requirement is_signed) acc1)))"

definition evaluate_promotion :: "promo_faults \<Rightarrow> int \<Rightarrow> promo_db \<Rightarrow> nat \<Rightarrow> nat \<Rightarrow> evaluation app_result" where
  "evaluate_promotion io now db aid repo =
     result_bind (get_cve_summary io db aid) (\<lambda>cves.
     result_bind (get_license_summary io db aid) (\<lambda>lics.
     result_bind (get_scan_policy io db repo) (\<lambda>pol.
     result_bind (get_license_policy io db repo) (\<lambda>licpol.
       let acc0 = ([], Allow);
           acc1 = (case cves of None \<Rightarrow> acc0 | Some s \<Rightarrow> evaluate_cves_against_policy s pol acc0);
           acc2 = (case (lics, licpol) of (Some s, Some p) \<Rightarrow> evaluate_licenses_against_policy s p acc1 | _ \<Rightarrow> acc1)
       in result_bind
            (case pol of
               None \<Rightarrow> Ok acc2
             | Some p \<Rightarrow> result_bind (evaluate_block_unscanned io db aid p acc2) (evaluate_age_and_signature io now db aid repo p))
            (\<lambda>(vs, act). Ok \<lparr>ev_passed = (vs = []), ev_action = act, ev_violations = vs,
                             ev_cve_summary = cves, ev_license_summary = lics\<rparr>)))))"

text \<open>The handler stops when the evaluation did not pass and its action is to block.\<close>

definition promotion_stops :: "evaluation \<Rightarrow> bool" where
  "promotion_stops e \<longleftrightarrow> \<not> ev_passed e \<and> ev_action e = Block"

section \<open>When a promotion is blocked\<close>

lemma collect_severity_fst [simp]: "fst (collect_with_severity_escalation vs acc) = fst acc @ vs"
  by (induction vs acc rule: collect_with_severity_escalation.induct) simp_all

lemma collect_severity_block [simp]:
  "snd (collect_with_severity_escalation vs acc) = Block \<longleftrightarrow>
   snd acc = Block \<or> (\<exists>v\<in>set vs. v_severity v = ''critical'' \<or> v_severity v = ''high'')"
  by (induction vs acc rule: collect_with_severity_escalation.induct) (auto simp: escalate_action_by_severity_def)

lemma collect_by_policy_fst [simp]: "fst (collect_by_policy act vs acc) = fst acc @ vs"
  by (induction act vs acc rule: collect_by_policy.induct) simp_all

lemma collect_by_policy_block [simp]:
  "snd (collect_by_policy act vs acc) = Block \<longleftrightarrow> snd acc = Block \<or> (vs \<noteq> [] \<and> act = Block)"
  by (induction act vs acc rule: collect_by_policy.induct) (auto simp: escalate_action_by_policy_def split: policy_action.splits)

lemma collect_blocking_fst [simp]: "fst (collect_blocking vs acc) = fst acc @ vs"
  by (induction vs acc rule: collect_blocking.induct) simp_all

lemma collect_blocking_block [simp]: "snd (collect_blocking vs acc) = Block \<longleftrightarrow> snd acc = Block \<or> vs \<noteq> []"
  by (induction vs acc rule: collect_blocking.induct) auto

definition refused_license :: "license_policy \<Rightarrow> string \<Rightarrow> bool" where
  "refused_license p l \<longleftrightarrow>
     lists_license (lic_denied p) l \<or>
     (lic_allowed p \<noteq> [] \<and> \<not> lists_license (lic_allowed p) l \<and> \<not> lic_allow_unknown p)"

lemma license_loop_eq:
  "license_loop p ls acc =
     (fst acc @ filter (lists_license (lic_denied p)) ls,
      snd acc @ filter (\<lambda>l. \<not> lists_license (lic_denied p) l \<and> refused_license p l) ls)"
  by (induction p ls acc rule: license_loop.induct) (auto simp: refused_license_def)

lemma license_violations:
  "evaluate_license_policy s p \<noteq> [] \<longleftrightarrow> (\<exists>l\<in>set (ls_found s). refused_license p l)"
  by (auto simp: evaluate_license_policy_def license_loop_eq refused_license_def filter_empty_conv)

text \<open>A blocking action always comes with a violation.\<close>

definition grounded :: "promotion_verdict \<Rightarrow> bool" where
  "grounded acc \<longleftrightarrow> (snd acc = Block \<longrightarrow> fst acc \<noteq> [])"

lemma grounded_collects:
  "grounded acc \<Longrightarrow> grounded (collect_with_severity_escalation vs acc)"
  "grounded acc \<Longrightarrow> grounded (collect_by_policy act vs acc)"
  "grounded acc \<Longrightarrow> grounded (collect_blocking vs acc)"
  by (auto simp: grounded_def)

definition severe_cves :: "promo_db \<Rightarrow> nat \<Rightarrow> scan_policy option \<Rightarrow> bool" where
  "severe_cves db aid pol \<longleftrightarrow>
     (\<exists>s. latest_completed db aid = Some s \<and>
        (psc_critical s > 0 \<or> (\<exists>p. pol = Some p \<and> to_lowercase (max_severity p) \<noteq> ''critical'' \<and> psc_high s > 0)))"

definition refused_licenses :: "promo_db \<Rightarrow> nat \<Rightarrow> nat \<Rightarrow> bool" where
  "refused_licenses db aid repo \<longleftrightarrow>
     (\<exists>s row ls. latest_sbom db aid = Some s \<and> sbom_licenses s = Some ls \<and>
        own_first lpr_repository lpr_enabled repo (pd_license_policies db) = Some row \<and>
        lic_action (license_config row) = Block \<and> (\<exists>l\<in>set ls. refused_license (license_config row) l))"

definition staged_too_short :: "int \<Rightarrow> promo_db \<Rightarrow> nat \<Rightarrow> scan_policy \<Rightarrow> bool" where
  "staged_too_short now db aid p \<longleftrightarrow>
     (\<exists>t mh. map_of (pd_artifacts db) aid = Some t \<and> min_staging_hours p = Some mh \<and> trunc_div (now - t) 3600000 < mh)"

definition must_block :: "int \<Rightarrow> promo_db \<Rightarrow> nat \<Rightarrow> nat \<Rightarrow> bool" where
  "must_block now db aid repo \<longleftrightarrow>
     (let pol = own_first pol_repository pol_enabled repo (pd_policies db)
      in severe_cves db aid pol \<or> refused_licenses db aid repo \<or>
         (\<exists>p. pol = Some p \<and>
            (block_unscanned p \<and> is_unscanned (promo_scan_state db aid) \<or> staged_too_short now db aid p \<or>
             require_signature p \<and> \<not> (has_signing_config db repo \<and> has_signature db aid repo))))"

text \<open>The columns of the counts are 32-bit integers.\<close>

definition counts_ok :: "promo_db \<Rightarrow> bool" where
  "counts_ok db \<longleftrightarrow> list_all (\<lambda>s. psc_critical s \<le> I32_MAX \<and> psc_high s \<le> I32_MAX \<and> psc_medium s \<le> I32_MAX) (pd_scans db)"

lemma sort_by_head: "sort_by c xs = y # ys \<Longrightarrow> y \<in> set xs"
  by (metis list.set_intros(1) set_sort_by)

lemma latest_completed_in: "latest_completed db aid = Some s \<Longrightarrow> s \<in> set (pd_scans db)"
  unfolding latest_completed_def by (auto split: list.splits dest!: sort_by_head)

lemma thresholds_ex:
  "(\<exists>v\<in>set (evaluate_cve_thresholds s m b). P (v_severity v)) \<longleftrightarrow>
   (case threshold_limits m of (mc, mh, mm) \<Rightarrow>
      cs_critical s > mc \<and> P ''critical'' \<or> cs_high s > mh \<and> P ''high'' \<or> cs_medium s > mm \<and> P ''medium'')"
  by (cases "threshold_limits m") (simp add: evaluate_cve_thresholds_def threshold_violation_def bex_Un)

lemma limits_severe:
  "fst (threshold_limits m) = 0"
  "fst (snd (threshold_limits m)) = (if to_lowercase m = ''critical'' then I32_MAX else 0)"
  by (simp_all add: threshold_limits_def Let_def)

lemma threshold_severe:
  assumes "cs_high s \<le> I32_MAX"
  shows "(\<exists>v\<in>set (evaluate_cve_thresholds s m b). v_severity v = ''critical'' \<or> v_severity v = ''high'') \<longleftrightarrow>
         cs_critical s > 0 \<or> (to_lowercase m \<noteq> ''critical'' \<and> cs_high s > 0)"
  unfolding thresholds_ex[where P = "\<lambda>v. v = ''critical'' \<or> v = ''high''"]
  using assms limits_severe[of m] by (cases "threshold_limits m") auto

lemma age_severe:
  "(\<exists>v\<in>set (evaluate_age_gates now t mh md). v_severity v = ''critical'' \<or> v_severity v = ''high'') \<longleftrightarrow>
   (\<exists>h. mh = Some h \<and> trunc_div (now - t) 3600000 < h)"
  by (auto simp: evaluate_age_gates_def Let_def split: option.splits)


text \<open>Each stage keeps the verdict grounded and blocks exactly for its own reason.\<close>

lemma cve_stage:
  assumes "grounded acc" "counts_ok db" "latest_completed db aid = Some s"
  shows "grounded (evaluate_cves_against_policy (build_cve_summary s cves) pol acc) \<and>
         (snd (evaluate_cves_against_policy (build_cve_summary s cves) pol acc) = Block \<longleftrightarrow>
          snd acc = Block \<or> severe_cves db aid pol)"
proof -
  have high: "psc_high s \<le> I32_MAX"
    using assms(2) latest_completed_in[OF assms(3)] by (auto simp: counts_ok_def list_all_iff)
  show ?thesis
  proof (cases pol)
    case None
    then show ?thesis
      using assms by (auto simp: evaluate_cves_against_policy_def build_cve_summary_def severe_cves_def grounded_def)
  next
    case (Some p)
    then show ?thesis
      using assms(1,3) high threshold_severe[of "build_cve_summary s cves" "max_severity p" "block_on_fail p"]
      by (simp add: evaluate_cves_against_policy_def severe_cves_def grounded_collects build_cve_summary_def)
  qed
qed

lemma license_stage:
  assumes "grounded acc"
  shows "grounded (evaluate_licenses_against_policy s p acc) \<and>
         (snd (evaluate_licenses_against_policy s p acc) = Block \<longleftrightarrow>
          snd acc = Block \<or> (lic_action p = Block \<and> (\<exists>l\<in>set (ls_found s). refused_license p l)))"
  using assms by (auto simp: evaluate_licenses_against_policy_def grounded_collects license_violations)

lemma unscanned_stage:
  assumes "grounded acc"
  obtains acc' where "evaluate_block_unscanned no_outage db aid p acc = Ok acc'" "grounded acc'"
    "snd acc' = Block \<longleftrightarrow> snd acc = Block \<or> (block_unscanned p \<and> is_unscanned (promo_scan_state db aid))"
proof (cases "block_unscanned p \<and> is_unscanned (promo_scan_state db aid)")
  case True
  then show ?thesis
    by (intro that[of "(fst acc @ [build_unscanned_violation (promo_scan_state db aid)], Block)"])
       (auto simp: evaluate_block_unscanned_def get_scan_state_def escalate_action_by_severity_def
          build_unscanned_violation_def grounded_def)
next
  case False
  then show ?thesis
    using assms by (intro that[of acc]) (auto simp: evaluate_block_unscanned_def get_scan_state_def)
qed

lemma age_stage:
  assumes "grounded acc"
  obtains acc' where "evaluate_age no_outage now db aid p acc = Ok acc'" "grounded acc'"
    "snd acc' = Block \<longleftrightarrow> snd acc = Block \<or> staged_too_short now db aid p"
proof (cases "map_of (pd_artifacts db) aid")
  case None
  then show ?thesis
    using assms by (intro that[of acc]) (auto simp: evaluate_age_def get_artifact_created_at_def staged_too_short_def)
next
  case (Some t)
  let ?vs = "evaluate_age_gates now t (min_staging_hours p) (max_artifact_age_days p)"
  have "evaluate_age no_outage now db aid p acc = Ok (collect_with_severity_escalation ?vs acc)"
    using Some by (auto simp: evaluate_age_def get_artifact_created_at_def evaluate_age_gates_def)
  then show ?thesis
    by (rule that) (use assms Some in \<open>auto simp: grounded_collects age_severe staged_too_short_def\<close>)
qed

lemma signature_stage:
  assumes "grounded acc"
  obtains acc' where "evaluate_age_and_signature no_outage now db aid repo p acc = Ok acc'" "grounded acc'"
    "snd acc' = Block \<longleftrightarrow> snd acc = Block \<or> staged_too_short now db aid p \<or>
       (require_signature p \<and> \<not> (has_signing_config db repo \<and> has_signature db aid repo))"
proof -
  obtain a where a: "evaluate_age no_outage now db aid p acc = Ok a" "grounded a"
      "snd a = Block \<longleftrightarrow> snd acc = Block \<or> staged_too_short now db aid p"
    using age_stage[OF assms] by blast
  show ?thesis
  proof (cases "require_signature p")
    case False
    then show ?thesis using a by (intro that[of a]) (auto simp: evaluate_age_and_signature_def)
  next
    case True
    let ?sig = "has_signing_config db repo \<and> has_signature db aid repo"
    have "check_artifact_signature no_outage db aid repo = Ok ?sig"
      by (simp add: check_artifact_signature_def)
    then have "evaluate_age_and_signature no_outage now db aid repo p acc =
        Ok (collect_blocking (evaluate_signature_requirement ?sig) a)"
      using True a(1) by (simp add: evaluate_age_and_signature_def)
    then show ?thesis
      by (rule that) (use True a(2,3) in \<open>auto simp: grounded_collects evaluate_signature_requirement_def\<close>)
  qed
qed


lemma summaries_no_outage [simp]:
  "get_cve_summary no_outage db aid = Ok (map_option (\<lambda>s. build_cve_summary s (open_cves db aid)) (latest_completed db aid))"
  "get_license_summary no_outage db aid =
     Ok (map_option (\<lambda>s. \<lparr>ls_found = unwrap_or (sbom_licenses s) [], ls_denied = [], ls_unknown = []\<rparr>) (latest_sbom db aid))"
  "get_scan_policy no_outage db repo = Ok (own_first pol_repository pol_enabled repo (pd_policies db))"
  "get_license_policy no_outage db repo =
     Ok (map_option license_config (own_first lpr_repository lpr_enabled repo (pd_license_policies db)))"
  by (auto simp: get_cve_summary_def get_license_summary_def get_scan_policy_def get_license_policy_def split: option.splits)

lemma unwrap_or_licenses: "(\<exists>l\<in>set (unwrap_or xs []). P l) \<longleftrightarrow> (\<exists>ls. xs = Some ls \<and> (\<exists>l\<in>set ls. P l))"
  by (cases xs) (auto simp: unwrap_or_def)

text \<open>The verdict after the vulnerability and license stages.\<close>

definition cve_license_verdict :: "promo_db \<Rightarrow> nat \<Rightarrow> nat \<Rightarrow> promotion_verdict" where
  "cve_license_verdict db aid repo =
     (let pol = own_first pol_repository pol_enabled repo (pd_policies db);
          acc1 = (case latest_completed db aid of
                    None \<Rightarrow> ([], Allow)
                  | Some s \<Rightarrow> evaluate_cves_against_policy (build_cve_summary s (open_cves db aid)) pol ([], Allow))
      in case (latest_sbom db aid, own_first lpr_repository lpr_enabled repo (pd_license_policies db)) of
           (Some s, Some p) \<Rightarrow> evaluate_licenses_against_policy
              \<lparr>ls_found = unwrap_or (sbom_licenses s) [], ls_denied = [], ls_unknown = []\<rparr> (license_config p) acc1
         | _ \<Rightarrow> acc1)"

lemma cve_license_verdict_block:
  assumes "counts_ok db"
  shows "grounded (cve_license_verdict db aid repo) \<and>
         (snd (cve_license_verdict db aid repo) = Block \<longleftrightarrow>
          severe_cves db aid (own_first pol_repository pol_enabled repo (pd_policies db)) \<or> refused_licenses db aid repo)"
proof -
  let ?pol = "own_first pol_repository pol_enabled repo (pd_policies db)"
  define acc1 where "acc1 = (case latest_completed db aid of None \<Rightarrow> ([], Allow)
    | Some s \<Rightarrow> evaluate_cves_against_policy (build_cve_summary s (open_cves db aid)) ?pol ([], Allow))"
  have 1: "grounded acc1 \<and> (snd acc1 = Block \<longleftrightarrow> severe_cves db aid ?pol)"
    using cve_stage[OF _ assms, of "([], Allow)" aid]
    by (auto simp: acc1_def grounded_def severe_cves_def split: option.splits)
  show ?thesis
    using 1 license_stage[of acc1]
    by (simp add: cve_license_verdict_def refused_licenses_def unwrap_or_licenses flip: acc1_def split: option.split) blast
qed

lemma evaluate_promotion_stages:
  "evaluate_promotion no_outage now db aid repo =
     result_bind
       (case own_first pol_repository pol_enabled repo (pd_policies db) of
          None \<Rightarrow> Ok (cve_license_verdict db aid repo)
        | Some p \<Rightarrow> result_bind (evaluate_block_unscanned no_outage db aid p (cve_license_verdict db aid repo))
                      (evaluate_age_and_signature no_outage now db aid repo p))
       (\<lambda>(vs, act). Ok \<lparr>ev_passed = (vs = []), ev_action = act, ev_violations = vs,
          ev_cve_summary = map_option (\<lambda>s. build_cve_summary s (open_cves db aid)) (latest_completed db aid),
          ev_license_summary = map_option (\<lambda>s. \<lparr>ls_found = unwrap_or (sbom_licenses s) [], ls_denied = [], ls_unknown = []\<rparr>)
              (latest_sbom db aid)\<rparr>)"
  by (auto simp: evaluate_promotion_def cve_license_verdict_def Let_def split: option.split)

lemma promotion_stops_iff:
  assumes "counts_ok db"
  shows "\<exists>e. evaluate_promotion no_outage now db aid repo = Ok e \<and>
           (promotion_stops e \<longleftrightarrow> must_block now db aid repo) \<and> (ev_passed e \<longleftrightarrow> ev_violations e = [])"
proof (cases "own_first pol_repository pol_enabled repo (pd_policies db)")
  case None
  then show ?thesis
    using cve_license_verdict_block[OF assms, of aid repo]
    by (auto simp: evaluate_promotion_stages must_block_def promotion_stops_def grounded_def split: prod.split)
next
  case (Some p)
  let ?acc = "cve_license_verdict db aid repo"
  have acc: "grounded ?acc" "snd ?acc = Block \<longleftrightarrow> severe_cves db aid (Some p) \<or> refused_licenses db aid repo"
    using cve_license_verdict_block[OF assms, of aid repo] Some by auto
  obtain b where b: "evaluate_block_unscanned no_outage db aid p ?acc = Ok b" "grounded b"
      "snd b = Block \<longleftrightarrow> snd ?acc = Block \<or> (block_unscanned p \<and> is_unscanned (promo_scan_state db aid))"
    using unscanned_stage[OF acc(1)] by blast
  obtain c where c: "evaluate_age_and_signature no_outage now db aid repo p b = Ok c" "grounded c"
      "snd c = Block \<longleftrightarrow> snd b = Block \<or> staged_too_short now db aid p \<or>
       (require_signature p \<and> \<not> (has_signing_config db repo \<and> has_signature db aid repo))"
    using signature_stage[OF b(2)] by blast
  have "snd c = Block \<longleftrightarrow> must_block now db aid repo"
    using acc(2) b(3) c(3) Some by (auto simp: must_block_def)
  then show ?thesis
    using Some b(1) c(1,2)
    by (auto simp: evaluate_promotion_stages promotion_stops_def grounded_def split: prod.split)
qed



definition promo_demo_policy :: scan_policy where
  "promo_demo_policy =
     \<lparr>pol_id = 1, pol_name = ''gate'', pol_repository = Some 7, max_severity = ''medium'', block_unscanned = True,
      block_on_fail = True, pol_enabled = True, min_staging_hours = None, max_artifact_age_days = None,
      require_signature = False, pol_created_at = 0, pol_updated_at = 0\<rparr>"

definition promo_demo_scan :: "int \<Rightarrow> int \<Rightarrow> promo_scan" where
  "promo_demo_scan high medium =
     \<lparr>psc_id = 1, psc_artifact = 5, psc_status = ''completed'', psc_error_message = None, psc_critical = 0,
      psc_high = high, psc_medium = medium, psc_low = 0, psc_findings = high + medium, psc_created_at = 10\<rparr>"

definition promo_demo_db :: "promo_scan list \<Rightarrow> promo_db" where
  "promo_demo_db scans =
     \<lparr>pd_scans = scans, pd_findings = [], pd_sboms = [], pd_policies = [promo_demo_policy], pd_license_policies = [],
      pd_artifacts = [(5, 0)], pd_signing_config = [], pd_keys = [], pd_audit = []\<rparr>"

lemmas promo_demo_simps =
  promo_demo_db_def promo_demo_policy_def promo_demo_scan_def own_first_def latest_completed_def latest_sbom_def


text \<open>A threshold of medium lists medium findings as violations, but their severity only warns, so the
  promotion goes ahead, while the download gate refuses the same artifact under the same policy row.\<close>

lemma medium_threshold_only_warns:
  "case evaluate_promotion no_outage 0 (promo_demo_db [promo_demo_scan 0 3]) 5 7 of
     Ok e \<Rightarrow> map v_severity (ev_violations e) = [''medium''] \<and> \<not> ev_passed e \<and> \<not> promotion_stops e
   | Err _ \<Rightarrow> False"
  by code_simp

end
