(* ===== verification/Promotion_Rules.thy ===== *)
theory Promotion_Rules
  imports Promotion
begin

text \<open>
  Promotion rules (services/promotion_rule_service.rs, models/promotion.rs): per pair of repositories,
  criteria an artifact has to meet before it is promoted. The service keeps the table of rules, evaluates
  an artifact against a rule, gates a manual promotion by all enabled rules of the pair and reports what
  an automatic promotion would do. Shows exactly which artifacts a rule lets through, that the gate, the
  dry run and the automatic report agree, and what every operation keeps of the table.
\<close>

section \<open>Data\<close>

record promotion_rule =
  pr_id :: nat
  pr_name :: string
  pr_source :: nat
  pr_target :: nat
  pr_enabled :: bool
  pr_max_cve_severity :: "string option"
  pr_allowed_licenses :: "string list option"
  pr_require_signature :: bool
  pr_min_staging_hours :: "int option"
  pr_max_artifact_age_days :: "int option"
  pr_min_health_score :: "int option"
  pr_auto_promote :: bool
  pr_created_at :: int
  pr_updated_at :: int

record rule_input =
  ri_name :: string
  ri_source :: nat
  ri_target :: nat
  ri_enabled :: bool
  ri_max_cve_severity :: "string option"
  ri_allowed_licenses :: "string list option"
  ri_require_signature :: bool
  ri_min_staging_hours :: "int option"
  ri_max_artifact_age_days :: "int option"
  ri_min_health_score :: "int option"
  ri_auto_promote :: bool

record rule_patch =
  rp_name :: "string option"
  rp_enabled :: "bool option"
  rp_max_cve_severity :: "string option"
  rp_allowed_licenses :: "string list option"
  rp_require_signature :: "bool option"
  rp_min_staging_hours :: "int option"
  rp_max_artifact_age_days :: "int option"
  rp_min_health_score :: "int option"
  rp_auto_promote :: "bool option"

record promotion_rule_evaluation =
  re_rule :: nat
  re_name :: string
  re_passed :: bool
  re_violations :: "string list"

record auto_promotion =
  ap_rule :: nat
  ap_name :: string
  ap_artifact :: nat
  ap_promoted :: bool
  ap_target :: nat
  ap_violations :: "string list"

text \<open>The rules' table and the health scores beside the tables the policy service reads.\<close>

record rules_db =
  rb_promo :: promo_db
  rb_rules :: "promotion_rule list"
  rb_health :: "(nat \<times> int) list"

section \<open>Criteria\<close>

definition check_scan_state_for_cve_rule :: "scan_state \<Rightarrow> string option" where
  "check_scan_state_for_cve_rule state =
     (if is_unscanned state
      then Some (''Artifact has no completed security scan (scan state: '' @ reason_token state @
                 ''); a CVE severity rule requires a completed scan before auto-promotion'')
      else None)"

definition severity_to_level :: "string \<Rightarrow> int" where
  "severity_to_level s =
     (let l = to_lowercase s
      in if l = ''critical'' then 0 else if l = ''high'' then 1 else if l = ''medium'' \<or> l = ''moderate'' then 2
         else if l = ''low'' then 3 else if l = ''info'' \<or> l = ''informational'' \<or> l = ''none'' then 4 else 2)"

definition cve_message :: "int \<Rightarrow> string \<Rightarrow> string \<Rightarrow> string" where
  "cve_message n sev mx = ''Found '' @ show_int n @ '' '' @ sev @ '' CVEs (max allowed severity: '' @ mx @ '')''"

definition check_cve_severity :: "string \<Rightarrow> int \<Rightarrow> int \<Rightarrow> int \<Rightarrow> int \<Rightarrow> string option" where
  "check_cve_severity mx critical high medium low =
     (let threshold = severity_to_level mx
      in if critical > 0 \<and> severity_to_level ''critical'' < threshold then Some (cve_message critical ''critical'' mx)
         else if high > 0 \<and> severity_to_level ''high'' < threshold then Some (cve_message high ''high'' mx)
         else if medium > 0 \<and> severity_to_level ''medium'' < threshold then Some (cve_message medium ''medium'' mx)
         else if low > 0 \<and> severity_to_level ''low'' < threshold then Some (cve_message low ''low'' mx)
         else None)"

definition check_min_staging_hours :: "int \<Rightarrow> int \<Rightarrow> int \<Rightarrow> string option" where
  "check_min_staging_hours min_hours created now =
     (let hours = trunc_div (now - created) 3600000
      in if hours < min_hours
         then Some (''Artifact has only been in staging for '' @ show_int hours @ '' hours (minimum: '' @ show_int min_hours @ '')'')
         else None)"

definition check_max_artifact_age :: "int \<Rightarrow> int \<Rightarrow> int \<Rightarrow> string option" where
  "check_max_artifact_age max_days created now =
     (let days = trunc_div (now - created) 86400000
      in if days > max_days
         then Some (''Artifact is '' @ show_int days @ '' days old (maximum: '' @ show_int max_days @ '')'')
         else None)"

definition check_min_health_score :: "int \<Rightarrow> int \<Rightarrow> string option" where
  "check_min_health_score min_score actual =
     (if actual < min_score
      then Some (''Health score '' @ show_int actual @ '' is below minimum required score of '' @ show_int min_score)
      else None)"

definition check_allowed_licenses :: "string list \<Rightarrow> string list \<Rightarrow> string option" where
  "check_allowed_licenses permitted found =
     (let upper = map to_uppercase permitted;
          disallowed = filter (\<lambda>l. to_uppercase l \<notin> set upper) found
      in if disallowed = [] then None
         else Some (''Found licenses not in allowed list: '' @ join_str '', '' disallowed))"

section \<open>The table of rules\<close>

definition create_promotion_rule :: "promo_faults \<Rightarrow> nat \<Rightarrow> int \<Rightarrow> rule_input \<Rightarrow> rules_db \<Rightarrow> promotion_rule app_result \<times> rules_db" where
  "create_promotion_rule io new_id now inp db =
     (let rule = \<lparr>pr_id = new_id, pr_name = ri_name inp, pr_source = ri_source inp, pr_target = ri_target inp,
                  pr_enabled = ri_enabled inp, pr_max_cve_severity = ri_max_cve_severity inp,
                  pr_allowed_licenses = ri_allowed_licenses inp, pr_require_signature = ri_require_signature inp,
                  pr_min_staging_hours = ri_min_staging_hours inp, pr_max_artifact_age_days = ri_max_artifact_age_days inp,
                  pr_min_health_score = ri_min_health_score inp, pr_auto_promote = ri_auto_promote inp,
                  pr_created_at = now, pr_updated_at = now\<rparr>
      in case ask_text io QRuleWrite rule of
           Err e \<Rightarrow> (Err e, db)
         | Ok r \<Rightarrow> (Ok r, db\<lparr>rb_rules := rb_rules db @ [r]\<rparr>))"

definition list_promotion_rules :: "promo_faults \<Rightarrow> nat option \<Rightarrow> rules_db \<Rightarrow> promotion_rule list app_result" where
  "list_promotion_rules io source db =
     ask_text io QRules (sort_by (by_column_desc pr_created_at)
       (case source of Some r \<Rightarrow> filter (\<lambda>p. pr_source p = r) (rb_rules db) | None \<Rightarrow> rb_rules db))"

definition find_promotion_rule :: "nat \<Rightarrow> rules_db \<Rightarrow> promotion_rule option" where
  "find_promotion_rule i db = List.find (\<lambda>p. pr_id p = i) (rb_rules db)"

definition get_promotion_rule :: "promo_faults \<Rightarrow> nat \<Rightarrow> rules_db \<Rightarrow> promotion_rule app_result" where
  "get_promotion_rule io i db =
     result_bind (ask_text io QRules (find_promotion_rule i db)) (\<lambda>r.
       case r of Some p \<Rightarrow> Ok p | None \<Rightarrow> Err (NotFound ''Promotion rule not found''))"

definition patch_promotion_rule :: "int \<Rightarrow> rule_patch \<Rightarrow> promotion_rule \<Rightarrow> promotion_rule" where
  "patch_promotion_rule now inp r = r\<lparr>
     pr_name := unwrap_or (rp_name inp) (pr_name r),
     pr_enabled := unwrap_or (rp_enabled inp) (pr_enabled r),
     pr_max_cve_severity := or_else (rp_max_cve_severity inp) (pr_max_cve_severity r),
     pr_allowed_licenses := or_else (rp_allowed_licenses inp) (pr_allowed_licenses r),
     pr_require_signature := unwrap_or (rp_require_signature inp) (pr_require_signature r),
     pr_min_staging_hours := or_else (rp_min_staging_hours inp) (pr_min_staging_hours r),
     pr_max_artifact_age_days := or_else (rp_max_artifact_age_days inp) (pr_max_artifact_age_days r),
     pr_min_health_score := or_else (rp_min_health_score inp) (pr_min_health_score r),
     pr_auto_promote := unwrap_or (rp_auto_promote inp) (pr_auto_promote r),
     pr_updated_at := now\<rparr>"

definition update_promotion_rule :: "promo_faults \<Rightarrow> int \<Rightarrow> nat \<Rightarrow> rule_patch \<Rightarrow> rules_db \<Rightarrow> promotion_rule app_result \<times> rules_db" where
  "update_promotion_rule io now i inp db =
     (case get_promotion_rule io i db of
        Err e \<Rightarrow> (Err e, db)
      | Ok existing \<Rightarrow>
          let rule = patch_promotion_rule now inp existing
          in case ask_text io QRuleWrite rule of
               Err e \<Rightarrow> (Err e, db)
             | Ok r \<Rightarrow> (Ok r, db\<lparr>rb_rules := map (\<lambda>p. if pr_id p = i then r else p) (rb_rules db)\<rparr>))"

definition delete_promotion_rule :: "promo_faults \<Rightarrow> nat \<Rightarrow> rules_db \<Rightarrow> unit app_result \<times> rules_db" where
  "delete_promotion_rule io i db =
     (case ask_text io QRuleWrite (length (filter (\<lambda>p. pr_id p = i) (rb_rules db))) of
        Err e \<Rightarrow> (Err e, db)
      | Ok n \<Rightarrow>
          if n = 0 then (Err (NotFound ''Promotion rule not found''), db)
          else (Ok (), db\<lparr>rb_rules := filter (\<lambda>p. pr_id p \<noteq> i) (rb_rules db)\<rparr>))"

section \<open>Queries\<close>

definition rule_scan_state :: "promo_faults \<Rightarrow> rules_db \<Rightarrow> nat \<Rightarrow> scan_state app_result" where
  "rule_scan_state io db aid = ask_text io QScanState (promo_scan_state (rb_promo db) aid)"

definition get_latest_scan :: "promo_faults \<Rightarrow> rules_db \<Rightarrow> nat \<Rightarrow> promo_scan option app_result" where
  "get_latest_scan io db aid = ask_text io QScan (latest_completed (rb_promo db) aid)"

definition get_artifact_licenses :: "promo_faults \<Rightarrow> rules_db \<Rightarrow> nat \<Rightarrow> string list app_result" where
  "get_artifact_licenses io db aid =
     result_bind (ask_text io QSbom (latest_sbom (rb_promo db) aid)) (\<lambda>s.
       Ok (unwrap_or (Option.bind s sbom_licenses) []))"

definition rule_created_at :: "promo_faults \<Rightarrow> rules_db \<Rightarrow> nat \<Rightarrow> int option app_result" where
  "rule_created_at io db aid = ask_text io QCreated (map_of (pd_artifacts (rb_promo db)) aid)"

definition rule_signature :: "promo_faults \<Rightarrow> rules_db \<Rightarrow> nat \<Rightarrow> nat \<Rightarrow> bool app_result" where
  "rule_signature io db aid repo = ask_text io QSigned (has_signature (rb_promo db) aid repo)"

definition get_artifact_health_score :: "promo_faults \<Rightarrow> rules_db \<Rightarrow> nat \<Rightarrow> int option app_result" where
  "get_artifact_health_score io db aid = ask_text io QHealth (map_of (rb_health db) aid)"

section \<open>Evaluation\<close>

text \<open>Each numbered check of the evaluation, as the violations it adds.\<close>

definition option_list :: "'a option \<Rightarrow> 'a list" where
  "option_list x = (case x of None \<Rightarrow> [] | Some v \<Rightarrow> [v])"

definition cve_check :: "promo_faults \<Rightarrow> rules_db \<Rightarrow> nat \<Rightarrow> promotion_rule \<Rightarrow> string list app_result" where
  "cve_check io db aid r =
     (case pr_max_cve_severity r of
        None \<Rightarrow> Ok []
      | Some mx \<Rightarrow> result_bind (get_latest_scan io db aid) (\<lambda>scan.
          case scan of
            Some s \<Rightarrow> Ok (option_list (check_cve_severity mx (psc_critical s) (psc_high s) (psc_medium s) (psc_low s)))
          | None \<Rightarrow> result_bind (rule_scan_state io db aid) (\<lambda>state. Ok (option_list (check_scan_state_for_cve_rule state)))))"

definition license_check :: "promo_faults \<Rightarrow> rules_db \<Rightarrow> nat \<Rightarrow> promotion_rule \<Rightarrow> string list app_result" where
  "license_check io db aid r =
     (case pr_allowed_licenses r of
        None \<Rightarrow> Ok []
      | Some permitted \<Rightarrow>
          if permitted = [] then Ok []
          else result_bind (get_artifact_licenses io db aid) (\<lambda>ls.
                 Ok (if ls = [] then [] else option_list (check_allowed_licenses permitted ls))))"

definition signature_check :: "promo_faults \<Rightarrow> rules_db \<Rightarrow> nat \<Rightarrow> promotion_rule \<Rightarrow> string list app_result" where
  "signature_check io db aid r =
     (if pr_require_signature r
      then result_bind (rule_signature io db aid (pr_source r)) (\<lambda>has_sig.
             Ok (if has_sig then [] else [''Artifact does not have a valid signature'']))
      else Ok [])"

definition staging_check :: "promo_faults \<Rightarrow> int \<Rightarrow> rules_db \<Rightarrow> nat \<Rightarrow> promotion_rule \<Rightarrow> string list app_result" where
  "staging_check io now db aid r =
     (case pr_min_staging_hours r of
        None \<Rightarrow> Ok []
      | Some h \<Rightarrow> result_bind (rule_created_at io db aid) (\<lambda>c.
          Ok (case c of None \<Rightarrow> [] | Some t \<Rightarrow> option_list (check_min_staging_hours h t now))))"

definition age_check :: "promo_faults \<Rightarrow> int \<Rightarrow> rules_db \<Rightarrow> nat \<Rightarrow> promotion_rule \<Rightarrow> string list app_result" where
  "age_check io now db aid r =
     (case pr_max_artifact_age_days r of
        None \<Rightarrow> Ok []
      | Some d \<Rightarrow> result_bind (rule_created_at io db aid) (\<lambda>c.
          Ok (case c of None \<Rightarrow> [] | Some t \<Rightarrow> option_list (check_max_artifact_age d t now))))"

definition health_check :: "promo_faults \<Rightarrow> rules_db \<Rightarrow> nat \<Rightarrow> promotion_rule \<Rightarrow> string list app_result" where
  "health_check io db aid r =
     (case pr_min_health_score r of
        None \<Rightarrow> Ok []
      | Some m \<Rightarrow> result_bind (get_artifact_health_score io db aid) (\<lambda>sc.
          Ok (case sc of None \<Rightarrow> [] | Some v \<Rightarrow> option_list (check_min_health_score m v))))"

fun run_checks :: "string list app_result list \<Rightarrow> string list \<Rightarrow> string list app_result" where
  "run_checks [] acc = Ok acc"
| "run_checks (c # cs) acc = result_bind c (\<lambda>vs. run_checks cs (acc @ vs))"

definition evaluate_rule :: "promo_faults \<Rightarrow> int \<Rightarrow> rules_db \<Rightarrow> nat \<Rightarrow> promotion_rule \<Rightarrow> promotion_rule_evaluation app_result" where
  "evaluate_rule io now db aid r =
     result_bind
       (run_checks [cve_check io db aid r, license_check io db aid r, signature_check io db aid r,
                    staging_check io now db aid r, age_check io now db aid r, health_check io db aid r] [])
       (\<lambda>vs. Ok \<lparr>re_rule = pr_id r, re_name = pr_name r, re_passed = (vs = []), re_violations = vs\<rparr>)"

fun failing_loop :: "promo_faults \<Rightarrow> int \<Rightarrow> rules_db \<Rightarrow> nat \<Rightarrow> promotion_rule list \<Rightarrow> promotion_rule_evaluation list \<Rightarrow> promotion_rule_evaluation list app_result" where
  "failing_loop io now db aid [] acc = Ok acc"
| "failing_loop io now db aid (r # rs) acc =
     result_bind (evaluate_rule io now db aid r) (\<lambda>e.
       failing_loop io now db aid rs (if re_passed e then acc else acc @ [e]))"

definition pair_rules :: "rules_db \<Rightarrow> nat \<Rightarrow> nat \<Rightarrow> promotion_rule list" where
  "pair_rules db src tgt =
     sort_by (by_column pr_created_at) (filter (\<lambda>r. pr_source r = src \<and> pr_target r = tgt \<and> pr_enabled r) (rb_rules db))"

definition evaluate_for_promotion ::
  "promo_faults \<Rightarrow> int \<Rightarrow> rules_db \<Rightarrow> nat \<Rightarrow> nat \<Rightarrow> nat \<Rightarrow> promotion_rule_evaluation list app_result" where
  "evaluate_for_promotion io now db aid src tgt =
     result_bind (ask_text io QRules (pair_rules db src tgt)) (\<lambda>rules. failing_loop io now db aid rules [])"

fun auto_loop :: "promo_faults \<Rightarrow> int \<Rightarrow> rules_db \<Rightarrow> nat \<Rightarrow> promotion_rule list \<Rightarrow> auto_promotion list \<Rightarrow> auto_promotion list app_result" where
  "auto_loop io now db aid [] acc = Ok acc"
| "auto_loop io now db aid (r # rs) acc =
     result_bind (evaluate_rule io now db aid r) (\<lambda>e.
       auto_loop io now db aid rs
         (acc @ [\<lparr>ap_rule = pr_id r, ap_name = pr_name r, ap_artifact = aid, ap_promoted = re_passed e,
                  ap_target = pr_target r, ap_violations = re_violations e\<rparr>]))"

definition auto_rules :: "rules_db \<Rightarrow> nat \<Rightarrow> promotion_rule list" where
  "auto_rules db src =
     sort_by (by_column pr_created_at) (filter (\<lambda>r. pr_source r = src \<and> pr_enabled r \<and> pr_auto_promote r) (rb_rules db))"

definition try_auto_promote :: "promo_faults \<Rightarrow> int \<Rightarrow> rules_db \<Rightarrow> nat \<Rightarrow> nat \<Rightarrow> auto_promotion list app_result" where
  "try_auto_promote io now db aid src =
     result_bind (ask_text io QRules (auto_rules db src)) (\<lambda>rules. auto_loop io now db aid rules [])"

section \<open>What a rule asks for\<close>

definition cve_met :: "rules_db \<Rightarrow> nat \<Rightarrow> promotion_rule \<Rightarrow> bool" where
  "cve_met db aid r \<longleftrightarrow>
     (case pr_max_cve_severity r of
        None \<Rightarrow> True
      | Some mx \<Rightarrow>
          (case latest_completed (rb_promo db) aid of
             Some s \<Rightarrow> (\<forall>(level, n) \<in> set [(0, psc_critical s), (1, psc_high s), (2, psc_medium s), (3, psc_low s)].
                          level < severity_to_level mx \<longrightarrow> n \<le> 0)
           | None \<Rightarrow> \<not> is_unscanned (promo_scan_state (rb_promo db) aid)))"

definition artifact_licenses :: "rules_db \<Rightarrow> nat \<Rightarrow> string list" where
  "artifact_licenses db aid = unwrap_or (Option.bind (latest_sbom (rb_promo db) aid) sbom_licenses) []"

definition licenses_met :: "rules_db \<Rightarrow> nat \<Rightarrow> promotion_rule \<Rightarrow> bool" where
  "licenses_met db aid r \<longleftrightarrow>
     (case pr_allowed_licenses r of
        None \<Rightarrow> True
      | Some ls \<Rightarrow> ls = [] \<or> (\<forall>l\<in>set (artifact_licenses db aid). lists_license ls l))"

definition times_met :: "int \<Rightarrow> rules_db \<Rightarrow> nat \<Rightarrow> promotion_rule \<Rightarrow> bool" where
  "times_met now db aid r \<longleftrightarrow>
     (case map_of (pd_artifacts (rb_promo db)) aid of
        None \<Rightarrow> True
      | Some t \<Rightarrow> (\<forall>h. pr_min_staging_hours r = Some h \<longrightarrow> h \<le> trunc_div (now - t) 3600000) \<and>
                  (\<forall>d. pr_max_artifact_age_days r = Some d \<longrightarrow> trunc_div (now - t) 86400000 \<le> d))"

definition meets :: "int \<Rightarrow> rules_db \<Rightarrow> nat \<Rightarrow> promotion_rule \<Rightarrow> bool" where
  "meets now db aid r \<longleftrightarrow>
     cve_met db aid r \<and> licenses_met db aid r \<and>
     (pr_require_signature r \<longrightarrow> has_signature (rb_promo db) aid (pr_source r)) \<and>
     times_met now db aid r \<and>
     (\<forall>m v. pr_min_health_score r = Some m \<longrightarrow> map_of (rb_health db) aid = Some v \<longrightarrow> m \<le> v)"

lemma option_list_Nil [simp]: "option_list x = [] \<longleftrightarrow> x = None"
  by (cases x) (simp_all add: option_list_def)

lemma level_values [simp]:
  "severity_to_level ''critical'' = 0" "severity_to_level ''high'' = 1"
  "severity_to_level ''medium'' = 2" "severity_to_level ''low'' = 3"
  by code_simp+

lemma check_cve_severity_None:
  "check_cve_severity mx c h m l = None \<longleftrightarrow>
   (\<forall>(level, n) \<in> set [(0, c), (1, h), (2, m), (3, l)]. level < severity_to_level mx \<longrightarrow> n \<le> 0)"
  by (auto simp: check_cve_severity_def Let_def)

lemma check_allowed_licenses_None:
  "check_allowed_licenses ls found = None \<longleftrightarrow> (\<forall>l\<in>set found. lists_license ls l)"
proof -
  have "to_uppercase l \<in> set (map to_uppercase ls) \<longleftrightarrow> lists_license ls l" for l
    by (auto simp: lists_license_def list_ex_iff) (metis image_eqI)
  then show ?thesis by (simp add: check_allowed_licenses_def filter_empty_conv Let_def)
qed

text \<open>A check that answers adds a violation exactly when its criterion is not met.\<close>

lemma cve_check_Nil: "cve_check io db aid r = Ok vs \<Longrightarrow> vs = [] \<longleftrightarrow> cve_met db aid r"
  by (auto simp: cve_check_def cve_met_def get_latest_scan_def rule_scan_state_def check_cve_severity_None
      check_scan_state_for_cve_rule_def split: option.splits if_splits)

lemma license_check_Nil: "license_check io db aid r = Ok vs \<Longrightarrow> vs = [] \<longleftrightarrow> licenses_met db aid r"
  by (auto simp: license_check_def licenses_met_def get_artifact_licenses_def artifact_licenses_def check_allowed_licenses_None
      split: option.splits if_splits)

lemma signature_check_Nil:
  "signature_check io db aid r = Ok vs \<Longrightarrow>
   vs = [] \<longleftrightarrow> (pr_require_signature r \<longrightarrow> has_signature (rb_promo db) aid (pr_source r))"
  by (auto simp: signature_check_def rule_signature_def split: if_splits)

lemma time_checks_Nil:
  "staging_check io now db aid r = Ok vs \<Longrightarrow> age_check io now db aid r = Ok ws \<Longrightarrow>
   vs = [] \<and> ws = [] \<longleftrightarrow> times_met now db aid r"
  by (auto simp: staging_check_def age_check_def rule_created_at_def times_met_def check_min_staging_hours_def
      check_max_artifact_age_def Let_def split: option.splits if_splits)

lemma health_check_Nil:
  "health_check io db aid r = Ok vs \<Longrightarrow>
   vs = [] \<longleftrightarrow> (\<forall>m v. pr_min_health_score r = Some m \<longrightarrow> map_of (rb_health db) aid = Some v \<longrightarrow> m \<le> v)"
  by (auto simp: health_check_def get_artifact_health_score_def check_min_health_score_def split: option.splits if_splits)

lemmas check_Nil = cve_check_Nil license_check_Nil signature_check_Nil health_check_Nil

lemma evaluate_rule_passed:
  assumes "evaluate_rule io now db aid r = Ok e"
  shows "re_rule e = pr_id r" "re_passed e \<longleftrightarrow> meets now db aid r" "re_violations e = [] \<longleftrightarrow> re_passed e"
proof -
  obtain a b c d f g where
    checks: "cve_check io db aid r = Ok a" "license_check io db aid r = Ok b" "signature_check io db aid r = Ok c"
      "staging_check io now db aid r = Ok d" "age_check io now db aid r = Ok f" "health_check io db aid r = Ok g"
    and e: "e = \<lparr>re_rule = pr_id r, re_name = pr_name r, re_passed = (a @ b @ c @ d @ f @ g = []), re_violations = a @ b @ c @ d @ f @ g\<rparr>"
    using assms by (auto simp: evaluate_rule_def)
  show "re_rule e = pr_id r" "re_violations e = [] \<longleftrightarrow> re_passed e" using e by auto
  show "re_passed e \<longleftrightarrow> meets now db aid r"
    unfolding e meets_def
    using check_Nil(1)[OF checks(1)] check_Nil(2)[OF checks(2)] check_Nil(3)[OF checks(3)] check_Nil(4)[OF checks(6)]
      time_checks_Nil[OF checks(4,5)]
    by auto
qed

lemma evaluate_rule_answers: "\<exists>e. evaluate_rule no_outage now db aid r = Ok e"
  by (auto simp: evaluate_rule_def cve_check_def license_check_def signature_check_def staging_check_def age_check_def
      health_check_def get_latest_scan_def rule_scan_state_def get_artifact_licenses_def rule_signature_def rule_created_at_def
      get_artifact_health_score_def split: option.splits)

lemma failing_loop_eq:
  "failing_loop io now db aid rs acc = Ok fs \<Longrightarrow>
   \<exists>es. fs = acc @ es \<and> map re_rule es = map pr_id (filter (\<lambda>r. \<not> meets now db aid r) rs) \<and> (\<forall>e\<in>set es. re_violations e \<noteq> [])"
proof (induction rs arbitrary: acc)
  case (Cons r rs)
  obtain e where e: "evaluate_rule io now db aid r = Ok e"
    and rest: "failing_loop io now db aid rs (if re_passed e then acc else acc @ [e]) = Ok fs"
    using Cons.prems by auto
  show ?case
    using Cons.IH[OF rest] evaluate_rule_passed[OF e] by (cases "re_passed e") auto
qed simp

lemma failing_loop_answers: "\<exists>fs. failing_loop no_outage now db aid rs acc = Ok fs"
proof (induction rs arbitrary: acc)
  case (Cons r rs)
  obtain e where "evaluate_rule no_outage now db aid r = Ok e"
    using evaluate_rule_answers by blast
  then show ?case using Cons.IH by simp
qed simp

section \<open>The gate, the report and the table\<close>

lemma pair_rules_set:
  "set (pair_rules db src tgt) = {r \<in> set (rb_rules db). pr_source r = src \<and> pr_target r = tgt \<and> pr_enabled r}"
  by (auto simp: pair_rules_def)

lemma rule_gate_answer:
  "(evaluate_for_promotion io now db aid src tgt = Ok fs \<longrightarrow>
      map re_rule fs = map pr_id (filter (\<lambda>r. \<not> meets now db aid r) (pair_rules db src tgt)) \<and>
      (fs = [] \<longleftrightarrow> (\<forall>r\<in>set (rb_rules db). pr_source r = src \<and> pr_target r = tgt \<and> pr_enabled r \<longrightarrow> meets now db aid r)) \<and>
      (\<forall>e\<in>set fs. re_violations e \<noteq> [])) \<and>
   (\<exists>gs. evaluate_for_promotion no_outage now db aid src tgt = Ok gs)"
proof (intro conjI impI)
  assume "evaluate_for_promotion io now db aid src tgt = Ok fs"
  then have "failing_loop io now db aid (pair_rules db src tgt) [] = Ok fs"
    by (auto simp: evaluate_for_promotion_def)
  from failing_loop_eq[OF this]
  have ids: "map re_rule fs = map pr_id (filter (\<lambda>r. \<not> meets now db aid r) (pair_rules db src tgt))"
    and vs: "\<forall>e\<in>set fs. re_violations e \<noteq> []"
    by auto
  have "fs = [] \<longleftrightarrow> filter (\<lambda>r. \<not> meets now db aid r) (pair_rules db src tgt) = []"
    using ids by (metis map_is_Nil_conv)
  then have "fs = [] \<longleftrightarrow> (\<forall>r\<in>set (pair_rules db src tgt). meets now db aid r)"
    by (simp add: filter_empty_conv)
  then show "fs = [] \<longleftrightarrow>
      (\<forall>r\<in>set (rb_rules db). pr_source r = src \<and> pr_target r = tgt \<and> pr_enabled r \<longrightarrow> meets now db aid r)"
    by (simp only: pair_rules_set) auto
  show "map re_rule fs = map pr_id (filter (\<lambda>r. \<not> meets now db aid r) (pair_rules db src tgt))"
    and "\<forall>e\<in>set fs. re_violations e \<noteq> []"
    using ids vs by blast+
qed (use failing_loop_answers in \<open>simp add: evaluate_for_promotion_def\<close>)


definition demo_promotion_rule :: promotion_rule where
  "demo_promotion_rule =
     \<lparr>pr_id = 3, pr_name = ''clean'', pr_source = 7, pr_target = 8, pr_enabled = True, pr_max_cve_severity = Some ''low'',
      pr_allowed_licenses = Some [''MIT''], pr_require_signature = False, pr_min_staging_hours = Some 24,
      pr_max_artifact_age_days = None, pr_min_health_score = Some 50, pr_auto_promote = False, pr_created_at = 1, pr_updated_at = 1\<rparr>"

definition demo_promotion_db :: rules_db where
  "demo_promotion_db = \<lparr>rb_promo = promo_demo_db [promo_demo_scan 2 0], rb_rules = [demo_promotion_rule], rb_health = [(5, 70)]\<rparr>"


text \<open>The report of an automatic promotion gives the verdict of each of its rules.\<close>

lemma auto_loop_eq:
  "auto_loop io now db aid rs acc = Ok ps \<Longrightarrow>
   \<exists>qs. ps = acc @ qs \<and> list_all2 (\<lambda>q r. ap_rule q = pr_id r \<and> ap_target q = pr_target r \<and> ap_artifact q = aid \<and>
          (ap_promoted q \<longleftrightarrow> meets now db aid r)) qs rs"
proof (induction rs arbitrary: acc)
  case (Cons r rs)
  obtain e where e: "evaluate_rule io now db aid r = Ok e"
    and rest: "auto_loop io now db aid rs (acc @ [\<lparr>ap_rule = pr_id r, ap_name = pr_name r, ap_artifact = aid,
        ap_promoted = re_passed e, ap_target = pr_target r, ap_violations = re_violations e\<rparr>]) = Ok ps"
    using Cons.prems by auto
  then show ?case
    using Cons.IH[OF rest] evaluate_rule_passed[OF e] by fastforce
qed simp

lemma auto_report_agrees:
  assumes "try_auto_promote io now db aid src = Ok ps"
  shows "list_all2 (\<lambda>q r. ap_rule q = pr_id r \<and> ap_target q = pr_target r \<and> ap_artifact q = aid \<and>
           (ap_promoted q \<longleftrightarrow> meets now db aid r)) ps (auto_rules db src)"
  using assms auto_loop_eq[of io now db aid "auto_rules db src" "[]" ps] by (auto simp: try_auto_promote_def)

text \<open>A write changes at most the row it names, and what was written is read back.\<close>

lemma find_after_update:
  assumes "update_promotion_rule io now i inp db = (Ok r, db')"
  shows "find_promotion_rule i db' = Some r \<and> pr_id r = i \<and>
         (\<forall>j. j \<noteq> i \<longrightarrow> find_promotion_rule j db' = find_promotion_rule j db)"
proof -
  obtain old where old: "find_promotion_rule i db = Some old" and r: "r = patch_promotion_rule now inp old"
    and db': "db' = db\<lparr>rb_rules := map (\<lambda>p. if pr_id p = i then r else p) (rb_rules db)\<rparr>"
    using assms by (auto simp: update_promotion_rule_def get_promotion_rule_def Let_def split: sum.splits option.splits)
  have id: "pr_id r = i"
    using find_Some_iff_first[of "\<lambda>p. pr_id p = i" "rb_rules db" old] old r
    by (simp add: find_promotion_rule_def patch_promotion_rule_def)
  have "List.find (\<lambda>p. pr_id p = j) (map (\<lambda>p. if pr_id p = i then r else p) ps) =
        (if j = i then map_option (\<lambda>_. r) (List.find (\<lambda>p. pr_id p = i) ps) else List.find (\<lambda>p. pr_id p = j) ps)" for j ps
    using id by (induction ps) auto
  then show ?thesis using old id db' by (simp add: find_promotion_rule_def)
qed

lemma find_after_create:
  assumes "create_promotion_rule io i now inp db = (Ok r, db')" and "find_promotion_rule i db = None"
  shows "find_promotion_rule i db' = Some r \<and> (\<forall>j. j \<noteq> i \<longrightarrow> find_promotion_rule j db' = find_promotion_rule j db)"
proof -
  have app: "List.find P (ps @ [x]) = (case List.find P ps of Some y \<Rightarrow> Some y | None \<Rightarrow> if P x then Some x else None)"
    for P x and ps :: "promotion_rule list"
    by (induction ps) auto
  have r: "pr_id r = i" "db' = db\<lparr>rb_rules := rb_rules db @ [r]\<rparr>"
    using assms(1) by (auto simp: create_promotion_rule_def Let_def split: sum.splits)
  then show ?thesis using assms(2) by (auto simp: find_promotion_rule_def app split: option.split)
qed

lemma find_after_delete:
  assumes "delete_promotion_rule io i db = (Ok u, db')"
  shows "find_promotion_rule i db' = None \<and> (\<forall>j. j \<noteq> i \<longrightarrow> find_promotion_rule j db' = find_promotion_rule j db)"
proof -
  have "List.find (\<lambda>p. pr_id p = j) (filter (\<lambda>p. pr_id p \<noteq> i) ps) = (if j = i then None else List.find (\<lambda>p. pr_id p = j) ps)"
    for j and ps :: "promotion_rule list"
    by (induction ps) auto
  moreover have "db' = db\<lparr>rb_rules := filter (\<lambda>p. pr_id p \<noteq> i) (rb_rules db)\<rparr>"
    using assms by (auto simp: delete_promotion_rule_def split: sum.splits if_splits)
  ultimately show ?thesis by (simp add: find_promotion_rule_def)
qed

text \<open>An update can add or change a criterion but never lift one.\<close>

lemma update_never_lifts_criterion:
  "pr_max_cve_severity r \<noteq> None \<Longrightarrow> pr_max_cve_severity (patch_promotion_rule now inp r) \<noteq> None"
  "pr_min_staging_hours r \<noteq> None \<Longrightarrow> pr_min_staging_hours (patch_promotion_rule now inp r) \<noteq> None"
  "pr_min_health_score r \<noteq> None \<Longrightarrow> pr_min_health_score (patch_promotion_rule now inp r) \<noteq> None"
  by (auto simp: patch_promotion_rule_def or_else_def split: option.splits)

end
