(* ===== verification/Quality_Gate.thy ===== *)
theory Quality_Gate
  imports App_Error Json
begin

text \<open>
  Quality checks, health scores and quality gates (services/quality_check_service.rs,
  services/metadata_checker.rs, models/quality.rs, the grade of models/security.rs). A check stores its
  result and its issues; an artifact's health score is a weighted mean of the scores it has; a gate
  compares the score and the issue counts with its limits. The Helm checker and the fetching of the
  artifact's content are parameters. Shows the range of every score, what a gate lets through and what
  the operations keep of the tables.
\<close>

section \<open>Data\<close>

record raw_issue =
  iss_severity :: string
  iss_category :: string
  iss_title :: string
  iss_description :: "string option"
  iss_location :: "string option"

record check_output =
  out_score :: int
  out_passed :: bool
  out_issues :: "raw_issue list"
  out_details :: json

record check_row =
  qc_id :: nat
  qc_artifact :: nat
  qc_repository :: nat
  qc_type :: string
  qc_status :: string
  qc_score :: "int option"
  qc_passed :: "bool option"
  qc_details :: "json option"
  qc_issues :: int
  qc_critical :: int
  qc_high :: int
  qc_medium :: int
  qc_low :: int
  qc_info :: int
  qc_version :: string
  qc_created_at :: int

record issue_row =
  qi_id :: nat
  qi_check :: nat
  qi_artifact :: nat
  qi_issue :: raw_issue
  qi_suppressed :: bool
  qi_suppressed_by :: "nat option"
  qi_reason :: "string option"
  qi_suppressed_at :: "int option"

record component_scores =
  sc_security :: "int option"
  sc_license :: "int option"
  sc_quality :: "int option"
  sc_metadata :: "int option"

record health_row =
  ah_artifact :: nat
  ah_score :: int
  ah_grade :: string
  ah_components :: component_scores
  ah_total_issues :: int
  ah_critical_issues :: int
  ah_checks_passed :: int
  ah_checks_total :: int

record repo_health_row =
  rh_repository :: nat
  rh_score :: int
  rh_grade :: string
  rh_components :: component_scores
  rh_evaluated :: int
  rh_passing :: int
  rh_failing :: int

record quality_gate =
  qg_id :: nat
  qg_repository :: "nat option"
  qg_name :: string
  qg_description :: "string option"
  qg_min_health :: "int option"
  qg_min_security :: "int option"
  qg_min_quality :: "int option"
  qg_min_metadata :: "int option"
  qg_max_critical :: "int option"
  qg_max_high :: "int option"
  qg_max_medium :: "int option"
  qg_required_checks :: "string list"
  qg_enforce_on_promotion :: bool
  qg_enforce_on_download :: bool
  qg_action :: string
  qg_enabled :: bool
  qg_created_at :: int
  qg_updated_at :: int

record gate_violation =
  gv_rule :: string
  gv_expected :: string
  gv_actual :: string
  gv_message :: string

record gate_evaluation =
  ge_passed :: bool
  ge_action :: string
  ge_gate_name :: string
  ge_health_score :: int
  ge_health_grade :: string
  ge_violations :: "gate_violation list"
  ge_components :: component_scores

record gate_log =
  gl_artifact :: nat
  gl_gate :: nat
  gl_evaluation :: gate_evaluation

record quality_artifact =
  qa_id :: nat
  qa_repository :: nat
  qa_name :: string
  qa_version :: "string option"
  qa_deleted :: bool

record quality_db =
  qd_artifacts :: "quality_artifact list"
  qd_metadata :: "(nat \<times> json) list"
  qd_formats :: "(nat \<times> string) list"
  qd_checks :: "check_row list"
  qd_issues :: "issue_row list"
  qd_security :: "(nat \<times> int) list"
  qd_health :: "health_row list"
  qd_repo_health :: "repo_health_row list"
  qd_gates :: "quality_gate list"
  qd_log :: "gate_log list"

datatype quality_query =
    QArtifact | QMetadata | QFormat | QInsertCheck | QInsertIssue nat | QScores | QSecurity | QUpsertHealth
  | QRepoScores | QUpsertRepo | QGate | QHealthRow | QCompleted | QLogEvaluation | QGateWrite | QSuppress

type_synonym quality_faults = "quality_query \<Rightarrow> sqlx_error option"

section \<open>Metadata completeness\<close>

definition POINTS_VERSION :: int where "POINTS_VERSION = 20"
definition POINTS_DESCRIPTION :: int where "POINTS_DESCRIPTION = 20"
definition POINTS_LICENSE :: int where "POINTS_LICENSE = 30"
definition POINTS_AUTHOR :: int where "POINTS_AUTHOR = 15"
definition POINTS_DOCS :: int where "POINTS_DOCS = 15"
definition PASSING_THRESHOLD :: int where "PASSING_THRESHOLD = 50"

fun is_non_empty_string :: "json \<Rightarrow> bool" where
  "is_non_empty_string (JString s) = (trim s \<noteq> [])"
| "is_non_empty_string _ = False"

definition has_non_empty_field :: "json \<Rightarrow> string \<Rightarrow> bool" where
  "has_non_empty_field obj key =
     (case json_get obj key of
        None \<Rightarrow> False
      | Some JNull \<Rightarrow> False
      | Some (JString s) \<Rightarrow> trim s \<noteq> []
      | Some (JArray xs) \<Rightarrow> xs \<noteq> []
      | Some (JObject _) \<Rightarrow> True
      | Some _ \<Rightarrow> True)"

definition missing_issue :: "string \<Rightarrow> string \<Rightarrow> string \<Rightarrow> raw_issue" where
  "missing_issue sev title descr =
     \<lparr>iss_severity = sev, iss_category = ''missing-metadata'', iss_title = title, iss_description = Some descr, iss_location = None\<rparr>"

definition field_in :: "json option \<Rightarrow> string list \<Rightarrow> bool" where
  "field_in meta keys = (case meta of None \<Rightarrow> False | Some m \<Rightarrow> list_ex (has_non_empty_field m) keys)"

definition metadata_check :: "string \<Rightarrow> string option \<Rightarrow> json option \<Rightarrow> check_output" where
  "metadata_check nm vers meta =
     (let has_version = (case vers of Some v \<Rightarrow> v \<noteq> [] | None \<Rightarrow> False);
          has_description = (case Option.bind meta (\<lambda>m. json_get m ''description'') of Some d \<Rightarrow> is_non_empty_string d | None \<Rightarrow> False);
          has_license = field_in meta [''license'', ''licenses''];
          has_author = field_in meta [''author'', ''maintainer'', ''authors'', ''maintainers''];
          has_docs = field_in meta [''readme'', ''homepage'', ''documentation'', ''home'', ''url''];
          quoted = [CHR 0x27] @ nm @ [CHR 0x27];
          score = (if has_version then POINTS_VERSION else 0) + (if has_description then POINTS_DESCRIPTION else 0)
                  + (if has_license then POINTS_LICENSE else 0) + (if has_author then POINTS_AUTHOR else 0)
                  + (if has_docs then POINTS_DOCS else 0);
          issues =
            (if has_version then [] else [missing_issue ''low'' ''Missing version''
               (''Artifact '' @ quoted @ '' has no version. Publish with an explicit version to enable reproducible builds and dependency resolution.'')]) @
            (if has_description then [] else [missing_issue ''low'' ''Missing description''
               (''Artifact '' @ quoted @ '' has no description. A short summary helps users understand the package'' @ [CHR 0x27] @ ''s purpose when browsing the registry.'')]) @
            (if has_license then [] else [missing_issue ''medium'' ''Missing license declaration''
               (''Artifact '' @ quoted @ '' does not declare a license. Without a license, consumers cannot determine whether they are legally permitted to use this package. Add a '' @
                [CHR 0x27] @ ''license'' @ [CHR 0x27] @ '' field (e.g., '' @ [CHR 0x22] @ ''MIT'' @ [CHR 0x22] @ '', '' @ [CHR 0x22] @ ''Apache-2.0'' @ [CHR 0x22] @ '').'')]) @
            (if has_author then [] else [missing_issue ''low'' ''Missing author or maintainer''
               (''Artifact '' @ quoted @ '' does not specify an author or maintainer. Including contact information builds trust and helps users report issues.'')]) @
            (if has_docs then [] else [missing_issue ''low'' ''Missing documentation or homepage link''
               (''Artifact '' @ quoted @ '' has no README, homepage, or documentation URL. Providing at least one of these helps users get started quickly.'')])
      in \<lparr>out_score = score, out_passed = (score \<ge> PASSING_THRESHOLD), out_issues = issues,
          out_details = JObject [(''has_author'', JBool has_author), (''has_description'', JBool has_description),
            (''has_docs'', JBool has_docs), (''has_license'', JBool has_license), (''has_version'', JBool has_version)]\<rparr>)"

section \<open>Health scores\<close>

definition WEIGHT_SECURITY :: int where "WEIGHT_SECURITY = 40"
definition WEIGHT_LICENSE :: int where "WEIGHT_LICENSE = 20"
definition WEIGHT_QUALITY :: int where "WEIGHT_QUALITY = 25"
definition WEIGHT_METADATA :: int where "WEIGHT_METADATA = 15"

fun weighted_step :: "int \<times> int \<Rightarrow> int option \<times> int \<Rightarrow> int \<times> int" where
  "weighted_step (ws, wt) (Some s, w) = (ws + s * w, wt + w)"
| "weighted_step (ws, wt) (None, w) = (ws, wt)"

definition weighted_components :: "component_scores \<Rightarrow> (int option \<times> int) list" where
  "weighted_components c =
     [(sc_security c, WEIGHT_SECURITY), (sc_license c, WEIGHT_LICENSE), (sc_quality c, WEIGHT_QUALITY), (sc_metadata c, WEIGHT_METADATA)]"

definition compute_weighted_health_score :: "component_scores \<Rightarrow> int" where
  "compute_weighted_health_score c =
     (case foldl weighted_step (0, 0) (weighted_components c) of
        (weighted_sum, weight_sum) \<Rightarrow> if weight_sum = 0 then 100 else trunc_div weighted_sum weight_sum)"

datatype grade = GradeA | GradeB | GradeC | GradeD | GradeF

definition grade_from_score :: "int \<Rightarrow> grade" where
  "grade_from_score s =
     (if 90 \<le> s then GradeA else if 75 \<le> s \<and> s \<le> 89 then GradeB else if 50 \<le> s \<and> s \<le> 74 then GradeC
      else if 25 \<le> s \<and> s \<le> 49 then GradeD else GradeF)"

fun grade_char :: "grade \<Rightarrow> char" where
  "grade_char GradeA = CHR ''A''"
| "grade_char GradeB = CHR ''B''"
| "grade_char GradeC = CHR ''C''"
| "grade_char GradeD = CHR ''D''"
| "grade_char GradeF = CHR ''F''"

text \<open>
  \<open>DISTINCT ON (check_type) ... ORDER BY check_type, created_at DESC\<close>: the newest completed result of each
  type. What is computed from the rows does not depend on the order of the types.
\<close>

definition completed_checks :: "quality_db \<Rightarrow> nat \<Rightarrow> check_row list" where
  "completed_checks db aid = filter (\<lambda>c. qc_artifact c = aid \<and> qc_status c = ''completed'') (qd_checks db)"

definition newest_of_type :: "check_row list \<Rightarrow> string \<Rightarrow> check_row" where
  "newest_of_type rows t = hd (sort_by (by_column_desc qc_created_at) (filter (\<lambda>c. qc_type c = t) rows))"

definition latest_checks :: "quality_db \<Rightarrow> nat \<Rightarrow> check_row list" where
  "latest_checks db aid =
     (let rows = completed_checks db aid in map (newest_of_type rows) (remdups (map qc_type rows)))"

definition metadata_score_of :: "check_row list \<Rightarrow> int option" where
  "metadata_score_of rows = Option.bind (List.find (\<lambda>r. qc_type r = ''metadata_completeness'') rows) qc_score"

definition quality_score_of :: "check_row list \<Rightarrow> int option" where
  "quality_score_of rows =
     (let qs = List.map_filter qc_score (filter (\<lambda>r. qc_type r \<noteq> ''metadata_completeness'') rows)
      in if qs = [] then None else Some (trunc_div (sum_list qs) (int (length qs))))"

definition security_score_of :: "quality_db \<Rightarrow> nat \<Rightarrow> int option" where
  "security_score_of db aid =
     Option.bind (List.find (\<lambda>a. qa_id a = aid) (qd_artifacts db)) (\<lambda>a. map_of (qd_security db) (qa_repository a))"

definition health_of :: "nat \<Rightarrow> check_row list \<Rightarrow> int option \<Rightarrow> health_row" where
  "health_of aid rows security =
     (let c = \<lparr>sc_security = security, sc_license = None, sc_quality = quality_score_of rows, sc_metadata = metadata_score_of rows\<rparr>;
          score = compute_weighted_health_score c
      in \<lparr>ah_artifact = aid, ah_score = score, ah_grade = [grade_char (grade_from_score score)], ah_components = c,
          ah_total_issues = sum_list (map (\<lambda>r. qc_critical r + qc_high r + qc_medium r + qc_low r) rows),
          ah_critical_issues = sum_list (map qc_critical rows),
          ah_checks_passed = int (length (filter (\<lambda>r. unwrap_or (qc_passed r) False) rows)),
          ah_checks_total = int (length rows)\<rparr>)"

definition upsert_health :: "health_row \<Rightarrow> quality_db \<Rightarrow> quality_db" where
  "upsert_health h db =
     db\<lparr>qd_health := (if list_ex (\<lambda>x. ah_artifact x = ah_artifact h) (qd_health db)
                      then map (\<lambda>x. if ah_artifact x = ah_artifact h then h else x) (qd_health db)
                      else qd_health db @ [h])\<rparr>"

definition recalculate_artifact_health :: "quality_faults \<Rightarrow> nat \<Rightarrow> quality_db \<Rightarrow> unit app_result \<times> quality_db" where
  "recalculate_artifact_health io aid db =
     (case result_bind (ask_text io QScores (latest_checks db aid)) (\<lambda>rows.
             result_bind (ask_text io QSecurity (security_score_of db aid)) (\<lambda>security.
               ask_text io QUpsertHealth (health_of aid rows security))) of
        Err e \<Rightarrow> (Err e, db)
      | Ok h \<Rightarrow> (Ok (), upsert_health h db))"

text \<open>\<open>AVG\<close> of integers cast to an integer: rounded to the nearest, halves away from zero.\<close>

definition avg_round :: "int list \<Rightarrow> int option" where
  "avg_round xs =
     (if xs = [] then None
      else Some (sgn (sum_list xs) * ((2 * \<bar>sum_list xs\<bar> + int (length xs)) div (2 * int (length xs)))))"

definition repo_health_rows :: "quality_db \<Rightarrow> nat \<Rightarrow> health_row list" where
  "repo_health_rows db repo =
     filter (\<lambda>h. list_ex (\<lambda>a. qa_id a = ah_artifact h \<and> qa_repository a = repo \<and> \<not> qa_deleted a) (qd_artifacts db)) (qd_health db)"

definition avg_component :: "(component_scores \<Rightarrow> int option) \<Rightarrow> health_row list \<Rightarrow> int option" where
  "avg_component f hs = avg_round (List.map_filter (\<lambda>h. f (ah_components h)) hs)"

definition repo_health_of :: "nat \<Rightarrow> health_row list \<Rightarrow> repo_health_row" where
  "repo_health_of repo hs =
     (let score = unwrap_or (avg_round (map ah_score hs)) 100
      in \<lparr>rh_repository = repo, rh_score = score, rh_grade = [grade_char (grade_from_score score)],
          rh_components = \<lparr>sc_security = avg_component sc_security hs, sc_license = avg_component sc_license hs,
                           sc_quality = avg_component sc_quality hs, sc_metadata = avg_component sc_metadata hs\<rparr>,
          rh_evaluated = int (length hs),
          rh_passing = int (length (filter (\<lambda>h. 50 \<le> ah_score h) hs)),
          rh_failing = int (length (filter (\<lambda>h. ah_score h < 50) hs))\<rparr>)"

definition upsert_repo_health :: "repo_health_row \<Rightarrow> quality_db \<Rightarrow> quality_db" where
  "upsert_repo_health h db =
     db\<lparr>qd_repo_health := (if list_ex (\<lambda>x. rh_repository x = rh_repository h) (qd_repo_health db)
                           then map (\<lambda>x. if rh_repository x = rh_repository h then h else x) (qd_repo_health db)
                           else qd_repo_health db @ [h])\<rparr>"

definition recalculate_repo_health :: "quality_faults \<Rightarrow> nat \<Rightarrow> quality_db \<Rightarrow> unit app_result \<times> quality_db" where
  "recalculate_repo_health io repo db =
     (case result_bind (ask_text io QRepoScores (repo_health_rows db repo)) (\<lambda>hs.
             ask_text io QUpsertRepo (repo_health_of repo hs)) of
        Err e \<Rightarrow> (Err e, db)
      | Ok h \<Rightarrow> (Ok (), upsert_repo_health h db))"

section \<open>Running the checks\<close>

definition count_severity :: "string \<Rightarrow> raw_issue list \<Rightarrow> int" where
  "count_severity sev issues = int (length (filter (\<lambda>i. to_lowercase (iss_severity i) = sev) issues))"

definition count_other :: "raw_issue list \<Rightarrow> int" where
  "count_other issues =
     int (length (filter (\<lambda>i. to_lowercase (iss_severity i) \<notin> {''critical'', ''high'', ''medium'', ''low''}) issues))"

fun persist_issues :: "quality_faults \<Rightarrow> nat \<Rightarrow> nat \<Rightarrow> nat \<Rightarrow> raw_issue list \<Rightarrow> quality_db \<Rightarrow> unit app_result \<times> quality_db" where
  "persist_issues io n chk aid [] db = (Ok (), db)"
| "persist_issues io n chk aid (i # is) db =
     (case ask_text io (QInsertIssue n) () of
        Err e \<Rightarrow> (Err e, db)
      | Ok _ \<Rightarrow> persist_issues io (Suc n) chk aid is
                  (db\<lparr>qd_issues := qd_issues db @ [\<lparr>qi_id = length (qd_issues db), qi_check = chk, qi_artifact = aid, qi_issue = i,
                       qi_suppressed = False, qi_suppressed_by = None, qi_reason = None, qi_suppressed_at = None\<rparr>]\<rparr>))"

definition check_row_of :: "nat \<Rightarrow> int \<Rightarrow> nat \<Rightarrow> nat \<Rightarrow> string \<Rightarrow> string \<Rightarrow> check_output \<Rightarrow> check_row" where
  "check_row_of new_id now aid repo ctype vers out =
     \<lparr>qc_id = new_id, qc_artifact = aid, qc_repository = repo, qc_type = ctype, qc_status = ''completed'',
      qc_score = Some (out_score out), qc_passed = Some (out_passed out), qc_details = Some (out_details out),
      qc_issues = int (length (out_issues out)), qc_critical = count_severity ''critical'' (out_issues out),
      qc_high = count_severity ''high'' (out_issues out), qc_medium = count_severity ''medium'' (out_issues out),
      qc_low = count_severity ''low'' (out_issues out), qc_info = count_other (out_issues out),
      qc_version = vers, qc_created_at = now\<rparr>"

definition persist_check_result ::
  "quality_faults \<Rightarrow> nat \<Rightarrow> int \<Rightarrow> nat \<Rightarrow> nat \<Rightarrow> string \<Rightarrow> string \<Rightarrow> check_output \<Rightarrow> quality_db \<Rightarrow> nat app_result \<times> quality_db" where
  "persist_check_result io new_id now aid repo ctype vers out db =
     (case ask_text io QInsertCheck (check_row_of new_id now aid repo ctype vers out) of
        Err e \<Rightarrow> (Err e, db)
      | Ok row \<Rightarrow>
          (case persist_issues io 0 new_id aid (out_issues out) (db\<lparr>qd_checks := qd_checks db @ [row]\<rparr>) of
             (Err e, db1) \<Rightarrow> (Err e, db1)
           | (Ok _, db1) \<Rightarrow> (Ok new_id, db1)))"

text \<open>The content of an artifact, the Helm checker and the text of an identifier are given; the fresh
  identifiers of the two results are arguments.\<close>

record check_env =
  ce_content :: "nat \<Rightarrow> string app_result"
  ce_helm :: "string \<Rightarrow> check_output"
  ce_ids :: "nat \<times> nat"
  ce_now :: int
  ce_show_id :: "nat \<Rightarrow> string"

definition find_quality_artifact :: "quality_db \<Rightarrow> nat \<Rightarrow> quality_artifact option" where
  "find_quality_artifact db aid = List.find (\<lambda>a. qa_id a = aid \<and> \<not> qa_deleted a) (qd_artifacts db)"

definition check_inputs ::
  "quality_faults \<Rightarrow> check_env \<Rightarrow> nat \<Rightarrow> quality_db \<Rightarrow> (quality_artifact \<times> json option \<times> string \<times> string) app_result" where
  "check_inputs io env aid db =
     result_bind (ask_text io QArtifact (find_quality_artifact db aid)) (\<lambda>found.
     case found of
       None \<Rightarrow> Err (NotFound ''Artifact not found'')
     | Some a \<Rightarrow>
         result_bind (ask_text io QMetadata (map_of (qd_metadata db) aid)) (\<lambda>meta.
         result_bind (ask_text io QFormat (map_of (qd_formats db) (qa_repository a))) (\<lambda>fmt.
         case fmt of
           None \<Rightarrow> Err (Database (''Failed to fetch format for repository '' @ ce_show_id env (qa_repository a) @
                     '': no rows returned by a query that expected to return at least one row''))
         | Some f \<Rightarrow> result_bind (ce_content env aid) (\<lambda>content. Ok (a, meta, f, content)))))"

definition check_artifact :: "quality_faults \<Rightarrow> check_env \<Rightarrow> nat \<Rightarrow> quality_db \<Rightarrow> unit app_result \<times> quality_db" where
  "check_artifact io env aid db =
     (case check_inputs io env aid db of
        Err e \<Rightarrow> (Err e, db)
      | Ok (a, meta, f, content) \<Rightarrow>
          (case persist_check_result io (fst (ce_ids env)) (ce_now env) aid (qa_repository a) ''metadata_completeness'' ''1.0.0''
                  (metadata_check (qa_name a) (qa_version a) meta) db of
             (Err e, db1) \<Rightarrow> (Err e, db1)
           | (Ok _, db1) \<Rightarrow>
               (case (if f = ''helm''
                      then persist_check_result io (snd (ce_ids env)) (ce_now env) aid (qa_repository a) ''helm_lint'' ''1.0.0''
                             (ce_helm env content) db1
                      else (Ok 0, db1)) of
                  (Err e, db2) \<Rightarrow> (Err e, db2)
                | (Ok _, db2) \<Rightarrow> recalculate_artifact_health io aid db2)))"

section \<open>Gates\<close>

definition check_min_score :: "string \<Rightarrow> string \<Rightarrow> int option \<Rightarrow> int \<Rightarrow> gate_violation list" where
  "check_min_score rule label threshold actual =
     (case threshold of
        None \<Rightarrow> []
      | Some mn \<Rightarrow>
          if actual < mn
          then [\<lparr>gv_rule = rule, gv_expected = ''>= '' @ show_int mn, gv_actual = show_int actual,
                 gv_message = label @ '' score '' @ show_int actual @ '' is below minimum '' @ show_int mn\<rparr>]
          else [])"

definition check_max_issues :: "string \<Rightarrow> string \<Rightarrow> int option \<Rightarrow> int \<Rightarrow> gate_violation list" where
  "check_max_issues rule label threshold actual =
     (case threshold of
        None \<Rightarrow> []
      | Some mx \<Rightarrow>
          if actual > mx
          then [\<lparr>gv_rule = rule, gv_expected = ''<= '' @ show_int mx, gv_actual = show_int actual,
                 gv_message = label @ '' issues count '' @ show_int actual @ '' exceeds maximum '' @ show_int mx\<rparr>]
          else [])"

definition score_violations :: "quality_gate \<Rightarrow> health_row \<Rightarrow> gate_violation list" where
  "score_violations g h =
     check_min_score ''min_health_score'' ''Health'' (qg_min_health g) (ah_score h) @
     check_min_score ''min_security_score'' ''Security'' (qg_min_security g) (unwrap_or (sc_security (ah_components h)) 0) @
     check_min_score ''min_quality_score'' ''Quality'' (qg_min_quality g) (unwrap_or (sc_quality (ah_components h)) 0) @
     check_min_score ''min_metadata_score'' ''Metadata'' (qg_min_metadata g) (unwrap_or (sc_metadata (ah_components h)) 0) @
     check_max_issues ''max_critical_issues'' ''Critical'' (qg_max_critical g) (ah_critical_issues h) @
     check_max_issues ''max_high_issues'' ''High'' (qg_max_high g) (ah_total_issues h - ah_critical_issues h) @
     check_max_issues ''max_medium_issues'' ''Total'' (qg_max_medium g) (ah_total_issues h)"

definition required_violations :: "string list \<Rightarrow> string list \<Rightarrow> gate_violation list" where
  "required_violations required completed =
     map (\<lambda>r. \<lparr>gv_rule = ''required_checks'', gv_expected = ''check '' @ [CHR 0x27] @ r @ [CHR 0x27] @ '' completed'',
               gv_actual = ''not found'',
               gv_message = ''Required check '' @ [CHR 0x27] @ r @ [CHR 0x27] @ '' has not been completed''\<rparr>)
       (filter (\<lambda>r. r \<notin> set completed) required)"

text \<open>\<open>ORDER BY repository_id NULLS LAST LIMIT 1\<close>: the repository's own gate before a global one.\<close>

definition gate_in_force :: "quality_db \<Rightarrow> nat \<Rightarrow> quality_gate option" where
  "gate_in_force db repo =
     (case filter (\<lambda>g. qg_enabled g \<and> qg_repository g = Some repo) (qd_gates db) @
           filter (\<lambda>g. qg_enabled g \<and> qg_repository g = None) (qd_gates db) of
        [] \<Rightarrow> None | g # _ \<Rightarrow> Some g)"

definition find_health :: "quality_db \<Rightarrow> nat \<Rightarrow> health_row option" where
  "find_health db aid = List.find (\<lambda>h. ah_artifact h = aid) (qd_health db)"

definition completed_types :: "quality_db \<Rightarrow> nat \<Rightarrow> string list" where
  "completed_types db aid = remdups (map qc_type (completed_checks db aid))"

definition gate_result :: "quality_gate \<Rightarrow> health_row \<Rightarrow> gate_violation list \<Rightarrow> gate_evaluation" where
  "gate_result g h vs =
     \<lparr>ge_passed = (vs = []), ge_action = qg_action g, ge_gate_name = qg_name g, ge_health_score = ah_score h,
      ge_health_grade = ah_grade h, ge_violations = vs, ge_components = ah_components h\<rparr>"

definition evaluate_quality_gate ::
  "quality_faults \<Rightarrow> nat \<Rightarrow> nat \<Rightarrow> quality_db \<Rightarrow> gate_evaluation app_result \<times> quality_db" where
  "evaluate_quality_gate io aid repo db =
     (case result_bind (ask_text io QGate (gate_in_force db repo)) (\<lambda>gate.
           case gate of
             None \<Rightarrow> Err (NotFound ''No enabled quality gate found for this repository'')
           | Some g \<Rightarrow> result_bind (ask_text io QHealthRow (find_health db aid)) (\<lambda>health.
               case health of
                 None \<Rightarrow> Err (NotFound ''No health score found for artifact; run quality checks first'')
               | Some h \<Rightarrow> result_bind
                   (if qg_required_checks g = [] then Ok []
                    else result_bind (ask_text io QCompleted (completed_types db aid)) (\<lambda>done_types.
                           Ok (required_violations (qg_required_checks g) done_types)))
                   (\<lambda>missing. result_bind (ask_text io QLogEvaluation ()) (\<lambda>_.
                      Ok (g, gate_result g h (score_violations g h @ missing)))))) of
        Err e \<Rightarrow> (Err e, db)
      | Ok (g, e) \<Rightarrow> (Ok e, db\<lparr>qd_log := qd_log db @ [\<lparr>gl_artifact = aid, gl_gate = qg_id g, gl_evaluation = e\<rparr>]\<rparr>))"

record gate_input =
  gi_repository :: "nat option"
  gi_name :: string
  gi_description :: "string option"
  gi_min_health :: "int option"
  gi_min_security :: "int option"
  gi_min_quality :: "int option"
  gi_min_metadata :: "int option"
  gi_max_critical :: "int option"
  gi_max_high :: "int option"
  gi_max_medium :: "int option"
  gi_required_checks :: "string list"
  gi_enforce_on_promotion :: bool
  gi_enforce_on_download :: bool
  gi_action :: string

record gate_patch =
  qp_name :: "string option"
  qp_description :: "string option"
  qp_min_health :: "int option"
  qp_min_security :: "int option"
  qp_min_quality :: "int option"
  qp_min_metadata :: "int option"
  qp_max_critical :: "int option"
  qp_max_high :: "int option"
  qp_max_medium :: "int option"
  qp_required_checks :: "string list option"
  qp_enforce_on_promotion :: "bool option"
  qp_enforce_on_download :: "bool option"
  qp_action :: "string option"
  qp_enabled :: "bool option"

definition create_gate :: "quality_faults \<Rightarrow> nat \<Rightarrow> int \<Rightarrow> gate_input \<Rightarrow> quality_db \<Rightarrow> quality_gate app_result \<times> quality_db" where
  "create_gate io new_id now inp db =
     (case ask_text io QGateWrite
             \<lparr>qg_id = new_id, qg_repository = gi_repository inp, qg_name = gi_name inp, qg_description = gi_description inp,
              qg_min_health = gi_min_health inp, qg_min_security = gi_min_security inp, qg_min_quality = gi_min_quality inp,
              qg_min_metadata = gi_min_metadata inp, qg_max_critical = gi_max_critical inp, qg_max_high = gi_max_high inp,
              qg_max_medium = gi_max_medium inp, qg_required_checks = gi_required_checks inp,
              qg_enforce_on_promotion = gi_enforce_on_promotion inp, qg_enforce_on_download = gi_enforce_on_download inp,
              qg_action = gi_action inp, qg_enabled = True, qg_created_at = now, qg_updated_at = now\<rparr> of
        Err e \<Rightarrow> (Err e, db)
      | Ok g \<Rightarrow> (Ok g, db\<lparr>qd_gates := qd_gates db @ [g]\<rparr>))"

definition get_gate :: "quality_faults \<Rightarrow> nat \<Rightarrow> quality_db \<Rightarrow> quality_gate app_result" where
  "get_gate io i db =
     result_bind (ask_text io QGate (List.find (\<lambda>g. qg_id g = i) (qd_gates db))) (\<lambda>g.
       case g of None \<Rightarrow> Err (NotFound ''Quality gate not found'') | Some x \<Rightarrow> Ok x)"

definition patch_gate :: "int \<Rightarrow> gate_patch \<Rightarrow> quality_gate \<Rightarrow> quality_gate" where
  "patch_gate now inp g = g\<lparr>
     qg_name := unwrap_or (qp_name inp) (qg_name g),
     qg_description := or_else (qp_description inp) (qg_description g),
     qg_min_health := or_else (qp_min_health inp) (qg_min_health g),
     qg_min_security := or_else (qp_min_security inp) (qg_min_security g),
     qg_min_quality := or_else (qp_min_quality inp) (qg_min_quality g),
     qg_min_metadata := or_else (qp_min_metadata inp) (qg_min_metadata g),
     qg_max_critical := or_else (qp_max_critical inp) (qg_max_critical g),
     qg_max_high := or_else (qp_max_high inp) (qg_max_high g),
     qg_max_medium := or_else (qp_max_medium inp) (qg_max_medium g),
     qg_required_checks := unwrap_or (qp_required_checks inp) (qg_required_checks g),
     qg_enforce_on_promotion := unwrap_or (qp_enforce_on_promotion inp) (qg_enforce_on_promotion g),
     qg_enforce_on_download := unwrap_or (qp_enforce_on_download inp) (qg_enforce_on_download g),
     qg_action := unwrap_or (qp_action inp) (qg_action g),
     qg_enabled := unwrap_or (qp_enabled inp) (qg_enabled g),
     qg_updated_at := now\<rparr>"

definition update_gate :: "quality_faults \<Rightarrow> int \<Rightarrow> nat \<Rightarrow> gate_patch \<Rightarrow> quality_db \<Rightarrow> quality_gate app_result \<times> quality_db" where
  "update_gate io now i inp db =
     (case result_bind (get_gate io i db) (\<lambda>g. ask_text io QGateWrite (patch_gate now inp g)) of
        Err e \<Rightarrow> (Err e, db)
      | Ok g \<Rightarrow> (Ok g, db\<lparr>qd_gates := map (\<lambda>x. if qg_id x = i then g else x) (qd_gates db)\<rparr>))"

definition delete_gate :: "quality_faults \<Rightarrow> nat \<Rightarrow> quality_db \<Rightarrow> unit app_result \<times> quality_db" where
  "delete_gate io i db =
     (case ask_text io QGateWrite (list_ex (\<lambda>g. qg_id g = i) (qd_gates db)) of
        Err e \<Rightarrow> (Err e, db)
      | Ok found \<Rightarrow>
          if found then (Ok (), db\<lparr>qd_gates := filter (\<lambda>g. qg_id g \<noteq> i) (qd_gates db)\<rparr>)
          else (Err (NotFound ''Quality gate not found''), db))"

section \<open>Suppression of issues\<close>

definition update_issue :: "quality_faults \<Rightarrow> nat \<Rightarrow> (issue_row \<Rightarrow> issue_row) \<Rightarrow> quality_db \<Rightarrow> unit app_result \<times> quality_db" where
  "update_issue io i f db =
     (case ask_text io QSuppress (list_ex (\<lambda>x. qi_id x = i) (qd_issues db)) of
        Err e \<Rightarrow> (Err e, db)
      | Ok found \<Rightarrow>
          if found then (Ok (), db\<lparr>qd_issues := map (\<lambda>x. if qi_id x = i then f x else x) (qd_issues db)\<rparr>)
          else (Err (NotFound ''Quality check issue not found''), db))"

definition suppress_issue :: "quality_faults \<Rightarrow> int \<Rightarrow> nat \<Rightarrow> nat \<Rightarrow> string \<Rightarrow> quality_db \<Rightarrow> unit app_result \<times> quality_db" where
  "suppress_issue io now i usr reason =
     update_issue io i (\<lambda>x. x\<lparr>qi_suppressed := True, qi_suppressed_by := Some usr, qi_reason := Some reason, qi_suppressed_at := Some now\<rparr>)"

definition unsuppress_issue :: "quality_faults \<Rightarrow> nat \<Rightarrow> quality_db \<Rightarrow> unit app_result \<times> quality_db" where
  "unsuppress_issue io i =
     update_issue io i (\<lambda>x. x\<lparr>qi_suppressed := False, qi_suppressed_by := None, qi_reason := None, qi_suppressed_at := None\<rparr>)"

section \<open>Scores stay in range\<close>

lemma metadata_check_score:
  "0 \<le> out_score (metadata_check nm vers meta) \<and> out_score (metadata_check nm vers meta) \<le> 100 \<and>
   length (out_issues (metadata_check nm vers meta)) \<le> 5 \<and>
   (out_score (metadata_check nm vers meta) = 100 \<longleftrightarrow> out_issues (metadata_check nm vers meta) = [])"
  by (simp add: metadata_check_def Let_def POINTS_VERSION_def POINTS_DESCRIPTION_def POINTS_LICENSE_def POINTS_AUTHOR_def
      POINTS_DOCS_def)

text \<open>The fold keeps the weighted sum between the bounds of the scores, scaled by the weights so far.\<close>

lemma weighted_fold:
  fixes cs :: "(int option \<times> int) list"
  assumes "\<forall>(s, w)\<in>set cs. 0 \<le> w \<and> (\<forall>x. s = Some x \<longrightarrow> lo \<le> x \<and> x \<le> hi)"
    and "lo * wt \<le> ws" "ws \<le> hi * wt" "0 \<le> wt"
  shows "case foldl weighted_step (ws, wt) cs of (a, b) \<Rightarrow> lo * b \<le> a \<and> a \<le> hi * b \<and> wt \<le> b"
  using assms
proof (induction cs arbitrary: ws wt)
  case (Cons c cs)
  obtain s w where c: "c = (s, w)" by (cases c)
  show ?case
  proof (cases s)
    case None
    then show ?thesis using Cons.IH[of wt ws] Cons.prems c by auto
  next
    case (Some x)
    have x: "lo \<le> x" "x \<le> hi" "0 \<le> w" using Cons.prems(1) c Some by auto
    then have "lo * w \<le> x * w" "x * w \<le> hi * w" by (simp_all add: mult_right_mono)
    then have "lo * (wt + w) \<le> ws + x * w" "ws + x * w \<le> hi * (wt + w)" "0 \<le> wt + w"
      using Cons.prems x by (auto simp: algebra_simps)
    from Cons.IH[OF _ this] show ?thesis
      using Cons.prems(1) c Some x(3) by (force split: prod.splits)
  qed
qed simp

lemma trunc_div_between:
  assumes "0 < b" "0 \<le> lo" "lo * b \<le> a" "a \<le> hi * b"
  shows "lo \<le> trunc_div a b \<and> trunc_div a b \<le> hi"
proof -
  have "0 \<le> a" using assms by (meson mult_nonneg_nonneg order_trans less_imp_le)
  then have "trunc_div a b = a div b" using assms(1) by (rule trunc_div_pos)
  moreover have "lo \<le> a div b" using assms(1,3) by (metis nonzero_mult_div_cancel_right less_numeral_extra(3) zdiv_mono1)
  moreover have "a div b \<le> hi" using assms(1,4) by (metis nonzero_mult_div_cancel_right less_numeral_extra(3) zdiv_mono1)
  ultimately show ?thesis by simp
qed

definition in_percent :: "int option \<Rightarrow> bool" where
  "in_percent s = (case s of None \<Rightarrow> True | Some x \<Rightarrow> 0 \<le> x \<and> x \<le> 100)"

lemma in_percent_simps [simp]: "in_percent None" "in_percent (Some x) \<longleftrightarrow> 0 \<le> x \<and> x \<le> 100"
  by (simp_all add: in_percent_def)

lemma in_percent_iff: "in_percent s \<longleftrightarrow> (\<forall>x. s = Some x \<longrightarrow> 0 \<le> x \<and> x \<le> 100)"
  by (cases s) auto

lemma weighted_between:
  assumes "\<forall>(s, w)\<in>set (weighted_components c). \<forall>x. s = Some x \<longrightarrow> lo \<le> x \<and> x \<le> hi" and "0 \<le> lo"
  shows "(\<forall>(s, w)\<in>set (weighted_components c). s = None) \<and> compute_weighted_health_score c = 100 \<or>
         lo \<le> compute_weighted_health_score c \<and> compute_weighted_health_score c \<le> hi"
proof -
  obtain a b where ab: "foldl weighted_step (0, 0) (weighted_components c) = (a, b)" by fastforce
  have "lo * b \<le> a \<and> a \<le> hi * b \<and> 0 \<le> b"
    using weighted_fold[of "weighted_components c" lo hi 0 0] assms(1) ab
    by (auto simp: weighted_components_def WEIGHT_SECURITY_def WEIGHT_LICENSE_def WEIGHT_QUALITY_def WEIGHT_METADATA_def)
  moreover have "b = 0 \<longrightarrow> (\<forall>(s, w)\<in>set (weighted_components c). s = None)"
    using ab by (cases "sc_security c"; cases "sc_license c"; cases "sc_quality c"; cases "sc_metadata c")
      (auto simp: weighted_components_def WEIGHT_SECURITY_def WEIGHT_LICENSE_def WEIGHT_QUALITY_def WEIGHT_METADATA_def)
  ultimately show ?thesis
    using trunc_div_between[of b lo a hi] assms(2) by (cases "b = 0") (auto simp: compute_weighted_health_score_def ab)
qed

lemma weighted_in_percent:
  assumes "in_percent (sc_security c)" "in_percent (sc_license c)" "in_percent (sc_quality c)" "in_percent (sc_metadata c)"
  shows "0 \<le> compute_weighted_health_score c \<and> compute_weighted_health_score c \<le> 100"
  using weighted_between[of c 0 100] assms by (auto simp: weighted_components_def in_percent_iff)

lemma sum_list_percent:
  fixes xs :: "int list"
  assumes "\<forall>x\<in>set xs. 0 \<le> x \<and> x \<le> 100"
  shows "0 \<le> sum_list xs \<and> sum_list xs \<le> 100 * int (length xs)"
  using assms by (induction xs) auto

lemma avg_round_percent:
  assumes "\<forall>x\<in>set xs. 0 \<le> x \<and> x \<le> 100"
  shows "in_percent (avg_round xs)"
proof (cases "xs = []")
  case False
  define n where "n = int (length xs)"
  have n: "0 < n" using False by (simp add: n_def)
  have s: "0 \<le> sum_list xs" "sum_list xs \<le> 100 * n"
    using sum_list_percent[OF assms] by (auto simp: n_def)
  have "(2 * sum_list xs + n) div (2 * n) \<le> (201 * n) div (2 * n)"
    using n s by (intro zdiv_mono1) auto
  also have "\<dots> = 201 div 2" using n div_mult_mult2[of n 201 2] by simp
  finally have "(2 * sum_list xs + n) div (2 * n) < 101" by simp
  moreover have "0 \<le> (2 * sum_list xs + n) div (2 * n)"
    using n s by (simp add: pos_imp_zdiv_nonneg_iff)
  ultimately show ?thesis
    using False s(1) by (cases "sum_list xs = 0") (simp_all add: avg_round_def flip: n_def)
qed (simp add: avg_round_def)

lemma quality_score_percent:
  assumes "\<forall>r\<in>set rows. in_percent (qc_score r)"
  shows "in_percent (quality_score_of rows)"
proof -
  define qs where "qs = List.map_filter qc_score (filter (\<lambda>r. qc_type r \<noteq> ''metadata_completeness'') rows)"
  have "\<forall>x\<in>set qs. 0 \<le> x \<and> x \<le> 100"
    using assms unfolding qs_def by (auto simp: List.map_filter_def in_percent_iff)
  from sum_list_percent[OF this] show ?thesis
    using trunc_div_between[of "int (length qs)" 0 "sum_list qs" 100]
    by (cases "qs = []") (auto simp: quality_score_of_def Let_def simp flip: qs_def)
qed

text \<open>All scores of the tables are percentages.\<close>

definition components_ok :: "component_scores \<Rightarrow> bool" where
  "components_ok c \<longleftrightarrow> in_percent (sc_security c) \<and> in_percent (sc_license c) \<and> in_percent (sc_quality c) \<and> in_percent (sc_metadata c)"

definition scores_ok :: "quality_db \<Rightarrow> bool" where
  "scores_ok db \<longleftrightarrow>
     list_all (\<lambda>r. in_percent (qc_score r)) (qd_checks db) \<and>
     list_all (\<lambda>(_, s). 0 \<le> s \<and> s \<le> 100) (qd_security db) \<and>
     list_all (\<lambda>h. 0 \<le> ah_score h \<and> ah_score h \<le> 100 \<and> components_ok (ah_components h)) (qd_health db) \<and>
     list_all (\<lambda>h. 0 \<le> rh_score h \<and> rh_score h \<le> 100 \<and> components_ok (rh_components h)) (qd_repo_health db)"

lemma latest_checks_in: "set (latest_checks db aid) \<subseteq> set (qd_checks db)"
proof
  fix r assume "r \<in> set (latest_checks db aid)"
  then obtain t where t: "t \<in> set (map qc_type (completed_checks db aid))" and r: "r = newest_of_type (completed_checks db aid) t"
    by (auto simp: latest_checks_def Let_def)
  have "filter (\<lambda>c. qc_type c = t) (completed_checks db aid) \<noteq> []"
    using t by (auto simp: filter_empty_conv)
  then have "r \<in> set (filter (\<lambda>c. qc_type c = t) (completed_checks db aid))"
    unfolding r newest_of_type_def by (metis hd_in_set set_sort_by sort_by_eq_Nil)
  then show "r \<in> set (qd_checks db)" by (auto simp: completed_checks_def)
qed

lemma metadata_score_percent:
  "\<forall>r\<in>set rows. in_percent (qc_score r) \<Longrightarrow> in_percent (metadata_score_of rows)"
  by (cases "List.find (\<lambda>r. qc_type r = ''metadata_completeness'') rows")
     (auto simp: metadata_score_of_def dest!: find_Some_iff_first)

lemma health_of_percent:
  assumes "scores_ok db"
  shows "0 \<le> ah_score (health_of aid (latest_checks db aid) (security_score_of db aid)) \<and>
         ah_score (health_of aid (latest_checks db aid) (security_score_of db aid)) \<le> 100 \<and>
         components_ok (ah_components (health_of aid (latest_checks db aid) (security_score_of db aid)))"
proof -
  have rows: "\<forall>r\<in>set (latest_checks db aid). in_percent (qc_score r)"
    using assms latest_checks_in[of db aid] by (auto simp: scores_ok_def list_all_iff)
  have sec: "in_percent (security_score_of db aid)"
    using assms by (auto simp: security_score_of_def in_percent_iff scores_ok_def list_all_iff bind_eq_Some_conv dest!: map_of_SomeD)
  show ?thesis
    using weighted_in_percent quality_score_percent[OF rows] metadata_score_percent[OF rows] sec
    by (simp add: health_of_def Let_def components_ok_def)
qed

lemma scores_ok_upsert:
  "scores_ok db \<Longrightarrow> 0 \<le> ah_score h \<Longrightarrow> ah_score h \<le> 100 \<Longrightarrow> components_ok (ah_components h) \<Longrightarrow> scores_ok (upsert_health h db)"
  by (auto simp: scores_ok_def upsert_health_def list_all_iff)

lemma recalculate_keeps: "scores_ok db \<Longrightarrow> scores_ok (snd (recalculate_artifact_health io aid db))"
  using health_of_percent[of db aid]
  by (auto simp: recalculate_artifact_health_def scores_ok_upsert split: sum.splits)


text \<open>Every operation keeps the scores percentages, given that the Helm checker's score is one.\<close>

lemma persist_issues_checks:
  "persist_issues io n chk aid is db = (r, db') \<Longrightarrow>
   qd_checks db' = qd_checks db \<and> qd_security db' = qd_security db \<and> qd_health db' = qd_health db \<and>
   qd_repo_health db' = qd_repo_health db"
proof (induction io n chk aid "is" db rule: persist_issues.induct)
  case (2 io n chk aid i "is" db)
  then show ?case by (auto split: sum.splits)
qed auto

lemma persist_keeps:
  assumes "scores_ok db" "in_percent (Some (out_score out))"
  shows "scores_ok (snd (persist_check_result io new_id now aid repo ctype vers out db))"
proof -
  have "scores_ok db'"
    if "persist_issues io 0 new_id aid (out_issues out) (db\<lparr>qd_checks := qd_checks db @ [check_row_of new_id now aid repo ctype vers out]\<rparr>) = (r, db')"
    for r db'
    using persist_issues_checks[OF that] assms by (simp add: scores_ok_def check_row_of_def)
  then show ?thesis
    using assms(1) by (auto simp: persist_check_result_def split: sum.splits prod.splits)
qed

definition helm_percent :: "check_env \<Rightarrow> bool" where
  "helm_percent env \<longleftrightarrow> (\<forall>c. 0 \<le> out_score (ce_helm env c) \<and> out_score (ce_helm env c) \<le> 100)"

lemma check_artifact_keeps:
  assumes ok: "scores_ok db" and helm: "helm_percent env"
  shows "scores_ok (snd (check_artifact io env aid db))"
proof (cases "check_inputs io env aid db")
  case (Inr inputs)
  obtain a meta f content where i: "inputs = (a, meta, f, content)" by (cases inputs)
  let ?p1 = "persist_check_result io (fst (ce_ids env)) (ce_now env) aid (qa_repository a) ''metadata_completeness'' ''1.0.0''
               (metadata_check (qa_name a) (qa_version a) meta) db"
  have p1: "scores_ok (snd ?p1)"
    using persist_keeps[OF ok] metadata_check_score by simp
  have p2: "scores_ok (snd (persist_check_result io (snd (ce_ids env)) (ce_now env) aid (qa_repository a) ''helm_lint'' ''1.0.0''
              (ce_helm env content) db1))" if "scores_ok db1" for db1
    using persist_keeps[OF that] helm by (simp add: helm_percent_def)
  obtain r1 db1 where r1: "?p1 = (r1, db1)" by fastforce
  then have db1: "scores_ok db1" using p1 by simp
  define q where "q = (if f = ''helm''
      then persist_check_result io (snd (ce_ids env)) (ce_now env) aid (qa_repository a) ''helm_lint'' ''1.0.0'' (ce_helm env content) db1
      else (Ok 0, db1))"
  obtain r2 db2 where r2: "q = (r2, db2)" by fastforce
  have db2: "scores_ok db2" using p2[OF db1] db1 r2 by (auto simp: q_def split: if_splits)
  show ?thesis
    using Inr i r1 db1 r2[unfolded q_def] db2 recalculate_keeps[OF db2]
    by (cases r1; cases r2) (simp_all add: check_artifact_def)
qed (use ok in \<open>simp add: check_artifact_def\<close>)

lemma repo_health_keeps: "scores_ok db \<Longrightarrow> scores_ok (snd (recalculate_repo_health io repo db))"
proof -
  assume ok: "scores_ok db"
  have rows: "\<forall>h\<in>set (repo_health_rows db repo). 0 \<le> ah_score h \<and> ah_score h \<le> 100 \<and> components_ok (ah_components h)"
    using ok by (auto simp: repo_health_rows_def scores_ok_def list_all_iff)
  have comp: "in_percent (avg_component f (repo_health_rows db repo))"
    if "\<And>h. h \<in> set (repo_health_rows db repo) \<Longrightarrow> in_percent (f (ah_components h))" for f
    unfolding avg_component_def
    by (rule avg_round_percent) (use that in \<open>fastforce simp: List.map_filter_def in_percent_iff\<close>)
  have "in_percent (avg_round (map ah_score (repo_health_rows db repo)))"
    by (rule avg_round_percent) (use rows in auto)
  then have "0 \<le> rh_score (repo_health_of repo (repo_health_rows db repo)) \<and>
             rh_score (repo_health_of repo (repo_health_rows db repo)) \<le> 100 \<and>
             components_ok (rh_components (repo_health_of repo (repo_health_rows db repo)))"
    using comp rows by (auto simp: repo_health_of_def Let_def components_ok_def unwrap_or_def split: option.splits)
  then show ?thesis
    using ok by (auto simp: recalculate_repo_health_def upsert_repo_health_def scores_ok_def list_all_iff split: sum.splits)
qed

lemma gate_operations_keep:
  "scores_ok db \<Longrightarrow> scores_ok (snd (evaluate_quality_gate io aid repo db))"
  "scores_ok db \<Longrightarrow> scores_ok (snd (create_gate io new_id now inp db))"
  "scores_ok db \<Longrightarrow> scores_ok (snd (update_gate io now i p db))"
  "scores_ok db \<Longrightarrow> scores_ok (snd (delete_gate io i db))"
  "scores_ok db \<Longrightarrow> scores_ok (snd (suppress_issue io now i usr reason db))"
  "scores_ok db \<Longrightarrow> scores_ok (snd (unsuppress_issue io i db))"
  by (auto simp: evaluate_quality_gate_def create_gate_def update_gate_def delete_gate_def suppress_issue_def unsuppress_issue_def
      update_issue_def scores_ok_def split: sum.splits prod.splits)

inductive quality_step :: "quality_db \<Rightarrow> quality_db \<Rightarrow> bool" where
  checked: "helm_percent env \<Longrightarrow> quality_step db (snd (check_artifact io env aid db))"
| recalculated: "quality_step db (snd (recalculate_artifact_health io aid db))"
| recalculated_repo: "quality_step db (snd (recalculate_repo_health io repo db))"
| evaluated: "quality_step db (snd (evaluate_quality_gate io aid repo db))"
| created: "quality_step db (snd (create_gate io new_id now inp db))"
| updated: "quality_step db (snd (update_gate io now i p db))"
| deleted: "quality_step db (snd (delete_gate io i db))"
| suppressed: "quality_step db (snd (suppress_issue io now i usr reason db))"
| unsuppressed: "quality_step db (snd (unsuppress_issue io i db))"

interpretation quality: stable quality_step scores_ok
proof
  fix s s' assume "quality_step s s'" "scores_ok s"
  then show "scores_ok s'"
    by cases (auto intro: check_artifact_keeps recalculate_keeps repo_health_keeps gate_operations_keep)
qed


section \<open>What a gate lets through\<close>

definition within_gate :: "quality_gate \<Rightarrow> health_row \<Rightarrow> string list \<Rightarrow> bool" where
  "within_gate g h completed \<longleftrightarrow>
     (\<forall>m. qg_min_health g = Some m \<longrightarrow> m \<le> ah_score h) \<and>
     (\<forall>m. qg_min_security g = Some m \<longrightarrow> m \<le> unwrap_or (sc_security (ah_components h)) 0) \<and>
     (\<forall>m. qg_min_quality g = Some m \<longrightarrow> m \<le> unwrap_or (sc_quality (ah_components h)) 0) \<and>
     (\<forall>m. qg_min_metadata g = Some m \<longrightarrow> m \<le> unwrap_or (sc_metadata (ah_components h)) 0) \<and>
     (\<forall>m. qg_max_critical g = Some m \<longrightarrow> ah_critical_issues h \<le> m) \<and>
     (\<forall>m. qg_max_high g = Some m \<longrightarrow> ah_total_issues h - ah_critical_issues h \<le> m) \<and>
     (\<forall>m. qg_max_medium g = Some m \<longrightarrow> ah_total_issues h \<le> m) \<and>
     set (qg_required_checks g) \<subseteq> set completed"

lemma min_score_Nil: "check_min_score rl lb th a = [] \<longleftrightarrow> (\<forall>m. th = Some m \<longrightarrow> m \<le> a)"
  by (auto simp: check_min_score_def split: option.splits)

lemma max_issues_Nil: "check_max_issues rl lb th a = [] \<longleftrightarrow> (\<forall>m. th = Some m \<longrightarrow> a \<le> m)"
  by (auto simp: check_max_issues_def split: option.splits)

lemma gate_violations_Nil:
  "score_violations g h @ required_violations (qg_required_checks g) completed = [] \<longleftrightarrow> within_gate g h completed"
  by (auto simp: score_violations_def required_violations_def within_gate_def min_score_Nil max_issues_Nil filter_empty_conv)

lemma gate_evaluation_cases:
  assumes "evaluate_quality_gate io aid repo db = (Ok e, db')"
  obtains g h where "gate_in_force db repo = Some g" "find_health db aid = Some h"
    "e = gate_result g h (score_violations g h @ required_violations (qg_required_checks g) (completed_types db aid))"
    "db' = db\<lparr>qd_log := qd_log db @ [\<lparr>gl_artifact = aid, gl_gate = qg_id g, gl_evaluation = e\<rparr>]\<rparr>"
proof -
  obtain g h where gh: "gate_in_force db repo = Some g" "find_health db aid = Some h"
    and e: "\<exists>missing. (if qg_required_checks g = [] then Ok []
              else result_bind (ask_text io QCompleted (completed_types db aid)) (\<lambda>done_types. Ok (required_violations (qg_required_checks g) done_types)))
              = (Ok missing :: gate_violation list app_result) \<and> e = gate_result g h (score_violations g h @ missing)"
    and db': "db' = db\<lparr>qd_log := qd_log db @ [\<lparr>gl_artifact = aid, gl_gate = qg_id g, gl_evaluation = e\<rparr>]\<rparr>"
    using assms unfolding evaluate_quality_gate_def by (auto split: sum.splits prod.splits option.splits)
  have "e = gate_result g h (score_violations g h @ required_violations (qg_required_checks g) (completed_types db aid))"
    using e by (auto simp: required_violations_def split: if_splits)
  with gh db' show ?thesis by (intro that)
qed


definition demo_quality_gate :: quality_gate where
  "demo_quality_gate =
     \<lparr>qg_id = 4, qg_repository = Some 7, qg_name = ''strict'', qg_description = None, qg_min_health = None, qg_min_security = None,
      qg_min_quality = None, qg_min_metadata = None, qg_max_critical = None, qg_max_high = Some 0, qg_max_medium = None,
      qg_required_checks = [''metadata_completeness''], qg_enforce_on_promotion = False, qg_enforce_on_download = False,
      qg_action = ''block'', qg_enabled = True, qg_created_at = 0, qg_updated_at = 0\<rparr>"

definition demo_quality_db :: quality_db where
  "demo_quality_db =
     \<lparr>qd_artifacts = [\<lparr>qa_id = 5, qa_repository = 7, qa_name = ''pkg'', qa_version = Some ''1.0'', qa_deleted = False\<rparr>],
      qd_metadata = [(5, JObject [(''author'', JString ''Ann''), (''description'', JString ''a package''), (''homepage'', JString ''https://x'')])],
      qd_formats = [(7, ''npm'')], qd_checks = [], qd_issues = [], qd_security = [], qd_health = [], qd_repo_health = [],
      qd_gates = [demo_quality_gate], qd_log = []\<rparr>"

definition demo_check_env :: check_env where
  "demo_check_env =
     \<lparr>ce_content = (\<lambda>_. Ok ''bytes''), ce_helm = (\<lambda>_. \<lparr>out_score = 0, out_passed = False, out_issues = [], out_details = JNull\<rparr>),
      ce_ids = (1, 2), ce_now = 10, ce_show_id = show_nat\<rparr>"

definition demo_checked_db :: quality_db where
  "demo_checked_db = snd (check_artifact no_outage demo_check_env 5 demo_quality_db)"

text \<open>A package without a license has one medium issue and no high one, yet it breaks a limit on high issues.\<close>

lemma high_limit_counts_medium:
  "(case find_health demo_checked_db 5 of
      Some h \<Rightarrow> ah_score h = 70 \<and> ah_critical_issues h = 0 \<and> list_all (\<lambda>c. qc_high c = 0) (qd_checks demo_checked_db)
    | None \<Rightarrow> False) \<and>
   (case fst (evaluate_quality_gate no_outage 5 7 demo_checked_db) of
      Ok e \<Rightarrow> \<not> ge_passed e \<and> ge_action e = ''block'' \<and> map gv_rule (ge_violations e) = [''max_high_issues'']
    | Err _ \<Rightarrow> False)"
  by code_simp


text \<open>The flags that say where a gate is enforced are not read: a gate that is not meant for promotions blocks them.\<close>

lemma enforcement_flags_ignored:
  assumes "db' = db\<lparr>qd_gates := map (\<lambda>g. g\<lparr>qg_enforce_on_promotion := b, qg_enforce_on_download := c\<rparr>) (qd_gates db)\<rparr>"
  shows "fst (evaluate_quality_gate io aid repo db') = fst (evaluate_quality_gate io aid repo db)"
proof -
  let ?f = "\<lambda>g. g\<lparr>qg_enforce_on_promotion := b, qg_enforce_on_download := c\<rparr>"
  have "gate_in_force db' repo = map_option ?f (gate_in_force db repo)"
    using assms by (simp add: gate_in_force_def filter_map o_def flip: map_append split: list.split)
  moreover have "find_health db' aid = find_health db aid" "completed_types db' aid = completed_types db aid"
    using assms by (simp_all add: find_health_def completed_types_def completed_checks_def)
  ultimately show ?thesis
    by (cases "gate_in_force db repo"; cases "find_health db aid")
       (auto simp: evaluate_quality_gate_def ask_text_def score_violations_def gate_result_def split: option.splits sum.splits)
qed




text \<open>A check that succeeds leaves a health row, so the gate can judge the artifact.\<close>

lemma find_health_upsert: "find_health (upsert_health h db) (ah_artifact h) \<noteq> None"
  by (auto simp: find_health_def upsert_health_def find_None_iff list_ex_iff)

lemma recalculated_has_health:
  "recalculate_artifact_health io aid db = (Ok u, db') \<Longrightarrow> find_health db' aid \<noteq> None"
  using find_health_upsert[of "health_of aid (latest_checks db aid) (security_score_of db aid)" db]
  by (auto simp: recalculate_artifact_health_def health_of_def Let_def split: sum.splits)

lemma checked_has_health: "check_artifact io env aid db = (Ok u, db') \<Longrightarrow> find_health db' aid \<noteq> None"
  using recalculated_has_health
  by (auto simp: check_artifact_def split: sum.splits prod.splits if_splits)

end
