(* ===== verification/Promote.thy ===== *)
theory Promote
  imports Promotion_Rules Quality_Gate Access_Control Age_Gate Storage_Gc
begin

text \<open>
  Promotion of an artifact from one repository to another (api/handlers/promotion.rs) and its approval
  workflow (api/handlers/approval.rs), on top of the quality gate, the promotion policies and the
  promotion rules. Every handler is a function from the state to its answer and the new state, with each
  early return and each statement that may fail; the copied objects are part of the state. Identifiers
  and their text form, the clock and the failures are arguments.
\<close>

section \<open>State\<close>

record prepo =
  rep_id :: nat
  rep_key :: string
  rep_type :: repository_type
  rep_format :: string
  rep_public :: bool
  rep_backend :: string
  rep_path :: string
  rep_require_approval :: "bool option"

record partifact =
  pa_id :: nat
  pa_repository :: nat
  pa_path :: string
  pa_name :: string
  pa_version :: "string option"
  pa_size :: int
  pa_sha256 :: string
  pa_md5 :: "string option"
  pa_sha1 :: "string option"
  pa_content_type :: string
  pa_storage_key :: string
  pa_deleted :: bool
  pa_uploaded_by :: "nat option"
  pa_created_at :: int

record approval =
  apv_id :: nat
  apv_artifact :: nat
  apv_source :: nat
  apv_target :: nat
  apv_requested_by :: nat
  apv_requested_at :: int
  apv_status :: string
  apv_reviewed_by :: "nat option"
  apv_reviewed_at :: "int option"
  apv_review_notes :: "string option"
  apv_policy_result :: "evaluation option"
  apv_skip_policy_check :: bool
  apv_notes :: "string option"
  apv_consumed_at :: "int option"

text \<open>What a row of the promotion history says of the decision: nothing was evaluated, the evaluation, or the approval.\<close>

datatype history_result = NoEvaluation | Evaluated evaluation | ApprovedVia nat | NoResult

record history =
  hi_id :: nat
  hi_artifact :: nat
  hi_source :: nat
  hi_target :: nat
  hi_by :: nat
  hi_status :: string
  hi_reason :: "string option"
  hi_result :: history_result
  hi_notes :: "string option"

record promote_world =
  pw_repos :: "prepo list"
  pw_config :: "(nat \<times> string) list"
  pw_artifacts :: "partifact list"
  pw_promo :: promo_db
  pw_rules :: "promotion_rule list"
  pw_quality :: quality_db
  pw_perm :: perm_db
  pw_approvals :: "approval list"
  pw_history :: "history list"
  pw_objects :: "store \<times> string \<Rightarrow> string option"

datatype promote_query =
    PqRepo string | PqRepoId nat | PqConfig | PqConfigWrite | PqAccess nat | PqArtifact | PqApprovalFlag | PqConsume | PqPending
  | PqExisting | PqOwner | PqCleanup | PqInsert | PqHistory | PqApproval | PqApprovalInsert | PqReview | PqReread

text \<open>The failures of one request, the registered backends, the clock, and the identifiers it draws.\<close>

record promote_env =
  pe_db :: "promote_query \<Rightarrow> sqlx_error option"
  pe_promo :: promo_faults
  pe_quality :: quality_faults
  pe_quality_wired :: bool
  pe_backends :: gc_env
  pe_get :: "app_error option"
  pe_put :: "app_error option"
  pe_now :: int
  pe_artifact_id :: nat
  pe_record_id :: nat
  pe_parse_id :: "string \<Rightarrow> nat option"
  pe_show_id :: "nat \<Rightarrow> string"

text \<open>The tables as the policy and rule services read them.\<close>

definition rules_view :: "promote_world \<Rightarrow> rules_db" where
  "rules_view w =
     \<lparr>rb_promo = (pw_promo w)\<lparr>pd_artifacts := map (\<lambda>a. (pa_id a, pa_created_at a)) (pw_artifacts w)\<rparr>,
      rb_rules = pw_rules w,
      rb_health = map (\<lambda>h. (ah_artifact h, ah_score h)) (qd_health (pw_quality w))\<rparr>"

text \<open>An operation that may fail and changes the state either way.\<close>

type_synonym ('a, 'w) op_result = "'a app_result \<times> 'w"

definition op_bind :: "('a, 'w) op_result \<Rightarrow> ('a \<Rightarrow> 'w \<Rightarrow> ('b, 'w) op_result) \<Rightarrow> ('b, 'w) op_result" where
  "op_bind r f = (case r of (Inl e, w) \<Rightarrow> (Inl e, w) | (Inr x, w) \<Rightarrow> f x w)"

lemma op_bind_simps [simp]: "op_bind (Inl e, w) f = (Inl e, w)" "op_bind (Inr x, w) f = f x w"
  by (simp_all add: op_bind_def)

lemma op_bind_Inr [simp]: "op_bind r f = (Inr y, w') \<longleftrightarrow> (\<exists>x w. r = (Inr x, w) \<and> f x w = (Inr y, w'))"
  by (cases r; cases "fst r") auto

section \<open>Repositories\<close>

definition get_by_key :: "promote_env \<Rightarrow> promote_world \<Rightarrow> string \<Rightarrow> prepo app_result" where
  "get_by_key env w key =
     result_bind (ask_text (pe_db env) (PqRepo key) (List.find (\<lambda>r. rep_key r = key) (pw_repos w))) (\<lambda>r.
       case r of None \<Rightarrow> Err (NotFound ''Repository not found'') | Some x \<Rightarrow> Ok x)"

definition key_of_id :: "promote_world \<Rightarrow> nat \<Rightarrow> string option" where
  "key_of_id w i = map_option rep_key (List.find (\<lambda>r. rep_id r = i) (pw_repos w))"

definition resolve_release_target_key :: "promote_env \<Rightarrow> promote_world \<Rightarrow> nat \<Rightarrow> string option app_result" where
  "resolve_release_target_key env w staging =
     result_bind (ask_text (pe_db env) PqConfig (map_of (pw_config w) staging)) (\<lambda>row.
       case row of
         None \<Rightarrow> Ok None
       | Some txt \<Rightarrow>
           (case pe_parse_id env txt of
              None \<Rightarrow> Err (Internal (''Invalid UUID in release_repository_id config: '' @ txt))
            | Some i \<Rightarrow> ask_text (pe_db env) (PqRepoId i) (key_of_id w i)))"

definition resolve_effective_target :: "promote_env \<Rightarrow> promote_world \<Rightarrow> string option \<Rightarrow> nat \<Rightarrow> string app_result" where
  "resolve_effective_target env w explicit staging =
     (case explicit of
        Some t \<Rightarrow> Ok t
      | None \<Rightarrow> result_bind (resolve_release_target_key env w staging) (\<lambda>k.
          case k of
            Some t \<Rightarrow> Ok t
          | None \<Rightarrow> Err (Validation (''No target_repository specified and no linked release repository configured for this staging repository. Set a release target via PATCH /api/v1/repositories/{key} with the release_repository_key field, or provide target_repository in the request.''))))"

definition enforce_release_target_link :: "promote_env \<Rightarrow> promote_world \<Rightarrow> nat \<Rightarrow> string \<Rightarrow> unit app_result" where
  "enforce_release_target_link env w staging actual =
     result_bind (resolve_release_target_key env w staging) (\<lambda>k.
       case k of
         Some linked \<Rightarrow>
           if linked \<noteq> actual
           then Err (Validation (''This staging repository is linked to release repository '' @ in_quotes linked @
                                 ''. Promotion to '' @ in_quotes actual @ '' is not allowed.''))
           else Ok ()
       | None \<Rightarrow> Ok ())"

definition is_hosted :: "repository_type \<Rightarrow> bool" where
  "is_hosted t \<longleftrightarrow> t = LocalRepo \<or> t = StagingRepo"

fun repo_type_debug :: "repository_type \<Rightarrow> string" where
  "repo_type_debug LocalRepo = ''Local''"
| "repo_type_debug RemoteRepo = ''Remote''"
| "repo_type_debug VirtualRepo = ''Virtual''"
| "repo_type_debug StagingRepo = ''Staging''"

definition validate_promotion_source_is_staging :: "prepo \<Rightarrow> unit app_result" where
  "validate_promotion_source_is_staging source =
     (if \<not> is_hosted (rep_type source)
      then Err (Validation (''Source repository must be a hosted (local or staging) repository, got '' @ repo_type_debug (rep_type source)))
      else Ok ())"

definition validate_promotion_target_and_format :: "prepo \<Rightarrow> prepo \<Rightarrow> unit app_result" where
  "validate_promotion_target_and_format source target =
     (if rep_type target \<noteq> LocalRepo then Err (Validation ''Target repository must be a local (release) repository'')
      else if rep_format source \<noteq> rep_format target
      then Err (Validation (''Repository format mismatch: source is '' @ rep_format source @ '', target is '' @ rep_format target))
      else Ok ())"

definition validate_promotion_repos :: "prepo \<Rightarrow> prepo \<Rightarrow> unit app_result" where
  "validate_promotion_repos source target =
     result_bind (validate_promotion_source_is_staging source) (\<lambda>_. validate_promotion_target_and_format source target)"

definition validate_release_target_link :: "prepo \<Rightarrow> prepo \<Rightarrow> unit app_result" where
  "validate_release_target_link staging release =
     (if rep_type release \<noteq> LocalRepo then Err (Validation ''Release target must be a local repository'')
      else if rep_format staging \<noteq> rep_format release
      then Err (Validation (''Format mismatch: staging repository is '' @ rep_format staging @ '', release repository is '' @
                            rep_format release @ ''. Both must use the same package format.''))
      else if rep_id staging = rep_id release then Err (Validation ''A staging repository cannot be linked to itself'')
      else Ok ())"

section \<open>Who may promote\<close>

definition ensure_promotion_authorized :: "bool \<Rightarrow> bool \<Rightarrow> unit app_result" where
  "ensure_promotion_authorized admin has_promote_scope =
     (if \<not> admin \<and> \<not> has_promote_scope
      then Err (Authorization (''Only admins or tokens with the '' @ in_quotes ''promote:artifacts'' @ '' scope can promote artifacts''))
      else Ok ())"

definition has_repo_access :: "perm_db \<Rightarrow> nat \<Rightarrow> nat \<Rightarrow> bool" where
  "has_repo_access db repo usr \<longleftrightarrow>
     assigned_roles db usr repo \<noteq> [] \<or> list_ex (\<lambda>p. actions p \<noteq> []) (applicable_grants db usr repo)"

definition user_can_access_repo :: "promote_env \<Rightarrow> promote_world \<Rightarrow> nat \<Rightarrow> nat \<Rightarrow> bool app_result" where
  "user_can_access_repo env w repo usr = ask_text (pe_db env) (PqAccess repo) (has_repo_access (pw_perm w) repo usr)"

definition promotion_tenant_access_allowed :: "bool \<Rightarrow> bool \<Rightarrow> bool" where
  "promotion_tenant_access_allowed repo_public has_grant \<longleftrightarrow> repo_public \<or> has_grant"

fun tenant_loop :: "promote_env \<Rightarrow> promote_world \<Rightarrow> nat \<Rightarrow> prepo list \<Rightarrow> unit app_result" where
  "tenant_loop env w usr [] = Ok ()"
| "tenant_loop env w usr (r # rs) =
     result_bind (user_can_access_repo env w (rep_id r) usr) (\<lambda>has_grant.
       if \<not> promotion_tenant_access_allowed (rep_public r) has_grant
       then Err (Authorization (''You are not authorized to promote into the '' @ in_quotes (rep_key r) @ '' repository'' @ [CHR 0x27] @ ''s tenant''))
       else tenant_loop env w usr rs)"

definition require_promotion_tenant_access :: "promote_env \<Rightarrow> promote_world \<Rightarrow> nat \<Rightarrow> prepo \<Rightarrow> prepo \<Rightarrow> unit app_result" where
  "require_promotion_tenant_access env w usr source target = tenant_loop env w usr [source, target]"

definition require_visible :: "promote_env \<Rightarrow> promote_world \<Rightarrow> prepo \<Rightarrow> principal option \<Rightarrow> unit app_result" where
  "require_visible env w repo auth =
     (if rep_public repo then Ok ()
      else let not_found = NotFound (''Repository '' @ in_quotes (rep_key repo) @ '' not found'')
           in case auth of
                None \<Rightarrow> Err not_found
              | Some a \<Rightarrow>
                  if \<not> can_access_repo a (rep_id repo) then Err not_found
                  else if is_admin a then Ok ()
                  else result_bind (user_can_access_repo env w (rep_id repo) (user_id a)) (\<lambda>ok. if ok then Ok () else Err not_found))"

section \<open>The quality gate of a promotion\<close>

datatype gate_outcome = GateBlock gate_evaluation | GateWarn "gate_violation list" | NotEvaluated

definition classify_gate_evaluation :: "gate_evaluation \<Rightarrow> gate_outcome" where
  "classify_gate_evaluation e =
     (if ge_passed e then NotEvaluated else if ge_action e = ''block'' then GateBlock e else GateWarn (ge_violations e))"

definition evaluate_gate_once :: "promote_env \<Rightarrow> nat \<Rightarrow> nat \<Rightarrow> bool \<Rightarrow> promote_world \<Rightarrow> gate_outcome \<times> promote_world" where
  "evaluate_gate_once env aid repo skip w =
     (if skip then (NotEvaluated, w)
      else if \<not> pe_quality_wired env then (NotEvaluated, w)
      else case evaluate_quality_gate (pe_quality env) aid repo (pw_quality w) of
             (Ok e, q) \<Rightarrow> (classify_gate_evaluation e, w\<lparr>pw_quality := q\<rparr>)
           | (Err _, q) \<Rightarrow> (NotEvaluated, w\<lparr>pw_quality := q\<rparr>))"

definition gate_block_error :: "gate_evaluation \<Rightarrow> app_error" where
  "gate_block_error e =
     Conflict (''Promotion blocked by quality gate '' @ in_quotes (ge_gate_name e) @ '' (health score: '' @ show_int (ge_health_score e) @
       '', grade: '' @ ge_health_grade e @ '', violations: '' @ show_nat (length (ge_violations e)) @ '')'')"

section \<open>Consuming an approval\<close>

definition check_approval_required :: "promote_env \<Rightarrow> promote_world \<Rightarrow> nat \<Rightarrow> bool app_result" where
  "check_approval_required env w repo =
     ask_text (pe_db env) PqApprovalFlag
       (case List.find (\<lambda>r. rep_id r = repo) (pw_repos w) of Some r \<Rightarrow> unwrap_or (rep_require_approval r) False | None \<Rightarrow> False)"

definition for_pair :: "nat \<Rightarrow> nat \<Rightarrow> nat \<Rightarrow> approval \<Rightarrow> bool" where
  "for_pair aid src tgt a \<longleftrightarrow> apv_artifact a = aid \<and> apv_source a = src \<and> apv_target a = tgt"

text \<open>\<open>ORDER BY reviewed_at DESC NULLS LAST\<close>.\<close>

definition reviewed_order :: "approval \<Rightarrow> approval \<Rightarrow> ordering" where
  "reviewed_order a b =
     (case (apv_reviewed_at a, apv_reviewed_at b) of
        (Some s, Some t) \<Rightarrow> cmp t s
      | (Some _, None) \<Rightarrow> Less
      | (None, Some _) \<Rightarrow> Greater
      | (None, None) \<Rightarrow> Equal)"

definition consumable :: "nat \<Rightarrow> nat \<Rightarrow> nat \<Rightarrow> approval \<Rightarrow> bool" where
  "consumable aid src tgt a \<longleftrightarrow> for_pair aid src tgt a \<and> apv_status a = ''approved'' \<and> apv_consumed_at a = None"

definition try_consume_approval :: "promote_env \<Rightarrow> nat \<Rightarrow> nat \<Rightarrow> nat \<Rightarrow> promote_world \<Rightarrow> (nat, promote_world) op_result" where
  "try_consume_approval env aid src tgt w =
     (case ask_text (pe_db env) PqConsume (sort_by reviewed_order (filter (consumable aid src tgt) (pw_approvals w))) of
        Err e \<Rightarrow> (Err e, w)
      | Ok [] \<Rightarrow> (Ok 0, w)
      | Ok (a # _) \<Rightarrow>
          (Ok 1, w\<lparr>pw_approvals := map (\<lambda>x. if apv_id x = apv_id a then x\<lparr>apv_consumed_at := Some (pe_now env)\<rparr> else x) (pw_approvals w)\<rparr>))"

definition count_pending_approvals :: "promote_env \<Rightarrow> promote_world \<Rightarrow> nat \<Rightarrow> nat \<Rightarrow> nat \<Rightarrow> nat app_result" where
  "count_pending_approvals env w aid src tgt =
     ask_text (pe_db env) PqPending (length (filter (\<lambda>a. for_pair aid src tgt a \<and> apv_status a = ''pending'') (pw_approvals w)))"

datatype consume_outcome = ConsumeReady | ConsumePending | ConsumeAbsent

definition classify_approval_consume :: "nat \<Rightarrow> nat \<Rightarrow> consume_outcome" where
  "classify_approval_consume approved_unconsumed pending =
     (if approved_unconsumed > 0 then ConsumeReady else if pending > 0 then ConsumePending else ConsumeAbsent)"

definition approval_required_conflict :: "consume_outcome \<Rightarrow> app_error" where
  "approval_required_conflict outcome =
     Conflict (case outcome of
        ConsumeReady \<Rightarrow> ''This approved promotion request has already been used. Submit a new approval request via POST /api/v1/approval/request.''
      | ConsumePending \<Rightarrow> ''This repository requires approval for promotions and a request for this artifact and target is still pending review. It must be approved via POST /api/v1/approval/{id}/approve before the artifact can be promoted.''
      | ConsumeAbsent \<Rightarrow> ''This repository requires approval for promotions. Submit a request via POST /api/v1/approval/request and have it approved before promoting.'')"

definition require_and_consume_approval :: "promote_env \<Rightarrow> nat \<Rightarrow> nat \<Rightarrow> nat \<Rightarrow> promote_world \<Rightarrow> (unit, promote_world) op_result" where
  "require_and_consume_approval env aid src tgt w =
     op_bind (try_consume_approval env aid src tgt w) (\<lambda>claimed w1.
       if claimed = 1 then (Ok (), w1)
       else (case count_pending_approvals env w1 aid src tgt of
               Err e \<Rightarrow> (Err e, w1)
             | Ok pending \<Rightarrow> (Err (approval_required_conflict (classify_approval_consume 0 pending)), w1)))"

section \<open>Copying\<close>

definition foreign_owner :: "promote_world \<Rightarrow> nat \<Rightarrow> string \<Rightarrow> bool" where
  "foreign_owner w repo key \<longleftrightarrow> list_ex (\<lambda>a. pa_storage_key a = key \<and> pa_repository a \<noteq> repo) (pw_artifacts w)"

definition guard_foreign_storage_key :: "promote_env \<Rightarrow> promote_world \<Rightarrow> nat \<Rightarrow> string \<Rightarrow> unit app_result" where
  "guard_foreign_storage_key env w repo key =
     result_bind (ask_text (pe_db env) PqOwner (foreign_owner w repo key)) (\<lambda>foreign.
       if foreign
       then Err (Conflict (''storage key '' @ in_quotes key @ '' is already owned by another repository; refusing cross-repository overwrite''))
       else Ok ())"

definition guard_foreign_storage_key_for_backend :: "promote_env \<Rightarrow> promote_world \<Rightarrow> nat \<Rightarrow> string \<Rightarrow> string \<Rightarrow> unit app_result" where
  "guard_foreign_storage_key_for_backend env w repo backend key =
     (if backend_is_repo_isolated backend then Ok () else guard_foreign_storage_key env w repo key)"

text \<open>A repository's store; the error of a read and of a write is reported as the caller words it.\<close>

definition storage_for_repo :: "promote_env \<Rightarrow> prepo \<Rightarrow> store app_result" where
  "storage_for_repo env r = backend_for (pe_backends env) (rep_backend r) (rep_path r)"

definition read_object :: "promote_env \<Rightarrow> promote_world \<Rightarrow> store \<Rightarrow> string \<Rightarrow> string app_result" where
  "read_object env w st key =
     (case pe_get env of
        Some e \<Rightarrow> Err e
      | None \<Rightarrow> (case pw_objects w (st, key) of Some b \<Rightarrow> Ok b | None \<Rightarrow> Err (NotFound (''Storage key not found: '' @ key))))"

definition copy_object ::
  "promote_env \<Rightarrow> (app_error \<Rightarrow> app_error) \<Rightarrow> (app_error \<Rightarrow> app_error) \<Rightarrow> store \<Rightarrow> store \<Rightarrow> string \<Rightarrow> promote_world \<Rightarrow> (unit, promote_world) op_result" where
  "copy_object env read_err write_err source target key w =
     (case read_object env w source key of
        Err e \<Rightarrow> (Err (read_err e), w)
      | Ok bytes \<Rightarrow>
          (case pe_put env of
             Some e \<Rightarrow> (Err (write_err e), w)
           | None \<Rightarrow> (Ok (), w\<lparr>pw_objects := (pw_objects w)((target, key) \<mapsto> bytes)\<rparr>)))"

definition copy_failed :: "app_error \<Rightarrow> app_error" where
  "copy_failed e = Internal (''Failed to copy artifact: '' @ error_text e)"

definition cleanup_soft_deleted_artifact :: "promote_env \<Rightarrow> nat \<Rightarrow> string \<Rightarrow> promote_world \<Rightarrow> promote_world" where
  "cleanup_soft_deleted_artifact env repo path w =
     (case pe_db env PqCleanup of
        Some _ \<Rightarrow> w
      | None \<Rightarrow> w\<lparr>pw_artifacts := filter (\<lambda>a. \<not> (pa_repository a = repo \<and> pa_path a = path \<and> pa_deleted a)) (pw_artifacts w)\<rparr>)"

definition duplicate_text :: string where
  "duplicate_text = ''error returned from database: duplicate key value violates unique constraint''"

definition insert_error :: "string \<Rightarrow> string \<Rightarrow> app_error" where
  "insert_error path e =
     (if str_contains ''duplicate key'' e then Conflict (''Artifact already exists in target repository: '' @ path) else Database e)"

definition promoted_row :: "promote_env \<Rightarrow> nat \<Rightarrow> nat \<Rightarrow> partifact \<Rightarrow> partifact" where
  "promoted_row env target usr a =
     a\<lparr>pa_id := pe_artifact_id env, pa_repository := target, pa_deleted := False, pa_uploaded_by := Some usr, pa_created_at := pe_now env\<rparr>"

text \<open>The insertion violates the unique index when the path is taken, live or soft-deleted; the text of the error decides the answer.\<close>

definition insert_artifact :: "promote_env \<Rightarrow> nat \<Rightarrow> nat \<Rightarrow> partifact \<Rightarrow> promote_world \<Rightarrow> (string + unit) \<times> promote_world" where
  "insert_artifact env target usr a w =
     (case pe_db env PqInsert of
        Some e \<Rightarrow> (Inl (sqlx_text e), w)
      | None \<Rightarrow>
          if list_ex (\<lambda>x. pa_repository x = target \<and> pa_path x = pa_path a) (pw_artifacts w) then (Inl duplicate_text, w)
          else (Inr (), w\<lparr>pw_artifacts := pw_artifacts w @ [promoted_row env target usr a]\<rparr>))"

definition insert_promoted :: "promote_env \<Rightarrow> nat \<Rightarrow> nat \<Rightarrow> partifact \<Rightarrow> promote_world \<Rightarrow> (unit, promote_world) op_result" where
  "insert_promoted env target usr a w =
     (case insert_artifact env target usr a (cleanup_soft_deleted_artifact env target (pa_path a) w) of
        (Inl e, w1) \<Rightarrow> (Err (insert_error (pa_path a) e), w1)
      | (Inr _, w1) \<Rightarrow> (Ok (), w1))"

definition insert_history :: "promote_env \<Rightarrow> history \<Rightarrow> promote_world \<Rightarrow> (unit, promote_world) op_result" where
  "insert_history env h w =
     (case ask_text (pe_db env) PqHistory () of
        Err e \<Rightarrow> (Err e, w)
      | Ok _ \<Rightarrow> (Ok (), w\<lparr>pw_history := pw_history w @ [h]\<rparr>))"

section \<open>Promoting one artifact\<close>

record promote_request =
  req_target :: "string option"
  req_skip_policy_check :: bool
  req_notes :: "string option"

record shown_violation =
  sv_rule :: string
  sv_severity :: string
  sv_message :: string

record promotion_response =
  rsp_promoted :: bool
  rsp_source :: string
  rsp_target :: string
  rsp_promotion_id :: "nat option"
  rsp_violations :: "shown_violation list"
  rsp_message :: "string option"

definition build_promotion_display :: "string \<Rightarrow> string \<Rightarrow> string" where
  "build_promotion_display repo path = repo @ ''/'' @ path"

definition failed_response :: "string \<Rightarrow> string \<Rightarrow> string \<Rightarrow> promotion_response" where
  "failed_response source target message =
     \<lparr>rsp_promoted = False, rsp_source = source, rsp_target = target, rsp_promotion_id = None, rsp_violations = [], rsp_message = Some message\<rparr>"

definition build_success_response :: "string \<Rightarrow> string \<Rightarrow> nat \<Rightarrow> promotion_response" where
  "build_success_response source target i =
     \<lparr>rsp_promoted = True, rsp_source = source, rsp_target = target, rsp_promotion_id = Some i, rsp_violations = [],
      rsp_message = Some ''Artifact promoted successfully''\<rparr>"

definition rule_violations_to_policy_violations :: "promotion_rule_evaluation list \<Rightarrow> shown_violation list" where
  "rule_violations_to_policy_violations failing =
     concat (map (\<lambda>e. map (\<lambda>v. \<lparr>sv_rule = re_name e, sv_severity = ''high'', sv_message = v\<rparr>) (re_violations e)) failing)"

definition shown :: "violation \<Rightarrow> shown_violation" where
  "shown v = \<lparr>sv_rule = v_rule v, sv_severity = v_severity v, sv_message = v_message v\<rparr>"

definition find_live_artifact :: "promote_world \<Rightarrow> nat \<Rightarrow> nat \<Rightarrow> partifact option" where
  "find_live_artifact w aid repo = List.find (\<lambda>a. pa_id a = aid \<and> pa_repository a = repo \<and> \<not> pa_deleted a) (pw_artifacts w)"

definition get_source_artifact :: "promote_env \<Rightarrow> promote_world \<Rightarrow> nat \<Rightarrow> nat \<Rightarrow> partifact app_result" where
  "get_source_artifact env w aid repo =
     result_bind (ask_text (pe_db env) PqArtifact (find_live_artifact w aid repo)) (\<lambda>a.
       case a of None \<Rightarrow> Err (NotFound ''Artifact not found in source repository'') | Some x \<Rightarrow> Ok x)"

text \<open>The reads before the quality gate: the caller's right, the two repositories, the link, the tenant.\<close>

definition has_promote_scope :: "principal \<Rightarrow> bool" where
  "has_promote_scope auth \<longleftrightarrow> is_api_token auth \<and> has_scope auth ''promote:artifacts''"

definition promotion_pair ::
  "promote_env \<Rightarrow> promote_world \<Rightarrow> principal \<Rightarrow> string \<Rightarrow> string option \<Rightarrow> (prepo \<times> string \<times> prepo) app_result" where
  "promotion_pair env w auth repo_key explicit =
     result_bind (ensure_promotion_authorized (is_admin auth) (has_promote_scope auth)) (\<lambda>_.
     result_bind (get_by_key env w repo_key) (\<lambda>source.
     result_bind (resolve_effective_target env w explicit (rep_id source)) (\<lambda>target_key.
     result_bind (enforce_release_target_link env w (rep_id source) target_key) (\<lambda>_.
     result_bind (get_by_key env w target_key) (\<lambda>target. Ok (source, target_key, target))))))"

definition evaluate_policies :: "promote_env \<Rightarrow> promote_world \<Rightarrow> nat \<Rightarrow> nat \<Rightarrow> evaluation app_result" where
  "evaluate_policies env w aid repo = evaluate_promotion (pe_promo env) (pe_now env) (rb_promo (rules_view w)) aid repo"

definition evaluate_pair_rules :: "promote_env \<Rightarrow> promote_world \<Rightarrow> nat \<Rightarrow> nat \<Rightarrow> nat \<Rightarrow> promotion_rule_evaluation list app_result" where
  "evaluate_pair_rules env w aid src tgt = evaluate_for_promotion (pe_promo env) (pe_now env) (rules_view w) aid src tgt"

text \<open>The guard of the copy, the two stores, the copy itself and the new row.\<close>

definition copy_and_insert ::
  "promote_env \<Rightarrow> (app_error \<Rightarrow> app_error) \<Rightarrow> (app_error \<Rightarrow> app_error) \<Rightarrow> prepo \<Rightarrow> prepo \<Rightarrow> partifact \<Rightarrow> nat \<Rightarrow> promote_world \<Rightarrow> (unit, promote_world) op_result" where
  "copy_and_insert env read_err write_err source target a usr w =
     (case result_bind (guard_foreign_storage_key_for_backend env w (rep_id target) (rep_backend target) (pa_storage_key a)) (\<lambda>_.
             result_bind (storage_for_repo env source) (\<lambda>s. result_bind (storage_for_repo env target) (\<lambda>t. Ok (s, t)))) of
        Err e \<Rightarrow> (Err e, w)
      | Ok (s, t) \<Rightarrow>
          op_bind (copy_object env read_err write_err s t (pa_storage_key a) w) (\<lambda>_ w1. insert_promoted env (rep_id target) usr a w1))"

definition promotion_history_row :: "promote_env \<Rightarrow> nat \<Rightarrow> nat \<Rightarrow> nat \<Rightarrow> nat \<Rightarrow> history_result \<Rightarrow> string option \<Rightarrow> history" where
  "promotion_history_row env aid src tgt usr result notes =
     \<lparr>hi_id = pe_record_id env, hi_artifact = aid, hi_source = src, hi_target = tgt, hi_by = usr, hi_status = ''promoted'',
      hi_reason = None, hi_result = result, hi_notes = notes\<rparr>"

definition execute_promotion ::
  "promote_env \<Rightarrow> principal \<Rightarrow> string \<Rightarrow> string \<Rightarrow> prepo \<Rightarrow> prepo \<Rightarrow> partifact \<Rightarrow> nat \<Rightarrow> bool \<Rightarrow> history_result \<Rightarrow> string option
     \<Rightarrow> promote_world \<Rightarrow> (promotion_response, promote_world) op_result" where
  "execute_promotion env auth repo_key target_key source target a aid approval_required result notes w =
     op_bind (if approval_required then require_and_consume_approval env aid (rep_id source) (rep_id target) w else (Ok (), w)) (\<lambda>_ w1.
     op_bind (copy_and_insert env copy_failed copy_failed source target a (user_id auth) w1) (\<lambda>_ w2.
     op_bind (insert_history env (promotion_history_row env aid (rep_id source) (rep_id target) (user_id auth) result notes) w2) (\<lambda>_ w3.
       (Ok (build_success_response (build_promotion_display repo_key (pa_path a)) (build_promotion_display target_key (pa_path a)) (pe_record_id env)), w3))))"

definition promote_gated ::
  "promote_env \<Rightarrow> principal \<Rightarrow> string \<Rightarrow> string \<Rightarrow> prepo \<Rightarrow> prepo \<Rightarrow> partifact \<Rightarrow> nat \<Rightarrow> promote_request
     \<Rightarrow> promote_world \<Rightarrow> (promotion_response, promote_world) op_result" where
  "promote_gated env auth repo_key target_key source target a aid req w =
     (let source_display = build_promotion_display repo_key (pa_path a);
          target_display = build_promotion_display target_key (pa_path a)
      in case result_bind (validate_promotion_repos source target) (\<lambda>_. check_approval_required env w (rep_id source)) of
           Err e \<Rightarrow> (Err e, w)
         | Ok approval_required \<Rightarrow>
             if req_skip_policy_check req
             then execute_promotion env auth repo_key target_key source target a aid approval_required NoEvaluation (req_notes req) w
             else (case evaluate_policies env w aid (rep_id source) of
                     Err e \<Rightarrow> (Err e, w)
                   | Ok ev \<Rightarrow>
                       if promotion_stops ev
                       then (Ok ((failed_response source_display target_display ''Promotion blocked by policy violations'')
                                  \<lparr>rsp_violations := map shown (ev_violations ev)\<rparr>), w)
                       else (case evaluate_pair_rules env w aid (rep_id source) (rep_id target) of
                               Err e \<Rightarrow> (Err e, w)
                             | Ok failing \<Rightarrow>
                                 if failing \<noteq> []
                                 then (Ok ((failed_response source_display target_display ''Promotion blocked by promotion rule violations'')
                                            \<lparr>rsp_violations := rule_violations_to_policy_violations failing\<rparr>), w)
                                 else execute_promotion env auth repo_key target_key source target a aid approval_required
                                        (Evaluated ev) (req_notes req) w)))"

definition promote_artifact ::
  "promote_env \<Rightarrow> principal \<Rightarrow> string \<Rightarrow> nat \<Rightarrow> promote_request \<Rightarrow> promote_world \<Rightarrow> (promotion_response, promote_world) op_result" where
  "promote_artifact env auth repo_key aid req w =
     (case result_bind (promotion_pair env w auth repo_key (req_target req)) (\<lambda>(source, target_key, target).
             result_bind (require_promotion_tenant_access env w (user_id auth) source target) (\<lambda>_.
             result_bind (get_source_artifact env w aid (rep_id source)) (\<lambda>a. Ok (source, target_key, target, a)))) of
        Err e \<Rightarrow> (Err e, w)
      | Ok (source, target_key, target, a) \<Rightarrow>
          (case evaluate_gate_once env aid (rep_id source) (req_skip_policy_check req) w of
             (GateBlock ev, w1) \<Rightarrow> (Err (gate_block_error ev), w1)
           | (GateWarn _, w1) \<Rightarrow> promote_gated env auth repo_key target_key source target a aid req w1
           | (NotEvaluated, w1) \<Rightarrow> promote_gated env auth repo_key target_key source target a aid req w1))"

section \<open>Promoting many artifacts\<close>

text \<open>Each item has its own environment: identifiers, clock and failures.\<close>

definition bulk_item ::
  "promote_env \<Rightarrow> principal \<Rightarrow> string \<Rightarrow> string \<Rightarrow> prepo \<Rightarrow> prepo \<Rightarrow> bool \<Rightarrow> promote_request \<Rightarrow> nat \<Rightarrow> promote_world
     \<Rightarrow> (promotion_response, promote_world) op_result" where
  "bulk_item env auth repo_key target_key source target approval_required req aid w =
     (case ask_text (pe_db env) PqArtifact (find_live_artifact w aid (rep_id source)) of
        Err e \<Rightarrow> (Ok (failed_response (repo_key @ ''/'' @ pe_show_id env aid) target_key (error_text e)), w)
      | Ok None \<Rightarrow> (Ok (failed_response (repo_key @ ''/'' @ pe_show_id env aid) target_key ''Artifact not found''), w)
      | Ok (Some a) \<Rightarrow>
          let source_display = build_promotion_display repo_key (pa_path a);
              target_display = build_promotion_display target_key (pa_path a);
              fail = (\<lambda>msg. failed_response source_display target_display msg);
              rules = (if req_skip_policy_check req then Ok [] else evaluate_pair_rules env w aid (rep_id source) (rep_id target))
          in case rules of
               Err e \<Rightarrow> (Ok (fail (''Rule evaluation error: '' @ error_text e)), w)
             | Ok failing \<Rightarrow>
                 if failing \<noteq> []
                 then (Ok ((fail ''Promotion blocked by promotion rule violations'')\<lparr>rsp_violations := rule_violations_to_policy_violations failing\<rparr>), w)
                 else (case (if approval_required then require_and_consume_approval env aid (rep_id source) (rep_id target) w else (Ok (), w)) of
                         (Err e, w1) \<Rightarrow> (Ok (fail (error_text e)), w1)
                       | (Ok _, w1) \<Rightarrow>
                           (case guard_foreign_storage_key_for_backend env w1 (rep_id target) (rep_backend target) (pa_storage_key a) of
                              Err e \<Rightarrow> (Ok (fail (error_text e)), w1)
                            | Ok _ \<Rightarrow>
                                (case result_bind (storage_for_repo env source) (\<lambda>s. result_bind (storage_for_repo env target) (\<lambda>t. Ok (s, t))) of
                                   Err e \<Rightarrow> (Err e, w1)
                                 | Ok (s, t) \<Rightarrow>
                                     (case copy_object env id id s t (pa_storage_key a) w1 of
                                        (Err e, w2) \<Rightarrow> (Ok (fail (''Failed to copy artifact: '' @ error_text e)), w2)
                                      | (Ok _, w2) \<Rightarrow>
                                          (case insert_artifact env (rep_id target) (user_id auth) a (cleanup_soft_deleted_artifact env (rep_id target) (pa_path a) w2) of
                                             (Inl e, w3) \<Rightarrow>
                                               (Ok (fail (if str_contains ''duplicate key'' e then ''Artifact already exists in target'' else ''Database error: '' @ e)), w3)
                                           | (Inr _, w3) \<Rightarrow>
                                               (Ok \<lparr>rsp_promoted = True, rsp_source = source_display, rsp_target = target_display,
                                                    rsp_promotion_id = Some (pe_record_id env), rsp_violations = [], rsp_message = Some ''Promoted successfully''\<rparr>,
                                                snd (insert_history env (promotion_history_row env aid (rep_id source) (rep_id target) (user_id auth)
                                                       NoEvaluation (req_notes req)) w3))))))))"

fun bulk_loop ::
  "principal \<Rightarrow> string \<Rightarrow> string \<Rightarrow> prepo \<Rightarrow> prepo \<Rightarrow> bool \<Rightarrow> promote_request \<Rightarrow> (promote_env \<times> nat) list \<Rightarrow> promotion_response list
     \<Rightarrow> promote_world \<Rightarrow> (promotion_response list, promote_world) op_result" where
  "bulk_loop auth repo_key target_key source target approval_required req [] acc w = (Ok acc, w)"
| "bulk_loop auth repo_key target_key source target approval_required req ((env, aid) # items) acc w =
     op_bind (bulk_item env auth repo_key target_key source target approval_required req aid w) (\<lambda>r w1.
       bulk_loop auth repo_key target_key source target approval_required req items (acc @ [r]) w1)"

record bulk_response =
  br_total :: nat
  br_promoted :: nat
  br_failed :: nat
  br_results :: "promotion_response list"

definition build_bulk_summary :: "nat \<Rightarrow> promotion_response list \<Rightarrow> bulk_response" where
  "build_bulk_summary n results =
     \<lparr>br_total = n, br_promoted = length (filter rsp_promoted results), br_failed = length (filter (\<lambda>r. \<not> rsp_promoted r) results),
      br_results = results\<rparr>"

definition promote_artifacts_bulk ::
  "promote_env \<Rightarrow> principal \<Rightarrow> string \<Rightarrow> promote_request \<Rightarrow> (promote_env \<times> nat) list \<Rightarrow> promote_world \<Rightarrow> (bulk_response, promote_world) op_result" where
  "promote_artifacts_bulk env auth repo_key req items w =
     (case result_bind (promotion_pair env w auth repo_key (req_target req)) (\<lambda>(source, target_key, target).
             result_bind (validate_promotion_repos source target) (\<lambda>_.
             result_bind (require_promotion_tenant_access env w (user_id auth) source target) (\<lambda>_.
             result_bind (check_approval_required env w (rep_id source)) (\<lambda>required. Ok (source, target_key, target, required))))) of
        Err e \<Rightarrow> (Err e, w)
      | Ok (source, target_key, target, required) \<Rightarrow>
          op_bind (bulk_loop auth repo_key target_key source target required req items [] w) (\<lambda>results w1.
            (Ok (build_bulk_summary (length items) results), w1)))"

section \<open>Rejecting an artifact, linking a release repository\<close>

definition reject_artifact ::
  "promote_env \<Rightarrow> principal \<Rightarrow> string \<Rightarrow> nat \<Rightarrow> string \<Rightarrow> string option \<Rightarrow> promote_world \<Rightarrow> (nat, promote_world) op_result" where
  "reject_artifact env auth repo_key aid reason notes w =
     (case result_bind (get_by_key env w repo_key) (\<lambda>source.
             if rep_type source \<noteq> StagingRepo
             then Err (Validation ''Artifacts can only be rejected from staging repositories'')
             else result_bind (ask_text (pe_db env) PqArtifact (find_live_artifact w aid (rep_id source))) (\<lambda>a.
                    if a = None then Err (NotFound ''Artifact not found in staging repository'') else Ok source)) of
        Err e \<Rightarrow> (Err e, w)
      | Ok source \<Rightarrow>
          op_bind (insert_history env
                     \<lparr>hi_id = pe_record_id env, hi_artifact = aid, hi_source = rep_id source, hi_target = rep_id source, hi_by = user_id auth,
                      hi_status = ''rejected'', hi_reason = Some reason, hi_result = NoResult, hi_notes = notes\<rparr> w)
            (\<lambda>_ w1. (Ok (pe_record_id env), w1)))"

definition config_put :: "nat \<Rightarrow> string \<Rightarrow> (nat \<times> string) list \<Rightarrow> (nat \<times> string) list" where
  "config_put k v kvs = (k, v) # filter (\<lambda>(k', _). k' \<noteq> k) kvs"

definition set_release_target ::
  "promote_env \<Rightarrow> principal \<Rightarrow> string \<Rightarrow> string option \<Rightarrow> promote_world \<Rightarrow> (nat option, promote_world) op_result" where
  "set_release_target env auth repo_key release_key w =
     (case result_bind (require_scope auth ''write'') (\<lambda>_.
             result_bind (get_by_key env w repo_key) (\<lambda>staging.
               if rep_type staging \<noteq> StagingRepo
               then Err (Validation ''Release target linking is only available for staging repositories'')
               else (case release_key of
                       None \<Rightarrow> Ok (staging, None)
                     | Some k \<Rightarrow>
                         (case get_by_key env w k of
                            Err _ \<Rightarrow> Err (Validation (''Release repository '' @ in_quotes k @ '' not found''))
                          | Ok release \<Rightarrow> result_bind (validate_release_target_link staging release) (\<lambda>_. Ok (staging, Some release)))))) of
        Err e \<Rightarrow> (Err e, w)
      | Ok (staging, rel) \<Rightarrow>
          (case ask_text (pe_db env) PqConfigWrite () of
             Err e \<Rightarrow> (Err e, w)
           | Ok _ \<Rightarrow>
               (case rel of
                  Some release \<Rightarrow> (Ok (Some (rep_id release)), w\<lparr>pw_config := config_put (rep_id staging) (pe_show_id env (rep_id release)) (pw_config w)\<rparr>)
                | None \<Rightarrow> (Ok None, w\<lparr>pw_config := filter (\<lambda>(k, _). k \<noteq> rep_id staging) (pw_config w)\<rparr>))))"

section \<open>The approval workflow\<close>

record approval_request =
  ar_source :: string
  ar_target :: string
  ar_artifact :: nat
  ar_skip_policy_check :: bool
  ar_notes :: "string option"

text \<open>The evaluation is kept with the request and does not stop it; its failure is logged.\<close>

definition recorded_result :: "promote_env \<Rightarrow> promote_world \<Rightarrow> approval_request \<Rightarrow> nat \<Rightarrow> evaluation option" where
  "recorded_result env w req src =
     (if ar_skip_policy_check req then None
      else case evaluate_policies env w (ar_artifact req) src of Ok ev \<Rightarrow> Some ev | Err _ \<Rightarrow> None)"

definition new_request :: "promote_env \<Rightarrow> principal \<Rightarrow> approval_request \<Rightarrow> nat \<Rightarrow> nat \<Rightarrow> evaluation option \<Rightarrow> approval" where
  "new_request env auth req src tgt result =
     \<lparr>apv_id = pe_record_id env, apv_artifact = ar_artifact req, apv_source = src, apv_target = tgt, apv_requested_by = user_id auth,
      apv_requested_at = pe_now env, apv_status = ''pending'', apv_reviewed_by = None, apv_reviewed_at = None, apv_review_notes = None,
      apv_policy_result = result, apv_skip_policy_check = ar_skip_policy_check req, apv_notes = ar_notes req, apv_consumed_at = None\<rparr>"

definition request_approval ::
  "promote_env \<Rightarrow> principal \<Rightarrow> approval_request \<Rightarrow> promote_world \<Rightarrow> (approval, promote_world) op_result" where
  "request_approval env auth req w =
     (case result_bind (get_by_key env w (ar_source req)) (\<lambda>source.
           result_bind (get_by_key env w (ar_target req)) (\<lambda>target.
           result_bind (validate_promotion_repos source target) (\<lambda>_.
           result_bind (require_visible env w source (Some auth)) (\<lambda>_.
           result_bind (get_source_artifact env w (ar_artifact req) (rep_id source)) (\<lambda>_.
           result_bind (ask_text (pe_db env) PqExisting
                          (list_ex (\<lambda>a. for_pair (ar_artifact req) (rep_id source) (rep_id target) a \<and> apv_status a = ''pending'') (pw_approvals w))) (\<lambda>existing.
             if existing
             then Err (Conflict ''A pending approval request already exists for this artifact and repository pair'')
             else ask_text (pe_db env) PqApprovalInsert
                    (new_request env auth req (rep_id source) (rep_id target)
                      (recorded_result env w req (rep_id source))))))))) of
        Err e \<Rightarrow> (Err e, w)
      | Ok a \<Rightarrow> (Ok a, w\<lparr>pw_approvals := pw_approvals w @ [a]\<rparr>))"

definition approval_separation_of_duties_ok :: "nat \<Rightarrow> nat \<Rightarrow> bool" where
  "approval_separation_of_duties_ok requester approver \<longleftrightarrow> requester \<noteq> approver"

definition check_reviewable :: "string \<Rightarrow> unit app_result" where
  "check_reviewable status =
     (if status \<noteq> ''pending'' then Err (Conflict (''Approval request has already been '' @ status)) else Ok ())"

definition find_approval :: "promote_world \<Rightarrow> nat \<Rightarrow> approval option" where
  "find_approval w i = List.find (\<lambda>a. apv_id a = i) (pw_approvals w)"

definition fetch_key :: "promote_env \<Rightarrow> promote_world \<Rightarrow> nat \<Rightarrow> string app_result" where
  "fetch_key env w i =
     result_bind (ask_text (pe_db env) (PqRepoId i) (key_of_id w i)) (\<lambda>k.
       case k of
         Some x \<Rightarrow> Ok x
       | None \<Rightarrow> Err (Database ''no rows returned by a query that expected to return at least one row''))"

definition read_failed :: "app_error \<Rightarrow> app_error" where
  "read_failed e = Internal (''Failed to read source artifact: '' @ error_text e)"

definition write_failed :: "app_error \<Rightarrow> app_error" where
  "write_failed e = Internal (''Failed to write promoted artifact: '' @ error_text e)"

definition rule_detail :: "promotion_rule_evaluation list \<Rightarrow> string" where
  "rule_detail failing =
     join_str ''; '' (concat (map (\<lambda>e. map (\<lambda>v. re_name e @ '': '' @ v) (re_violations e)) failing))"

text \<open>The checks of an approval, in order: admin, the row is pending, another user asked, the tenant, the artifact, the rules.\<close>

definition approval_checks ::
  "promote_env \<Rightarrow> principal \<Rightarrow> nat \<Rightarrow> bool \<Rightarrow> promote_world \<Rightarrow> (approval \<times> prepo \<times> prepo \<times> partifact) app_result" where
  "approval_checks env auth i skip w =
     (if \<not> is_admin auth then Err (Authorization ''Only admins can approve promotions'')
      else
     result_bind (ask_text (pe_db env) PqApproval (find_approval w i)) (\<lambda>found.
     case found of
       None \<Rightarrow> Err (NotFound ''Approval request not found'')
     | Some ap \<Rightarrow>
         result_bind (check_reviewable (apv_status ap)) (\<lambda>_.
         if \<not> approval_separation_of_duties_ok (apv_requested_by ap) (user_id auth)
         then Err (Authorization ''Separation of duties: you cannot approve a promotion you requested. A different reviewer must approve this request.'')
         else
         result_bind (fetch_key env w (apv_source ap)) (\<lambda>source_key.
         result_bind (fetch_key env w (apv_target ap)) (\<lambda>target_key.
         result_bind (get_by_key env w source_key) (\<lambda>source.
         result_bind (get_by_key env w target_key) (\<lambda>target.
         result_bind (require_promotion_tenant_access env w (user_id auth) source target) (\<lambda>_.
         result_bind (get_source_artifact env w (apv_artifact ap) (rep_id source)) (\<lambda>a.
         result_bind (if skip then Ok [] else evaluate_pair_rules env w (apv_artifact ap) (rep_id source) (rep_id target)) (\<lambda>failing.
           if failing \<noteq> []
           then Err (Authorization (''Promotion blocked by promotion rule violations: '' @ rule_detail failing))
           else Ok (ap, source, target, a)))))))))))"

definition set_review :: "nat \<Rightarrow> (approval \<Rightarrow> approval) \<Rightarrow> promote_world \<Rightarrow> promote_world" where
  "set_review i f w = w\<lparr>pw_approvals := map (\<lambda>x. if apv_id x = i then f x else x) (pw_approvals w)\<rparr>"

definition reread_approval :: "promote_env \<Rightarrow> nat \<Rightarrow> promote_world \<Rightarrow> (approval, promote_world) op_result" where
  "reread_approval env i w =
     (case ask_text (pe_db env) PqReread (find_approval w i) of
        Err e \<Rightarrow> (Err e, w)
      | Ok None \<Rightarrow> (Err (Database ''no rows returned by a query that expected to return at least one row''), w)
      | Ok (Some a) \<Rightarrow> (Ok a, w))"

definition mark_approved :: "promote_env \<Rightarrow> nat \<Rightarrow> string option \<Rightarrow> approval \<Rightarrow> approval" where
  "mark_approved env usr notes x =
     x\<lparr>apv_status := ''approved'', apv_reviewed_by := Some usr, apv_reviewed_at := Some (pe_now env), apv_review_notes := notes,
       apv_consumed_at := Some (pe_now env)\<rparr>"

text \<open>What an approval does once its checks have passed: nothing keeps the request or the artifact as they were then.\<close>

definition approve_execute ::
  "promote_env \<Rightarrow> principal \<Rightarrow> nat \<Rightarrow> string option \<Rightarrow> approval \<times> prepo \<times> prepo \<times> partifact \<Rightarrow> promote_world \<Rightarrow> (approval, promote_world) op_result" where
  "approve_execute env auth i notes checked w =
     (case checked of (ap, source, target, a) \<Rightarrow>
        op_bind (copy_and_insert env read_failed write_failed source target a (user_id auth) w) (\<lambda>_ w1.
        op_bind (insert_history env (promotion_history_row env (apv_artifact ap) (rep_id source) (rep_id target) (user_id auth) (ApprovedVia i) notes) w1) (\<lambda>_ w2.
        op_bind (case ask_text (pe_db env) PqReview () of
                   Err e \<Rightarrow> (Err e, w2)
                 | Ok _ \<Rightarrow> (Ok (), set_review i (mark_approved env (user_id auth) notes) w2)) (\<lambda>_ w3.
          reread_approval env i w3))))"

definition approve_promotion ::
  "promote_env \<Rightarrow> principal \<Rightarrow> nat \<Rightarrow> string option \<Rightarrow> bool \<Rightarrow> promote_world \<Rightarrow> (approval, promote_world) op_result" where
  "approve_promotion env auth i notes skip w =
     (case approval_checks env auth i skip w of
        Err e \<Rightarrow> (Err e, w)
      | Ok checked \<Rightarrow> approve_execute env auth i notes checked w)"

text \<open>A rejection in its two statements: the check of the status, and the update, which does not repeat it.\<close>

definition reject_check :: "promote_env \<Rightarrow> principal \<Rightarrow> nat \<Rightarrow> promote_world \<Rightarrow> unit app_result" where
  "reject_check env auth i w =
     (if \<not> is_admin auth then Err (Authorization ''Only admins can reject promotions'')
      else result_bind (ask_text (pe_db env) PqApproval (find_approval w i)) (\<lambda>found.
             case found of None \<Rightarrow> Err (NotFound ''Approval request not found'') | Some ap \<Rightarrow> check_reviewable (apv_status ap)))"

definition mark_rejected :: "promote_env \<Rightarrow> nat \<Rightarrow> string option \<Rightarrow> approval \<Rightarrow> approval" where
  "mark_rejected env usr notes x =
     x\<lparr>apv_status := ''rejected'', apv_reviewed_by := Some usr, apv_reviewed_at := Some (pe_now env), apv_review_notes := notes\<rparr>"

definition reject_write :: "promote_env \<Rightarrow> principal \<Rightarrow> nat \<Rightarrow> string option \<Rightarrow> promote_world \<Rightarrow> (approval, promote_world) op_result" where
  "reject_write env auth i notes w =
     (case ask_text (pe_db env) PqReview () of
        Err e \<Rightarrow> (Err e, w)
      | Ok _ \<Rightarrow> reread_approval env i (set_review i (mark_rejected env (user_id auth) notes) w))"

definition reject_promotion :: "promote_env \<Rightarrow> principal \<Rightarrow> nat \<Rightarrow> string option \<Rightarrow> promote_world \<Rightarrow> (approval, promote_world) op_result" where
  "reject_promotion env auth i notes w =
     (case reject_check env auth i w of Err e \<Rightarrow> (Err e, w) | Ok _ \<Rightarrow> reject_write env auth i notes w)"

end
