(* ===== verification/Promote_Run.thy ===== *)
theory Promote_Run
  imports Promote
begin

text \<open>
  What the promotion handlers guarantee: who can promote what and past which gates, that the copy has the
  bytes and checksums of the source, and that a repository that requires approval is only promoted from
  with the approval of a second user, through any interleaving of requests. Also the promotions that the
  checks never let through, and those they forget.
\<close>

section \<open>Reads\<close>

lemma get_by_key_Ok: "get_by_key env w key = Ok r \<Longrightarrow> r \<in> set (pw_repos w) \<and> rep_key r = key"
  by (auto simp: get_by_key_def split: option.splits dest: find_Some_iff_first)

text \<open>The key of the release repository a staging repository is linked to.\<close>

definition release_link :: "promote_env \<Rightarrow> promote_world \<Rightarrow> nat \<Rightarrow> string option" where
  "release_link env w staging =
     Option.bind (map_of (pw_config w) staging) (\<lambda>txt. Option.bind (pe_parse_id env txt) (key_of_id w))"

lemma resolve_release_target_key_Ok:
  "resolve_release_target_key env w staging = Ok k \<Longrightarrow> k = release_link env w staging"
  by (auto simp: resolve_release_target_key_def release_link_def split: option.splits)

lemma enforce_link_Ok:
  "enforce_release_target_link env w staging k = Ok u \<Longrightarrow> release_link env w staging \<in> {None, Some k}"
  by (cases "release_link env w staging")
     (auto simp: enforce_release_target_link_def dest!: resolve_release_target_key_Ok split: option.splits if_splits)

lemma promotion_pair_Ok:
  assumes "promotion_pair env w auth key explicit = Ok (source, target_key, target)"
  shows "(is_admin auth \<or> has_promote_scope auth) \<and>
         source \<in> set (pw_repos w) \<and> rep_key source = key \<and> target \<in> set (pw_repos w) \<and> rep_key target = target_key \<and>
         release_link env w (rep_id source) \<in> {None, Some target_key}"
proof -
  have auth: "ensure_promotion_authorized (is_admin auth) (has_promote_scope auth) = Ok ()"
    and s: "get_by_key env w key = Ok source" and t: "get_by_key env w target_key = Ok target"
    and l: "enforce_release_target_link env w (rep_id source) target_key = Ok ()"
    using assms by (auto simp: promotion_pair_def)
  show ?thesis
    using auth get_by_key_Ok[OF s] get_by_key_Ok[OF t] enforce_link_Ok[OF l]
    by (auto simp: ensure_promotion_authorized_def split: if_splits)
qed

definition may_enter :: "promote_world \<Rightarrow> nat \<Rightarrow> prepo \<Rightarrow> bool" where
  "may_enter w usr r \<longleftrightarrow> rep_public r \<or> has_repo_access (pw_perm w) (rep_id r) usr"

lemma tenant_loop_Ok: "tenant_loop env w usr rs = Ok u \<Longrightarrow> \<forall>r\<in>set rs. may_enter w usr r"
  by (induction rs) (auto simp: user_can_access_repo_def promotion_tenant_access_allowed_def may_enter_def split: if_splits)

lemma tenant_access_Ok:
  "require_promotion_tenant_access env w usr source target = Ok u \<Longrightarrow> may_enter w usr source \<and> may_enter w usr target"
  using tenant_loop_Ok[of env w usr "[source, target]"] by (auto simp: require_promotion_tenant_access_def)

definition right_shape :: "prepo \<Rightarrow> prepo \<Rightarrow> bool" where
  "right_shape source target \<longleftrightarrow>
     is_hosted (rep_type source) \<and> rep_type target = LocalRepo \<and> rep_format source = rep_format target"

lemma validate_repos_Ok: "validate_promotion_repos source target = Ok u \<Longrightarrow> right_shape source target"
  by (auto simp: validate_promotion_repos_def validate_promotion_source_is_staging_def validate_promotion_target_and_format_def
      right_shape_def split: if_splits)

lemma get_source_artifact_Ok: "get_source_artifact env w aid repo = Ok a \<Longrightarrow> find_live_artifact w aid repo = Some a"
  by (auto simp: get_source_artifact_def split: option.splits)

lemma find_live_artifact_Some:
  "find_live_artifact w aid repo = Some a \<Longrightarrow> a \<in> set (pw_artifacts w) \<and> pa_id a = aid \<and> pa_repository a = repo \<and> \<not> pa_deleted a"
  by (auto simp: find_live_artifact_def dest: find_Some_iff_first)

definition requires_approval :: "promote_world \<Rightarrow> nat \<Rightarrow> bool" where
  "requires_approval w repo \<longleftrightarrow>
     (case List.find (\<lambda>r. rep_id r = repo) (pw_repos w) of Some r \<Rightarrow> rep_require_approval r = Some True | None \<Rightarrow> False)"

lemma check_approval_required_Ok: "check_approval_required env w repo = Ok b \<Longrightarrow> b \<longleftrightarrow> requires_approval w repo"
  by (auto simp: check_approval_required_def requires_approval_def unwrap_or_def split: option.splits)

section \<open>The gates\<close>

text \<open>Answers under an outage that did not hit are the answers without one.\<close>

lemma block_unscanned_outage:
  "evaluate_block_unscanned io db aid p acc = Ok v \<Longrightarrow> evaluate_block_unscanned no_outage db aid p acc = Ok v"
  by (auto simp: evaluate_block_unscanned_def get_scan_state_def)

lemma signature_check_outage:
  "check_artifact_signature io db aid repo = Ok v \<Longrightarrow> check_artifact_signature no_outage db aid repo = Ok v"
  by (auto simp: check_artifact_signature_def split: if_splits)

lemma age_outage: "evaluate_age io now db aid p acc = Ok v \<Longrightarrow> evaluate_age no_outage now db aid p acc = Ok v"
  by (auto simp: evaluate_age_def get_artifact_created_at_def split: if_splits)

lemma age_and_signature_outage:
  assumes "evaluate_age_and_signature io now db aid repo p acc = Ok v"
  shows "evaluate_age_and_signature no_outage now db aid repo p acc = Ok v"
proof -
  obtain acc1 where age: "evaluate_age io now db aid p acc = Ok acc1"
    and rest: "(if \<not> require_signature p then Ok acc1
       else result_bind (check_artifact_signature io db aid repo) (\<lambda>is_signed.
              Ok (collect_blocking (evaluate_signature_requirement is_signed) acc1))) = Ok v"
    using assms unfolding evaluate_age_and_signature_def by auto
  show ?thesis
    using rest age_outage[OF age] signature_check_outage[of io db aid repo]
    by (auto simp: evaluate_age_and_signature_def split: if_splits)
qed

lemma cve_summary_outage: "get_cve_summary io db aid = Ok v \<Longrightarrow> get_cve_summary no_outage db aid = Ok v"
  unfolding get_cve_summary_def by (auto split: option.splits)

lemma other_reads_outage:
  "get_license_summary io db aid = Ok ls \<Longrightarrow> get_license_summary no_outage db aid = Ok ls"
  "get_scan_policy io db repo = Ok p \<Longrightarrow> get_scan_policy no_outage db repo = Ok p"
  "get_license_policy io db repo = Ok lp \<Longrightarrow> get_license_policy no_outage db repo = Ok lp"
  by (auto simp: get_license_summary_def get_scan_policy_def get_license_policy_def)

lemma policy_stage_outage:
  assumes "(case pol of None \<Rightarrow> Ok acc
     | Some p \<Rightarrow> result_bind (evaluate_block_unscanned io db aid p acc) (evaluate_age_and_signature io now db aid repo p)) = Ok v"
  shows "(case pol of None \<Rightarrow> Ok acc
     | Some p \<Rightarrow> result_bind (evaluate_block_unscanned no_outage db aid p acc) (evaluate_age_and_signature no_outage now db aid repo p)) = Ok v"
proof (cases pol)
  case (Some p)
  then obtain acc1 where b: "evaluate_block_unscanned io db aid p acc = Ok acc1" and c: "evaluate_age_and_signature io now db aid repo p acc1 = Ok v"
    using assms by auto
  show ?thesis
    using Some block_unscanned_outage[OF b] age_and_signature_outage[OF c] by simp
qed (use assms in simp)

lemma evaluate_promotion_outage:
  assumes "evaluate_promotion io now db aid repo = Ok e"
  shows "evaluate_promotion no_outage now db aid repo = Ok e"
proof -
  obtain cves lics pol licpol where
    reads: "get_cve_summary io db aid = Ok cves" "get_license_summary io db aid = Ok lics"
      "get_scan_policy io db repo = Ok pol" "get_license_policy io db repo = Ok licpol"
    using assms unfolding evaluate_promotion_def by auto
  note no = cve_summary_outage[OF reads(1)] other_reads_outage(1)[OF reads(2)] other_reads_outage(2)[OF reads(3)]
    other_reads_outage(3)[OF reads(4)]
  from assms show ?thesis
    unfolding evaluate_promotion_def reads no result_bind_simps Let_def result_bind_eq_Inr
    using policy_stage_outage by blast
qed

lemma policies_passed:
  assumes "evaluate_policies env w aid repo = Ok e" "\<not> promotion_stops e" "counts_ok (pw_promo w)"
  shows "\<not> must_block (pe_now env) (rb_promo (rules_view w)) aid repo"
proof -
  have "counts_ok (rb_promo (rules_view w))" using assms(3) by (simp add: counts_ok_def rules_view_def)
  then obtain e' where "evaluate_promotion no_outage (pe_now env) (rb_promo (rules_view w)) aid repo = Ok e'"
      "promotion_stops e' \<longleftrightarrow> must_block (pe_now env) (rb_promo (rules_view w)) aid repo"
    using promotion_stops_iff by blast
  then show ?thesis using evaluate_promotion_outage[of "pe_promo env"] assms(1,2) by (auto simp: evaluate_policies_def)
qed

lemma rules_passed:
  assumes "evaluate_pair_rules env w aid src tgt = Ok []"
  shows "\<forall>r\<in>set (pw_rules w). pr_source r = src \<and> pr_target r = tgt \<and> pr_enabled r \<longrightarrow> meets (pe_now env) (rules_view w) aid r"
  using rule_gate_answer[of "pe_promo env" "pe_now env" "rules_view w" aid src tgt "[]"] assms
  by (simp add: evaluate_pair_rules_def rules_view_def)

section \<open>Copying\<close>

lemma copy_object_Ok:
  assumes "copy_object env re we s t key w = (Ok u, w')"
  obtains b where "pw_objects w (s, key) = Some b" "w' = w\<lparr>pw_objects := (pw_objects w)((t, key) \<mapsto> b)\<rparr>"
  using assms by (auto simp: copy_object_def read_object_def split: sum.splits option.splits)

lemma insert_promoted_Ok:
  assumes "insert_promoted env target usr a w = (Ok u, w')"
  shows "\<exists>rest. set rest \<subseteq> set (pw_artifacts w) \<and> w' = w\<lparr>pw_artifacts := rest @ [promoted_row env target usr a]\<rparr> \<and>
           (\<forall>x\<in>set rest. \<not> (pa_repository x = target \<and> pa_path x = pa_path a))"
proof -
  obtain kept where kept: "cleanup_soft_deleted_artifact env target (pa_path a) w = w\<lparr>pw_artifacts := kept\<rparr>" "set kept \<subseteq> set (pw_artifacts w)"
  proof (cases "pe_db env PqCleanup")
    case None
    then show ?thesis
      by (intro that[of "filter (\<lambda>x. \<not> (pa_repository x = target \<and> pa_path x = pa_path a \<and> pa_deleted x)) (pw_artifacts w)"])
         (auto simp: cleanup_soft_deleted_artifact_def)
  qed (intro that[of "pw_artifacts w"]; simp add: cleanup_soft_deleted_artifact_def)
  have "w' = w\<lparr>pw_artifacts := kept @ [promoted_row env target usr a]\<rparr>"
      "\<not> list_ex (\<lambda>x. pa_repository x = target \<and> pa_path x = pa_path a) kept"
    using assms by (auto simp: insert_promoted_def insert_artifact_def kept(1) split: option.splits if_splits)
  then show ?thesis
    using kept(2) by (intro exI[of _ kept]) (auto simp: list_ex_iff)
qed

text \<open>What a successful copy leaves: the source's bytes under its key in the target's store, and one new row.\<close>

definition copied :: "promote_env \<Rightarrow> prepo \<Rightarrow> prepo \<Rightarrow> partifact \<Rightarrow> nat \<Rightarrow> promote_world \<Rightarrow> promote_world \<Rightarrow> bool" where
  "copied env source target a usr w w' \<longleftrightarrow>
     (\<exists>s t b rest.
        storage_for_repo env source = Ok s \<and> storage_for_repo env target = Ok t \<and>
        pw_objects w (s, pa_storage_key a) = Some b \<and> pw_objects w' = (pw_objects w)((t, pa_storage_key a) \<mapsto> b) \<and>
        set rest \<subseteq> set (pw_artifacts w) \<and> pw_artifacts w' = rest @ [promoted_row env (rep_id target) usr a] \<and>
        (\<forall>x\<in>set rest. \<not> (pa_repository x = rep_id target \<and> pa_path x = pa_path a)))"

lemma guard_Ok:
  "guard_foreign_storage_key_for_backend env w repo backend key = Ok u \<Longrightarrow> backend_is_repo_isolated backend \<or> \<not> foreign_owner w repo key"
  by (auto simp: guard_foreign_storage_key_for_backend_def guard_foreign_storage_key_def split: if_splits)

lemma copy_and_insert_Ok:
  assumes "copy_and_insert env re we source target a usr w = (Ok u, w')"
  shows "copied env source target a usr w w' \<and>
         (backend_is_repo_isolated (rep_backend target) \<or> \<not> foreign_owner w (rep_id target) (pa_storage_key a)) \<and>
         w' = w\<lparr>pw_objects := pw_objects w', pw_artifacts := pw_artifacts w'\<rparr>"
proof -
  obtain s t w1 where st: "storage_for_repo env source = Ok s" "storage_for_repo env target = Ok t"
    and g: "guard_foreign_storage_key_for_backend env w (rep_id target) (rep_backend target) (pa_storage_key a) = Ok ()"
    and c: "copy_object env re we s t (pa_storage_key a) w = (Ok (), w1)"
    and i: "insert_promoted env (rep_id target) usr a w1 = (Ok u, w')"
    using assms by (auto simp: copy_and_insert_def split: sum.splits prod.splits)
  obtain b where b: "pw_objects w (s, pa_storage_key a) = Some b" "w1 = w\<lparr>pw_objects := (pw_objects w)((t, pa_storage_key a) \<mapsto> b)\<rparr>"
    using c by (rule copy_object_Ok)
  obtain rest where rest: "set rest \<subseteq> set (pw_artifacts w1)" "w' = w1\<lparr>pw_artifacts := rest @ [promoted_row env (rep_id target) usr a]\<rparr>"
      "\<forall>x\<in>set rest. \<not> (pa_repository x = rep_id target \<and> pa_path x = pa_path a)"
    using insert_promoted_Ok[OF i] by blast
  have "copied env source target a usr w w'"
    unfolding copied_def using st b rest by (intro exI[of _ s] exI[of _ t] exI[of _ b] exI[of _ rest]) simp
  then show ?thesis using guard_Ok[OF g] b(2) rest(2) by simp
qed

lemma copy_and_insert_keeps:
  assumes "copy_and_insert env re we source target a usr w = (r, w')"
  shows "pw_approvals w' = pw_approvals w \<and> pw_history w' = pw_history w \<and> pw_repos w' = pw_repos w"
  using assms
  by (auto simp: copy_and_insert_def op_bind_def copy_object_def insert_promoted_def insert_artifact_def
      cleanup_soft_deleted_artifact_def split: sum.splits prod.splits option.splits if_splits)

lemma consume_Ok:
  assumes "require_and_consume_approval env aid src tgt w = (Ok u, w')"
  shows "\<exists>a\<in>set (pw_approvals w). consumable aid src tgt a \<and>
           w' = w\<lparr>pw_approvals := map (\<lambda>x. if apv_id x = apv_id a then x\<lparr>apv_consumed_at := Some (pe_now env)\<rparr> else x) (pw_approvals w)\<rparr>"
proof -
  obtain a as where s: "sort_by reviewed_order (filter (consumable aid src tgt) (pw_approvals w)) = a # as"
    and w': "w' = w\<lparr>pw_approvals := map (\<lambda>x. if apv_id x = apv_id a then x\<lparr>apv_consumed_at := Some (pe_now env)\<rparr> else x) (pw_approvals w)\<rparr>"
    using assms by (auto simp: require_and_consume_approval_def try_consume_approval_def op_bind_def split: sum.splits list.splits)
  have "a \<in> set (filter (consumable aid src tgt) (pw_approvals w))" using sort_by_head[OF s] .
  then show ?thesis using w' by auto
qed

section \<open>Who can promote, and past which gates\<close>

text \<open>The decisions of all gates on a promotion that is not exempted.\<close>

definition gates_passed :: "promote_env \<Rightarrow> promote_world \<Rightarrow> prepo \<Rightarrow> prepo \<Rightarrow> nat \<Rightarrow> bool" where
  "gates_passed env w source target aid \<longleftrightarrow>
     (\<forall>e. pe_quality_wired env \<and> fst (evaluate_quality_gate (pe_quality env) aid (rep_id source) (pw_quality w)) = Ok e \<longrightarrow>
          ge_passed e \<or> ge_action e \<noteq> ''block'') \<and>
     (counts_ok (pw_promo w) \<longrightarrow> \<not> must_block (pe_now env) (rb_promo (rules_view w)) aid (rep_id source)) \<and>
     (\<forall>r\<in>set (pw_rules w). pr_source r = rep_id source \<and> pr_target r = rep_id target \<and> pr_enabled r \<longrightarrow>
          meets (pe_now env) (rules_view w) aid r)"

lemma gate_once_world:
  assumes "evaluate_gate_once env aid repo skip w = (out, w1)"
  shows "w1 = w\<lparr>pw_quality := pw_quality w1\<rparr> \<and> qd_health (pw_quality w1) = qd_health (pw_quality w)"
  using assms
  by (auto simp: evaluate_gate_once_def evaluate_quality_gate_def split: if_splits sum.splits prod.splits)

lemma gate_once_passed:
  assumes "evaluate_gate_once env aid repo False w = (out, w1)" "\<forall>e. out \<noteq> GateBlock e"
    and "pe_quality_wired env" "fst (evaluate_quality_gate (pe_quality env) aid repo (pw_quality w)) = Ok e"
  shows "ge_passed e \<or> ge_action e \<noteq> ''block''"
  using assms by (auto simp: evaluate_gate_once_def classify_gate_evaluation_def split: sum.splits prod.splits if_splits)

lemma rules_view_quality: "w1 = w\<lparr>pw_quality := pw_quality w1\<rparr> \<Longrightarrow> qd_health (pw_quality w1) = qd_health (pw_quality w) \<Longrightarrow> rules_view w1 = rules_view w"
  by (cases w; cases w1) (simp add: rules_view_def)

lemma promote_gated_promoted:
  assumes "promote_gated env auth key tkey source target a aid req w = (Ok rsp, w')" "rsp_promoted rsp"
  obtains required result where "right_shape source target" "required \<longleftrightarrow> requires_approval w (rep_id source)"
    "\<not> req_skip_policy_check req \<longrightarrow>
       (\<exists>ev. evaluate_policies env w aid (rep_id source) = Ok ev \<and> \<not> promotion_stops ev \<and>
            evaluate_pair_rules env w aid (rep_id source) (rep_id target) = Ok [])"
    "execute_promotion env auth key tkey source target a aid required result (req_notes req) w = (Ok rsp, w')"
proof -
  obtain required where v: "validate_promotion_repos source target = Ok ()"
    and c: "check_approval_required env w (rep_id source) = Ok required"
    using assms(1) by (auto simp: promote_gated_def Let_def split: sum.splits)
  note pre = validate_repos_Ok[OF v] check_approval_required_Ok[OF c]
  show ?thesis
  proof (cases "req_skip_policy_check req")
    case True
    then show ?thesis using assms v c pre by (intro that[of required NoEvaluation]) (simp_all add: promote_gated_def)
  next
    case False
    then obtain ev where ev: "evaluate_policies env w aid (rep_id source) = Ok ev" "\<not> promotion_stops ev"
      and r: "evaluate_pair_rules env w aid (rep_id source) (rep_id target) = Ok []"
      using assms v c
      by (auto simp: promote_gated_def Let_def failed_response_def split: sum.splits if_splits)
    then show ?thesis
      using assms v c pre False by (intro that[of required "Evaluated ev"]) (simp_all add: promote_gated_def)
  qed
qed

definition spent :: "promote_env \<Rightarrow> nat \<Rightarrow> nat \<Rightarrow> nat \<Rightarrow> promote_world \<Rightarrow> promote_world \<Rightarrow> bool" where
  "spent env aid src tgt w w' \<longleftrightarrow>
     (\<exists>ap\<in>set (pw_approvals w). consumable aid src tgt ap \<and>
        pw_approvals w' = map (\<lambda>x. if apv_id x = apv_id ap then x\<lparr>apv_consumed_at := Some (pe_now env)\<rparr> else x) (pw_approvals w))"

lemma execute_promotion_Ok:
  assumes "execute_promotion env auth key tkey source target a aid required result notes w = (Ok rsp, w')"
  shows "(required \<longrightarrow> spent env aid (rep_id source) (rep_id target) w w') \<and>
         copied env source target a (user_id auth) w w' \<and>
         pw_history w' = pw_history w @ [promotion_history_row env aid (rep_id source) (rep_id target) (user_id auth) result notes] \<and>
         (backend_is_repo_isolated (rep_backend target) \<or> \<not> foreign_owner w (rep_id target) (pa_storage_key a))"
proof -
  let ?h = "promotion_history_row env aid (rep_id source) (rep_id target) (user_id auth) result notes"
  from assms obtain w1 w2 where
    1: "(if required then require_and_consume_approval env aid (rep_id source) (rep_id target) w else (Ok (), w)) = (Ok (), w1)"
    and 2: "copy_and_insert env copy_failed copy_failed source target a (user_id auth) w1 = (Ok (), w2)"
    and 3: "insert_history env ?h w2 = (Ok (), w')"
    unfolding execute_promotion_def by auto
  have w1: "\<exists>as. w1 = w\<lparr>pw_approvals := as\<rparr> \<and> (required \<longrightarrow> spent env aid (rep_id source) (rep_id target) w (w\<lparr>pw_approvals := as\<rparr>))"
  proof (cases required)
    case True
    then show ?thesis using 1 consume_Ok[of env aid "rep_id source" "rep_id target" w "()" w1] by (auto simp: spent_def)
  qed (use 1 in \<open>auto intro!: exI[of _ "pw_approvals w"]\<close>)
  then obtain as where as: "w1 = w\<lparr>pw_approvals := as\<rparr>" "required \<longrightarrow> spent env aid (rep_id source) (rep_id target) w (w\<lparr>pw_approvals := as\<rparr>)"
    by blast
  have w': "w' = w2\<lparr>pw_history := pw_history w2 @ [?h]\<rparr>"
    using 3 by (auto simp: insert_history_def split: sum.splits)
  show ?thesis
    using copy_and_insert_Ok[OF 2] copy_and_insert_keeps[OF 2] as
    by (simp add: w' copied_def spent_def foreign_owner_def)
qed

lemma promote_artifact_promoted:
  assumes "promote_artifact env auth key aid req w = (Ok rsp, w')" "rsp_promoted rsp"
  obtains source target a w0 out where
    "promotion_pair env w auth key (req_target req) = Ok (source, rep_key target, target)"
    "may_enter w (user_id auth) source" "may_enter w (user_id auth) target"
    "find_live_artifact w aid (rep_id source) = Some a"
    "evaluate_gate_once env aid (rep_id source) (req_skip_policy_check req) w = (out, w0)" "\<forall>e. out \<noteq> GateBlock e"
    "promote_gated env auth key (rep_key target) source target a aid req w0 = (Ok rsp, w')"
proof -
  obtain source tkey target a where
    p: "promotion_pair env w auth key (req_target req) = Ok (source, tkey, target)"
    and t: "require_promotion_tenant_access env w (user_id auth) source target = Ok ()"
    and a: "get_source_artifact env w aid (rep_id source) = Ok a"
    and rest: "(case evaluate_gate_once env aid (rep_id source) (req_skip_policy_check req) w of
             (GateBlock ev, w1) \<Rightarrow> (Err (gate_block_error ev), w1)
           | (GateWarn _, w1) \<Rightarrow> promote_gated env auth key tkey source target a aid req w1
           | (NotEvaluated, w1) \<Rightarrow> promote_gated env auth key tkey source target a aid req w1) = (Ok rsp, w')"
    using assms(1) unfolding promote_artifact_def by (auto split: sum.splits prod.splits)
  obtain out w0 where g: "evaluate_gate_once env aid (rep_id source) (req_skip_policy_check req) w = (out, w0)" by fastforce
  have "\<forall>e. out \<noteq> GateBlock e" "promote_gated env auth key tkey source target a aid req w0 = (Ok rsp, w')"
    using rest g by (auto split: gate_outcome.splits)
  then show ?thesis
    using p promotion_pair_Ok[OF p] tenant_access_Ok[OF t] get_source_artifact_Ok[OF a] g
    by (intro that[of source target a out w0]) auto
qed


text \<open>
  On a backend that repositories share, the guard finds the source's own row under the key, so no copy
  into another repository ever goes through.
\<close>

lemma shared_backend_never_copies:
  assumes "find_live_artifact w aid (rep_id source) = Some a" and "rep_id source \<noteq> rep_id target"
    and "\<not> backend_is_repo_isolated (rep_backend target)"
  shows "\<exists>e. copy_and_insert env re we source target a usr w = (Err e, w)"
proof -
  have foreign: "foreign_owner w (rep_id target) (pa_storage_key a)"
    using find_live_artifact_Some[OF assms(1)] assms(2) by (auto simp: foreign_owner_def list_ex_iff)
  have "\<exists>e. guard_foreign_storage_key_for_backend env w (rep_id target) (rep_backend target) (pa_storage_key a) = Err e"
    using guard_Ok[of env w "rep_id target" "rep_backend target" "pa_storage_key a"] foreign assms(3)
    by (cases "guard_foreign_storage_key_for_backend env w (rep_id target) (rep_backend target) (pa_storage_key a)") auto
  then show ?thesis by (auto simp: copy_and_insert_def)
qed

section \<open>Approval by a second user\<close>

text \<open>Changes that leave the approvals alone and promote from no repository that requires approval.\<close>

definition unapproved_only :: "promote_world \<Rightarrow> promote_world \<Rightarrow> bool" where
  "unapproved_only w w' \<longleftrightarrow>
     pw_approvals w' = pw_approvals w \<and> pw_repos w' = pw_repos w \<and>
     (\<exists>hs. pw_history w' = pw_history w @ hs \<and>
           (\<forall>h\<in>set hs. hi_status h = ''promoted'' \<longrightarrow> \<not> requires_approval w (hi_source h)))"

lemma unapproved_only_refl [simp]: "unapproved_only w w"
  by (simp add: unapproved_only_def)

lemma unapproved_only_trans: "unapproved_only w w1 \<Longrightarrow> unapproved_only w1 w2 \<Longrightarrow> unapproved_only w w2"
  by (auto simp: unapproved_only_def requires_approval_def)

definition none_consumable :: "promote_world \<Rightarrow> bool" where
  "none_consumable w \<longleftrightarrow> (\<forall>a\<in>set (pw_approvals w). apv_status a = ''approved'' \<longrightarrow> apv_consumed_at a \<noteq> None)"

lemma none_consumable_filter: "none_consumable w \<Longrightarrow> filter (consumable aid src tgt) (pw_approvals w) = []"
  by (auto simp: none_consumable_def consumable_def filter_empty_conv)

lemma consume_refused:
  assumes "none_consumable w"
  shows "\<exists>e. require_and_consume_approval env aid src tgt w = (Err e, w)"
proof -
  have "try_consume_approval env aid src tgt w = (Ok 0, w) \<or> (\<exists>e. try_consume_approval env aid src tgt w = (Err e, w))"
    using none_consumable_filter[OF assms] by (auto simp: try_consume_approval_def ask_text_def split: option.splits)
  then show ?thesis
    by (cases "count_pending_approvals env w aid src tgt") (auto simp: require_and_consume_approval_def)
qed

lemma insert_history_world:
  "insert_history env h w = (r, w') \<Longrightarrow> w' = w \<or> w' = w\<lparr>pw_history := pw_history w @ [h]\<rparr>"
  by (auto simp: insert_history_def split: sum.splits)

lemma unapproved_history:
  assumes "insert_history env (promotion_history_row env aid src tgt usr result notes) w = (r, w')" and "\<not> requires_approval w src"
  shows "unapproved_only w w'"
  using insert_history_world[OF assms(1)] assms(2) by (auto simp: unapproved_only_def promotion_history_row_def)

lemma unapproved_copy: "copy_and_insert env re we source target a usr w = (r, w') \<Longrightarrow> unapproved_only w w'"
  using copy_and_insert_keeps[of env re we source target a usr w r w'] by (simp add: unapproved_only_def)

lemma execute_unapproved:
  assumes "execute_promotion env auth key tkey source target a aid required result notes w = (r, w')"
    and "required \<longleftrightarrow> requires_approval w (rep_id source)" and "none_consumable w"
  shows "unapproved_only w w'"
proof (cases required)
  case True
  obtain e where "require_and_consume_approval env aid (rep_id source) (rep_id target) w = (Err e, w)"
    using consume_refused[OF assms(3)] by blast
  then show ?thesis using assms(1) True by (simp add: execute_promotion_def)
next
  case False
  obtain r1 w1 where c: "copy_and_insert env copy_failed copy_failed source target a (user_id auth) w = (r1, w1)" by fastforce
  obtain r2 w2 where h: "insert_history env (promotion_history_row env aid (rep_id source) (rep_id target) (user_id auth) result notes) w1 = (r2, w2)"
    by fastforce
  have "unapproved_only w w1" using c by (rule unapproved_copy)
  moreover have "unapproved_only w1 w2"
    using h False assms(2) copy_and_insert_keeps[OF c] by (intro unapproved_history) (auto simp: requires_approval_def)
  ultimately have "unapproved_only w w1" "unapproved_only w w2" using unapproved_only_trans by blast+
  then show ?thesis
    using assms(1) False c h by (cases r1; cases r2) (auto simp: execute_promotion_def)
qed

lemma promote_gated_unapproved:
  assumes "promote_gated env auth key tkey source target a aid req w = (r, w')" "none_consumable w"
  shows "unapproved_only w w'"
proof (cases "result_bind (validate_promotion_repos source target) (\<lambda>_. check_approval_required env w (rep_id source))")
  case (Inr required)
  then have "required \<longleftrightarrow> requires_approval w (rep_id source)" by (auto dest: check_approval_required_Ok)
  then have exec: "unapproved_only w w1"
    if "execute_promotion env auth key tkey source target a aid required result (req_notes req) w = (r1, w1)" for result r1 w1
    using execute_unapproved that assms(2) by blast
  show ?thesis
    using assms(1) Inr exec unfolding promote_gated_def Let_def
    by (auto split: if_splits sum.splits)
qed (use assms in \<open>simp add: promote_gated_def\<close>)

lemma promote_artifact_unapproved:
  assumes "promote_artifact env auth key aid req w = (r, w')" "none_consumable w"
  shows "unapproved_only w w'"
proof (cases "result_bind (promotion_pair env w auth key (req_target req)) (\<lambda>(source, target_key, target).
             result_bind (require_promotion_tenant_access env w (user_id auth) source target) (\<lambda>_.
             result_bind (get_source_artifact env w aid (rep_id source)) (\<lambda>a. Ok (source, target_key, target, a))))")
  case (Inr x)
  obtain source tkey target a where x: "x = (source, tkey, target, a)" by (cases x)
  obtain out w0 where g: "evaluate_gate_once env aid (rep_id source) (req_skip_policy_check req) w = (out, w0)" by fastforce
  obtain q where q: "w0 = w\<lparr>pw_quality := q\<rparr>" using gate_once_world[OF g] by blast
  have w0: "unapproved_only w w0" "none_consumable w0"
    using assms(2) by (simp_all add: q unapproved_only_def none_consumable_def)
  show ?thesis
    using assms(1) Inr x g w0 promote_gated_unapproved[of env auth key tkey source target a aid req w0]
    by (cases out) (auto simp: promote_artifact_def intro: unapproved_only_trans)
qed (use assms in \<open>simp add: promote_artifact_def\<close>)

lemma unapproved_copy_object: "copy_object env re we s t key w = (r, w') \<Longrightarrow> unapproved_only w w'"
  by (auto simp: copy_object_def unapproved_only_def split: sum.splits option.splits)

lemma unapproved_insert:
  "insert_artifact env tgt usr a (cleanup_soft_deleted_artifact env tgt path w) = (r, w') \<Longrightarrow> unapproved_only w w'"
  by (auto simp: insert_artifact_def cleanup_soft_deleted_artifact_def unapproved_only_def split: option.splits if_splits)

lemma unapproved_same_repos: "unapproved_only w w' \<Longrightarrow> requires_approval w' = requires_approval w"
  by (auto simp: unapproved_only_def requires_approval_def)

lemma unapproved_none_consumable: "unapproved_only w w' \<Longrightarrow> none_consumable w \<Longrightarrow> none_consumable w'"
  by (simp add: unapproved_only_def none_consumable_def)

lemma bulk_item_unapproved:
  assumes item: "bulk_item env auth key tkey source target required req aid w = (r, w')"
    and required: "required \<longleftrightarrow> requires_approval w (rep_id source)" and none: "none_consumable w"
  shows "unapproved_only w w'"
proof (cases required)
  case True
  obtain e where "require_and_consume_approval env aid (rep_id source) (rep_id target) w = (Err e, w)"
    using consume_refused[OF none] by blast
  then show ?thesis
    using item True by (auto simp: bulk_item_def Let_def split: sum.splits option.splits if_splits)
next
  case False
  have tail: "unapproved_only w (snd (insert_history env (promotion_history_row env aid (rep_id source) (rep_id target) usr res nts) w3))"
    if "unapproved_only w w3" for w3 usr res nts
    using unapproved_history[of env aid "rep_id source" "rep_id target" usr res nts w3] that False required
      unapproved_same_repos[OF that] unapproved_only_trans[OF that]
    by (metis prod.collapse)
  have copy: "unapproved_only w w2" if "copy_object env re we s t k w = (x, w2)" for re we s t k x w2
    using that by (rule unapproved_copy_object)
  have ins: "unapproved_only w w3"
    if "unapproved_only w w2" "insert_artifact env tgt usr a (cleanup_soft_deleted_artifact env tgt path w2) = (x, w3)" for w2 w3 tgt usr a path x
    using unapproved_insert[OF that(2)] that(1) unapproved_only_trans by blast
  show ?thesis
    using item False unfolding bulk_item_def Let_def
    by (auto split: sum.splits option.splits if_splits prod.splits intro: copy ins tail)
qed

lemma bulk_loop_unapproved:
  assumes "bulk_loop auth key tkey source target required req items acc w = (r, w')"
    and "required \<longleftrightarrow> requires_approval w (rep_id source)" and "none_consumable w"
  shows "unapproved_only w w'"
  using assms
proof (induction items arbitrary: acc w)
  case (Cons x items)
  obtain env aid where x: "x = (env, aid)" by (cases x)
  obtain r1 w1 where i: "bulk_item env auth key tkey source target required req aid w = (r1, w1)" by fastforce
  have w1: "unapproved_only w w1" using bulk_item_unapproved[OF i] Cons.prems by blast
  show ?case
  proof (cases r1)
    case (Inr y)
    then have "bulk_loop auth key tkey source target required req items (acc @ [y]) w1 = (r, w')"
      using Cons.prems(1) x i by simp
    from Cons.IH[OF this] have "unapproved_only w1 w'"
      using Cons.prems unapproved_same_repos[OF w1] unapproved_none_consumable[OF w1] by simp
    then show ?thesis using w1 unapproved_only_trans by blast
  qed (use Cons.prems x i w1 in simp)
qed simp

lemma bulk_unapproved:
  assumes "promote_artifacts_bulk env auth key req items w = (r, w')" and "none_consumable w"
  shows "unapproved_only w w'"
proof (cases "result_bind (promotion_pair env w auth key (req_target req)) (\<lambda>(source, target_key, target).
             result_bind (validate_promotion_repos source target) (\<lambda>_.
             result_bind (require_promotion_tenant_access env w (user_id auth) source target) (\<lambda>_.
             result_bind (check_approval_required env w (rep_id source)) (\<lambda>required. Ok (source, target_key, target, required)))))")
  case (Inr x)
  obtain source tkey target required where x: "x = (source, tkey, target, required)" by (cases x)
  have req: "required \<longleftrightarrow> requires_approval w (rep_id source)"
    using Inr x by (auto dest: check_approval_required_Ok)
  obtain r1 w1 where l: "bulk_loop auth key tkey source target required req items [] w = (r1, w1)" by fastforce
  have "unapproved_only w w1" using bulk_loop_unapproved[OF l req assms(2)] .
  then show ?thesis using assms(1) Inr x l by (cases r1) (auto simp: promote_artifacts_bulk_def)
qed (use assms in \<open>simp add: promote_artifacts_bulk_def\<close>)

text \<open>
  Runs: every handler, an approval split into its checks and its execution with anything in between, the
  write of a rejection at any time, and any change outside that leaves repositories, approvals and history.
\<close>

type_synonym pending_approval = "promote_env \<times> principal \<times> nat \<times> string option \<times> (approval \<times> prepo \<times> prepo \<times> partifact)"

inductive promote_step :: "promote_world \<times> pending_approval list \<Rightarrow> promote_world \<times> pending_approval list \<Rightarrow> bool" where
  promoted: "promote_artifact env auth key aid req w = (r, w') \<Longrightarrow> promote_step (w, ps) (w', ps)"
| promoted_bulk: "promote_artifacts_bulk env auth key req items w = (r, w') \<Longrightarrow> promote_step (w, ps) (w', ps)"
| rejected_artifact: "reject_artifact env auth key aid reason nts w = (r, w') \<Longrightarrow> promote_step (w, ps) (w', ps)"
| linked: "set_release_target env auth key rel w = (r, w') \<Longrightarrow> promote_step (w, ps) (w', ps)"
| requested: "request_approval env auth req w = (r, w') \<Longrightarrow> pe_record_id env \<notin> apv_id ` set (pw_approvals w) \<Longrightarrow> promote_step (w, ps) (w', ps)"
| approval_started: "approval_checks env auth i skip w = Ok c \<Longrightarrow> promote_step (w, ps) (w, (env, auth, i, nts, c) # ps)"
| approval_finished: "(env, auth, i, nts, c) \<in> set ps \<Longrightarrow> approve_execute env auth i nts c w = (r, w') \<Longrightarrow>
    promote_step (w, ps) (w', remove1 (env, auth, i, nts, c) ps)"
| rejection_written: "reject_write env auth i nts w = (r, w') \<Longrightarrow> promote_step (w, ps) (w', ps)"
| elsewhere: "pw_repos w' = pw_repos w \<Longrightarrow> pw_approvals w' = pw_approvals w \<Longrightarrow> pw_history w' = pw_history w \<Longrightarrow> promote_step (w, ps) (w', ps)"

text \<open>What a request keeps for good.\<close>

definition core :: "approval \<Rightarrow> nat \<times> nat \<times> nat \<times> nat \<times> nat" where
  "core a = (apv_id a, apv_artifact a, apv_source a, apv_target a, apv_requested_by a)"

definition asked :: "promote_world \<Rightarrow> (nat \<times> nat \<times> nat \<times> nat \<times> nat) set" where
  "asked w = core ` set (pw_approvals w)"

definition second_user :: "approval \<Rightarrow> bool" where
  "second_user a \<longleftrightarrow> (apv_status a = ''approved'' \<longrightarrow>
     apv_consumed_at a \<noteq> None \<and> (\<exists>u. apv_reviewed_by a = Some u \<and> u \<noteq> apv_requested_by a))"

definition history_approved :: "promote_world \<Rightarrow> history \<Rightarrow> bool" where
  "history_approved w h \<longleftrightarrow>
     (hi_status h = ''promoted'' \<and> requires_approval w (hi_source h) \<longrightarrow>
        (\<exists>i requester. hi_result h = ApprovedVia i \<and> (i, hi_artifact h, hi_source h, hi_target h, requester) \<in> asked w \<and> hi_by h \<noteq> requester))"

definition pending_ok :: "promote_world \<Rightarrow> pending_approval \<Rightarrow> bool" where
  "pending_ok w p \<longleftrightarrow>
     (case p of (env, auth, i, nts, (ap, source, target, a)) \<Rightarrow>
        is_admin auth \<and> apv_id ap = i \<and> core ap \<in> asked w \<and> user_id auth \<noteq> apv_requested_by ap \<and>
        rep_id source = apv_source ap \<and> rep_id target = apv_target ap)"

definition repos_ok :: "promote_world \<Rightarrow> bool" where
  "repos_ok w \<longleftrightarrow> distinct (map rep_key (pw_repos w))"

definition workflow_ok :: "promote_world \<times> pending_approval list \<Rightarrow> bool" where
  "workflow_ok s \<longleftrightarrow>
     (case s of (w, ps) \<Rightarrow>
        repos_ok w \<and> distinct (map apv_id (pw_approvals w)) \<and> (\<forall>a\<in>set (pw_approvals w). second_user a) \<and>
        (\<forall>h\<in>set (pw_history w). history_approved w h) \<and> (\<forall>p\<in>set ps. pending_ok w p))"

lemma unapproved_only_ok:
  assumes "unapproved_only w w'" "workflow_ok (w, ps)"
  shows "workflow_ok (w', ps)"
proof -
  have same: "asked w' = asked w" "requires_approval w' = requires_approval w"
    using assms(1) unapproved_same_repos by (auto simp: unapproved_only_def asked_def)
  obtain hs where hs: "pw_history w' = pw_history w @ hs" "\<forall>h\<in>set hs. hi_status h = ''promoted'' \<longrightarrow> \<not> requires_approval w (hi_source h)"
    using assms(1) by (auto simp: unapproved_only_def)
  have keep: "history_approved w' h = history_approved w h" "pending_ok w' p = pending_ok w p" for h p
    by (simp_all add: history_approved_def pending_ok_def same)
  have "history_approved w h" if "h \<in> set hs" for h using hs(2) that by (auto simp: history_approved_def)
  then show ?thesis
    using assms hs(1) by (auto simp: workflow_ok_def keep repos_ok_def unapproved_only_def)
qed

lemma workflow_none_consumable: "workflow_ok (w, ps) \<Longrightarrow> none_consumable w"
  by (auto simp: workflow_ok_def second_user_def none_consumable_def)

lemma set_review_fields [simp]:
  "pw_repos (set_review i f w) = pw_repos w" "pw_history (set_review i f w) = pw_history w"
  by (simp_all add: set_review_def)

lemma asked_set_review:
  assumes "\<And>x. core (f x) = core x"
  shows "asked (set_review i f w) = asked w"
proof -
  have "map core (map (\<lambda>x. if apv_id x = i then f x else x) as) = map core as" for as
    using assms by (induction as) auto
  from arg_cong[where f = set, OF this[of "pw_approvals w"]] show ?thesis
    unfolding asked_def set_review_def list.set_map by simp
qed

lemma set_review_ok:
  assumes ok: "workflow_ok (w, ps)" and core: "\<And>x. core (f x) = core x"
    and good: "\<And>x. x \<in> set (pw_approvals w) \<Longrightarrow> apv_id x = i \<Longrightarrow> second_user (f x)"
  shows "workflow_ok (set_review i f w, ps)"
proof -
  have ids: "map apv_id (pw_approvals (set_review i f w)) = map apv_id (pw_approvals w)"
    using core by (auto simp: set_review_def core_def)
  have keep: "asked (set_review i f w) = asked w" "requires_approval (set_review i f w) = requires_approval w"
    using core by (simp_all add: requires_approval_def asked_set_review fun_eq_iff)
  have "\<forall>a\<in>set (pw_approvals (set_review i f w)). second_user a"
    using ok good by (auto simp: set_review_def workflow_ok_def)
  moreover have "history_approved (set_review i f w) h = history_approved w h" "pending_ok (set_review i f w) p = pending_ok w p" for h p
    by (simp_all only: history_approved_def pending_ok_def keep)
  ultimately show ?thesis
    using ok ids by (simp add: workflow_ok_def repos_ok_def)
qed

lemma reread_world [simp]: "snd (reread_approval env i w) = w"
  by (auto simp: reread_approval_def split: sum.splits option.splits)

lemma asked_id_unique:
  assumes "distinct (map apv_id (pw_approvals w))" "core ap \<in> asked w" "x \<in> set (pw_approvals w)" "apv_id x = apv_id ap"
  shows "core x = core ap"
proof -
  obtain y where y: "y \<in> set (pw_approvals w)" "core y = core ap" using assms(2) by (auto simp: asked_def)
  then have "apv_id y = apv_id x" using assms(4) by (simp add: core_def)
  then have "x = y" using assms(1,3) y(1) by (auto simp: distinct_map inj_on_def)
  then show ?thesis using y(2) by simp
qed

lemma history_approved_history [simp]: "history_approved (w\<lparr>pw_history := hs\<rparr>) h = history_approved w h"
  by (simp add: history_approved_def asked_def requires_approval_def)

lemma pending_ok_history [simp]: "pending_ok (w\<lparr>pw_history := hs\<rparr>) p = pending_ok w p"
  by (simp add: pending_ok_def asked_def)

lemma approve_history_ok:
  assumes "workflow_ok (w, ps)" "pending_ok w (env, auth, i, nts, (ap, source, target, a))"
    and "insert_history env (promotion_history_row env (apv_artifact ap) (rep_id source) (rep_id target) (user_id auth) (ApprovedVia i) nts) w = (r, w')"
  shows "workflow_ok (w', ps) \<and> pw_approvals w' = pw_approvals w"
proof -
  let ?h = "promotion_history_row env (apv_artifact ap) (rep_id source) (rep_id target) (user_id auth) (ApprovedVia i) nts"
  have "history_approved w ?h"
    using assms(2) by (auto simp: history_approved_def promotion_history_row_def pending_ok_def core_def)
  moreover have "w' = w \<or> w' = w\<lparr>pw_history := pw_history w @ [?h]\<rparr>" using assms(3) by (rule insert_history_world)
  ultimately show ?thesis
    using assms(1) by (auto simp: workflow_ok_def repos_ok_def)
qed

lemma approve_execute_ok:
  assumes ok: "workflow_ok (w, ps)" and p: "pending_ok w (env, auth, i, nts, c)"
    and run: "approve_execute env auth i nts c w = (r, w')"
  shows "workflow_ok (w', ps)"
proof -
  obtain ap source target a where c: "c = (ap, source, target, a)" by (cases c)
  obtain r1 w1 where copy: "copy_and_insert env read_failed write_failed source target a (user_id auth) w = (r1, w1)" by fastforce
  let ?h = "promotion_history_row env (apv_artifact ap) (rep_id source) (rep_id target) (user_id auth) (ApprovedVia i) nts"
  obtain r2 w2 where hist: "insert_history env ?h w1 = (r2, w2)" by fastforce
  have w1: "workflow_ok (w1, ps)" "pw_approvals w1 = pw_approvals w"
    using unapproved_only_ok[OF unapproved_copy[OF copy] ok] copy_and_insert_keeps[OF copy] by auto
  then have p1: "pending_ok w1 (env, auth, i, nts, (ap, source, target, a))" using p by (simp add: pending_ok_def c asked_def)
  have w2: "workflow_ok (w2, ps)" "pw_approvals w2 = pw_approvals w1" using approve_history_ok[OF w1(1) p1 hist] by auto
  have "workflow_ok (set_review i (mark_approved env (user_id auth) nts) w2, ps)"
  proof (rule set_review_ok[OF w2(1)])
    fix x assume x: "x \<in> set (pw_approvals w2)" "apv_id x = i"
    have "core x = core ap"
      using asked_id_unique[of w2 ap x] w2 p1 x by (auto simp: workflow_ok_def pending_ok_def asked_def)
    then show "second_user (mark_approved env (user_id auth) nts x)"
      using p1 by (auto simp: second_user_def mark_approved_def core_def pending_ok_def)
  qed (simp add: core_def mark_approved_def)
  then show ?thesis
    using run c copy hist w1(1) w2(1) reread_world[of env i "set_review i (mark_approved env (user_id auth) nts) w2"]
    by (cases r1; cases r2) (auto simp: approve_execute_def op_bind_def simp del: reread_world split: sum.splits prod.splits)
qed

lemma unique_key:
  "repos_ok w \<Longrightarrow> r \<in> set (pw_repos w) \<Longrightarrow> s \<in> set (pw_repos w) \<Longrightarrow> rep_key r = rep_key s \<Longrightarrow> r = s"
  by (auto simp: repos_ok_def distinct_map inj_on_def)

lemma fetch_key_Ok:
  assumes "fetch_key env w i = Ok k" "get_by_key env w k = Ok r" "repos_ok w"
  shows "rep_id r = i"
proof -
  obtain s where s: "List.find (\<lambda>x. rep_id x = i) (pw_repos w) = Some s" "rep_key s = k"
    using assms(1) by (auto simp: fetch_key_def key_of_id_def split: option.splits)
  then have "s \<in> set (pw_repos w)" "rep_id s = i" by (auto dest: find_Some_iff_first)
  then show ?thesis using s(2) get_by_key_Ok[OF assms(2)] unique_key[OF assms(3)] by blast
qed

lemma approval_checks_ok:
  assumes checks: "approval_checks env auth i skip w = Ok c" and repos: "repos_ok w"
  shows "pending_ok w (env, auth, i, nts, c)"
proof -
  obtain ap source target a skey tkey where c: "c = (ap, source, target, a)"
    and facts: "is_admin auth" "find_approval w i = Some ap" "apv_requested_by ap \<noteq> user_id auth"
      "fetch_key env w (apv_source ap) = Ok skey" "get_by_key env w skey = Ok source"
      "fetch_key env w (apv_target ap) = Ok tkey" "get_by_key env w tkey = Ok target"
    using checks
    by (auto simp: approval_checks_def approval_separation_of_duties_ok_def split: if_splits option.splits)
  have "ap \<in> set (pw_approvals w)" "apv_id ap = i"
    using facts(2) by (auto simp: find_approval_def dest: find_Some_iff_first)
  then show ?thesis
    using c facts fetch_key_Ok[OF facts(4,5) repos] fetch_key_Ok[OF facts(6,7) repos]
    by (auto simp: pending_ok_def asked_def)
qed

lemma request_ok:
  assumes "request_approval env auth req w = (r, w')" "pe_record_id env \<notin> apv_id ` set (pw_approvals w)" "workflow_ok (w, ps)"
  shows "workflow_ok (w', ps)"
proof (cases r)
  case (Inl e)
  then show ?thesis using assms by (auto simp: request_approval_def split: sum.splits)
next
  case (Inr a)
  then obtain src tgt res where w': "w' = w\<lparr>pw_approvals := pw_approvals w @ [a]\<rparr>" and "a = new_request env auth req src tgt res"
    using assms(1) unfolding request_approval_def by (auto split: sum.splits if_splits)
  then have a: "apv_id a = pe_record_id env" "apv_status a = ''pending''" by (simp_all add: new_request_def)
  have "asked w \<subseteq> asked w'" by (auto simp: w' asked_def)
  then have "history_approved w' h" if "history_approved w h" for h
    using that unfolding history_approved_def by (auto simp: w' requires_approval_def)
  moreover have "pending_ok w' p" if "pending_ok w p" for p
    using that \<open>asked w \<subseteq> asked w'\<close> by (auto simp: pending_ok_def split: prod.splits)
  ultimately show ?thesis
    using assms(2,3) a by (auto simp: workflow_ok_def w' repos_ok_def second_user_def)
qed

lemma reject_write_ok:
  assumes "reject_write env auth i nts w = (r, w')" "workflow_ok (w, ps)"
  shows "workflow_ok (w', ps)"
proof -
  have "workflow_ok (set_review i (mark_rejected env (user_id auth) nts) w, ps)"
    using assms(2) by (rule set_review_ok) (auto simp: core_def mark_rejected_def second_user_def)
  moreover have "w' = w \<or> w' = set_review i (mark_rejected env (user_id auth) nts) w"
    using assms(1) reread_world[of env i "set_review i (mark_rejected env (user_id auth) nts) w"]
    by (auto simp: reject_write_def simp del: reread_world split: sum.splits)
  ultimately show ?thesis using assms(2) by auto
qed

lemma reject_artifact_unapproved: "reject_artifact env auth key aid reason nts w = (r, w') \<Longrightarrow> unapproved_only w w'"
  by (auto simp: reject_artifact_def op_bind_def insert_history_def unapproved_only_def split: sum.splits prod.splits)

lemma set_release_target_unapproved: "set_release_target env auth key rel w = (r, w') \<Longrightarrow> unapproved_only w w'"
  by (auto simp: set_release_target_def unapproved_only_def split: sum.splits prod.splits option.splits)

interpretation workflow: stable promote_step workflow_ok
proof
  fix s s' assume "promote_step s s'" "workflow_ok s"
  then show "workflow_ok s'"
  proof cases
    case (approval_started env auth i skip w c ps nts)
    then show ?thesis
      using \<open>workflow_ok s\<close> approval_checks_ok[of env auth i skip w c nts] by (auto simp: workflow_ok_def)
  next
    case (approval_finished env auth i nts c ps w r w')
    then have "workflow_ok (w', ps)"
      using \<open>workflow_ok s\<close> approve_execute_ok[of w ps env auth i nts c r w'] by (auto simp: workflow_ok_def)
    then show ?thesis
      using approval_finished by (auto simp: workflow_ok_def dest: notin_set_remove1)
  next
    case (elsewhere w' w ps)
    then have "unapproved_only w w'" by (simp add: unapproved_only_def)
    then show ?thesis using elsewhere \<open>workflow_ok s\<close> unapproved_only_ok by blast
  qed (use workflow_none_consumable in \<open>auto intro: unapproved_only_ok promote_artifact_unapproved bulk_unapproved
        reject_artifact_unapproved set_release_target_unapproved request_ok reject_write_ok\<close>)
qed


section \<open>Examples\<close>

definition demo_repo :: "nat \<Rightarrow> string \<Rightarrow> repository_type \<Rightarrow> string \<Rightarrow> bool \<Rightarrow> prepo" where
  "demo_repo i key t backend approval =
     \<lparr>rep_id = i, rep_key = key, rep_type = t, rep_format = ''Npm'', rep_public = True, rep_backend = backend, rep_path = ''/'' @ key,
      rep_require_approval = Some approval\<rparr>"

definition demo_source_artifact :: partifact where
  "demo_source_artifact =
     \<lparr>pa_id = 5, pa_repository = 7, pa_path = ''pkg.tgz'', pa_name = ''pkg'', pa_version = Some ''1.0'', pa_size = 5, pa_sha256 = ''ab'',
      pa_md5 = None, pa_sha1 = None, pa_content_type = ''application/gzip'', pa_storage_key = ''npm/pkg.tgz'', pa_deleted = False,
      pa_uploaded_by = Some 1, pa_created_at = 0\<rparr>"

definition demo_world :: "bool \<Rightarrow> promo_scan list \<Rightarrow> (nat \<times> string) list \<Rightarrow> promote_world" where
  "demo_world approval scans config =
     \<lparr>pw_repos = [demo_repo 7 ''stage'' StagingRepo ''filesystem'' approval, demo_repo 8 ''rel'' LocalRepo ''filesystem'' False,
                  demo_repo 9 ''other'' LocalRepo ''filesystem'' False],
      pw_config = config, pw_artifacts = [demo_source_artifact], pw_promo = promo_demo_db scans, pw_rules = [],
      pw_quality = demo_quality_db,
      pw_perm = \<lparr>permissions = [], user_group_members = [], role_assignments = [], repository_projects = [], perm_users = [],
                 perm_groups = [], perm_outage = None\<rparr>,
      pw_approvals = [], pw_history = [],
      pw_objects = (\<lambda>k. if k = ((''filesystem'', ''/stage''), ''npm/pkg.tgz'') then Some ''bytes'' else None)\<rparr>"

definition demo_promote_env :: promote_env where
  "demo_promote_env =
     \<lparr>pe_db = no_outage, pe_promo = no_outage, pe_quality = no_outage, pe_quality_wired = True,
      pe_backends = \<lparr>ge_backends = [], ge_numeric = Some\<rparr>, pe_get = None, pe_put = None, pe_now = 3600000,
      pe_artifact_id = 50, pe_record_id = 60, pe_parse_id = (\<lambda>s. if s = ''nine'' then Some 9 else None),
      pe_show_id = show_nat\<rparr>"

definition demo_caller :: "nat \<Rightarrow> principal" where
  "demo_caller u =
     \<lparr>user_id = u, username = ''u'', email = ''u'', is_admin = True, is_api_token = False, is_service_account = False, scopes = None,
      allowed_repo_ids = Admin, iat_ms = None\<rparr>"

definition demo_request :: "bool \<Rightarrow> promote_request" where
  "demo_request skip = \<lparr>req_target = Some ''rel'', req_skip_policy_check = skip, req_notes = None\<rparr>"

definition demo_ask :: approval_request where
  "demo_ask = \<lparr>ar_source = ''stage'', ar_target = ''rel'', ar_artifact = 5, ar_skip_policy_check = False, ar_notes = None\<rparr>"


text \<open>User 1 asks, user 2 approves; the artifact has high findings, which the scan policy of the repository forbids.\<close>

definition demo_severe :: promote_world where
  "demo_severe = demo_world True [promo_demo_scan 2 0] [(7, ''nine'')]"

definition demo_asked :: promote_world where
  "demo_asked = snd (request_approval demo_promote_env (demo_caller 1) demo_ask demo_severe)"

definition demo_checked :: "approval \<times> prepo \<times> prepo \<times> partifact" where
  "demo_checked = projr (approval_checks demo_promote_env (demo_caller 2) 60 False demo_asked)"

definition demo_approved :: promote_world where
  "demo_approved = snd (approve_execute demo_promote_env (demo_caller 2) 60 None demo_checked demo_asked)"

lemma demo_checks: "approval_checks demo_promote_env (demo_caller 2) 60 False demo_asked = Ok demo_checked"
proof -
  have "is_ok (approval_checks demo_promote_env (demo_caller 2) 60 False demo_asked)"
    by code_simp
  then show ?thesis
    unfolding demo_checked_def by (cases "approval_checks demo_promote_env (demo_caller 2) 60 False demo_asked") simp_all
qed

lemma demo_run: "promote_step\<^sup>*\<^sup>* (demo_severe, []) (demo_approved, [])"
proof -
  have 1: "promote_step (demo_severe, []) (demo_asked, [])"
  proof (rule promote_step.requested)
    show "request_approval demo_promote_env (demo_caller 1) demo_ask demo_severe =
        (fst (request_approval demo_promote_env (demo_caller 1) demo_ask demo_severe), demo_asked)"
      by (simp add: demo_asked_def)
  qed (simp add: demo_severe_def demo_world_def)
  have 2: "promote_step (demo_asked, []) (demo_asked, [(demo_promote_env, demo_caller 2, 60, None, demo_checked)])"
    using demo_checks by (rule promote_step.approval_started)
  have 3: "promote_step (demo_asked, [(demo_promote_env, demo_caller 2, 60, None, demo_checked)]) (demo_approved, [])"
    using promote_step.approval_finished[of demo_promote_env "demo_caller 2" 60 None demo_checked
        "[(demo_promote_env, demo_caller 2, 60, None, demo_checked)]" demo_asked
        "fst (approve_execute demo_promote_env (demo_caller 2) 60 None demo_checked demo_asked)" demo_approved]
    by (simp add: demo_approved_def)
  from 1 2 3 show ?thesis by (meson converse_rtranclp_into_rtranclp rtranclp.rtrancl_refl)
qed


text \<open>
  The approval executes although the scan policy blocks the artifact and the source is linked to another
  release repository: neither is checked on this path.
\<close>

lemma approval_skips_policy_and_link:
  "(case evaluate_policies demo_promote_env demo_asked 5 7 of Ok e \<Rightarrow> promotion_stops e | Err _ \<Rightarrow> False) \<and>
   release_link demo_promote_env demo_asked 7 = Some ''other'' \<and>
   is_ok (fst (approve_promotion demo_promote_env (demo_caller 2) 60 None False demo_asked)) \<and>
   \<not> is_ok (fst (promote_artifact demo_promote_env (demo_caller 2) ''stage'' 5 (demo_request False) demo_severe))"
  by code_simp

text \<open>The bulk route asks the rules but neither the policies nor the quality gate.\<close>

lemma bulk_skips_policies:
  "(case fst (promote_artifact demo_promote_env (demo_caller 2) ''stage'' 5 (demo_request False) (demo_world False [promo_demo_scan 2 0] [])) of
      Ok rsp \<Rightarrow> \<not> rsp_promoted rsp | Err _ \<Rightarrow> False) \<and>
   (case fst (promote_artifacts_bulk demo_promote_env (demo_caller 2) ''stage'' (demo_request False) [(demo_promote_env, 5)]
                (demo_world False [promo_demo_scan 2 0] [])) of
      Ok rsp \<Rightarrow> br_promoted rsp = 1 | Err _ \<Rightarrow> False)"
  by code_simp

text \<open>The update of a rejection does not repeat its check, so an approval in between is recorded as rejected.\<close>

lemma rejected_after_promotion:
  "reject_check demo_promote_env (demo_caller 3) 60 demo_asked = Ok () \<and>
   (case fst (reject_write demo_promote_env (demo_caller 3) 60 None demo_approved) of
      Ok ap \<Rightarrow> apv_status ap = ''rejected'' \<and> apv_consumed_at ap \<noteq> None | Err _ \<Rightarrow> False) \<and>
   length (pw_artifacts demo_approved) = 2"
  by code_simp

text \<open>The warnings collected on the way are not in the answer of a promotion that succeeds.\<close>

lemma success_drops_warnings:
  assumes "promote_artifact env auth key aid req w = (Ok rsp, w')" and "rsp_promoted rsp"
  shows "rsp_violations rsp = []"
proof -
  obtain source target a w0 out where gated: "promote_gated env auth key (rep_key target) source target a aid req w0 = (Ok rsp, w')"
    using assms by (rule promote_artifact_promoted)
  then obtain required result where
    "execute_promotion env auth key (rep_key target) source target a aid required result (req_notes req) w0 = (Ok rsp, w')"
    using assms(2) by (rule promote_gated_promoted)
  then show ?thesis by (auto simp: execute_promotion_def build_success_response_def)
qed

end
