(* ===== verification/Spec2Isabelle.thy ===== *)
theory Spec2Isabelle
  imports Glob App_Error Outbound Ssrf_Dns Rate_Limit Scan_State Scan_Policy Quarantine Version_Compare Age_Gate Curation_Catalog Auth_Stack Upload_Run Gc_Run Promote_Run
begin

text \<open>
  Verification of the backend of Artifact Keeper, a registry for packages and container images written
  in Rust (\<open>src/artifact-keeper/backend/src\<close>; paths below are relative to it). The development models
  the services that decide: who may act on a repository, what may be downloaded, which outside hosts
  are contacted, how an upload becomes an artifact, what is promoted to a release repository,
  and what retention and reclaiming delete.

  \<^bold>\<open>The program.\<close> A request passes the rate limiter and the authentication middleware, which turns a
  credential (session token, API token, password, ticket) into a principal and asks the permission
  service about the repository. A download then passes the quarantine gate, which consults the scan
  policies; a fetch through a proxy repository passes the curation gate and the age gate before the
  outbound validation lets a connection go out. Uploads arrive in chunks. In the background, retention
  policies soft-delete artifacts and the storage collector reclaims what nothing refers to.

  \<^bold>\<open>Conventions.\<close> A Rust struct is a record, an enum a datatype, a fallible function returns a sum
  (\<open>Err\<close> left, \<open>Ok\<close> right). A table is the list of its rows, in the order in which a query returns rows
  with equal sort keys; a statement is a function on the tables and can fail with the message of an
  outage or by a fault plan that is an argument. Identifiers are numbers; new identifiers, random
  values and the clock (milliseconds) are arguments. Integers are unbounded where the code cannot
  overflow and have the casts, the wrap-around or the saturation of the code written out where it can.
  Code outside the repository (regular expressions, cron, hashing, JWT, HTTP, DNS, Unicode tables) is a
  parameter; what a theorem needs of it is a hypothesis, met by the witness that follows.

  \<^bold>\<open>Theories.\<close>
  \<^item> \<open>Keeper_Prelude\<close>: results, orderings, \<open>sort_by\<close> and \<open>max_by\<close>; the locales \<open>comparator\<close> (what a Rust
    comparator promises; sorted and stable sorting), \<open>stable\<close> (a property kept by a step relation holds
    along runs) and \<open>lock\<close> (a state only a key opens). \<open>Rust_Str\<close>: strings, parsing, machine integers.
    \<open>Json\<close>: \<open>serde_json\<close> values. \<open>Ip_Addr\<close>: addresses as words. \<open>App_Error\<close>: \<open>error.rs\<close>.
  \<^item> \<open>Glob\<close> (\<open>util/glob.rs\<close>): the matcher equals the language of the pattern.
  \<^item> \<open>Outbound\<close> (\<open>api/validation.rs\<close>), \<open>Ssrf_Dns\<close> (\<open>services/ssrf_dns.rs\<close>): which addresses and URLs are
    refused, before a request and again when a name resolves (locale \<open>address_policy\<close>).
  \<^item> \<open>Rate_Limit\<close> (\<open>api/middleware/rate_limit.rs\<close>): the fixed-window limiter (locale \<open>fixed_window\<close>) never
    admits more than the budget of a window.
  \<^item> \<open>Scan_State\<close>, \<open>Scan_Policy\<close> (\<open>services/scan_state.rs\<close>, \<open>services/policy_service.rs\<close>): the verdict on an
    artifact refines its specification; the policy table is a keyed store (locale \<open>keyed_store\<close>).
    \<open>Quarantine\<close> (\<open>services/quarantine_service.rs\<close>): the download gate, and which writes can lift a hold
    or a rejection when operations interleave.
  \<^item> \<open>Version_Compare\<close>, \<open>Age_Gate\<close> (\<open>services/age_gate_service.rs\<close>): the decision for a version, its
    agreement with the listing, and rejections that only an administrator lifts.
  \<^item> \<open>Typosquat\<close>, \<open>Popularity\<close>, \<open>Publisher\<close>, \<open>Curation\<close>, \<open>Curation_Catalog\<close> (\<open>services/curation_service.rs\<close>,
    \<open>services/curation/\<close>): the edit distance is optimal, no source invents a count (locale
    \<open>honest_source\<close>), the gate follows the first applicable rule, batched re-evaluation decides as
    single evaluation does.
  \<^item> \<open>Access_Control\<close> (\<open>models/access_scope.rs\<close>, \<open>services/permission_service.rs\<close>), \<open>Repo_Selector\<close>
    (\<open>services/repo_selector_service.rs\<close>), \<open>Api_Token\<close> and \<open>Session\<close> (\<open>services/auth_service.rs\<close>,
    \<open>services/token_service.rs\<close>), \<open>Repo_Gate\<close> (\<open>api/middleware/auth.rs\<close>), \<open>Auth_Stack\<close>: scopes, permission
    caches, tokens and their revocation, login with lockout, rotation of refresh tokens, and the gate in
    front of every repository route. \<open>Auth_Stack\<close> gives the parameters of the gate the services' own
    definitions; the theorems that span them are in this theory.
  \<^item> \<open>Upload\<close>, \<open>Upload_Run\<close> (\<open>services/upload_service.rs\<close>, \<open>api/handlers/upload.rs\<close>): chunked uploads, in
    sequence and with every request split where the code awaits: an upload that completes has the
    declared size and digest, and the counters are exact.
  \<^item> \<open>Lifecycle\<close>, \<open>Lifecycle_Run\<close> (\<open>services/lifecycle_service.rs\<close>, \<open>storage/keys.rs\<close>): retention policies,
    their executors and schedules, with a failure possible at each statement: previews predict runs,
    quotas evict least, limits keep the newest, a policy stays in its repository, and no run removes
    the last tag of an image.
  \<^item> \<open>Storage_Gc\<close>, \<open>Gc_Run\<close> (\<open>services/storage_gc_service.rs\<close>, \<open>storage/registry.rs\<close>): reclaiming of orphaned
    keys and layers. The contract of a collector is the locale \<open>collector\<close>, which each phase, retention
    and publication interpret; together they lose no object of a tagged image.
  \<^item> \<open>Quality_Gate\<close> (\<open>services/quality_check_service.rs\<close>, \<open>services/metadata_checker.rs\<close>): checks, health
    scores and gates: every stored score is in range, and a gate lets through exactly what is within
    its limits. \<open>Promotion\<close> (\<open>services/promotion_policy_service.rs\<close>): exactly when the policies block.
    \<open>Promotion_Rules\<close> (\<open>services/promotion_rule_service.rs\<close>): exactly which rules an artifact fails.
  \<^item> \<open>Promote\<close>, \<open>Promote_Run\<close> (\<open>api/handlers/promotion.rs\<close>, \<open>api/handlers/approval.rs\<close>): promotion between
    repositories on top of these gates: who promotes what, that the copy is the source, and that a
    repository that requires approval is only promoted from by the approval of a second user, however
    requests, approvals and rejections interleave.

  \<^bold>\<open>Shapes of proof.\<close> Interleavings are inductive step relations (\<open>session_step\<close>, \<open>token_step\<close>,
  \<open>upload_step\<close>, \<open>lifecycle_step\<close>, \<open>service_step\<close>, \<open>quality_step\<close>, \<open>promote_step\<close>) with invariants kept by interpretations of \<open>stable\<close>; gates
  are equivalences or refinements of a specification stated on the rows; round trips, bounds and errors
  are stated on the operations. Loops are structural recursion over what they iterate; the one loop
  over an index (\<open>prefix_loop\<close>) is a partial function that is proved to return. The
  glob matcher has a measure; no definition uses fuel.

  \<^bold>\<open>Not modelled.\<close> Request parsing and response bodies of the handlers; storage backends beyond the
  deletion of an object; the package formats, the proxy cache and the search index; scanners, which
  are external programs; single sign-on, LDAP and SAML; replication, migration from other
  registries, plugins, webhooks, mail, metrics and configuration; the web interface and the
  infrastructure code, which are not Rust. Within modelled parts: isolation of concurrent database
  transactions beyond the row locks named above, foreign keys, strings as Unicode (characters are
  bytes), and the sweeps of the collector over upload journals and attributed Maven objects.
\<close>

section \<open>Authentication, sessions and the repository gate\<close>

text \<open>C5: a revoked API token opens nothing. Once a replica has revoked a token, no later request that presents it as
  an API key, in a header, in a conda URL or in a NuGet push, and carries no valid download ticket, gets past the
  repository gate, whatever happened in between.\<close>

theorem revoked_token_closes_gate:
  assumes "inj (sha256_hex prims)" and "rows_ok i t (db_tokens db0)" and "token_cache mem0 = Map.empty"
    and "token_run prims i t (now0, db0, mem0) (now1, db1, mem1)" and "revoke_api_token now1 db1 mem1 i usr = (Inr (), db2, mem2)"
    and "token_run prims i t (now1, db2, mem2) (now3, db3, mem3)"
    and "extract_visibility_token req = ApiKey t" and "extract_repo_key (path req) \<noteq> []" and "fst (ticket_fallback (int now3) gdb req) = None"
  shows "\<not> admits (fst (repo_visibility_middleware (service_env lib cfg verify prims b64 now3 sdb wm db3 mem3) now3 gdb st req))"
proof -
  have "known prims i t (now0, db0, mem0)" using assms(2,3) by (simp add: known_def entry_ok_def)
  then have "dead_since prims i t now1 (now3, db3, mem3)"
    by (intro dead_run[OF assms(6,1)] revoke_kills[OF _ assms(5)] known_run[OF assms(4,1)])
  then have "\<exists>e. validate_api_token (service_env lib cfg verify prims b64 now3 sdb wm db3 mem3) t = Inl e"
    using dead_refused by (simp add: service_env_def)
  then show ?thesis using refused_credential_closes_gate[OF assms(8,9)] refused_api_key by (simp add: assms(7))
qed

definition demo_key_request :: request where
  "demo_key_request = (demo_get ''/npm/libs/left-pad'')\<lparr>x_api_key := Some ''12345678_s''\<rparr>"

lemma demo_key_facts:
  "extract_visibility_token demo_key_request = ApiKey ''12345678_s''" "extract_repo_key (path demo_key_request) \<noteq> []"
  "fst (ticket_fallback now db demo_key_request) = None"
  by (simp_all add: demo_key_request_def extract_visibility_token_def extract_token_def demo_get_def demo_keys ticket_fallback_def extract_ticket_from_query_def)

theorem revoked_token_closes_gate_witness:
  "(case validate_api_token_svc demo_prims 9 demo_token_db demo_token_mem ''12345678_s'' of (r, db, mem) \<Rightarrow>
     case revoke_api_token 10 db mem 7 4 of (r', db', mem') \<Rightarrow>
       \<not> admits (fst (repo_visibility_middleware (service_env (demo_codec []) demo_cfg demo_verify demo_prims (\<lambda>_. None) 11 demo_session_db Map.empty db' mem')
           11 demo_gate_db demo_gate_state demo_key_request)))"
proof -
  obtain r db mem db' mem' where d: "validate_api_token_svc demo_prims 9 demo_token_db demo_token_mem ''12345678_s'' = (r, db, mem)" "is_ok r"
    "revoke_api_token 10 db mem 7 4 = (Inr (), db', mem')" "token_run demo_prims 7 ''12345678_s'' (9, demo_token_db, demo_token_mem) (10, db, mem)"
    "token_run demo_prims 7 ''12345678_s'' (10, db', mem') (11, db', mem')" by (rule demo_revocation)
  show ?thesis using revoked_token_closes_gate[OF demo_token_table d(4,3,5) demo_key_facts(1,2)] demo_key_facts(3) d(1,3) by simp
qed

text \<open>C6: nobody acts for a dead account. A request that the gate lets through for a session or a password login acts
  for an account that is active in the table at that moment, and as administrator only if the account is one now.\<close>

theorem admitted_session_is_live:
  assumes "repo_visibility_middleware (service_env lib cfg verify prims b64 now sdb wm adb mem) now gdb st req = (Proceed (Some p) False, gdb', st')"
    and "\<not> is_api_token p"
  shows "\<exists>a\<in>set (accounts sdb). usr_id a = user_id p \<and> usr_is_active a \<and> (is_admin p \<longrightarrow> usr_is_admin a)"
  using resolved_live[OF gate_resolved[OF assms(1)] assms(2)] by (simp add: live_principal_def)

definition demo_session_env :: auth_env where
  "demo_session_env = service_env (demo_codec demo_table) demo_cfg demo_verify demo_prims (\<lambda>_. None) 2000 demo_session_db Map.empty demo_token_db demo_token_mem"

lemma demo_session_token:
  "validate_access_token demo_session_env ''xx'' = Inr (claims_of_jwt (access_claims demo_cfg 2000 demo_account None None))"
  by (simp add: demo_session_env_def service_env_def validate_access_token_async_def is_token_invalidated_replica_safe_def fetch_credential_change_watermark_def
      find_account_def db_watermark_def apply_db_clock_skew_tolerance_def CREDENTIAL_DB_CLOCK_SKEW_TOLERANCE_MS_def saturate_i64_def jwt_effective_iat_ms_def
      fetch_live_is_admin_def find_active_def demo_codec_def demo_table_def access_claims_def secs_def demo_cfg_def demo_account_def demo_session_db_def session_query_def)

theorem admitted_session_is_live_witness:
  "(case repo_visibility_middleware demo_session_env 2000 demo_gate_db demo_gate_state ((demo_get ''/npm/absent/left-pad'')\<lparr>authorization := Some ''Bearer xx''\<rparr>) of
      (Proceed (Some p) via, db, st) \<Rightarrow> \<exists>a\<in>set (accounts demo_session_db). usr_id a = user_id p \<and> usr_is_active a
    | _ \<Rightarrow> False)"
proof -
  let ?req = "(demo_get ''/npm/absent/left-pad'')\<lparr>authorization := Some ''Bearer xx''\<rparr>"
  let ?p = "principal_from_claims (claims_of_jwt (access_claims demo_cfg 2000 demo_account None None))"
  have tok: "extract_visibility_token ?req = Bearer ''xx''"
    by (simp add: extract_visibility_token_def extract_token_def extract_token_from_auth_header_def demo_get_def)
  obtain st1 where l: "lookup_repo 2000 demo_gate_db demo_gate_state ''absent'' = (None, st1)"
    by (simp add: lookup_repo_def demo_gate_db_def demo_gate_state_def query_def demo_perms_def)
  have run: "repo_visibility_middleware demo_session_env 2000 demo_gate_db demo_gate_state ?req = (Proceed (Some ?p) False, demo_gate_db, st1)"
  proof -
    have "try_resolve_auth_outcome demo_session_env (extract_visibility_token ?req) True = Resolved ?p"
      unfolding tok by (simp add: try_resolve_auth_outcome_def demo_session_token)
    moreover have "extract_repo_key (path ?req) = ''absent''" by (simp add: demo_get_def demo_keys)
    ultimately show ?thesis using l unfolding repo_visibility_middleware_def Let_def by simp
  qed
  have "\<not> is_api_token ?p" by (simp add: principal_from_claims_def with_scope_gated_admin_def)
  from admitted_session_is_live[OF run[unfolded demo_session_env_def] this] show ?thesis using run by auto
qed

end
